(* ===== verification/Prelude.thy ===== *)
theory Prelude
  imports Complex_Main "HOL-Library.Product_Lexorder"
begin

text \<open>
  Shared ground of the development: the exceptions the services raise as values of a sum
  type, the keyed row tables that stand for database tables, JSON values as Python sees
  them, insertion-ordered dictionaries, and the small part of Python's conversions
  (truth value, \<open>int(...)\<close>, \<open>str(...)\<close>) the code relies on.
\<close>

named_theorems rows "lookups and updates of keyed row tables"
named_theorems outcome "elimination of the error monad"

section \<open>Time\<close>

text \<open>A point in time: microseconds since the epoch, always in UTC.\<close>

type_synonym time = int

definition timedelta :: "int \<Rightarrow> time" where
  "timedelta secs = secs * 1000000"

lemma timedelta_pos [simp]: "0 < timedelta s \<longleftrightarrow> 0 < s"
  by (simp add: timedelta_def)

lemma timedelta_nonneg [simp]: "0 \<le> timedelta s \<longleftrightarrow> 0 \<le> s"
  by (simp add: timedelta_def)

section \<open>Exceptions and the error monad\<close>

text \<open>
  \<open>RelayviaError code status\<close> is the structured API error (its message and details are
  presentation only); \<open>UnresolvedContextReference\<close> and \<open>ExecutionError\<close> are the two
  execution-time exceptions; \<open>PyError\<close> names an exception of the Python runtime.
\<close>

datatype exn =
    RelayviaError (err_code: string) (status_code: nat)
  | UnresolvedContextReference string
  | ExecutionError string bool
  | PyError string

fun ebind :: "'e + 'a \<Rightarrow> ('a \<Rightarrow> 'e + 'b) \<Rightarrow> 'e + 'b" where
  "ebind (Inl e) f = Inl e"
| "ebind (Inr x) f = f x"

lemma ebind_eq_Inr [outcome]: "ebind m f = Inr y \<longleftrightarrow> (\<exists>x. m = Inr x \<and> f x = Inr y)"
  by (cases m) auto

lemma ebind_eq_Inl [outcome]:
  "ebind m f = Inl e \<longleftrightarrow> m = Inl e \<or> (\<exists>x. m = Inr x \<and> f x = Inl e)"
  by (cases m) auto

lemma ebind_assoc: "ebind (ebind m f) g = ebind m (\<lambda>x. ebind (f x) g)"
  by (cases m) auto

text \<open>A for-loop whose body may raise: the state is threaded, the first exception ends it.\<close>

fun foldM :: "('s \<Rightarrow> 'x \<Rightarrow> 'e + 's) \<Rightarrow> 's \<Rightarrow> 'x list \<Rightarrow> 'e + 's" where
  "foldM f s [] = Inr s"
| "foldM f s (x # xs) = ebind (f s x) (\<lambda>s'. foldM f s' xs)"

lemma foldM_append: "foldM f s (xs @ ys) = ebind (foldM f s xs) (\<lambda>s'. foldM f s' ys)"
  by (induction xs arbitrary: s) (auto simp: ebind_assoc)

lemma foldM_invariant:
  assumes "foldM f s xs = Inr s'" and "P s"
    and "\<And>s x s'. x \<in> set xs \<Longrightarrow> P s \<Longrightarrow> f s x = Inr s' \<Longrightarrow> P s'"
  shows "P s'"
  using assms
proof (induction xs arbitrary: s)
  case Nil
  then show ?case by simp
next
  case (Cons x xs)
  from Cons.prems(1) obtain s1 where s1: "f s x = Inr s1" and rest: "foldM f s1 xs = Inr s'"
    by (auto simp: outcome)
  have "P s1" using Cons.prems(2,3) s1 by auto
  with rest show ?case using Cons.IH Cons.prems(3) by auto
qed

lemma foldM_total:
  assumes "P s"
    and "\<And>s x. x \<in> set xs \<Longrightarrow> P s \<Longrightarrow> \<exists>s'. f s x = Inr s' \<and> P s'"
  shows "\<exists>s'. foldM f s xs = Inr s' \<and> P s'"
  using assms
proof (induction xs arbitrary: s)
  case Nil
  then show ?case by simp
next
  case (Cons x xs)
  from Cons.prems obtain s1 where "f s x = Inr s1" and "P s1" by force
  with Cons show ?case by force
qed

section \<open>Keyed row tables\<close>

text \<open>
  A table is the list of its rows in insertion order; \<open>row_get\<close> is the lookup by key
  (\<open>db.get\<close>, \<open>SELECT ... WHERE key = k\<close>) and \<open>row_upd\<close> the assignment to the
  attributes of the row with that key.
\<close>

definition row_get :: "('r \<Rightarrow> 'k) \<Rightarrow> 'k \<Rightarrow> 'r list \<Rightarrow> 'r option" where
  "row_get key k rs = find (\<lambda>r. key r = k) rs"

definition row_upd :: "('r \<Rightarrow> 'k) \<Rightarrow> 'k \<Rightarrow> ('r \<Rightarrow> 'r) \<Rightarrow> 'r list \<Rightarrow> 'r list" where
  "row_upd key k f rs = map (\<lambda>r. if key r = k then f r else r) rs"

lemma row_get_Nil [simp, rows]: "row_get key k [] = None"
  by (simp add: row_get_def)

lemma row_get_Cons [rows]: "row_get key k (r # rs) = (if key r = k then Some r else row_get key k rs)"
  by (simp add: row_get_def)

lemma row_get_append [rows]:
  "row_get key k (rs @ ss) = (case row_get key k rs of None \<Rightarrow> row_get key k ss | Some r \<Rightarrow> Some r)"
  by (induction rs) (auto simp: rows)

lemma row_get_key: "row_get key k rs = Some r \<Longrightarrow> key r = k"
  by (induction rs) (auto simp: rows split: if_splits)

lemma row_get_in: "row_get key k rs = Some r \<Longrightarrow> r \<in> set rs"
  by (induction rs) (auto simp: rows split: if_splits)

lemma row_get_None: "row_get key k rs = None \<longleftrightarrow> k \<notin> key ` set rs"
  by (induction rs) (auto simp: rows)

lemma row_get_distinct:
  "distinct (map key rs) \<Longrightarrow> r \<in> set rs \<Longrightarrow> row_get key (key r) rs = Some r"
  by (induction rs) (auto simp: rows image_iff)

lemma row_get_upd [rows]:
  assumes "\<And>r. key r = k' \<Longrightarrow> key (f r) = key r"
  shows "row_get key k (row_upd key k' f rs) =
    (if k = k' then map_option f (row_get key k rs) else row_get key k rs)"
  using assms by (induction rs) (auto simp: row_upd_def rows)

lemma row_get_upd_other:
  assumes "\<And>r. key' (f r) = key' r"
  shows "row_get key' k (row_upd key k' f rs) =
    map_option (\<lambda>r. if key r = k' then f r else r) (row_get key' k rs)"
  using assms by (induction rs) (auto simp: row_upd_def rows)

lemma map_row_upd:
  assumes "\<And>r. key r = k \<Longrightarrow> g (f r) = g r"
  shows "map g (row_upd key k f rs) = map g rs"
  using assms by (simp add: row_upd_def)

lemma set_row_upd: "set (row_upd key k f rs) = (\<lambda>r. if key r = k then f r else r) ` set rs"
  by (simp add: row_upd_def)

lemma image_row_upd:
  assumes "\<And>r. g (f r) = g r"
  shows "g ` set (row_upd key k f rs) = g ` set rs"
proof -
  have "set (map g (row_upd key k f rs)) = set (map g rs)" using assms by (simp only: map_row_upd)
  then show ?thesis by simp
qed

lemma row_upd_id [simp]: "row_upd key k id rs = rs"
  by (induction rs) (auto simp: row_upd_def)

lemma length_row_upd [simp]: "length (row_upd key k f rs) = length rs"
  by (simp add: row_upd_def)

lemma row_upd_append: "row_upd key k f (rs @ ss) = row_upd key k f rs @ row_upd key k f ss"
  by (simp add: row_upd_def)

lemma row_upd_absent: "k \<notin> key ` set rs \<Longrightarrow> row_upd key k f rs = rs"
  by (induction rs) (auto simp: row_upd_def)

text \<open>Updating the rows of a list of distinct keys one after the other is one map over the table.\<close>

lemma fold_row_upd:
  assumes "\<And>r. key (f r) = key r" and "distinct (map key xs)"
  shows "fold (\<lambda>x. row_upd key (key x) f) xs rs = map (\<lambda>r. if key r \<in> key ` set xs then f r else r) rs"
  using assms(2)
proof (induction xs arbitrary: rs)
  case (Cons x xs)
  then have "key x \<notin> key ` set xs" by auto
  then show ?case using Cons assms(1) by (auto simp: row_upd_def)
qed simp

text \<open>
  What a client of a table may assume, whatever the table: an update is seen by a lookup
  of its own key, by no other lookup, and an insertion of a fresh key is found.
\<close>

locale keyed_table =
  fixes get :: "'k \<Rightarrow> 'd \<Rightarrow> 'r option"
    and upd :: "'k \<Rightarrow> ('r \<Rightarrow> 'r) \<Rightarrow> 'd \<Rightarrow> 'd"
    and key :: "'r \<Rightarrow> 'k"
  assumes get_key: "get k d = Some r \<Longrightarrow> key r = k"
    and get_upd: "(\<And>r. key (f r) = key r) \<Longrightarrow>
      get k (upd k' f d) = (if k = k' then map_option f (get k d) else get k d)"
begin

lemma get_upd_same:
  "(\<And>r. key (f r) = key r) \<Longrightarrow> get k d = Some r \<Longrightarrow> get k (upd k f d) = Some (f r)"
  by (simp add: get_upd)

lemma get_upd_diff: "(\<And>r. key (f r) = key r) \<Longrightarrow> k \<noteq> k' \<Longrightarrow> get k (upd k' f d) = get k d"
  by (simp add: get_upd)

lemma upd_upd_get:
  "(\<And>r. key (f r) = key r) \<Longrightarrow> (\<And>r. key (g r) = key r) \<Longrightarrow>
    get k (upd k' g (upd k' f d)) = get k (upd k' (g \<circ> f) d)"
  by (simp add: get_upd option.map_comp)

lemma upd_keeps_dom: "(\<And>r. key (f r) = key r) \<Longrightarrow> (get k (upd k' f d) = None) = (get k d = None)"
  by (simp add: get_upd)

end

end
