(* ===== verification/StateMachines.thy ===== *)
theory StateMachines
  imports Prelude
begin

text \<open>
  The three transition tables: Workflow Runs and Node Runs
  (\<^verbatim>\<open>runtime/state_machine/__init__.py\<close>) and Execution Tasks
  (\<^verbatim>\<open>domain/execution/state_machine.py\<close>). The statuses are enumerations; a table maps a
  status to the list of its allowed targets; \<open>transition_*\<close> raises the structured 409
  error on any other target. The locale \<open>lifecycle\<close> is what every caller of a table
  relies on: the terminal statuses are exactly those without a successor.
\<close>

section \<open>Statuses\<close>

datatype workflow_run_status =
  W_CREATED | W_RUNNING | W_WAITING | W_PAUSED | W_COMPLETED | W_FAILED | W_CANCELLED

datatype node_run_status =
  N_PENDING | N_QUEUED | N_RUNNING | N_WAITING | N_RETRYING
  | N_COMPLETED | N_FAILED | N_SKIPPED | N_CANCELLED

datatype execution_task_status =
  T_PENDING | T_CLAIMED | T_RUNNING | T_RETRY_WAIT | T_COMPLETED | T_FAILED | T_CANCELLED

fun workflow_status_value :: "workflow_run_status \<Rightarrow> string" where
  "workflow_status_value W_CREATED = ''created''"
| "workflow_status_value W_RUNNING = ''running''"
| "workflow_status_value W_WAITING = ''waiting''"
| "workflow_status_value W_PAUSED = ''paused''"
| "workflow_status_value W_COMPLETED = ''completed''"
| "workflow_status_value W_FAILED = ''failed''"
| "workflow_status_value W_CANCELLED = ''cancelled''"

section \<open>Tables\<close>

definition WORKFLOW_RUN_TERMINAL :: "workflow_run_status list" where
  "WORKFLOW_RUN_TERMINAL = [W_COMPLETED, W_FAILED, W_CANCELLED]"

fun WORKFLOW_RUN_TRANSITIONS :: "workflow_run_status \<Rightarrow> workflow_run_status list" where
  "WORKFLOW_RUN_TRANSITIONS W_CREATED = [W_RUNNING, W_CANCELLED]"
| "WORKFLOW_RUN_TRANSITIONS W_RUNNING = [W_WAITING, W_PAUSED, W_COMPLETED, W_FAILED, W_CANCELLED]"
| "WORKFLOW_RUN_TRANSITIONS W_WAITING = [W_RUNNING, W_PAUSED, W_FAILED, W_CANCELLED]"
| "WORKFLOW_RUN_TRANSITIONS W_PAUSED = [W_RUNNING, W_CANCELLED]"
| "WORKFLOW_RUN_TRANSITIONS W_COMPLETED = []"
| "WORKFLOW_RUN_TRANSITIONS W_FAILED = []"
| "WORKFLOW_RUN_TRANSITIONS W_CANCELLED = []"

definition NODE_RUN_TERMINAL :: "node_run_status list" where
  "NODE_RUN_TERMINAL = [N_COMPLETED, N_FAILED, N_SKIPPED, N_CANCELLED]"

fun NODE_RUN_TRANSITIONS :: "node_run_status \<Rightarrow> node_run_status list" where
  "NODE_RUN_TRANSITIONS N_PENDING = [N_QUEUED, N_SKIPPED, N_CANCELLED]"
| "NODE_RUN_TRANSITIONS N_QUEUED = [N_RUNNING, N_CANCELLED]"
| "NODE_RUN_TRANSITIONS N_RUNNING = [N_COMPLETED, N_FAILED, N_WAITING, N_RETRYING, N_CANCELLED]"
| "NODE_RUN_TRANSITIONS N_WAITING = [N_RUNNING, N_COMPLETED, N_FAILED, N_CANCELLED]"
| "NODE_RUN_TRANSITIONS N_RETRYING = [N_QUEUED, N_FAILED, N_CANCELLED]"
| "NODE_RUN_TRANSITIONS N_COMPLETED = []"
| "NODE_RUN_TRANSITIONS N_FAILED = []"
| "NODE_RUN_TRANSITIONS N_SKIPPED = []"
| "NODE_RUN_TRANSITIONS N_CANCELLED = []"

definition EXECUTION_TASK_TERMINAL :: "execution_task_status list" where
  "EXECUTION_TASK_TERMINAL = [T_COMPLETED, T_FAILED, T_CANCELLED]"

fun EXECUTION_TASK_TRANSITIONS :: "execution_task_status \<Rightarrow> execution_task_status list" where
  "EXECUTION_TASK_TRANSITIONS T_PENDING = [T_CLAIMED, T_CANCELLED]"
| "EXECUTION_TASK_TRANSITIONS T_CLAIMED = [T_RUNNING, T_PENDING, T_CANCELLED]"
| "EXECUTION_TASK_TRANSITIONS T_RUNNING = [T_COMPLETED, T_RETRY_WAIT, T_FAILED, T_CANCELLED, T_PENDING]"
| "EXECUTION_TASK_TRANSITIONS T_RETRY_WAIT = [T_PENDING, T_FAILED, T_CANCELLED]"
| "EXECUTION_TASK_TRANSITIONS T_COMPLETED = []"
| "EXECUTION_TASK_TRANSITIONS T_FAILED = []"
| "EXECUTION_TASK_TRANSITIONS T_CANCELLED = []"

section \<open>Checks\<close>

definition is_workflow_run_terminal :: "workflow_run_status \<Rightarrow> bool" where
  "is_workflow_run_terminal s \<longleftrightarrow> s \<in> set WORKFLOW_RUN_TERMINAL"

definition is_node_run_terminal :: "node_run_status \<Rightarrow> bool" where
  "is_node_run_terminal s \<longleftrightarrow> s \<in> set NODE_RUN_TERMINAL"

definition is_execution_task_terminal :: "execution_task_status \<Rightarrow> bool" where
  "is_execution_task_terminal s \<longleftrightarrow> s \<in> set EXECUTION_TASK_TERMINAL"

definition transition_workflow_run ::
  "workflow_run_status \<Rightarrow> workflow_run_status \<Rightarrow> exn + unit" where
  "transition_workflow_run current target =
     (if target \<notin> set (WORKFLOW_RUN_TRANSITIONS current)
      then Inl (RelayviaError ''INVALID_WORKFLOW_RUN_TRANSITION'' 409) else Inr ())"

definition transition_node_run :: "node_run_status \<Rightarrow> node_run_status \<Rightarrow> exn + unit" where
  "transition_node_run current target =
     (if target \<notin> set (NODE_RUN_TRANSITIONS current)
      then Inl (RelayviaError ''INVALID_NODE_RUN_TRANSITION'' 409) else Inr ())"

definition transition_execution_task ::
  "execution_task_status \<Rightarrow> execution_task_status \<Rightarrow> exn + unit" where
  "transition_execution_task current target =
     (if target \<notin> set (EXECUTION_TASK_TRANSITIONS current)
      then Inl (RelayviaError ''INVALID_EXECUTION_TASK_TRANSITION'' 409) else Inr ())"

section \<open>The contract of a transition table\<close>

locale lifecycle =
  fixes next_statuses :: "'s \<Rightarrow> 's list"
    and terminal :: "'s \<Rightarrow> bool"
    and check :: "'s \<Rightarrow> 's \<Rightarrow> exn + unit"
  assumes terminal_iff: "terminal s \<longleftrightarrow> next_statuses s = []"
    and check_iff: "check s t = Inr () \<longleftrightarrow> t \<in> set (next_statuses s)"
    and no_self_loop: "s \<notin> set (next_statuses s)"
begin

text \<open>A history is a sequence of statuses in which every step passed the check.\<close>

inductive history :: "'s \<Rightarrow> 's \<Rightarrow> bool" where
  refl: "history s s"
| step: "history s t \<Longrightarrow> check t u = Inr () \<Longrightarrow> history s u"

lemma check_terminal: "terminal s \<Longrightarrow> check s t \<noteq> Inr ()"
  by (simp add: terminal_iff check_iff)

lemma terminal_is_final: "history s t \<Longrightarrow> terminal s \<Longrightarrow> t = s"
proof (induction rule: history.induct)
  case (step s t u)
  then show ?case using check_terminal by simp
qed simp

lemma check_changes: "check s t = Inr () \<Longrightarrow> t \<noteq> s"
  using no_self_loop by (auto simp: check_iff)

lemma not_terminal_if_check: "check s t = Inr () \<Longrightarrow> \<not> terminal s"
  using check_terminal by blast

end

interpretation run_fsm: lifecycle WORKFLOW_RUN_TRANSITIONS is_workflow_run_terminal transition_workflow_run
proof
  fix s t
  show "is_workflow_run_terminal s \<longleftrightarrow> WORKFLOW_RUN_TRANSITIONS s = []"
    by (cases s) (auto simp: is_workflow_run_terminal_def WORKFLOW_RUN_TERMINAL_def)
  show "transition_workflow_run s t = Inr () \<longleftrightarrow> t \<in> set (WORKFLOW_RUN_TRANSITIONS s)"
    by (simp add: transition_workflow_run_def)
  show "s \<notin> set (WORKFLOW_RUN_TRANSITIONS s)" by (cases s) auto
qed

interpretation node_fsm: lifecycle NODE_RUN_TRANSITIONS is_node_run_terminal transition_node_run
proof
  fix s t
  show "is_node_run_terminal s \<longleftrightarrow> NODE_RUN_TRANSITIONS s = []"
    by (cases s) (auto simp: is_node_run_terminal_def NODE_RUN_TERMINAL_def)
  show "transition_node_run s t = Inr () \<longleftrightarrow> t \<in> set (NODE_RUN_TRANSITIONS s)"
    by (simp add: transition_node_run_def)
  show "s \<notin> set (NODE_RUN_TRANSITIONS s)" by (cases s) auto
qed

interpretation task_fsm: lifecycle EXECUTION_TASK_TRANSITIONS is_execution_task_terminal transition_execution_task
proof
  fix s t
  show "is_execution_task_terminal s \<longleftrightarrow> EXECUTION_TASK_TRANSITIONS s = []"
    by (cases s) (auto simp: is_execution_task_terminal_def EXECUTION_TASK_TERMINAL_def)
  show "transition_execution_task s t = Inr () \<longleftrightarrow> t \<in> set (EXECUTION_TASK_TRANSITIONS s)"
    by (simp add: transition_execution_task_def)
  show "s \<notin> set (EXECUTION_TASK_TRANSITIONS s)" by (cases s) auto
qed

text \<open>The checks and terminal tests, evaluated on concrete statuses.\<close>

lemmas status_simps =
  transition_workflow_run_def transition_node_run_def transition_execution_task_def
  is_workflow_run_terminal_def is_node_run_terminal_def is_execution_task_terminal_def
  WORKFLOW_RUN_TERMINAL_def NODE_RUN_TERMINAL_def EXECUTION_TASK_TERMINAL_def

end
