(* ===== verification/ContextRef.thy ===== *)
theory ContextRef
  imports PyString
begin

text \<open>
  Parsing and dependency extraction for Workflow Context References
  (\<^verbatim>\<open>domain/workflows/context_reference.py\<close>). The two regular expressions become two
  recognisers: \<open>parse_context_reference\<close> accepts exactly the strings \<open>_REFERENCE\<close> matches
  in full, \<open>find_templates\<close> lists the non-overlapping shortest matches of \<open>_TEMPLATE\<close>.
\<close>

record context_reference =
  cr_raw :: string
  cr_scope :: string
  cr_path :: string
  cr_node_id :: "string option"

definition is_ident_char :: "char \<Rightarrow> bool" where
  "is_ident_char c \<longleftrightarrow>
     (let n = of_char c :: nat in
      48 \<le> n \<and> n \<le> 57 \<or> 65 \<le> n \<and> n \<le> 90 \<or> 97 \<le> n \<and> n \<le> 122 \<or> c = CHR ''_'' \<or> c = CHR ''-'')"

definition is_identifier :: "string \<Rightarrow> bool" where
  "is_identifier s \<longleftrightarrow> s \<noteq> [] \<and> (\<forall>c\<in>set s. is_ident_char c)"

definition INVALID_CONTEXT_REFERENCE :: exn where
  "INVALID_CONTEXT_REFERENCE = RelayviaError ''INVALID_CONTEXT_REFERENCE'' 400"

definition dotted :: "string list \<Rightarrow> string" where
  "dotted ps = join ''.'' ps"

text \<open>The text between the braces, split at the dots: scope, then a non-empty path.\<close>

definition reference_parts :: "string \<Rightarrow> string list \<Rightarrow> context_reference option" where
  "reference_parts raw ps =
     (if \<not> (\<forall>p\<in>set ps. is_identifier p) then None
      else (case ps of
        a # b # rest \<Rightarrow>
          if a = ''run'' then
            Some \<lparr>cr_raw = raw, cr_scope = ''run'', cr_path = dotted (b # rest), cr_node_id = None\<rparr>
          else if a = ''workflow'' \<and> b \<in> {''input'', ''variables''} \<and> rest \<noteq> [] then
            Some \<lparr>cr_raw = raw, cr_scope = dotted [a, b], cr_path = dotted rest, cr_node_id = None\<rparr>
          else if a = ''nodes'' then
            (case rest of
               c # d # rest' \<Rightarrow>
                 if c = ''output''
                 then Some \<lparr>cr_raw = raw, cr_scope = dotted [a, b, c], cr_path = dotted (d # rest'),
                            cr_node_id = Some b\<rparr>
                 else None
             | _ \<Rightarrow> None)
          else None
      | _ \<Rightarrow> None))"

definition parse_context_reference :: "string \<Rightarrow> exn + context_reference" where
  "parse_context_reference value =
     (if startswith ''{{'' value \<and> endswith ''}}'' value \<and> 4 \<le> length value then
        (case reference_parts value
                (split_on CHR ''.'' (strip (take (length value - 4) (drop 2 value)))) of
           None \<Rightarrow> Inl INVALID_CONTEXT_REFERENCE
         | Some r \<Rightarrow> Inr r)
      else Inl INVALID_CONTEXT_REFERENCE)"

text \<open>
  After an opening delimiter: the shortest text without a newline up to a closing delimiter,
  and what follows it.
\<close>

fun close_template :: "string \<Rightarrow> (string \<times> string) option" where
  "close_template (a # b # cs) =
     (if a = CHR ''}'' \<and> b = CHR ''}'' then Some ([], cs)
      else if a = CHR 0x0A then None
      else map_option (\<lambda>(inner, rest). (a # inner, rest)) (close_template (b # cs)))"
| "close_template _ = None"

lemma close_template_length: "close_template s = Some (inner, rest) \<Longrightarrow> length rest < length s"
  by (induction s arbitrary: inner rule: close_template.induct) (auto split: if_splits)

function find_templates :: "string \<Rightarrow> string list" where
  "find_templates s =
     (if s = [] then []
      else if startswith ''{{'' s then
        (case close_template (drop 2 s) of
           Some (inner, rest) \<Rightarrow> (''{{'' @ inner @ ''}}'') # find_templates rest
         | None \<Rightarrow> find_templates (tl s))
      else find_templates (tl s))"
  by pat_completeness auto
termination
  by (relation "measure length") (auto dest: close_template_length)

declare find_templates.simps [simp del]

definition parse_context_references :: "string \<Rightarrow> exn + context_reference list" where
  "parse_context_references value =
     (if \<not> contains ''{{'' value \<and> \<not> contains ''}}'' value then Inr []
      else if contains ''{{'' value \<and> find_templates value = [] then Inl INVALID_CONTEXT_REFERENCE
      else ebind (foldM (\<lambda>rs m. ebind (parse_context_reference m) (\<lambda>r. Inr (rs @ [r]))) []
                    (find_templates value))
             (\<lambda>rs. if count_sub ''{{'' value \<noteq> count_sub ''}}'' value
                   then Inl INVALID_CONTEXT_REFERENCE else Inr rs))"

fun extract_context_references :: "json \<Rightarrow> exn + context_reference list"
  and extract_from_list :: "json list \<Rightarrow> exn + context_reference list"
  and extract_from_fields :: "dict \<Rightarrow> exn + context_reference list" where
  "extract_context_references (JStr s) = parse_context_references s"
| "extract_context_references (JObj d) = extract_from_fields d"
| "extract_context_references (JArr xs) = extract_from_list xs"
| "extract_context_references _ = Inr []"
| "extract_from_list [] = Inr []"
| "extract_from_list (x # xs) =
     ebind (extract_context_references x) (\<lambda>rs. ebind (extract_from_list xs) (\<lambda>ss. Inr (rs @ ss)))"
| "extract_from_fields [] = Inr []"
| "extract_from_fields ((k, v) # d) =
     ebind (extract_context_references v) (\<lambda>rs. ebind (extract_from_fields d) (\<lambda>ss. Inr (rs @ ss)))"

definition extract_node_references :: "json \<Rightarrow> exn + string list" where
  "extract_node_references v =
     ebind (extract_context_references v) (\<lambda>rs.
       Inr (sorted_set (List.map_filter
              (\<lambda>r. case cr_node_id r of Some i \<Rightarrow> if i \<noteq> [] then Some i else None | None \<Rightarrow> None) rs)))"

section \<open>What the parser accepts\<close>

lemma ident_char_cases:
  "is_ident_char c \<Longrightarrow> c \<noteq> CHR ''.'' \<and> \<not> is_space c \<and> c \<noteq> CHR ''{'' \<and> c \<noteq> CHR ''}''"
  by (auto simp: is_ident_char_def is_space_def Let_def)

lemma identifier_no_dot: "is_identifier s \<Longrightarrow> CHR ''.'' \<notin> set s"
  using ident_char_cases by (auto simp: is_identifier_def)

lemma set_dotted_no_space:
  "\<forall>p\<in>set ps. is_identifier p \<Longrightarrow> c \<in> set (dotted ps) \<Longrightarrow> \<not> is_space c"
proof -
  assume ps: "\<forall>p\<in>set ps. is_identifier p" and "c \<in> set (dotted ps)"
  then have "c = CHR ''.'' \<or> (\<exists>p\<in>set ps. c \<in> set p)"
    using set_join [of "''.''" ps] by (auto simp: dotted_def)
  then show "\<not> is_space c"
  proof
    assume "c = CHR ''.''"
    then show ?thesis by (simp add: is_space_def)
  next
    assume "\<exists>p\<in>set ps. c \<in> set p"
    with ps ident_char_cases show ?thesis by (auto simp: is_identifier_def)
  qed
qed

lemma strip_padded:
  assumes "\<forall>c\<in>set l. is_space c" "\<forall>c\<in>set r. is_space c" "s \<noteq> []" "\<forall>c\<in>set s. \<not> is_space c"
  shows "strip (l @ s @ r) = s"
proof -
  have hd: "\<not> is_space (hd s)" and last: "\<not> is_space (hd (rev s))"
    using assms(3,4) by (simp_all add: hd_rev)
  have "dropWhile is_space (l @ s @ r) = dropWhile is_space (s @ r)"
    using assms(1) by (simp add: dropWhile_append2)
  also have "\<dots> = s @ r" using hd assms(3) by (cases s) simp_all
  finally have 1: "dropWhile is_space (l @ s @ r) = s @ r" .
  have "dropWhile is_space (rev r @ rev s) = dropWhile is_space (rev s)"
    using assms(2) by (intro dropWhile_append2) auto
  also have "\<dots> = rev s" using last assms(3) by (subst dropWhile_eq_self_iff) simp
  finally show ?thesis using 1 by (simp add: strip_def)
qed

lemma dotted_nonempty: "ps \<noteq> [] \<Longrightarrow> \<forall>p\<in>set ps. is_identifier p \<Longrightarrow> dotted ps \<noteq> []"
  by (cases ps; cases "tl ps") (auto simp: dotted_def is_identifier_def)

text \<open>Braces, optional blanks, a dotted sequence of identifiers: parsed as its parts.\<close>

lemma parse_context_reference_parts:
  assumes "ps \<noteq> []" and "\<forall>p\<in>set ps. is_identifier p"
    and "\<forall>c\<in>set l. is_space c" and "\<forall>c\<in>set r. is_space c"
  shows "parse_context_reference (''{{'' @ l @ dotted ps @ r @ ''}}'') =
    (case reference_parts (''{{'' @ l @ dotted ps @ r @ ''}}'') ps of
       None \<Rightarrow> Inl INVALID_CONTEXT_REFERENCE | Some x \<Rightarrow> Inr x)"
proof -
  let ?b = "l @ dotted ps @ r"
  let ?v = "''{{'' @ ?b @ ''}}''"
  have body: "take (length ?v - 4) (drop 2 ?v) = ?b" by simp
  have strip: "strip ?b = dotted ps"
    using assms dotted_nonempty set_dotted_no_space by (intro strip_padded) auto
  have split: "split_on CHR ''.'' (dotted ps) = ps"
    unfolding dotted_def using assms identifier_no_dot by (intro split_on_join) auto
  have "startswith ''{{'' ?v" "4 \<le> length ?v" by (simp_all add: startswith_def)
  moreover have "endswith ''}}'' ?v" unfolding endswith_append by (metis append.assoc)
  ultimately show ?thesis
    unfolding parse_context_reference_def using strip split by simp
qed

lemma reference_parts_node_id:
  "reference_parts raw ps = Some r \<Longrightarrow> cr_node_id r = Some i \<Longrightarrow>
     is_identifier i \<and> cr_scope r = dotted [''nodes'', i, ''output'']"
  by (auto simp: reference_parts_def split: if_splits list.splits)

lemma parse_context_reference_raw: "parse_context_reference v = Inr r \<Longrightarrow> cr_raw r = v"
  by (auto simp: parse_context_reference_def reference_parts_def
           split: if_splits option.splits list.splits)

lemma parse_context_reference_braces:
  "parse_context_reference v = Inr r \<Longrightarrow> contains ''{{'' v \<and> v \<noteq> []"
  by (auto simp: parse_context_reference_def startswith_append contains_iff split: if_splits)

end
