(* ===== verification/Graph.thy ===== *)
theory Graph
  imports ContextRef
begin

text \<open>
  Workflow Graph 1.0 (\<^verbatim>\<open>domain/workflows/graph.py\<close>, \<^verbatim>\<open>domain/validation.py\<close>): the graph
  data model, the declared constraints of its pydantic models, and the contract check
  \<open>validate_graph_contract\<close>. Pydantic and jsonschema are not part of the program; what the
  code asks of them is collected in the record \<open>lib\<close>, an argument of the definitions that
  use it: structural decoding and dumping of a graph, lax integer and boolean coercion of a
  field, the Draft 7 meta-schema check and the list of a value's schema errors, ISO-8601
  timestamps, the text of floats and containers, the supply of random identifiers and tokens,
  SHA-256, the checks of a bracketed network location, name resolution, the class of an IP
  address, the joining of URLs, and the message and details an API
  error carries (they are text for the client and decide nothing).
\<close>

section \<open>Data model\<close>

datatype node_type = AGENT | SERVICE | TOOL | LOGIC | HUMAN | DATA

fun node_type_value :: "node_type \<Rightarrow> string" where
  "node_type_value AGENT = ''agent''"
| "node_type_value SERVICE = ''service''"
| "node_type_value TOOL = ''tool''"
| "node_type_value LOGIC = ''logic''"
| "node_type_value HUMAN = ''human''"
| "node_type_value DATA = ''data''"

datatype variable_type = V_STRING | V_NUMBER | V_INTEGER | V_BOOLEAN | V_OBJECT | V_ARRAY

fun variable_type_value :: "variable_type \<Rightarrow> string" where
  "variable_type_value V_STRING = ''string''"
| "variable_type_value V_NUMBER = ''number''"
| "variable_type_value V_INTEGER = ''integer''"
| "variable_type_value V_BOOLEAN = ''boolean''"
| "variable_type_value V_OBJECT = ''object''"
| "variable_type_value V_ARRAY = ''array''"

definition CONDITION_OPERATORS :: "string list" where
  "CONDITION_OPERATORS =
     [''=='', ''!='', ''>'', ''>='', ''<'', ''<='', ''contains'', ''not_contains'', ''is_empty'', ''is_not_empty'']"

record workflow_variable =
  v_type :: variable_type
  v_default :: json
  v_description :: "string option"

record workflow_node =
  n_id :: string
  n_type :: node_type
  n_subtype :: string
  n_name :: string
  n_position :: "rat \<times> rat"
  n_config :: dict
  n_input_mapping :: dict
  n_metadata :: dict

record workflow_edge =
  e_id :: string
  e_source :: string
  e_target :: string
  e_source_handle :: "string option"
  e_target_handle :: "string option"
  e_label :: "string option"
  e_condition :: "dict option"
  e_metadata :: dict

record workflow_graph =
  g_nodes :: "workflow_node list"
  g_edges :: "workflow_edge list"
  g_variables :: "(string \<times> workflow_variable) list"
  g_metadata :: dict

record lib =
  lib_decode_graph :: "json \<Rightarrow> workflow_graph option"
  lib_dump_graph :: "workflow_graph \<Rightarrow> json"
  lib_int :: "json \<Rightarrow> int option"
  lib_bool :: "json \<Rightarrow> bool option"
  lib_check_schema :: "json \<Rightarrow> bool"
  lib_schema_errors :: "json \<Rightarrow> json \<Rightarrow> string list"
  lib_isoformat :: "time \<Rightarrow> string"
  lib_fromisoformat :: "string \<Rightarrow> time option"
  lib_repr :: "json \<Rightarrow> string"
  lib_uuid4 :: "nat \<Rightarrow> string"
  lib_token_urlsafe :: "nat \<Rightarrow> string"
  lib_sha256 :: "string \<Rightarrow> string"
  lib_netloc_ok :: "string \<Rightarrow> bool"
  lib_getaddrinfo :: "string \<Rightarrow> string list option"
  lib_ip_global :: "string \<Rightarrow> bool option"
  lib_urljoin :: "string \<Rightarrow> string \<Rightarrow> string"
  lib_error_message :: "exn \<Rightarrow> string"
  lib_error_details :: "exn \<Rightarrow> dict"

section \<open>Declared constraints of the configuration models\<close>

definition forbid_extra :: "string list \<Rightarrow> dict \<Rightarrow> bool" where
  "forbid_extra allowed d \<longleftrightarrow> (\<forall>k\<in>set (map fst d). k \<in> set allowed)"

text \<open>A field with a check: \<open>required\<close> fails when it is missing, \<open>optional\<close> takes the default.\<close>

definition required :: "dict \<Rightarrow> string \<Rightarrow> (json \<Rightarrow> bool) \<Rightarrow> bool" where
  "required d k ok = (case dget d k of None \<Rightarrow> False | Some v \<Rightarrow> ok v)"

definition optional :: "dict \<Rightarrow> string \<Rightarrow> (json \<Rightarrow> bool) \<Rightarrow> bool" where
  "optional d k ok = (case dget d k of None \<Rightarrow> True | Some v \<Rightarrow> ok v)"

definition str_field :: "nat \<Rightarrow> nat option \<Rightarrow> json \<Rightarrow> bool" where
  "str_field lo hi v =
     (case v of JStr s \<Rightarrow> lo \<le> length s \<and> (case hi of None \<Rightarrow> True | Some h \<Rightarrow> length s \<le> h) | _ \<Rightarrow> False)"

definition nullable :: "(json \<Rightarrow> bool) \<Rightarrow> json \<Rightarrow> bool" where
  "nullable ok v \<longleftrightarrow> v = JNull \<or> ok v"

definition int_field :: "lib \<Rightarrow> int \<Rightarrow> int \<Rightarrow> json \<Rightarrow> bool" where
  "int_field L lo hi v = (case lib_int L v of None \<Rightarrow> False | Some i \<Rightarrow> lo \<le> i \<and> i \<le> hi)"

definition model_field :: "(dict \<Rightarrow> bool) \<Rightarrow> json \<Rightarrow> bool" where
  "model_field ok v = (case v of JObj d \<Rightarrow> ok d | _ \<Rightarrow> False)"

definition RetryConfig :: "lib \<Rightarrow> dict \<Rightarrow> bool" where
  "RetryConfig L d \<longleftrightarrow> forbid_extra [''max_retries''] d \<and> optional d ''max_retries'' (int_field L 0 10)"

definition ToolWorkspaceConfig :: "dict \<Rightarrow> bool" where
  "ToolWorkspaceConfig d \<longleftrightarrow>
     forbid_extra [''repository'', ''strategy'', ''base_branch''] d
     \<and> required d ''repository'' (str_field 1 (Some 2048))
     \<and> optional d ''strategy'' (\<lambda>v. v \<in> {JStr ''local'', JStr ''worktree''})
     \<and> optional d ''base_branch'' (nullable (str_field 0 (Some 255)))"

definition AgentNodeConfig :: "lib \<Rightarrow> dict \<Rightarrow> bool" where
  "AgentNodeConfig L d \<longleftrightarrow>
     forbid_extra [''agent_id'', ''role'', ''task_template'', ''timeout_seconds'', ''retry'', ''workspace''] d
     \<and> required d ''agent_id'' (str_field 1 (Some 120))
     \<and> optional d ''role'' (nullable (str_field 0 (Some 120)))
     \<and> optional d ''task_template'' (nullable (str_field 0 None))
     \<and> optional d ''timeout_seconds'' (int_field L 1 86400)
     \<and> optional d ''retry'' (model_field (RetryConfig L))
     \<and> optional d ''workspace'' (nullable (model_field ToolWorkspaceConfig))"

definition ServiceNodeConfig :: "lib \<Rightarrow> dict \<Rightarrow> bool" where
  "ServiceNodeConfig L d \<longleftrightarrow>
     forbid_extra [''service_id'', ''service_action_id'', ''timeout_seconds'', ''retry''] d
     \<and> required d ''service_id'' (str_field 1 (Some 120))
     \<and> required d ''service_action_id'' (str_field 1 (Some 120))
     \<and> optional d ''timeout_seconds'' (int_field L 1 86400)
     \<and> optional d ''retry'' (model_field (RetryConfig L))"

definition ToolNodeConfig :: "lib \<Rightarrow> dict \<Rightarrow> bool" where
  "ToolNodeConfig L d \<longleftrightarrow>
     forbid_extra [''command'', ''working_directory'', ''runner_id'', ''timeout_seconds'', ''retry'', ''workspace''] d
     \<and> required d ''command'' (str_field 1 (Some 4000))
     \<and> optional d ''working_directory'' (nullable (str_field 0 (Some 2048)))
     \<and> optional d ''runner_id'' (nullable (str_field 1 (Some 120)))
     \<and> optional d ''timeout_seconds'' (int_field L 1 86400)
     \<and> optional d ''retry'' (model_field (RetryConfig L))
     \<and> optional d ''workspace'' (nullable (model_field ToolWorkspaceConfig))"

text \<open>
  A Condition clause: the shape rule of \<open>validate_shape\<close> on the five optional fields, then the
  nested clauses. A missing field reads as its default \<open>None\<close>.
\<close>

definition condition_shape :: "dict \<Rightarrow> bool" where
  "condition_shape d \<longleftrightarrow>
     (let a = dget0 d ''and''; b = dget0 d ''or'';
          combination_count = (if a \<noteq> JNull then 1 else 0) + (if b \<noteq> JNull then 1 else (0::nat)) in
      if combination_count > 1 then False
      else if combination_count = 1 then
        dget0 d ''left'' = JNull \<and> dget0 d ''operator'' = JNull \<and> dget0 d ''right'' = JNull
        \<and> (if a \<noteq> JNull then a \<noteq> JArr [] else b \<noteq> JArr [])
      else dget0 d ''operator'' \<noteq> JNull)"

definition condition_fields :: "dict \<Rightarrow> bool" where
  "condition_fields d \<longleftrightarrow>
     forbid_extra [''and'', ''or'', ''left'', ''operator'', ''right''] d
     \<and> optional d ''operator''
         (nullable (\<lambda>v. case v of JStr s \<Rightarrow> s \<in> set CONDITION_OPERATORS | _ \<Rightarrow> False))
     \<and> condition_shape d"

fun ConditionExpression :: "json \<Rightarrow> bool"
  and ConditionClauses :: "json list \<Rightarrow> bool" where
  "ConditionExpression (JObj d) =
     (condition_fields d
      \<and> (case dget0 d ''and'' of JNull \<Rightarrow> True | JArr xs \<Rightarrow> ConditionClauses xs | _ \<Rightarrow> False)
      \<and> (case dget0 d ''or'' of JNull \<Rightarrow> True | JArr xs \<Rightarrow> ConditionClauses xs | _ \<Rightarrow> False))"
| "ConditionExpression _ = False"
| "ConditionClauses [] = True"
| "ConditionClauses (x # xs) = (ConditionExpression x \<and> ConditionClauses xs)"

definition ConditionNodeConfig :: "dict \<Rightarrow> bool" where
  "ConditionNodeConfig d \<longleftrightarrow>
     forbid_extra [''expression''] d \<and> required d ''expression'' ConditionExpression"

definition MergeNodeConfig :: "dict \<Rightarrow> bool" where
  "MergeNodeConfig d \<longleftrightarrow>
     forbid_extra [''strategy''] d \<and> optional d ''strategy'' (\<lambda>v. v = JStr ''all'')"

definition WaitNodeConfig :: "lib \<Rightarrow> dict \<Rightarrow> bool" where
  "WaitNodeConfig L d \<longleftrightarrow>
     forbid_extra [''mode'', ''duration_seconds''] d
     \<and> optional d ''mode'' (\<lambda>v. v = JStr ''duration'')
     \<and> required d ''duration_seconds'' (int_field L 1 31536000)"

definition HumanApprovalNodeConfig :: "lib \<Rightarrow> dict \<Rightarrow> bool" where
  "HumanApprovalNodeConfig L d \<longleftrightarrow>
     forbid_extra [''title'', ''description'', ''allow_reject''] d
     \<and> required d ''title'' (str_field 1 (Some 240))
     \<and> optional d ''description'' (nullable (str_field 0 None))
     \<and> optional d ''allow_reject'' (\<lambda>v. lib_bool L v \<noteq> None)"

definition object_config :: "string \<Rightarrow> dict \<Rightarrow> bool" where
  "object_config k d \<longleftrightarrow> forbid_extra [k] d \<and> optional d k is_dict"

text \<open>The table of \<open>validate_subtype_and_config\<close>; \<open>None\<close> is an unsupported combination.\<close>

definition config_model :: "lib \<Rightarrow> node_type \<Rightarrow> string \<Rightarrow> (dict \<Rightarrow> bool) option" where
  "config_model L ty sub =
     (case ty of
        AGENT \<Rightarrow> if sub = ''agent'' then Some (AgentNodeConfig L) else None
      | SERVICE \<Rightarrow> if sub = ''http'' then Some (ServiceNodeConfig L) else None
      | TOOL \<Rightarrow> if sub \<in> {''shell'', ''git'', ''test_command''} then Some (ToolNodeConfig L) else None
      | LOGIC \<Rightarrow>
          if sub = ''condition'' then Some ConditionNodeConfig
          else if sub = ''parallel'' then Some (forbid_extra [])
          else if sub = ''merge'' then Some MergeNodeConfig
          else if sub = ''router'' then Some (forbid_extra [])
          else if sub = ''wait'' then Some (WaitNodeConfig L)
          else None
      | HUMAN \<Rightarrow>
          if sub = ''approval'' then Some (HumanApprovalNodeConfig L)
          else if sub = ''input'' then Some (object_config ''form_schema'')
          else None
      | DATA \<Rightarrow>
          if sub = ''input'' then Some (object_config ''schema'')
          else if sub = ''transform'' then Some (object_config ''mappings'')
          else if sub = ''output'' then Some (object_config ''output_mapping'')
          else None)"

definition validate_subtype_and_config :: "lib \<Rightarrow> workflow_node \<Rightarrow> bool" where
  "validate_subtype_and_config L n =
     (case config_model L (n_type n) (n_subtype n) of None \<Rightarrow> False | Some ok \<Rightarrow> ok (n_config n))"

section \<open>Field constraints of nodes and edges\<close>

definition is_alnum :: "char \<Rightarrow> bool" where
  "is_alnum c \<longleftrightarrow> is_ident_char c \<and> c \<noteq> CHR ''_'' \<and> c \<noteq> CHR ''-''"

definition is_lower_ascii :: "char \<Rightarrow> bool" where
  "is_lower_ascii c \<longleftrightarrow> 97 \<le> (of_char c :: nat) \<and> (of_char c :: nat) \<le> 122"

text \<open>\<^verbatim>\<open>^[A-Za-z0-9][A-Za-z0-9_-]*$\<close> and \<^verbatim>\<open>^[a-z][a-z0-9_-]*$\<close>\<close>

definition id_pattern :: "string \<Rightarrow> bool" where
  "id_pattern s = (case s of [] \<Rightarrow> False | c # cs \<Rightarrow> is_alnum c \<and> (\<forall>d\<in>set cs. is_ident_char d))"

definition subtype_pattern :: "string \<Rightarrow> bool" where
  "subtype_pattern s =
     (case s of [] \<Rightarrow> False
      | c # cs \<Rightarrow> is_lower_ascii c
          \<and> (\<forall>d\<in>set cs. is_lower_ascii d \<or> is_digit d \<or> d = CHR ''_'' \<or> d = CHR ''-''))"

definition str_len :: "nat \<Rightarrow> nat \<Rightarrow> string \<Rightarrow> bool" where
  "str_len lo hi s \<longleftrightarrow> lo \<le> length s \<and> length s \<le> hi"

definition opt_len :: "nat \<Rightarrow> string option \<Rightarrow> bool" where
  "opt_len hi s = (case s of None \<Rightarrow> True | Some x \<Rightarrow> length x \<le> hi)"

definition workflow_node_ok :: "lib \<Rightarrow> workflow_node \<Rightarrow> bool" where
  "workflow_node_ok L n \<longleftrightarrow>
     str_len 1 120 (n_id n) \<and> id_pattern (n_id n)
     \<and> str_len 1 40 (n_subtype n) \<and> subtype_pattern (n_subtype n)
     \<and> str_len 1 120 (n_name n)
     \<and> validate_subtype_and_config L n"

definition workflow_edge_ok :: "workflow_edge \<Rightarrow> bool" where
  "workflow_edge_ok e \<longleftrightarrow>
     str_len 1 120 (e_id e) \<and> id_pattern (e_id e)
     \<and> str_len 1 120 (e_source e) \<and> str_len 1 120 (e_target e)
     \<and> opt_len 120 (e_source_handle e) \<and> opt_len 120 (e_target_handle e) \<and> opt_len 240 (e_label e)"

definition workflow_graph_ok :: "lib \<Rightarrow> workflow_graph \<Rightarrow> bool" where
  "workflow_graph_ok L g \<longleftrightarrow>
     (\<forall>n\<in>set (g_nodes g). workflow_node_ok L n) \<and> (\<forall>e\<in>set (g_edges g). workflow_edge_ok e)"

section \<open>Shared validators (domain/validation.py)\<close>

definition SENSITIVE_METADATA_NAMES :: "string list" where
  "SENSITIVE_METADATA_NAMES = [''password'', ''token'', ''secret'', ''api_key'', ''authorization'']"

definition SENSITIVE_HEADER_NAMES :: "string list" where
  "SENSITIVE_HEADER_NAMES = [''authorization'', ''cookie'', ''proxy-authorization'', ''x-api-key'']"

definition normalize_key :: "string \<Rightarrow> string" where
  "normalize_key k = replace_all ''-'' ''_'' (lower k)"

definition sensitive_metadata_key :: "string \<Rightarrow> bool" where
  "sensitive_metadata_key k \<longleftrightarrow>
     (let n = normalize_key k in
      n \<in> set SENSITIVE_METADATA_NAMES \<or> contains ''password'' n \<or> contains ''token'' n \<or> contains ''secret'' n)"

fun metadata_clean :: "json \<Rightarrow> bool"
  and metadata_clean_list :: "json list \<Rightarrow> bool"
  and metadata_clean_fields :: "dict \<Rightarrow> bool" where
  "metadata_clean (JObj d) = metadata_clean_fields d"
| "metadata_clean (JArr xs) = metadata_clean_list xs"
| "metadata_clean _ = True"
| "metadata_clean_list [] = True"
| "metadata_clean_list (x # xs) = (metadata_clean x \<and> metadata_clean_list xs)"
| "metadata_clean_fields [] = True"
| "metadata_clean_fields ((k, v) # d) =
     (\<not> sensitive_metadata_key k \<and> metadata_clean v \<and> metadata_clean_fields d)"

definition validate_metadata :: "dict \<Rightarrow> exn + dict" where
  "validate_metadata metadata =
     (if metadata_clean (JObj metadata) then Inr metadata
      else Inl (RelayviaError ''SECRET_IN_CONFIG'' 400))"

definition validate_headers :: "(string \<times> 'v) list \<Rightarrow> exn + (string \<times> 'v) list" where
  "validate_headers headers =
     (if \<exists>k\<in>set (map fst headers). lower k \<in> set SENSITIVE_HEADER_NAMES
      then Inl (RelayviaError ''SECRET_IN_CONFIG'' 400) else Inr headers)"

definition validate_json_schema :: "lib \<Rightarrow> json \<Rightarrow> exn + json" where
  "validate_json_schema L v =
     (if lib_check_schema L v then Inr v else Inl (RelayviaError ''INVALID_SCHEMA'' 400))"

section \<open>The graph contract\<close>

definition node_ids :: "workflow_graph \<Rightarrow> string list" where
  "node_ids g = map n_id (g_nodes g)"

definition edge_ids :: "workflow_graph \<Rightarrow> string list" where
  "edge_ids g = map e_id (g_edges g)"

definition check_edges :: "workflow_graph \<Rightarrow> exn + unit" where
  "check_edges g =
     foldM (\<lambda>_ e.
        if e_source e \<notin> set (node_ids g) then Inl (RelayviaError ''INVALID_NODE_REFERENCE'' 400)
        else if e_target e \<notin> set (node_ids g) then Inl (RelayviaError ''INVALID_NODE_REFERENCE'' 400)
        else Inr ()) () (g_edges g)"

definition check_variables :: "workflow_graph \<Rightarrow> exn + unit" where
  "check_variables g =
     foldM (\<lambda>_ (name, _).
        if name = [] \<or> 120 < length name then Inl (RelayviaError ''INVALID_GRAPH'' 400) else Inr ())
       () (g_variables g)"

definition check_node :: "lib \<Rightarrow> workflow_graph \<Rightarrow> workflow_node \<Rightarrow> exn + unit" where
  "check_node L g n =
     ebind (validate_metadata (n_metadata n)) (\<lambda>_.
     ebind (if n_type n = DATA \<and> n_subtype n = ''input''
            then ebind (validate_json_schema L (dget_or (n_config n) ''schema'' (JObj []))) (\<lambda>_. Inr ())
            else Inr ()) (\<lambda>_.
     ebind (if n_type n = HUMAN \<and> n_subtype n = ''input''
            then ebind (validate_json_schema L (dget_or (n_config n) ''form_schema'' (JObj []))) (\<lambda>_. Inr ())
            else Inr ()) (\<lambda>_.
     ebind (extract_node_references
              (JObj [(''config'', JObj (n_config n)), (''input_mapping'', JObj (n_input_mapping n))]))
       (\<lambda>refs. if \<exists>r\<in>set refs. r \<notin> set (node_ids g)
               then Inl (RelayviaError ''INVALID_NODE_REFERENCE'' 400) else Inr ()))))"

definition validate_graph_contract :: "lib \<Rightarrow> workflow_graph \<Rightarrow> exn + workflow_graph" where
  "validate_graph_contract L g =
     (if \<not> distinct (node_ids g) then Inl (RelayviaError ''DUPLICATE_NODE_ID'' 400)
      else if \<not> distinct (edge_ids g) then Inl (RelayviaError ''DUPLICATE_EDGE_ID'' 400)
      else ebind (check_edges g) (\<lambda>_.
           ebind (validate_metadata (g_metadata g)) (\<lambda>_.
           ebind (check_variables g) (\<lambda>_.
           ebind (foldM (\<lambda>_ n. check_node L g n) () (g_nodes g)) (\<lambda>_. Inr g)))))"

definition empty_workflow_graph :: workflow_graph where
  "empty_workflow_graph = \<lparr>g_nodes = [], g_edges = [], g_variables = [], g_metadata = []\<rparr>"

definition parse_workflow_graph :: "lib \<Rightarrow> json \<Rightarrow> exn + workflow_graph" where
  "parse_workflow_graph L raw =
     (case raw of
        JObj d \<Rightarrow>
          if dget0 d ''schema_version'' \<noteq> JStr ''1.0''
          then Inl (RelayviaError ''UNSUPPORTED_GRAPH_SCHEMA_VERSION'' 400)
          else (case lib_decode_graph L raw of
                  None \<Rightarrow> Inl (RelayviaError ''INVALID_GRAPH'' 400)
                | Some g \<Rightarrow>
                    if workflow_graph_ok L g then validate_graph_contract L g
                    else Inl (RelayviaError ''INVALID_GRAPH'' 400))
      | _ \<Rightarrow> Inl (RelayviaError ''INVALID_GRAPH'' 400))"

section \<open>What a parsed graph guarantees\<close>

definition well_formed_graph :: "workflow_graph \<Rightarrow> bool" where
  "well_formed_graph g \<longleftrightarrow>
     distinct (node_ids g) \<and> distinct (edge_ids g)
     \<and> (\<forall>e\<in>set (g_edges g). e_source e \<in> set (node_ids g) \<and> e_target e \<in> set (node_ids g))"

lemma foldM_unit:
  "foldM (\<lambda>_ x. f x) () xs = Inr () \<longleftrightarrow> (\<forall>x\<in>set xs. f x = Inr ())"
  by (induction xs) (auto simp: outcome)

lemma check_edges_iff:
  "check_edges g = Inr () \<longleftrightarrow>
     (\<forall>e\<in>set (g_edges g). e_source e \<in> set (node_ids g) \<and> e_target e \<in> set (node_ids g))"
  unfolding check_edges_def by (subst foldM_unit) auto

lemma validate_graph_contract_Inr:
  assumes "validate_graph_contract L g = Inr h"
  shows "h = g \<and> well_formed_graph g"
  using assms
  by (auto simp: validate_graph_contract_def well_formed_graph_def outcome check_edges_iff
           split: if_splits)

lemma parse_workflow_graph_Inr:
  assumes "parse_workflow_graph L raw = Inr g"
  shows "lib_decode_graph L raw = Some g" and "workflow_graph_ok L g" and "well_formed_graph g"
  using assms
  by (auto simp: parse_workflow_graph_def dest: validate_graph_contract_Inr
           split: json.splits if_splits option.splits)

lemma parse_workflow_graph_error_status:
  assumes "parse_workflow_graph L raw = Inl e"
  shows "\<exists>code. e = RelayviaError code 400"
proof -
  have refs: "extract_node_references v = Inl e' \<Longrightarrow> \<exists>code. e' = RelayviaError code 400" for v e'
  proof -
    have "extract_context_references v = Inl e' \<Longrightarrow> e' = INVALID_CONTEXT_REFERENCE"
      "extract_from_list xs = Inl e' \<Longrightarrow> e' = INVALID_CONTEXT_REFERENCE"
      "extract_from_fields d = Inl e' \<Longrightarrow> e' = INVALID_CONTEXT_REFERENCE" for v xs d
    proof (induction v and xs and d
        rule: extract_context_references_extract_from_list_extract_from_fields.induct)
      case (1 s)
      have "foldM (\<lambda>rs m. ebind (parse_context_reference m) (\<lambda>r. Inr (rs @ [r]))) acc ms = Inl e' \<Longrightarrow>
        e' = INVALID_CONTEXT_REFERENCE" for acc ms
        by (induction ms arbitrary: acc)
           (auto simp: outcome parse_context_reference_def split: if_splits option.splits)
      with 1 show ?case by (auto simp: parse_context_references_def outcome split: if_splits)
    qed (auto simp: outcome)
    then show "extract_node_references v = Inl e' \<Longrightarrow> \<exists>code. e' = RelayviaError code 400"
      by (auto simp: extract_node_references_def outcome INVALID_CONTEXT_REFERENCE_def)
  qed
  have node: "check_node L g n = Inl e \<Longrightarrow> \<exists>code. e = RelayviaError code 400" for g n
    by (auto simp: check_node_def outcome validate_metadata_def validate_json_schema_def
             dest: refs split: if_splits)
  have fold: "foldM (\<lambda>_ n. check_node L g n) () ns = Inl e \<Longrightarrow> \<exists>code. e = RelayviaError code 400" for g ns
    by (induction ns) (auto simp: outcome dest: node)
  have edges: "foldM (\<lambda>_ e. if P e then Inl (RelayviaError c 400) else if Q e then
      Inl (RelayviaError c' 400) else Inr ()) () es = Inl e \<Longrightarrow> \<exists>code. e = RelayviaError code 400"
    for P Q c c' and es :: "'z list"
    by (induction es) (auto simp: outcome split: if_splits)
  have vars: "foldM (\<lambda>_ (name, _). if P name then Inl (RelayviaError c 400) else Inr ()) () vs = Inl e \<Longrightarrow>
      \<exists>code. e = RelayviaError code 400" for P c and vs :: "(string \<times> 'y) list"
    by (induction vs) (auto simp: outcome split: if_splits)
  from assms show ?thesis
    by (auto simp: parse_workflow_graph_def validate_graph_contract_def outcome check_edges_def
                   check_variables_def validate_metadata_def
             dest: fold edges vars split: json.splits if_splits option.splits)
qed

end
