(* ===== verification/Store.thy ===== *)
theory Store
  imports StateMachines Graph
begin

text \<open>
  The database the services share. Every mapped class of \<^verbatim>\<open>domain/*/models.py\<close> is a
  record of its columns, a table is the list of its rows in creation order, and the
  lookups are those of \<^verbatim>\<open>domain/runs/repository.py\<close> and
  \<^verbatim>\<open>domain/execution/repository.py\<close>. Columns that are written and never read by the
  modelled code (\<open>updated_at\<close> except on workspaces and workflows) are left out.

  The sessions are created with \<open>autoflush=False\<close>: an object added to the session is
  invisible to queries until the next flush. Execution Tasks are the only rows that are
  added and queried in one transaction, so they have a separate list \<open>new_tasks\<close>;
  \<open>flush\<close> moves it into the table and is part of every commit.
\<close>

section \<open>Rows\<close>

record workflow_run =
  r_id :: string
  r_workflow_id :: string
  r_workflow_version_id :: string
  r_version_number :: int
  r_status :: workflow_run_status
  r_graph_schema_version :: string
  r_graph_snapshot_json :: json
  r_execution_snapshot_json :: dict
  r_input_json :: dict
  r_variables_json :: dict
  r_error_json :: "dict option"
  r_waiting_reason :: "string option"
  r_waiting_metadata_json :: dict
  r_started_at :: "time option"
  r_finished_at :: "time option"
  r_paused_at :: "time option"
  r_cancelled_at :: "time option"
  r_created_at :: time

record node_run =
  nr_id :: string
  nr_workflow_run_id :: string
  nr_node_id :: string
  nr_node_type :: string
  nr_node_subtype :: string
  nr_node_name_snapshot :: string
  nr_status :: node_run_status
  nr_input_json :: dict
  nr_output_json :: "dict option"
  nr_error_json :: "dict option"
  nr_execution_metadata_json :: dict
  nr_artifact_refs_json :: "dict list"
  nr_attempt :: nat
  nr_waiting_reason :: "string option"
  nr_waiting_metadata_json :: dict
  nr_started_at :: "time option"
  nr_finished_at :: "time option"
  nr_created_at :: time

record execution_task =
  t_id :: string
  t_workflow_run_id :: string
  t_node_run_id :: string
  t_task_type :: string
  t_status :: execution_task_status
  t_payload_json :: dict
  t_priority :: int
  t_attempt :: nat
  t_max_attempts :: int
  t_available_at :: time
  t_locked_by :: "string option"
  t_lease_token :: "string option"
  t_locked_at :: "time option"
  t_lease_expires_at :: "time option"
  t_runner_id :: "string option"
  t_required_capability :: "string option"
  t_execution_key :: "string option"
  t_last_error_json :: "dict option"
  t_started_at :: "time option"
  t_finished_at :: "time option"
  t_created_at :: time

datatype run_event_type =
  WORKFLOW_STARTED | WORKFLOW_WAITING | WORKFLOW_RESUMED | WORKFLOW_COMPLETED
  | WORKFLOW_FAILED | WORKFLOW_CANCELLED
  | NODE_QUEUED | NODE_STARTED | NODE_LOG | NODE_RETRYING | NODE_WAITING | NODE_RESUMED
  | NODE_COMPLETED | NODE_FAILED | NODE_SKIPPED | NODE_CANCELLED
  | CONDITION_EVALUATED | BRANCH_SELECTED

text \<open>The auto-increment id of an event is its position in the table.\<close>

record run_event =
  ev_workflow_run_id :: string
  ev_node_run_id :: "string option"
  ev_event_type :: run_event_type
  ev_message :: "string option"
  ev_payload_json :: dict
  ev_created_at :: time

datatype workspace_status =
  WS_CREATING | WS_READY | WS_IN_USE | WS_FAILED | WS_RELEASING | WS_CLEANING
  | WS_CLEANUP_FAILED | WS_RELEASED

record workspace =
  ws_id :: string
  ws_name :: string
  ws_runner_id :: "string option"
  ws_repository :: string
  ws_path :: "string option"
  ws_branch :: "string option"
  ws_base_branch :: "string option"
  ws_workspace_type :: string
  ws_status :: workspace_status
  ws_workflow_run_id :: string
  ws_node_run_id :: string
  ws_metadata_json :: dict
  ws_created_at :: time
  ws_updated_at :: time

datatype runner_status = RS_ONLINE | RS_OFFLINE | RS_DISABLED

record runner =
  rn_id :: string
  rn_name :: string
  rn_hostname :: string
  rn_platform :: "string option"
  rn_status :: runner_status
  rn_auth_token_hash :: "string option"
  rn_capabilities_json :: "string list"
  rn_last_seen_at :: "time option"
  rn_metadata_json :: dict

record agent =
  a_id :: string
  a_name :: string
  a_connector_type :: string
  a_endpoint :: "string option"
  a_http_method :: string
  a_health_check_url :: "string option"
  a_headers_json :: dict
  a_runner_id :: "string option"
  a_executable :: "string option"
  a_input_schema_json :: dict
  a_output_schema_json :: dict
  a_credential_id :: "string option"
  a_timeout_seconds :: int
  a_status :: string
  a_enabled :: bool
  a_description :: "string option"
  a_capabilities_json :: "json list"
  a_metadata_json :: dict
  a_last_checked_at :: "time option"
  a_last_latency_ms :: "int option"
  a_last_error :: "string option"

record service =
  s_id :: string
  s_name :: string
  s_base_url :: string
  s_credential_id :: "string option"
  s_health_check_url :: "string option"
  s_status :: string
  s_enabled :: bool
  s_description :: "string option"
  s_service_type :: string
  s_metadata_json :: dict
  s_last_checked_at :: "time option"
  s_last_latency_ms :: "int option"
  s_last_error :: "string option"

record service_action =
  sa_id :: string
  sa_service_id :: string
  sa_name :: string
  sa_method :: string
  sa_path :: string
  sa_headers_json :: dict
  sa_query_schema_json :: dict
  sa_path_schema_json :: dict
  sa_input_schema_json :: dict
  sa_output_schema_json :: dict
  sa_timeout_seconds :: int
  sa_retry_policy_json :: dict
  sa_enabled :: bool
  sa_description :: "string option"
  sa_metadata_json :: dict

record credential_row =
  cd_id :: string
  cd_name :: string
  cd_type :: string
  cd_encrypted_payload :: string

datatype workflow_status = WF_DRAFT | WF_ACTIVE | WF_ARCHIVED

record workflow =
  wf_id :: string
  wf_name :: string
  wf_description :: "string option"
  wf_status :: workflow_status
  wf_draft_graph_json :: json
  wf_graph_schema_version :: string
  wf_current_version :: "int option"
  wf_created_at :: time
  wf_updated_at :: time

record workflow_version =
  wv_id :: string
  wv_workflow_id :: string
  wv_version :: int
  wv_graph_schema_version :: string
  wv_graph_json :: json
  wv_change_note :: "string option"
  wv_created_at :: time

record artifact =
  ar_id :: string
  ar_workflow_run_id :: string
  ar_producer_node_run_id :: string
  ar_type :: string
  ar_name :: string
  ar_uri :: string
  ar_size :: "int option"
  ar_content_type :: "string option"
  ar_metadata_json :: dict
  ar_created_at :: time

record db =
  runs :: "workflow_run list"
  node_runs :: "node_run list"
  tasks :: "execution_task list"
  new_tasks :: "execution_task list"
  events :: "run_event list"
  workspaces :: "workspace list"
  runners :: "runner list"
  agents :: "agent list"
  services :: "service list"
  service_actions :: "service_action list"
  credentials :: "credential_row list"
  workflows :: "workflow list"
  workflow_versions :: "workflow_version list"
  artifacts :: "artifact list"
  uuids :: nat

definition empty_db :: db where
  "empty_db = \<lparr> runs = [], node_runs = [], tasks = [], new_tasks = [], events = [], workspaces = [],
     runners = [], agents = [], services = [], service_actions = [], credentials = [], workflows = [],
     workflow_versions = [], artifacts = [], uuids = 0 \<rparr>"

section \<open>Lookups and assignments\<close>

definition get_run :: "string \<Rightarrow> db \<Rightarrow> workflow_run option" where
  "get_run k d = row_get r_id k (runs d)"

definition upd_run :: "string \<Rightarrow> (workflow_run \<Rightarrow> workflow_run) \<Rightarrow> db \<Rightarrow> db" where
  "upd_run k f d = d\<lparr> runs := row_upd r_id k f (runs d) \<rparr>"

definition get_node :: "string \<Rightarrow> db \<Rightarrow> node_run option" where
  "get_node k d = row_get nr_id k (node_runs d)"

definition upd_node :: "string \<Rightarrow> (node_run \<Rightarrow> node_run) \<Rightarrow> db \<Rightarrow> db" where
  "upd_node k f d = d\<lparr> node_runs := row_upd nr_id k f (node_runs d) \<rparr>"

definition get_task :: "string \<Rightarrow> db \<Rightarrow> execution_task option" where
  "get_task k d = row_get t_id k (tasks d)"

definition upd_task :: "string \<Rightarrow> (execution_task \<Rightarrow> execution_task) \<Rightarrow> db \<Rightarrow> db" where
  "upd_task k f d = d\<lparr> tasks := row_upd t_id k f (tasks d) \<rparr>"

definition get_workspace_row :: "string \<Rightarrow> db \<Rightarrow> workspace option" where
  "get_workspace_row k d = row_get ws_id k (workspaces d)"

definition upd_workspace :: "string \<Rightarrow> (workspace \<Rightarrow> workspace) \<Rightarrow> db \<Rightarrow> db" where
  "upd_workspace k f d = d\<lparr> workspaces := row_upd ws_id k f (workspaces d) \<rparr>"

definition get_runner_row :: "string \<Rightarrow> db \<Rightarrow> runner option" where
  "get_runner_row k d = row_get rn_id k (runners d)"

definition upd_runner :: "string \<Rightarrow> (runner \<Rightarrow> runner) \<Rightarrow> db \<Rightarrow> db" where
  "upd_runner k f d = d\<lparr> runners := row_upd rn_id k f (runners d) \<rparr>"

definition get_task_by_node_run :: "string \<Rightarrow> db \<Rightarrow> execution_task option" where
  "get_task_by_node_run nid d = row_get t_node_run_id nid (tasks d)"

definition list_node_runs :: "string \<Rightarrow> db \<Rightarrow> node_run list" where
  "list_node_runs rid d = filter (\<lambda>n. nr_workflow_run_id n = rid) (node_runs d)"

definition list_tasks_for_run :: "string \<Rightarrow> db \<Rightarrow> execution_task list" where
  "list_tasks_for_run rid d = filter (\<lambda>t. t_workflow_run_id t = rid) (tasks d)"

interpretation run_table: keyed_table get_run upd_run r_id
  by unfold_locales (unfold get_run_def upd_run_def, erule row_get_key, simp add: row_get_upd)

interpretation node_table: keyed_table get_node upd_node nr_id
  by unfold_locales (unfold get_node_def upd_node_def, erule row_get_key, simp add: row_get_upd)

interpretation task_table: keyed_table get_task upd_task t_id
  by unfold_locales (unfold get_task_def upd_task_def, erule row_get_key, simp add: row_get_upd)

interpretation workspace_table: keyed_table get_workspace_row upd_workspace ws_id
  by unfold_locales (unfold get_workspace_row_def upd_workspace_def, erule row_get_key, simp add: row_get_upd)

interpretation runner_table: keyed_table get_runner_row upd_runner rn_id
  by unfold_locales (unfold get_runner_row_def upd_runner_def, erule row_get_key, simp add: row_get_upd)

section \<open>Events, identifiers, transactions\<close>

definition record_event ::
  "time \<Rightarrow> string \<Rightarrow> string option \<Rightarrow> run_event_type \<Rightarrow> string option \<Rightarrow> dict \<Rightarrow> db \<Rightarrow> db" where
  "record_event now rid nid ty msg payload d =
     d\<lparr> events := events d @ [\<lparr> ev_workflow_run_id = rid, ev_node_run_id = nid, ev_event_type = ty,
          ev_message = msg, ev_payload_json = payload, ev_created_at = now \<rparr>] \<rparr>"

text \<open>\<open>str(uuid4())\<close>: the next identifier of the supply.\<close>

definition uuid4 :: "lib \<Rightarrow> db \<Rightarrow> string \<times> db" where
  "uuid4 L d = (lib_uuid4 L (uuids d), d\<lparr> uuids := Suc (uuids d) \<rparr>)"

text \<open>
  The constraints the \<open>INSERT\<close> of an Execution Task meets: \<open>UNIQUE(node_run_id)\<close> and the
  foreign key on \<open>runners\<close>.
\<close>

definition task_insert_ok :: "db \<Rightarrow> execution_task \<Rightarrow> bool" where
  "task_insert_ok d t \<longleftrightarrow>
     get_task_by_node_run (t_node_run_id t) d = None
     \<and> (case t_runner_id t of None \<Rightarrow> True | Some k \<Rightarrow> get_runner_row k d \<noteq> None)"

definition insert_task :: "db \<Rightarrow> execution_task \<Rightarrow> exn + db" where
  "insert_task d t =
     (if task_insert_ok d t then Inr (d\<lparr> tasks := tasks d @ [t] \<rparr>) else Inl (PyError ''IntegrityError''))"

definition flush :: "db \<Rightarrow> exn + db" where
  "flush d = foldM insert_task (d\<lparr> new_tasks := [] \<rparr>) (new_tasks d)"

text \<open>
  A transaction: the body runs on the committed state; a raised exception leaves that
  state as it was, otherwise the session is flushed and its state becomes the committed one.
\<close>

definition transact :: "db \<Rightarrow> exn + db \<times> 'a \<Rightarrow> (exn + 'a) \<times> db" where
  "transact old body =
     (case body of Inl e \<Rightarrow> (Inl e, old)
      | Inr (d, x) \<Rightarrow> (case flush d of Inl e \<Rightarrow> (Inl e, old) | Inr d' \<Rightarrow> (Inr x, d')))"

text \<open>Two commits in a row: what the first one wrote stays even when the second part raises.\<close>

definition then_transact :: "(exn + 'a) \<times> db \<Rightarrow> ('a \<Rightarrow> db \<Rightarrow> exn + db \<times> 'b) \<Rightarrow> (exn + 'b) \<times> db" where
  "then_transact first body =
     (case first of (Inl e, d) \<Rightarrow> (Inl e, d) | (Inr x, d) \<Rightarrow> transact d (body x d))"

lemma flush_no_new: "new_tasks d = [] \<Longrightarrow> flush d = Inr d"
  by (simp add: flush_def)

lemma transact_Inl: "transact old (Inl e) = (Inl e, old)"
  by (simp add: transact_def)

lemma transact_no_new: "new_tasks d = [] \<Longrightarrow> transact old (Inr (d, x)) = (Inr x, d)"
  by (simp add: transact_def flush_no_new)

text \<open>What a lookup sees after each kind of write.\<close>

lemma get_run_frames [rows]:
  "get_run k (upd_node k1 f1 d) = get_run k d"
  "get_run k (upd_task k2 f2 d) = get_run k d"
  "get_run k (upd_workspace k3 f3 d) = get_run k d"
  "get_run k (upd_runner k4 f4 d) = get_run k d"
  "get_run k (record_event now rid nid ty msg p d) = get_run k d"
  by (simp_all add: get_run_def upd_node_def upd_task_def upd_workspace_def upd_runner_def record_event_def)

lemma get_node_frames [rows]:
  "get_node k (upd_run k1 f1 d) = get_node k d"
  "get_node k (upd_task k2 f2 d) = get_node k d"
  "get_node k (upd_workspace k3 f3 d) = get_node k d"
  "get_node k (upd_runner k4 f4 d) = get_node k d"
  "get_node k (record_event now rid nid ty msg p d) = get_node k d"
  by (simp_all add: get_node_def upd_run_def upd_task_def upd_workspace_def upd_runner_def record_event_def)

lemma get_task_frames [rows]:
  "get_task k (upd_run k1 f1 d) = get_task k d"
  "get_task k (upd_node k2 f2 d) = get_task k d"
  "get_task k (upd_workspace k3 f3 d) = get_task k d"
  "get_task k (upd_runner k4 f4 d) = get_task k d"
  "get_task k (record_event now rid nid ty msg p d) = get_task k d"
  by (simp_all add: get_task_def upd_run_def upd_node_def upd_workspace_def upd_runner_def record_event_def)

end
