(* ===== verification/Invariant.thy ===== *)
theory Invariant
  imports Store
begin

text \<open>
  The invariant of the shared database. \<open>link\<close> says which Execution Task a Node Run in a
  given status has; \<open>leased\<close> ties the lease columns of a task to its status; \<open>db_inv\<close>
  collects them with the uniqueness and foreign-key facts the tables declare and with
  the freshness of the identifier supply. \<open>settle\<close> is the state a session has once its
  new tasks are flushed: the invariant of a session in the middle of a transaction is
  the invariant of the settled state.
\<close>

fun link :: "execution_task_status option \<Rightarrow> node_run_status \<Rightarrow> bool" where
  "link t N_PENDING = (t = None)"
| "link t N_SKIPPED = (t = None)"
| "link t N_QUEUED = (t \<in> {Some T_PENDING, Some T_CLAIMED})"
| "link t N_RUNNING = (t \<in> {Some T_PENDING, Some T_CLAIMED, Some T_RUNNING})"
| "link t N_RETRYING = (t = Some T_RETRY_WAIT)"
| "link t N_WAITING = (t = Some T_COMPLETED)"
| "link t N_COMPLETED = (t \<in> {None, Some T_COMPLETED})"
| "link t N_FAILED = (t \<in> {Some T_FAILED, Some T_COMPLETED})"
| "link t N_CANCELLED = (t \<in> {None, Some T_CANCELLED, Some T_COMPLETED})"

definition leased :: "execution_task \<Rightarrow> bool" where
  "leased t \<longleftrightarrow>
     (t_status t \<in> {T_CLAIMED, T_RUNNING} \<longrightarrow>
        t_locked_by t \<noteq> None \<and> t_lease_token t \<noteq> None \<and> t_lease_expires_at t \<noteq> None)
     \<and> (t_status t \<in> {T_PENDING, T_RETRY_WAIT} \<longrightarrow>
        t_locked_by t = None \<and> t_lease_token t = None \<and> t_lease_expires_at t = None)"

definition unique_rows :: "db \<Rightarrow> bool" where
  "unique_rows d \<longleftrightarrow>
     distinct (map r_id (runs d)) \<and> distinct (map nr_id (node_runs d))
     \<and> distinct (map t_id (tasks d)) \<and> distinct (map t_node_run_id (tasks d))
     \<and> distinct (map (\<lambda>n. (nr_workflow_run_id n, nr_node_id n)) (node_runs d))"

definition refs_ok :: "db \<Rightarrow> bool" where
  "refs_ok d \<longleftrightarrow>
     (\<forall>tid t. get_task tid d = Some t \<longrightarrow>
        (\<exists>n. get_node (t_node_run_id t) d = Some n \<and> nr_workflow_run_id n = t_workflow_run_id t))
     \<and> (\<forall>nid n. get_node nid d = Some n \<longrightarrow> get_run (nr_workflow_run_id n) d \<noteq> None)"

definition linked :: "db \<Rightarrow> bool" where
  "linked d \<longleftrightarrow>
     (\<forall>nid n. get_node nid d = Some n \<longrightarrow>
        link (map_option t_status (get_task_by_node_run nid d)) (nr_status n))"

definition leases_ok :: "db \<Rightarrow> bool" where
  "leases_ok d \<longleftrightarrow> (\<forall>tid t. get_task tid d = Some t \<longrightarrow> leased t)"

definition issued :: "lib \<Rightarrow> db \<Rightarrow> string set" where
  "issued L d = lib_uuid4 L ` {..<uuids d}"

definition ids_issued :: "lib \<Rightarrow> db \<Rightarrow> bool" where
  "ids_issued L d \<longleftrightarrow>
     r_id ` set (runs d) \<subseteq> issued L d \<and> nr_id ` set (node_runs d) \<subseteq> issued L d
     \<and> t_id ` set (tasks d) \<subseteq> issued L d
     \<and> (\<forall>t\<in>set (tasks d). \<forall>k. t_lease_token t = Some k \<longrightarrow> k \<in> issued L d)"

definition db_inv :: "lib \<Rightarrow> db \<Rightarrow> bool" where
  "db_inv L d \<longleftrightarrow> unique_rows d \<and> refs_ok d \<and> linked d \<and> leases_ok d \<and> ids_issued L d \<and> new_tasks d = []"

definition settle :: "db \<Rightarrow> db" where
  "settle d = d\<lparr> tasks := tasks d @ new_tasks d, new_tasks := [] \<rparr>"

section \<open>Lookups under the invariant\<close>

lemma get_task_key: "get_task k d = Some t \<Longrightarrow> t_id t = k"
  by (rule task_table.get_key)

lemma get_node_key: "get_node k d = Some n \<Longrightarrow> nr_id n = k"
  by (rule node_table.get_key)

lemma get_run_key: "get_run k d = Some r \<Longrightarrow> r_id r = k"
  by (rule run_table.get_key)

lemma task_by_node_upd_task:
  assumes "\<And>t. t_node_run_id (f t) = t_node_run_id t"
  shows "get_task_by_node_run nid (upd_task tid f d) =
    map_option (\<lambda>t. if t_id t = tid then f t else t) (get_task_by_node_run nid d)"
  using assms by (simp add: get_task_by_node_run_def upd_task_def row_get_upd_other)

lemma task_by_node_frames [rows]:
  "get_task_by_node_run nid (upd_run k1 f1 d) = get_task_by_node_run nid d"
  "get_task_by_node_run nid (upd_node k2 f2 d) = get_task_by_node_run nid d"
  "get_task_by_node_run nid (upd_workspace k3 f3 d) = get_task_by_node_run nid d"
  "get_task_by_node_run nid (upd_runner k4 f4 d) = get_task_by_node_run nid d"
  "get_task_by_node_run nid (record_event now rid n' ty msg p d) = get_task_by_node_run nid d"
  by (simp_all add: get_task_by_node_run_def upd_run_def upd_node_def upd_workspace_def
      upd_runner_def record_event_def)

lemma task_by_node:
  "unique_rows d \<Longrightarrow> get_task tid d = Some t \<Longrightarrow> get_task_by_node_run (t_node_run_id t) d = Some t"
  unfolding unique_rows_def get_task_def get_task_by_node_run_def
  by (auto intro: row_get_distinct dest: row_get_in)

lemma task_by_node_id:
  "unique_rows d \<Longrightarrow> get_task_by_node_run nid d = Some t \<Longrightarrow> get_task (t_id t) d = Some t \<and> t_node_run_id t = nid"
  unfolding unique_rows_def get_task_def get_task_by_node_run_def
  by (auto intro: row_get_distinct dest: row_get_in row_get_key)

lemma get_task_in: "unique_rows d \<Longrightarrow> t \<in> set (tasks d) \<longleftrightarrow> get_task (t_id t) d = Some t"
  unfolding unique_rows_def get_task_def by (auto intro: row_get_distinct dest: row_get_in)

lemma get_node_in: "unique_rows d \<Longrightarrow> n \<in> set (node_runs d) \<longleftrightarrow> get_node (nr_id n) d = Some n"
  unfolding unique_rows_def get_node_def by (auto intro: row_get_distinct dest: row_get_in)

lemma task_node_link:
  assumes "db_inv L d" "get_task tid d = Some t"
  obtains n where "get_node (t_node_run_id t) d = Some n" "link (Some (t_status t)) (nr_status n)"
    "nr_workflow_run_id n = t_workflow_run_id t"
proof -
  from assms obtain n where n: "get_node (t_node_run_id t) d = Some n" "nr_workflow_run_id n = t_workflow_run_id t"
    unfolding db_inv_def refs_ok_def by blast
  from assms have "get_task_by_node_run (t_node_run_id t) d = Some t"
    by (simp add: db_inv_def task_by_node)
  moreover from assms n have "link (map_option t_status (get_task_by_node_run (t_node_run_id t) d)) (nr_status n)"
    unfolding db_inv_def linked_def by blast
  ultimately show ?thesis using n that by simp
qed

text \<open>The node status a live task implies, and the task a node status implies.\<close>

lemma link_cases:
  "link (Some T_PENDING) s \<longleftrightarrow> s \<in> {N_QUEUED, N_RUNNING}"
  "link (Some T_CLAIMED) s \<longleftrightarrow> s \<in> {N_QUEUED, N_RUNNING}"
  "link (Some T_RUNNING) s \<longleftrightarrow> s = N_RUNNING"
  "link (Some T_RETRY_WAIT) s \<longleftrightarrow> s = N_RETRYING"
  "link (Some T_COMPLETED) s \<longleftrightarrow> s \<in> {N_WAITING, N_COMPLETED, N_FAILED, N_CANCELLED}"
  "link (Some T_FAILED) s \<longleftrightarrow> s = N_FAILED"
  "link (Some T_CANCELLED) s \<longleftrightarrow> s = N_CANCELLED"
  by (cases s; simp)+

section \<open>Preservation by the elementary writes\<close>

definition task_frame :: "(execution_task \<Rightarrow> execution_task) \<Rightarrow> bool" where
  "task_frame f \<longleftrightarrow>
     (\<forall>t. t_id (f t) = t_id t \<and> t_node_run_id (f t) = t_node_run_id t \<and> t_workflow_run_id (f t) = t_workflow_run_id t)"

definition node_frame :: "(node_run \<Rightarrow> node_run) \<Rightarrow> bool" where
  "node_frame g \<longleftrightarrow>
     (\<forall>n. nr_id (g n) = nr_id n \<and> nr_workflow_run_id (g n) = nr_workflow_run_id n \<and> nr_node_id (g n) = nr_node_id n)"

lemma upd_task_id: "task_frame f \<Longrightarrow> unique_rows d \<Longrightarrow> unique_rows (upd_task tid f d)"
  by (simp add: task_frame_def unique_rows_def upd_task_def map_row_upd)

lemma upd_node_unique: "node_frame g \<Longrightarrow> unique_rows d \<Longrightarrow> unique_rows (upd_node nid g d)"
  by (simp add: node_frame_def unique_rows_def upd_node_def map_row_upd)

lemma refs_ok_upd_task:
  assumes "task_frame f" "refs_ok d"
  shows "refs_ok (upd_task tid f d)"
proof -
  have get: "get_task k (upd_task tid f d) = (if k = tid then map_option f (get_task k d) else get_task k d)" for k
    using assms(1) by (intro task_table.get_upd) (simp add: task_frame_def)
  show ?thesis
    using assms unfolding refs_ok_def get by (auto simp: rows task_frame_def split: if_splits)
qed

lemma get_upd_node:
  "node_frame g \<Longrightarrow>
   get_node k (upd_node nid g d) = (if k = nid then map_option g (get_node k d) else get_node k d)"
  by (intro node_table.get_upd) (simp add: node_frame_def)

lemma get_upd_task:
  "task_frame f \<Longrightarrow>
   get_task k (upd_task tid f d) = (if k = tid then map_option f (get_task k d) else get_task k d)"
  by (intro task_table.get_upd) (simp add: task_frame_def)

lemma refs_ok_upd_node:
  assumes "node_frame g" "refs_ok d"
  shows "refs_ok (upd_node nid g d)"
proof -
  have "\<exists>n. get_node (t_node_run_id t) (upd_node nid g d) = Some n \<and> nr_workflow_run_id n = t_workflow_run_id t"
    if t: "get_task tid d = Some t" for tid t
  proof -
    from assms(2) t obtain n where "get_node (t_node_run_id t) d = Some n" "nr_workflow_run_id n = t_workflow_run_id t"
      unfolding refs_ok_def by blast
    with assms(1) show ?thesis by (cases "t_node_run_id t = nid") (auto simp: get_upd_node node_frame_def)
  qed
  moreover have "get_run (nr_workflow_run_id m) d \<noteq> None" if m: "get_node k (upd_node nid g d) = Some m" for k m
  proof -
    from m obtain n where "get_node k d = Some n" "nr_workflow_run_id n = nr_workflow_run_id m"
      using assms(1) by (auto simp: get_upd_node node_frame_def split: if_splits)
    with assms(2) show ?thesis unfolding refs_ok_def by metis
  qed
  ultimately show ?thesis by (simp add: refs_ok_def rows)
qed

lemma leases_ok_upd_task:
  assumes "task_frame f" "leases_ok d" "\<And>t. get_task tid d = Some t \<Longrightarrow> leased (f t)"
  shows "leases_ok (upd_task tid f d)"
  using assms unfolding leases_ok_def get_upd_task [OF assms(1)] by (auto split: if_splits)

lemma ids_issued_upd_task:
  assumes "task_frame f" "ids_issued L d"
    and "\<And>t k. t_lease_token (f t) = Some k \<Longrightarrow> t_lease_token t = Some k \<or> k \<in> issued L d"
  shows "ids_issued L (upd_task tid f d)"
proof -
  have ids: "t_id ` set (tasks (upd_task tid f d)) = t_id ` set (tasks d)"
    using assms(1) by (simp add: upd_task_def image_row_upd task_frame_def)
  have "issued L (upd_task tid f d) = issued L d" by (simp add: issued_def upd_task_def)
  moreover have "k \<in> issued L d" if "t \<in> set (tasks (upd_task tid f d))" "t_lease_token t = Some k" for t k
  proof -
    from that(1) obtain t' where "t' \<in> set (tasks d)" "t = f t' \<or> t = t'"
      by (auto simp: upd_task_def set_row_upd)
    with assms(3) [of t' k] that(2) have "t_lease_token t' = Some k \<or> k \<in> issued L d" by auto
    with assms(2) \<open>t' \<in> set (tasks d)\<close> show ?thesis by (auto simp: ids_issued_def)
  qed
  moreover have "runs (upd_task tid f d) = runs d" "node_runs (upd_task tid f d) = node_runs d"
    by (simp_all add: upd_task_def)
  ultimately show ?thesis
    using assms(2) ids unfolding ids_issued_def by (simp del: image_subset_iff)
qed

text \<open>
  The elementary step of every operation on a task: the task row and its node row change
  together, and the pair of new statuses is again linked.
\<close>

lemma db_inv_move:
  assumes inv: "db_inv L d" and t: "get_task tid d = Some t" and n: "get_node (t_node_run_id t) d = Some n"
    and f: "task_frame f" and g: "node_frame g"
    and link: "link (Some (t_status (f t))) (nr_status (g n))" and leased: "leased (f t)"
    and token: "\<And>t k. t_lease_token (f t) = Some k \<Longrightarrow> t_lease_token t = Some k \<or> k \<in> issued L d"
  shows "db_inv L (upd_node (t_node_run_id t) g (upd_task tid f d))"
proof -
  let ?d = "upd_node (t_node_run_id t) g (upd_task tid f d)"
  have u: "unique_rows d" using inv by (simp add: db_inv_def)
  have tid: "t_id t = tid" using t by (rule get_task_key)
  have "linked ?d"
    unfolding linked_def
  proof (intro allI impI)
    fix nid m assume m: "get_node nid ?d = Some m"
    show "link (map_option t_status (get_task_by_node_run nid ?d)) (nr_status m)"
    proof (cases "nid = t_node_run_id t")
      case True
      with m n g have "m = g n" by (simp add: get_upd_node rows)
      moreover have "get_task_by_node_run nid ?d = Some (f t)"
        using f True task_by_node [OF u t] tid by (simp add: rows task_by_node_upd_task task_frame_def)
      ultimately show ?thesis using link by simp
    next
      case False
      have same: "get_task_by_node_run nid ?d = get_task_by_node_run nid d"
      proof (cases "get_task_by_node_run nid d")
        case (Some t')
        then have "t_id t' \<noteq> tid" using task_by_node_id [OF u Some] t False by auto
        with Some f show ?thesis by (simp add: rows task_by_node_upd_task task_frame_def)
      qed (use f in \<open>simp add: rows task_by_node_upd_task task_frame_def\<close>)
      from m False g have "get_node nid d = Some m" by (simp add: get_upd_node rows)
      with inv same show ?thesis by (simp add: db_inv_def linked_def)
    qed
  qed
  moreover have "leases_ok ?d"
    using leases_ok_upd_task [OF f, of d tid] inv leased t
    by (simp add: db_inv_def leases_ok_def rows)
  moreover have "ids_issued L ?d"
    using ids_issued_upd_task [OF f _ token] inv g
    by (simp add: db_inv_def ids_issued_def upd_node_def issued_def image_row_upd node_frame_def upd_task_def)
  moreover have "new_tasks ?d = []" using inv by (simp add: db_inv_def upd_node_def upd_task_def)
  ultimately show ?thesis
    using inv f g by (simp add: db_inv_def upd_task_id upd_node_unique refs_ok_upd_node refs_ok_upd_task)
qed

lemma upd_node_id_unchanged: "upd_node nid id d = d"
  by (simp add: upd_node_def)

lemma db_inv_upd_task:
  assumes "db_inv L d" "get_task tid d = Some t" "task_frame f"
    and "\<And>s. link (Some (t_status t)) s \<Longrightarrow> link (Some (t_status (f t))) s"
    and "leased (f t)"
    and "\<And>t k. t_lease_token (f t) = Some k \<Longrightarrow> t_lease_token t = Some k \<or> k \<in> issued L d"
  shows "db_inv L (upd_task tid f d)"
proof -
  obtain n where n: "get_node (t_node_run_id t) d = Some n" "link (Some (t_status t)) (nr_status n)"
    using task_node_link [OF assms(1,2)] .
  have "db_inv L (upd_node (t_node_run_id t) id (upd_task tid f d))"
    by (rule db_inv_move [OF assms(1,2) n(1) assms(3)]) (use assms n in \<open>auto simp: node_frame_def\<close>)
  then show ?thesis by (simp add: upd_node_id_unchanged)
qed

lemma db_inv_upd_node:
  assumes inv: "db_inv L d" and n: "get_node nid d = Some n" and g: "node_frame g"
    and link: "link (map_option t_status (get_task_by_node_run nid d)) (nr_status (g n))"
  shows "db_inv L (upd_node nid g d)"
proof -
  have "linked (upd_node nid g d)"
    using inv n link unfolding linked_def get_upd_node [OF g] db_inv_def by (auto simp: rows split: if_splits)
  moreover have "ids_issued L (upd_node nid g d)" "leases_ok (upd_node nid g d)" "new_tasks (upd_node nid g d) = []"
    using inv g by (simp_all add: db_inv_def ids_issued_def leases_ok_def upd_node_def issued_def get_task_def
        image_row_upd node_frame_def)
  ultimately show ?thesis
    using inv g by (simp add: db_inv_def upd_node_unique refs_ok_upd_node)
qed

text \<open>Writes the invariant does not look at.\<close>

lemma db_inv_record_event [simp]: "db_inv L (record_event now rid nid ty msg p d) = db_inv L d"
  by (simp add: db_inv_def unique_rows_def refs_ok_def linked_def leases_ok_def ids_issued_def issued_def
      record_event_def get_task_def get_node_def get_run_def get_task_by_node_run_def)

lemma db_inv_workspaces [simp]: "db_inv L (d\<lparr> workspaces := w \<rparr>) = db_inv L d"
  by (simp add: db_inv_def unique_rows_def refs_ok_def linked_def leases_ok_def ids_issued_def issued_def
      get_task_def get_node_def get_run_def get_task_by_node_run_def)

lemma db_inv_runners [simp]: "db_inv L (d\<lparr> runners := w \<rparr>) = db_inv L d"
  by (simp add: db_inv_def unique_rows_def refs_ok_def linked_def leases_ok_def ids_issued_def issued_def
      get_task_def get_node_def get_run_def get_task_by_node_run_def)

lemma db_inv_artifacts [simp]: "db_inv L (d\<lparr> artifacts := w \<rparr>) = db_inv L d"
  by (simp add: db_inv_def unique_rows_def refs_ok_def linked_def leases_ok_def ids_issued_def issued_def
      get_task_def get_node_def get_run_def get_task_by_node_run_def)

lemma db_inv_upd_run:
  assumes "\<And>r. r_id (f r) = r_id r"
  shows "db_inv L (upd_run rid f d) = db_inv L d"
proof -
  have "(get_run k (upd_run rid f d) = None) = (get_run k d = None)" for k
    using assms by (rule run_table.upd_keeps_dom)
  moreover have "r_id ` set (runs (upd_run rid f d)) = r_id ` set (runs d)"
    using assms by (simp add: upd_run_def image_row_upd)
  moreover have "map r_id (runs (upd_run rid f d)) = map r_id (runs d)"
    using assms by (simp add: upd_run_def map_row_upd)
  ultimately show ?thesis
    by (simp add: db_inv_def unique_rows_def refs_ok_def linked_def leases_ok_def ids_issued_def issued_def
        upd_run_def get_task_def get_node_def get_task_by_node_run_def)
qed

lemma db_inv_uuid: "db_inv L d \<Longrightarrow> db_inv L (snd (uuid4 L d))"
proof -
  have "issued L d \<subseteq> issued L (snd (uuid4 L d))" by (auto simp: issued_def uuid4_def)
  then show "db_inv L d \<Longrightarrow> db_inv L (snd (uuid4 L d))"
    by (auto simp: db_inv_def unique_rows_def refs_ok_def linked_def leases_ok_def ids_issued_def
        uuid4_def get_task_def get_node_def get_run_def get_task_by_node_run_def)
qed

lemma uuid4_fresh: "inj (lib_uuid4 L) \<Longrightarrow> fst (uuid4 L d) \<notin> issued L d"
  by (auto simp: issued_def uuid4_def dest: injD)

lemma uuid4_issued: "fst (uuid4 L d) \<in> issued L (snd (uuid4 L d))"
  by (simp add: issued_def uuid4_def)

end
