(* ===== verification/Progress.thy ===== *)
theory Progress
  imports Invariant "HOL-Library.Sublist"
begin

text \<open>
  What an operation may do to rows that already exist. \<open>progress d d'\<close> is the abstract
  specification every state-changing operation of the system refines: rows never
  disappear, identities, snapshots and payloads never change, statuses move along the
  transition tables, a terminal row keeps its result, and the event log only grows.
\<close>

definition node_result where
  "node_result n = (nr_status n, nr_output_json n, nr_error_json n, nr_execution_metadata_json n,
     nr_artifact_refs_json n, nr_finished_at n)"

definition node_step :: "node_run \<Rightarrow> node_run \<Rightarrow> bool" where
  "node_step n n' \<longleftrightarrow>
     nr_id n' = nr_id n \<and> nr_workflow_run_id n' = nr_workflow_run_id n \<and> nr_node_id n' = nr_node_id n
     \<and> nr_node_type n' = nr_node_type n \<and> nr_node_subtype n' = nr_node_subtype n
     \<and> node_fsm.history (nr_status n) (nr_status n')
     \<and> (is_node_run_terminal (nr_status n) \<longrightarrow> node_result n' = node_result n)"

definition task_step :: "execution_task \<Rightarrow> execution_task \<Rightarrow> bool" where
  "task_step t t' \<longleftrightarrow>
     t_id t' = t_id t \<and> t_workflow_run_id t' = t_workflow_run_id t \<and> t_node_run_id t' = t_node_run_id t
     \<and> t_payload_json t' = t_payload_json t \<and> t_max_attempts t' = t_max_attempts t
     \<and> t_priority t' = t_priority t \<and> t_required_capability t' = t_required_capability t
     \<and> t_attempt t \<le> t_attempt t'
     \<and> task_fsm.history (t_status t) (t_status t')
     \<and> (is_execution_task_terminal (t_status t) \<longrightarrow> t' = t)"

definition run_step :: "workflow_run \<Rightarrow> workflow_run \<Rightarrow> bool" where
  "run_step r r' \<longleftrightarrow>
     r_id r' = r_id r \<and> r_workflow_version_id r' = r_workflow_version_id r
     \<and> r_graph_snapshot_json r' = r_graph_snapshot_json r
     \<and> r_execution_snapshot_json r' = r_execution_snapshot_json r
     \<and> r_input_json r' = r_input_json r \<and> r_variables_json r' = r_variables_json r
     \<and> run_fsm.history (r_status r) (r_status r')
     \<and> (is_workflow_run_terminal (r_status r) \<longrightarrow> r' = r\<lparr> r_waiting_reason := r_waiting_reason r' \<rparr>)"

definition progress :: "db \<Rightarrow> db \<Rightarrow> bool" where
  "progress d d' \<longleftrightarrow>
     (\<forall>k n. get_node k d = Some n \<longrightarrow> (\<exists>n'. get_node k d' = Some n' \<and> node_step n n'))
     \<and> (\<forall>k t. get_task k d = Some t \<longrightarrow> (\<exists>t'. get_task k d' = Some t' \<and> task_step t t'))
     \<and> (\<forall>k r. get_run k d = Some r \<longrightarrow> (\<exists>r'. get_run k d' = Some r' \<and> run_step r r'))
     \<and> prefix (events d) (events d')"

context lifecycle
begin

lemma history_trans: "history s t \<Longrightarrow> history t u \<Longrightarrow> history s u"
  by (rotate_tac, induction rule: history.induct) (auto intro: history.intros)

lemma history_one: "check s t = Inr () \<Longrightarrow> history s t"
  by (rule history.step [OF history.refl])

end

lemma node_step_refl [simp]: "node_step n n"
  by (simp add: node_step_def node_fsm.history.refl)

lemma task_step_refl [simp]: "task_step t t"
  by (simp add: task_step_def task_fsm.history.refl)

lemma run_step_refl [simp]: "run_step r r"
  by (simp add: run_step_def run_fsm.history.refl)

lemma node_step_trans:
  assumes "node_step a b" "node_step b c"
  shows "node_step a c"
proof -
  have "node_fsm.history (nr_status a) (nr_status c)"
    using assms unfolding node_step_def by (blast intro: node_fsm.history_trans)
  moreover have "node_result c = node_result a" if "is_node_run_terminal (nr_status a)"
  proof -
    from assms(1) that have "node_result b = node_result a" by (simp add: node_step_def)
    moreover from this that assms(2) have "node_result c = node_result b"
      by (simp add: node_step_def node_result_def)
    ultimately show ?thesis by simp
  qed
  ultimately show ?thesis using assms by (simp add: node_step_def)
qed

lemma task_step_trans: "task_step a b \<Longrightarrow> task_step b c \<Longrightarrow> task_step a c"
  unfolding task_step_def by (auto intro: task_fsm.history_trans)

lemma run_step_trans: "run_step a b \<Longrightarrow> run_step b c \<Longrightarrow> run_step a c"
proof -
  assume ab: "run_step a b" and bc: "run_step b c"
  have "c = a\<lparr> r_waiting_reason := r_waiting_reason c \<rparr>" if t: "is_workflow_run_terminal (r_status a)"
  proof -
    have b: "b = a\<lparr> r_waiting_reason := r_waiting_reason b \<rparr>" using ab t by (simp add: run_step_def)
    then have "r_status b = r_status a" by (metis workflow_run.select_convs(5) workflow_run.surjective workflow_run.update_convs(12))
    then have "c = b\<lparr> r_waiting_reason := r_waiting_reason c \<rparr>" using bc t by (simp add: run_step_def)
    also have "\<dots> = a\<lparr> r_waiting_reason := r_waiting_reason c \<rparr>" by (subst b) simp
    finally show ?thesis .
  qed
  moreover have "run_fsm.history (r_status a) (r_status c)"
    using ab bc unfolding run_step_def by (blast intro: run_fsm.history_trans)
  ultimately show "run_step a c" using ab bc by (simp add: run_step_def)
qed

lemma progress_refl [simp]: "progress d d"
  by (simp add: progress_def)

lemma progress_trans:
  assumes "progress a b" "progress b c"
  shows "progress a c"
  using assms unfolding progress_def
  by (meson node_step_trans task_step_trans run_step_trans prefix_order.trans)

text \<open>One checked status change.\<close>

lemma node_step_status:
  assumes "transition_node_run (nr_status n) (nr_status n') = Inr ()"
    and "nr_id n' = nr_id n" "nr_workflow_run_id n' = nr_workflow_run_id n" "nr_node_id n' = nr_node_id n"
    and "nr_node_type n' = nr_node_type n" "nr_node_subtype n' = nr_node_subtype n"
  shows "node_step n n'"
  using assms node_fsm.history_one node_fsm.not_terminal_if_check by (auto simp: node_step_def)

lemma task_step_status:
  assumes "transition_execution_task (t_status t) (t_status t') = Inr ()"
    and "t_id t' = t_id t" "t_workflow_run_id t' = t_workflow_run_id t" "t_node_run_id t' = t_node_run_id t"
    and "t_payload_json t' = t_payload_json t" "t_max_attempts t' = t_max_attempts t"
    and "t_priority t' = t_priority t" "t_required_capability t' = t_required_capability t"
    and "t_attempt t \<le> t_attempt t'"
  shows "task_step t t'"
  using assms task_fsm.history_one task_fsm.not_terminal_if_check by (auto simp: task_step_def)

lemma run_step_status:
  assumes "transition_workflow_run (r_status r) (r_status r') = Inr ()"
    and "r_id r' = r_id r" "r_workflow_version_id r' = r_workflow_version_id r"
    and "r_graph_snapshot_json r' = r_graph_snapshot_json r"
    and "r_execution_snapshot_json r' = r_execution_snapshot_json r"
    and "r_input_json r' = r_input_json r" "r_variables_json r' = r_variables_json r"
  shows "run_step r r'"
  using assms run_fsm.history_one run_fsm.not_terminal_if_check by (auto simp: run_step_def)

text \<open>Elementary writes.\<close>

lemma progress_upd_node:
  assumes "\<And>n. get_node k d = Some n \<Longrightarrow> node_step n (g n)" and "\<And>n. nr_id (g n) = nr_id n"
  shows "progress d (upd_node k g d)"
proof -
  have "get_node j (upd_node k g d) = (if j = k then map_option g (get_node j d) else get_node j d)" for j
    using assms(2) by (rule node_table.get_upd)
  with assms(1) show ?thesis
    by (auto simp: progress_def rows) (simp add: upd_node_def)
qed

lemma progress_upd_task:
  assumes "\<And>t. get_task k d = Some t \<Longrightarrow> task_step t (f t)" and "\<And>t. t_id (f t) = t_id t"
  shows "progress d (upd_task k f d)"
proof -
  have "get_task j (upd_task k f d) = (if j = k then map_option f (get_task j d) else get_task j d)" for j
    using assms(2) by (rule task_table.get_upd)
  with assms(1) show ?thesis
    by (auto simp: progress_def rows) (simp add: upd_task_def)
qed

lemma progress_upd_run:
  assumes "\<And>r. get_run k d = Some r \<Longrightarrow> run_step r (f r)" and "\<And>r. r_id (f r) = r_id r"
  shows "progress d (upd_run k f d)"
proof -
  have "get_run j (upd_run k f d) = (if j = k then map_option f (get_run j d) else get_run j d)" for j
    using assms(2) by (rule run_table.get_upd)
  with assms(1) show ?thesis
    by (auto simp: progress_def rows) (simp add: upd_run_def)
qed

lemma progress_record_event: "progress d (record_event now rid nid ty msg p d)"
  by (auto simp: progress_def rows) (simp add: record_event_def)

text \<open>Insertions and the tables outside the execution core.\<close>

lemma progress_same_rows:
  assumes "runs d' = runs d @ rs" "node_runs d' = node_runs d @ ns" "tasks d' = tasks d @ ts"
    and "events d' = events d @ es"
  shows "progress d d'"
  using assms by (auto simp: progress_def get_run_def get_node_def get_task_def row_get_append)

lemma progress_tables [simp]:
  "progress d (d\<lparr> uuids := u \<rparr>)" "progress d (d\<lparr> workspaces := w \<rparr>)" "progress d (d\<lparr> runners := x \<rparr>)"
  "progress d (d\<lparr> artifacts := y \<rparr>)" "progress d (d\<lparr> new_tasks := z \<rparr>)"
  by (rule progress_same_rows [of _ _ "[]" "[]" "[]" "[]"]; simp)+

lemma progress_insert_task: "insert_task d t = Inr d' \<Longrightarrow> progress d d'"
  by (rule progress_same_rows [of _ _ "[]" "[]" "[t]" "[]"]) (auto simp: insert_task_def split: if_splits)

lemma progress_foldM:
  assumes "foldM f d xs = Inr d'" and "\<And>d x d'. x \<in> set xs \<Longrightarrow> f d x = Inr d' \<Longrightarrow> progress d d'"
  shows "progress d d'"
  by (rule foldM_invariant [where P = "progress d", OF assms(1)]) (use assms(2) progress_trans in auto)

lemma progress_flush:
  assumes "flush d = Inr d'"
  shows "progress d d'"
proof -
  have "progress (d\<lparr> new_tasks := [] \<rparr>) d'"
    using assms unfolding flush_def by (rule progress_foldM) (rule progress_insert_task)
  then show ?thesis by (rule progress_trans [OF progress_tables(5)])
qed

lemma progress_transact:
  assumes "\<And>d' x. body = Inr (d', x) \<Longrightarrow> progress d d'"
  shows "progress d (snd (transact d body))"
proof (cases body)
  case (Inr p)
  then obtain d' x where p: "body = Inr (d', x)" by (cases p) auto
  show ?thesis
    using progress_trans [OF assms [OF p] progress_flush] by (auto simp: transact_def p split: sum.splits)
qed (simp add: transact_def)

lemma progress_then_transact:
  assumes "progress d (snd first)" and "\<And>x e d'. body x (snd first) = Inr (d', e) \<Longrightarrow> progress (snd first) d'"
  shows "progress d (snd (then_transact first body))"
proof (cases first)
  case (Pair res d1)
  show ?thesis
  proof (cases res)
    case (Inr x)
    have "progress d1 (snd (transact d1 (body x d1)))"
      by (rule progress_transact) (use assms(2) Pair in auto)
    then show ?thesis using assms(1) Pair Inr by (auto simp: then_transact_def intro: progress_trans)
  qed (use Pair assms(1) in \<open>simp add: then_transact_def\<close>)
qed

end
