(* ===== verification/Fixtures.thy ===== *)
theory Fixtures
  imports Invariant
begin

text \<open>
  Concrete rows, a concrete instance of the library parameters and a small database that
  satisfies the invariant; the witnesses of the properties are evaluated on them.
\<close>

definition demo_run :: "workflow_run_status \<Rightarrow> workflow_run" where
  "demo_run s = \<lparr> r_id = ''u0'', r_workflow_id = ''wf'', r_workflow_version_id = ''wv'', r_version_number = 1,
     r_status = s, r_graph_schema_version = ''1.0'', r_graph_snapshot_json = JNull, r_execution_snapshot_json = [],
     r_input_json = [], r_variables_json = [], r_error_json = None, r_waiting_reason = None,
     r_waiting_metadata_json = [], r_started_at = None, r_finished_at = None, r_paused_at = None,
     r_cancelled_at = None, r_created_at = 0 \<rparr>"

definition demo_node :: "string \<Rightarrow> string \<Rightarrow> node_run_status \<Rightarrow> node_run" where
  "demo_node i k s = \<lparr> nr_id = i, nr_workflow_run_id = ''u0'', nr_node_id = k, nr_node_type = ''agent'',
     nr_node_subtype = ''http'', nr_node_name_snapshot = k, nr_status = s, nr_input_json = [], nr_output_json = None,
     nr_error_json = None, nr_execution_metadata_json = [], nr_artifact_refs_json = [], nr_attempt = 0,
     nr_waiting_reason = None, nr_waiting_metadata_json = [], nr_started_at = None, nr_finished_at = None,
     nr_created_at = 0 \<rparr>"

definition demo_task :: "string \<Rightarrow> string \<Rightarrow> execution_task_status \<Rightarrow> (string \<times> string \<times> time) option \<Rightarrow> execution_task" where
  "demo_task i n s lease = \<lparr> t_id = i, t_workflow_run_id = ''u0'', t_node_run_id = n, t_task_type = ''node_execution'',
     t_status = s, t_payload_json = [(''node_id'', JStr ''a'')], t_priority = 0, t_attempt = 0, t_max_attempts = 1,
     t_available_at = 0, t_locked_by = map_option fst lease, t_lease_token = map_option (fst \<circ> snd) lease,
     t_locked_at = None, t_lease_expires_at = map_option (snd \<circ> snd) lease, t_runner_id = None,
     t_required_capability = None, t_execution_key = None, t_last_error_json = None, t_started_at = None,
     t_finished_at = None, t_created_at = 0 \<rparr>"

definition demo_lib :: lib where
  "demo_lib = \<lparr> lib_decode_graph = (\<lambda>_. None), lib_dump_graph = (\<lambda>_. JNull), lib_int = py_int,
     lib_bool = (\<lambda>_. None), lib_check_schema = (\<lambda>_. True), lib_schema_errors = (\<lambda>_ _. []),
     lib_isoformat = str_int, lib_fromisoformat = parse_int, lib_repr = (\<lambda>_. []),
     lib_uuid4 = (\<lambda>n. CHR ''u'' # str_nat n), lib_token_urlsafe = (\<lambda>n. CHR ''k'' # str_nat n),
     lib_sha256 = (\<lambda>s. CHR ''#'' # s), lib_netloc_ok = (\<lambda>_. True),
     lib_getaddrinfo = (\<lambda>h. Some [h]), lib_ip_global = (\<lambda>a. Some (a \<noteq> ''127.0.0.1'')), lib_urljoin = append,
     lib_error_message = err_code, lib_error_details = (\<lambda>_. []) \<rparr>"

text \<open>A run with one node whose task is running under the lease \<open>u3\<close> of worker \<open>w\<close>, and one queued node.\<close>

definition demo_db :: db where
  "demo_db = empty_db\<lparr> runs := [demo_run W_RUNNING],
     node_runs := [demo_node ''u1'' ''a'' N_RUNNING, demo_node ''u4'' ''b'' N_QUEUED],
     tasks := [demo_task ''u2'' ''u1'' T_RUNNING (Some (''w'', ''u3'', 100)), demo_task ''u5'' ''u4'' T_PENDING None],
     uuids := 6 \<rparr>"

lemmas demo_rows = demo_run_def demo_node_def demo_task_def

lemmas demo_defs = demo_db_def demo_run_def demo_node_def demo_task_def empty_db_def

lemma demo_lookups:
  "get_task k demo_db = (if k = ''u2'' then Some (demo_task ''u2'' ''u1'' T_RUNNING (Some (''w'', ''u3'', 100)))
     else if k = ''u5'' then Some (demo_task ''u5'' ''u4'' T_PENDING None) else None)"
  "get_node k demo_db = (if k = ''u1'' then Some (demo_node ''u1'' ''a'' N_RUNNING)
     else if k = ''u4'' then Some (demo_node ''u4'' ''b'' N_QUEUED) else None)"
  "get_run k demo_db = (if k = ''u0'' then Some (demo_run W_RUNNING) else None)"
  "get_task_by_node_run k demo_db = (if k = ''u1'' then Some (demo_task ''u2'' ''u1'' T_RUNNING (Some (''w'', ''u3'', 100)))
     else if k = ''u4'' then Some (demo_task ''u5'' ''u4'' T_PENDING None) else None)"
  by (simp_all add: demo_defs get_task_def get_node_def get_run_def get_task_by_node_run_def row_get_Cons)

lemma demo_uuids: "map (lib_uuid4 demo_lib) [0..<10] =
    [''u0'', ''u1'', ''u2'', ''u3'', ''u4'', ''u5'', ''u6'', ''u7'', ''u8'', ''u9'']"
  by code_simp

lemma demo_issued: "uuids d \<le> 10 \<Longrightarrow> issued demo_lib d =
    set (take (uuids d) [''u0'', ''u1'', ''u2'', ''u3'', ''u4'', ''u5'', ''u6'', ''u7'', ''u8'', ''u9''])"
  unfolding demo_uuids [symmetric] issued_def take_map set_map by (simp add: lessThan_atLeast0)

lemma demo_inv: "db_inv demo_lib demo_db"
proof -
  have "unique_rows demo_db" by (simp add: unique_rows_def demo_defs)
  moreover have "refs_ok demo_db" by (auto simp: refs_ok_def demo_lookups demo_rows)
  moreover have "linked demo_db" by (auto simp: linked_def demo_lookups demo_rows)
  moreover have "leases_ok demo_db" by (auto simp: leases_ok_def leased_def demo_lookups demo_rows)
  moreover have "ids_issued demo_lib demo_db"
    by (simp add: ids_issued_def demo_issued demo_defs)
  ultimately show ?thesis by (simp add: db_inv_def demo_db_def empty_db_def)
qed

text \<open>The same run with both nodes queued and both tasks free.\<close>

definition demo_queue :: db where
  "demo_queue = empty_db\<lparr> runs := [demo_run W_RUNNING],
     node_runs := [demo_node ''u1'' ''a'' N_QUEUED, demo_node ''u4'' ''b'' N_QUEUED],
     tasks := [demo_task ''u2'' ''u1'' T_PENDING None, demo_task ''u5'' ''u4'' T_PENDING None],
     uuids := 6 \<rparr>"

lemma demo_queue_inv: "db_inv demo_lib demo_queue"
  by (auto simp: db_inv_def unique_rows_def refs_ok_def linked_def leases_ok_def leased_def ids_issued_def demo_issued
      get_run_def get_node_def get_task_def get_task_by_node_run_def row_get_def demo_queue_def demo_rows empty_db_def
      split: if_splits)

text \<open>One node waiting for its retry, one queued.\<close>

definition demo_retry :: db where
  "demo_retry = empty_db\<lparr> runs := [demo_run W_RUNNING],
     node_runs := [demo_node ''u1'' ''a'' N_RETRYING, demo_node ''u4'' ''b'' N_QUEUED],
     tasks := [demo_task ''u2'' ''u1'' T_RETRY_WAIT None, demo_task ''u5'' ''u4'' T_PENDING None],
     uuids := 6 \<rparr>"

lemma demo_retry_inv: "db_inv demo_lib demo_retry"
  by (auto simp: db_inv_def unique_rows_def refs_ok_def linked_def leases_ok_def leased_def ids_issued_def demo_issued
      get_run_def get_node_def get_task_def get_task_by_node_run_def row_get_def demo_retry_def demo_rows empty_db_def
      split: if_splits)

end
