(* ===== verification/Workspaces.thy ===== *)
theory Workspaces
  imports Progress Fixtures
begin

text \<open>
  Workspace records (\<^verbatim>\<open>domain/workspaces/service.py\<close>): created at scheduling time, finalised by
  the Runner's result, released by an operator, cleaned up by the Runner that owns them. The
  column \<open>updated_at\<close> follows every update of a row (\<open>onupdate=utc_now\<close>).
\<close>

definition workspace_branch :: "string \<Rightarrow> string \<Rightarrow> string" where
  "workspace_branch run_id node_id = ''relayvia/'' @ take 12 run_id @ ''/'' @ node_id"

text \<open>
  The constraints met by the \<open>INSERT\<close>: \<open>UNIQUE(node_run_id)\<close>, the \<open>CHECK\<close> on the type and the
  foreign key on \<open>runners\<close>. \<open>db.flush()\<close> also writes the tasks added before it.
\<close>

definition workspace_insert_ok :: "db \<Rightarrow> workspace \<Rightarrow> bool" where
  "workspace_insert_ok d ws \<longleftrightarrow>
     ws_node_run_id ws \<notin> ws_node_run_id ` set (workspaces d)
     \<and> ws_workspace_type ws \<in> {''local'', ''worktree''}
     \<and> (case ws_runner_id ws of None \<Rightarrow> True | Some k \<Rightarrow> get_runner_row k d \<noteq> None)"

definition create_workspace ::
  "lib \<Rightarrow> time \<Rightarrow> string \<Rightarrow> string \<Rightarrow> string \<Rightarrow> string \<Rightarrow> string \<Rightarrow> string \<Rightarrow> string option \<Rightarrow> string option \<Rightarrow>
   db \<Rightarrow> exn + db \<times> workspace" where
  "create_workspace L now workflow_run_id node_run_id node_id name repository strategy base_branch runner_id d =
     (let (wid, d) = uuid4 L d;
          ws = \<lparr> ws_id = wid, ws_name = name, ws_runner_id = runner_id, ws_repository = repository,
            ws_path = None, ws_branch = Some (workspace_branch workflow_run_id node_id),
            ws_base_branch = base_branch, ws_workspace_type = strategy, ws_status = WS_CREATING,
            ws_workflow_run_id = workflow_run_id, ws_node_run_id = node_run_id, ws_metadata_json = [],
            ws_created_at = now, ws_updated_at = now \<rparr> in
      ebind (flush d) (\<lambda>d.
        if workspace_insert_ok d ws then Inr (d\<lparr> workspaces := workspaces d @ [ws] \<rparr>, ws)
        else Inl (PyError ''IntegrityError'')))"

definition WORKSPACE_NOT_FOUND :: exn where
  "WORKSPACE_NOT_FOUND = RelayviaError ''WORKSPACE_NOT_FOUND'' 404"

definition get_workspace :: "string \<Rightarrow> db \<Rightarrow> exn + workspace" where
  "get_workspace wid d = (case get_workspace_row wid d of None \<Rightarrow> Inl WORKSPACE_NOT_FOUND | Some ws \<Rightarrow> Inr ws)"

definition list_workspaces :: "string option \<Rightarrow> nat option \<Rightarrow> nat \<Rightarrow> db \<Rightarrow> workspace list" where
  "list_workspaces run_id limit offset d =
     (let rows = drop offset (sort_key ws_created_at
        (filter (\<lambda>ws. case run_id of None \<Rightarrow> True | Some k \<Rightarrow> k = [] \<or> ws_workflow_run_id ws = k) (workspaces d)))
      in (case limit of None \<Rightarrow> rows | Some n \<Rightarrow> take n rows))"

definition count_workspaces :: "string option \<Rightarrow> db \<Rightarrow> nat" where
  "count_workspaces run_id d =
     length (filter (\<lambda>ws. case run_id of None \<Rightarrow> True | Some k \<Rightarrow> k = [] \<or> ws_workflow_run_id ws = k) (workspaces d))"

definition write_workspace ::
  "time \<Rightarrow> string \<Rightarrow> (workspace \<Rightarrow> workspace) \<Rightarrow> db \<Rightarrow> exn + db \<times> workspace" where
  "write_workspace now wid f d =
     (let d = upd_workspace wid (\<lambda>ws. (f ws)\<lparr> ws_updated_at := now \<rparr>) d in
      ebind (get_workspace wid d) (\<lambda>ws. Inr (d, ws)))"

definition finalize_workspace ::
  "time \<Rightarrow> string \<Rightarrow> string \<Rightarrow> string option \<Rightarrow> workspace_status \<Rightarrow> db \<Rightarrow> (exn + workspace) \<times> db" where
  "finalize_workspace now wid path branch status d =
     transact d (ebind (get_workspace wid d) (\<lambda>_.
       write_workspace now wid (\<lambda>ws. ws\<lparr> ws_path := Some path,
         ws_branch := (case branch of None \<Rightarrow> ws_branch ws | Some b \<Rightarrow> if b = [] then ws_branch ws else branch),
         ws_status := status \<rparr>) d))"

definition is_local_type :: "string \<Rightarrow> bool" where
  "is_local_type ty \<longleftrightarrow> ty \<in> {''local'', ''local_repository''}"

definition has_path :: "workspace \<Rightarrow> bool" where
  "has_path ws \<longleftrightarrow> (case ws_path ws of None \<Rightarrow> False | Some p \<Rightarrow> p \<noteq> [])"

definition release_workspace :: "lib \<Rightarrow> time \<Rightarrow> string \<Rightarrow> db \<Rightarrow> (exn + workspace) \<times> db" where
  "release_workspace L now wid d =
     transact d (ebind (get_workspace wid d) (\<lambda>ws.
       if ws_status ws \<in> {WS_CREATING, WS_IN_USE} then Inl (RelayviaError ''WORKSPACE_ACTIVE'' 409)
       else if ws_status ws \<in> {WS_RELEASED, WS_RELEASING, WS_CLEANING} then Inr (d, ws)
       else if is_local_type (ws_workspace_type ws) \<or> \<not> has_path ws
         then write_workspace now wid (\<lambda>ws. ws\<lparr> ws_status := WS_RELEASED \<rparr>) d
       else write_workspace now wid (\<lambda>ws. ws\<lparr> ws_status := WS_RELEASING,
              ws_metadata_json := dset ''cleanup_requested_at'' (JStr (lib_isoformat L now)) (ws_metadata_json ws) \<rparr>) d))"

definition cleanup_due :: "time \<Rightarrow> string \<Rightarrow> workspace \<Rightarrow> bool" where
  "cleanup_due stale_before runner_id ws \<longleftrightarrow>
     ws_runner_id ws = Some runner_id
     \<and> (ws_status ws = WS_RELEASING \<or> ws_status ws = WS_CLEANING \<and> ws_updated_at ws < stale_before)"

definition claim_workspace_cleanup ::
  "lib \<Rightarrow> time \<Rightarrow> string \<Rightarrow> int \<Rightarrow> db \<Rightarrow> (exn + workspace option) \<times> db" where
  "claim_workspace_cleanup L now runner_id stale_after_seconds d =
     transact d
       (case sort_key ws_updated_at (filter (cleanup_due (now - timedelta stale_after_seconds) runner_id) (workspaces d)) of
          [] \<Rightarrow> Inr (d, None)
        | ws # _ \<Rightarrow>
            ebind (write_workspace now (ws_id ws) (\<lambda>ws. ws\<lparr> ws_status := WS_CLEANING,
                ws_metadata_json := dset ''cleanup_started_at'' (JStr (lib_isoformat L now)) (ws_metadata_json ws) \<rparr>) d)
              (\<lambda>(d, ws). Inr (d, Some ws)))"

definition dpop :: "string \<Rightarrow> dict \<Rightarrow> dict" where
  "dpop k d = filter (\<lambda>(k', v). k' \<noteq> k) d"

definition complete_workspace_cleanup ::
  "lib \<Rightarrow> time \<Rightarrow> string \<Rightarrow> string \<Rightarrow> bool \<Rightarrow> string option \<Rightarrow> db \<Rightarrow> (exn + workspace) \<times> db" where
  "complete_workspace_cleanup L now runner_id wid ok error d =
     transact d (ebind (get_workspace wid d) (\<lambda>ws.
       if ws_runner_id ws \<noteq> Some runner_id then Inl (RelayviaError ''WORKSPACE_RUNNER_MISMATCH'' 409)
       else if ws_status ws \<notin> {WS_CLEANING, WS_RELEASING, WS_IN_USE} then
         (if ws_status ws = WS_RELEASED \<and> ok then Inr (d, ws)
          else Inl (RelayviaError ''WORKSPACE_CLEANUP_NOT_PENDING'' 409))
       else
         write_workspace now wid (\<lambda>ws.
           let metadata = dset ''cleanup_finished_at'' (JStr (lib_isoformat L now)) (ws_metadata_json ws) in
           ws\<lparr> ws_metadata_json :=
                 (case error of None \<Rightarrow> dpop ''cleanup_error'' metadata
                  | Some e \<Rightarrow> if e = [] then dpop ''cleanup_error'' metadata
                              else dset ''cleanup_error'' (JStr (take 1000 e)) metadata),
               ws_status := (if ok then WS_RELEASED else WS_CLEANUP_FAILED) \<rparr>) d))"

section \<open>Frames\<close>

text \<open>Workspace operations never touch the execution tables.\<close>

definition same_core :: "db \<Rightarrow> db \<Rightarrow> bool" where
  "same_core d d' \<longleftrightarrow> runs d' = runs d \<and> node_runs d' = node_runs d \<and> tasks d' = tasks d
     \<and> new_tasks d' = new_tasks d \<and> events d' = events d \<and> uuids d' = uuids d"

lemma same_core_refl [simp]: "same_core d d"
  by (simp add: same_core_def)

lemma same_core_upd_workspace: "same_core d (upd_workspace k f d)"
  by (simp add: same_core_def upd_workspace_def)

lemma same_core_upd_runner: "same_core d (upd_runner k f d)"
  by (simp add: same_core_def upd_runner_def)

lemma same_core_trans: "same_core a b \<Longrightarrow> same_core b c \<Longrightarrow> same_core a c"
  by (simp add: same_core_def)

lemma same_core_progress: "same_core d d' \<Longrightarrow> progress d d'"
  by (rule progress_same_rows [of _ _ "[]" "[]" "[]" "[]"]) (simp_all add: same_core_def)

lemma same_core_inv: "same_core d d' \<Longrightarrow> db_inv L d' = db_inv L d"
  by (simp add: same_core_def db_inv_def unique_rows_def refs_ok_def linked_def leases_ok_def ids_issued_def issued_def
      get_task_def get_node_def get_run_def get_task_by_node_run_def)

lemma write_workspace_core: "write_workspace now wid f d = Inr (d', ws) \<Longrightarrow> same_core d d'"
  by (auto simp: write_workspace_def Let_def outcome same_core_upd_workspace)

lemma same_core_transact:
  assumes "\<And>d' x. body = Inr (d', x) \<Longrightarrow> same_core d d'" "new_tasks d = []"
  shows "same_core d (snd (transact d body))"
proof (cases body)
  case (Inr p)
  then obtain d' x where p: "body = Inr (d', x)" by (cases p) auto
  then have "same_core d d'" using assms(1) by blast
  then show ?thesis using assms(2) p by (simp add: transact_no_new same_core_def)
qed (simp add: transact_Inl)

lemma workspace_ops_core:
  assumes "new_tasks d = []"
  shows "same_core d (snd (finalize_workspace now wid path branch status d))"
    and "same_core d (snd (release_workspace L now wid d))"
    and "same_core d (snd (claim_workspace_cleanup L now rid secs d))"
    and "same_core d (snd (complete_workspace_cleanup L now rid wid ok err d))"
  unfolding finalize_workspace_def release_workspace_def claim_workspace_cleanup_def complete_workspace_cleanup_def
  by (rule same_core_transact [OF _ assms];
      auto simp: outcome split: if_splits list.splits dest: write_workspace_core)+

section \<open>The cleanup protocol\<close>

text \<open>A released workspace never leaves that status; an active one is never released.\<close>

lemma get_upd_workspace:
  "(\<And>ws. ws_id (f ws) = ws_id ws) \<Longrightarrow>
   get_workspace_row k (upd_workspace k f d) = map_option f (get_workspace_row k d)"
  by (simp add: workspace_table.get_upd)

lemma release_workspace_result:
  assumes "get_workspace_row wid d = Some ws" "new_tasks d = []"
  shows "ws_status ws \<in> {WS_CREATING, WS_IN_USE} \<Longrightarrow>
      release_workspace L now wid d = (Inl (RelayviaError ''WORKSPACE_ACTIVE'' 409), d)"
    and "ws_status ws \<in> {WS_RELEASED, WS_RELEASING, WS_CLEANING} \<Longrightarrow> release_workspace L now wid d = (Inr ws, d)"
    and "ws_status ws \<in> {WS_READY, WS_FAILED, WS_CLEANUP_FAILED} \<Longrightarrow>
      \<exists>d' ws'. release_workspace L now wid d = (Inr ws', d') \<and> get_workspace_row wid d' = Some ws'
        \<and> ws_status ws' = (if is_local_type (ws_workspace_type ws) \<or> \<not> has_path ws then WS_RELEASED else WS_RELEASING)"
  using assms
  by (auto simp: release_workspace_def get_workspace_def transact_no_new transact_Inl write_workspace_def Let_def
      get_upd_workspace transact_def flush_def upd_workspace_def get_workspace_row_def row_get_upd)

lemma complete_cleanup_result:
  assumes "get_workspace_row wid d = Some ws" "new_tasks d = []" "ws_runner_id ws = Some rid"
    and "ws_status ws \<in> {WS_CLEANING, WS_RELEASING, WS_IN_USE}"
  shows "\<exists>d' ws'. complete_workspace_cleanup L now rid wid ok err d = (Inr ws', d')
    \<and> get_workspace_row wid d' = Some ws' \<and> ws_status ws' = (if ok then WS_RELEASED else WS_CLEANUP_FAILED)"
  using assms
  by (auto simp: complete_workspace_cleanup_def get_workspace_def transact_def flush_def write_workspace_def Let_def
      upd_workspace_def get_workspace_row_def row_get_upd)

section \<open>Properties of workspaces\<close>

text \<open>
  Releasing a workspace. One that is being created or used by a node is refused; one that is
  already released or on its way is left alone; any other becomes RELEASED at once when there is nothing to clean on a
  Runner (a local repository, or no path yet) and RELEASING otherwise.
\<close>

theorem release_workspace_cases:
  assumes "get_workspace_row wid d = Some ws" "new_tasks d = []"
  shows "(ws_status ws \<in> {WS_CREATING, WS_IN_USE} \<longrightarrow>
      release_workspace L now wid d = (Inl (RelayviaError ''WORKSPACE_ACTIVE'' 409), d))
    \<and> (ws_status ws \<in> {WS_RELEASED, WS_RELEASING, WS_CLEANING} \<longrightarrow> release_workspace L now wid d = (Inr ws, d))
    \<and> (ws_status ws \<in> {WS_READY, WS_FAILED, WS_CLEANUP_FAILED} \<longrightarrow>
      (\<exists>d' ws'. release_workspace L now wid d = (Inr ws', d') \<and> get_workspace_row wid d' = Some ws'
        \<and> ws_status ws' = (if is_local_type (ws_workspace_type ws) \<or> \<not> has_path ws then WS_RELEASED else WS_RELEASING)))"
  using release_workspace_result [OF assms] by blast

definition demo_workspace :: "workspace_status \<Rightarrow> workspace" where
  "demo_workspace s = \<lparr> ws_id = ''s1'', ws_name = ''n'', ws_runner_id = Some ''r1'', ws_repository = ''repo'', ws_path = Some ''/w'',
     ws_branch = None, ws_base_branch = None, ws_workspace_type = ''git_worktree'', ws_status = s, ws_workflow_run_id = ''u0'',
     ws_node_run_id = ''u1'', ws_metadata_json = [], ws_created_at = 0, ws_updated_at = 0 \<rparr>"

theorem release_workspace_cases_witness:
  "release_workspace demo_lib 7 ''s1'' (empty_db\<lparr> workspaces := [demo_workspace WS_IN_USE] \<rparr>)
     = (Inl (RelayviaError ''WORKSPACE_ACTIVE'' 409), empty_db\<lparr> workspaces := [demo_workspace WS_IN_USE] \<rparr>)"
proof -
  let ?d = "empty_db\<lparr> workspaces := [demo_workspace WS_IN_USE] \<rparr>"
  have "get_workspace_row ''s1'' ?d = Some (demo_workspace WS_IN_USE)" "new_tasks ?d = []"
    by (simp_all add: get_workspace_row_def row_get_Cons demo_workspace_def empty_db_def)
  moreover have "ws_status (demo_workspace WS_IN_USE) \<in> {WS_CREATING, WS_IN_USE}" by (simp add: demo_workspace_def)
  ultimately show ?thesis using release_workspace_cases by blast
qed

end
