(* ===== verification/Trace.thy ===== *)
theory Trace
  imports PyString Graph
begin

text \<open>
  Sanitising of what becomes durable Run Trace (\<^verbatim>\<open>runtime/executor/trace.py\<close>): values under
  sensitive keys are replaced by a marker, inline secrets and known credential values are
  cut out of texts, and a value whose JSON text exceeds 32,000 bytes is dropped as a whole.
  The regular expression is the matcher \<open>inline_secret\<close>; its \<open>(?i)\<close> folds ASCII letters.
\<close>

definition SENSITIVE_KEYWORDS :: "string list" where
  "SENSITIVE_KEYWORDS = [''authorization'', ''cookie'', ''credential'', ''password'', ''secret'', ''token'',
     ''api_key'', ''apikey'']"

definition MAX_TRACE_BYTES :: nat where
  "MAX_TRACE_BYTES = 32000"

definition REDACTED :: string where
  "REDACTED = ''***REDACTED***''"

definition TRUNCATED :: string where
  "TRUNCATED = ''***TRUNCATED***''"

section \<open>JSON text\<close>

text \<open>
  \<open>json.dumps(..., ensure_ascii=False)\<close>: separators \<open>", "\<close> and \<open>": "\<close>, control characters
  escaped; the text of a float is that of \<open>repr\<close>.
\<close>

definition hex_digit :: "nat \<Rightarrow> char" where
  "hex_digit n = (if n < 10 then char_of (48 + n) else char_of (87 + n))"

definition dumps_char :: "char \<Rightarrow> string" where
  "dumps_char c = (let n = of_char c :: nat in
     if n = 34 then [CHR 0x5C, CHR 0x22]
     else if n = 92 then [CHR 0x5C, CHR 0x5C]
     else if n = 10 then [CHR 0x5C, CHR ''n'']
     else if n = 13 then [CHR 0x5C, CHR ''r'']
     else if n = 9 then [CHR 0x5C, CHR ''t'']
     else if n = 8 then [CHR 0x5C, CHR ''b'']
     else if n = 12 then [CHR 0x5C, CHR ''f'']
     else if n < 32 then [CHR 0x5C, CHR ''u'', CHR ''0'', CHR ''0'', hex_digit (n div 16), hex_digit (n mod 16)]
     else [c])"

definition dumps_str :: "string \<Rightarrow> string" where
  "dumps_str s = [CHR 0x22] @ concat (map dumps_char s) @ [CHR 0x22]"

fun dumps :: "(json \<Rightarrow> string) \<Rightarrow> json \<Rightarrow> string"
  and dumps_list :: "(json \<Rightarrow> string) \<Rightarrow> json list \<Rightarrow> string list"
  and dumps_fields :: "(json \<Rightarrow> string) \<Rightarrow> dict \<Rightarrow> string list" where
  "dumps repr JNull = ''null''"
| "dumps repr (JBool b) = (if b then ''true'' else ''false'')"
| "dumps repr (JInt i) = str_int i"
| "dumps repr (JFloat r) = repr (JFloat r)"
| "dumps repr (JStr s) = dumps_str s"
| "dumps repr (JArr xs) = ''['' @ join '', '' (dumps_list repr xs) @ '']''"
| "dumps repr (JObj d) = ''{'' @ join '', '' (dumps_fields repr d) @ ''}''"
| "dumps_list repr [] = []"
| "dumps_list repr (x # xs) = dumps repr x # dumps_list repr xs"
| "dumps_fields repr [] = []"
| "dumps_fields repr ((k, v) # d) = (dumps_str k @ '': '' @ dumps repr v) # dumps_fields repr d"

definition utf8_len :: "string \<Rightarrow> nat" where
  "utf8_len s = sum_list (map (\<lambda>c. if (of_char c :: nat) < 128 then 1 else 2) s)"

section \<open>Redaction\<close>

definition is_sensitive_key :: "string \<Rightarrow> bool" where
  "is_sensitive_key k = (let normalized = replace_all ''-'' ''_'' (lower k) in
     \<exists>keyword\<in>set SENSITIVE_KEYWORDS. contains keyword normalized)"

definition is_word_char :: "char \<Rightarrow> bool" where
  "is_word_char c \<longleftrightarrow> is_alnum c \<or> c = CHR ''_'' \<or> 128 \<le> (of_char c :: nat)"

definition ascii_lower :: "char \<Rightarrow> char" where
  "ascii_lower c = (let n = of_char c :: nat in if 65 \<le> n \<and> n \<le> 90 then char_of (n + 32) else c)"

text \<open>The five alternatives of the keyword group, longest spelling of \<open>api[_-]?key\<close> first.\<close>

definition INLINE_KEYWORDS :: "string list" where
  "INLINE_KEYWORDS = [''authorization'', ''api_key'', ''api-key'', ''apikey'', ''token'', ''password'', ''secret'']"

definition keyword_at :: "string \<Rightarrow> string option" where
  "keyword_at s =
     (case filter (\<lambda>k. startswith k (map ascii_lower s)
        \<and> (case drop (length k) s of [] \<Rightarrow> True | c # _ \<Rightarrow> \<not> is_word_char c)) INLINE_KEYWORDS of
        [] \<Rightarrow> None | k # _ \<Rightarrow> Some (take (length k) s))"

definition secret_char :: "char \<Rightarrow> bool" where
  "secret_char c \<longleftrightarrow> \<not> is_space c \<and> c \<noteq> CHR '','' \<and> c \<noteq> CHR '';''"

text \<open>A match at the start of \<open>s\<close>: its replacement and the text after it.\<close>

definition inline_secret :: "string \<Rightarrow> (string \<times> string) option" where
  "inline_secret s =
     (case keyword_at s of None \<Rightarrow> None
      | Some kw \<Rightarrow>
        (case dropWhile is_space (drop (length kw) s) of [] \<Rightarrow> None
         | sep # rest \<Rightarrow>
            if sep \<noteq> CHR '':'' \<and> sep \<noteq> CHR ''='' then None
            else (let val = dropWhile is_space rest in
              if takeWhile secret_char val = [] then None
              else Some (kw @ [sep] @ REDACTED, dropWhile secret_char val))))"

lemma length_drop_while: "length (dropWhile P s) \<le> length s"
  by (induction s) auto

lemma inline_secret_length:
  assumes "inline_secret s = Some (r, rest)"
  shows "length rest < length s"
proof -
  from assms obtain kw where kw: "keyword_at s = Some kw"
    by (auto simp: inline_secret_def split: option.splits)
  with assms obtain sep t where t: "dropWhile is_space (drop (length kw) s) = sep # t"
    by (cases "dropWhile is_space (drop (length kw) s)") (auto simp: inline_secret_def)
  with assms kw have rest: "rest = dropWhile secret_char (dropWhile is_space t)"
    by (auto simp: inline_secret_def Let_def split: if_splits)
  from t have "length (sep # t) \<le> length s"
    using length_drop_while [of is_space "drop (length kw) s"] by simp
  moreover have "length rest \<le> length t"
    unfolding rest using length_drop_while [of secret_char "dropWhile is_space t"] length_drop_while [of is_space t] by linarith
  ultimately show ?thesis by simp
qed

text \<open>
  Left to right; the flag says whether the previous character is a word character, in which case
  no word boundary precedes the position. A match ends just after a secret character.
\<close>

function redact_inline :: "bool \<Rightarrow> string \<Rightarrow> string" where
  "redact_inline prev s =
     (case s of [] \<Rightarrow> []
      | c # cs \<Rightarrow>
        (case (if prev then None else inline_secret s) of
           None \<Rightarrow> c # redact_inline (is_word_char c) cs
         | Some (r, rest) \<Rightarrow>
             r @ redact_inline (is_word_char (s ! (length s - length rest - 1))) rest))"
  by pat_completeness auto
termination
  by (relation "measure (\<lambda>(p, s). length s)") (auto split: if_splits dest: inline_secret_length)

declare redact_inline.simps [simp del]

definition redact_text :: "string list \<Rightarrow> string \<Rightarrow> string" where
  "redact_text sensitive_values s =
     fold (\<lambda>secret text. replace_all secret REDACTED text)
       (sort_key (\<lambda>item. - int (length item)) (filter (\<lambda>item. 4 \<le> length item) sensitive_values))
       (redact_inline False s)"

fun sanitize_value :: "string list \<Rightarrow> json \<Rightarrow> json"
  and sanitize_list :: "string list \<Rightarrow> json list \<Rightarrow> json list"
  and sanitize_fields :: "string list \<Rightarrow> dict \<Rightarrow> dict" where
  "sanitize_value sv (JObj d) = JObj (sanitize_fields sv d)"
| "sanitize_value sv (JArr xs) = JArr (sanitize_list sv xs)"
| "sanitize_value sv (JStr s) = JStr (redact_text sv s)"
| "sanitize_value sv v = v"
| "sanitize_list sv [] = []"
| "sanitize_list sv (x # xs) = sanitize_value sv x # sanitize_list sv xs"
| "sanitize_fields sv [] = []"
| "sanitize_fields sv ((k, v) # d) =
     (k, if is_sensitive_key k then JStr REDACTED else sanitize_value sv v) # sanitize_fields sv d"

definition sanitize :: "lib \<Rightarrow> string list \<Rightarrow> json \<Rightarrow> json" where
  "sanitize L sv v =
     (let sanitized = sanitize_value sv v in
      if utf8_len (dumps (lib_repr L) sanitized) \<le> MAX_TRACE_BYTES then sanitized
      else JObj [(''trace'', JStr TRUNCATED)])"

definition sanitize_metadata :: "lib \<Rightarrow> string list \<Rightarrow> json \<Rightarrow> dict" where
  "sanitize_metadata L sv v = (case sanitize L sv v of JObj d \<Rightarrow> d | s \<Rightarrow> [(''value'', s)])"

definition sanitize_artifacts :: "lib \<Rightarrow> string list \<Rightarrow> json \<Rightarrow> dict list" where
  "sanitize_artifacts L sv v =
     (case v of JArr xs \<Rightarrow> List.map_filter (\<lambda>item. as_dict (sanitize L sv item)) xs | _ \<Rightarrow> [])"

definition sanitize_error :: "lib \<Rightarrow> string list \<Rightarrow> dict \<Rightarrow> dict" where
  "sanitize_error L sv d =
     (case sanitize L sv (JObj d) of JObj e \<Rightarrow> e
      | _ \<Rightarrow> [(''code'', JStr ''UNKNOWN''), (''message'', JStr ''execution failed''),
              (''retryable'', JBool False), (''details'', JObj [])])"

definition sanitize_output :: "lib \<Rightarrow> string list \<Rightarrow> json \<Rightarrow> dict" where
  "sanitize_output L sv v = (case sanitize L sv v of JObj d \<Rightarrow> d | s \<Rightarrow> [(''result'', s)])"

section \<open>What survives\<close>

text \<open>No value under a sensitive key, at any depth.\<close>

fun redacted :: "json \<Rightarrow> bool"
  and redacted_list :: "json list \<Rightarrow> bool"
  and redacted_fields :: "dict \<Rightarrow> bool" where
  "redacted (JObj d) = redacted_fields d"
| "redacted (JArr xs) = redacted_list xs"
| "redacted v = True"
| "redacted_list [] = True"
| "redacted_list (x # xs) = (redacted x \<and> redacted_list xs)"
| "redacted_fields [] = True"
| "redacted_fields ((k, v) # d) =
     ((if is_sensitive_key k then v = JStr REDACTED else redacted v) \<and> redacted_fields d)"

lemma sanitize_value_redacted:
  "redacted (sanitize_value sv v)" "redacted_list (sanitize_list sv xs)" "redacted_fields (sanitize_fields sv d)"
  by (induction sv v and sv xs and sv d rule: sanitize_value_sanitize_list_sanitize_fields.induct) auto

lemma truncated_redacted: "redacted (JObj [(''trace'', JStr TRUNCATED)])"
proof -
  have "\<not> is_sensitive_key ''trace''" by code_simp
  then show ?thesis by simp
qed

lemma sanitize_redacted: "redacted (sanitize L sv v)"
  by (simp add: sanitize_def Let_def sanitize_value_redacted truncated_redacted del: redacted.simps)

lemma sanitize_size: "utf8_len (dumps (lib_repr L) (sanitize L sv v)) \<le> MAX_TRACE_BYTES"
proof -
  have "dumps repr (JObj [(''trace'', JStr TRUNCATED)]) = ''{'' @ dumps_str ''trace'' @ '': '' @ dumps_str TRUNCATED @ ''}''" for repr
    by simp
  moreover have "utf8_len (''{'' @ dumps_str ''trace'' @ '': '' @ dumps_str TRUNCATED @ ''}'') = 28"
    by code_simp
  ultimately show ?thesis by (simp add: sanitize_def Let_def MAX_TRACE_BYTES_def)
qed

section \<open>Known credential values\<close>

text \<open>
  Replacing other texts never builds an occurrence of a secret that shares no character with the
  marker, and replacing the secret itself leaves none.
\<close>

lemma replace_all_cases:
  obtains "p = [] \<or> t = []" "replace_all p r t = t"
  | "p \<noteq> []" "startswith p t" "replace_all p r t = r @ replace_all p r (drop (length p) t)" "length (drop (length p) t) < length t"
  | c u where "p \<noteq> []" "\<not> startswith p t" "t = c # u" "replace_all p r t = c # replace_all p r u"
  using replace_all.simps [of p r t] by (cases t) (auto split: if_splits)

lemma replace_startswith:
  assumes "set s \<inter> set r = {}" "r \<noteq> []"
  shows "startswith s (replace_all p r t) \<Longrightarrow> startswith s t"
  using assms(1)
proof (induction t arbitrary: s rule: length_induct)
  case (1 t)
  show ?case
  proof (cases rule: replace_all_cases [of p t r])
    case 2
    show ?thesis
    proof (cases s)
      case (Cons c cs)
      with 1(2) 2(3) assms(2) have "c \<in> set r" by (cases r) (auto simp: startswith_def)
      with Cons 1(3) show ?thesis by simp
    qed (simp add: startswith_def)
  next
    case (3 c u)
    show ?thesis
    proof (cases s)
      case (Cons a s')
      with 1(2) 3(4) have "a = c" "startswith s' (replace_all p r u)" by (simp_all add: startswith_def)
      with 1(1,3) 3(3) Cons show ?thesis by (auto simp: startswith_def)
    qed (simp add: startswith_def)
  qed (use 1 in simp)
qed

lemma contains_after_marker:
  "s \<noteq> [] \<Longrightarrow> set s \<inter> set r = {} \<Longrightarrow> contains s (r @ u) \<Longrightarrow> contains s u"
proof (induction r)
  case (Cons c r)
  have "\<not> startswith s ((c # r) @ u)" using Cons.prems by (cases s) (auto simp: startswith_def)
  with Cons show ?case by auto
qed simp

lemma contains_tl: "contains s (tl t) \<Longrightarrow> contains s t"
  by (cases t) auto

lemma contains_drop: "contains s (drop n t) \<Longrightarrow> contains s t"
  by (metis append_assoc append_take_drop_id contains_iff)

lemma replace_contains:
  assumes "s \<noteq> []" "set s \<inter> set r = {}" "r \<noteq> []"
  shows "contains s (replace_all p r t) \<Longrightarrow> contains s t"
proof (induction t rule: length_induct)
  case (1 t)
  show ?case
  proof (cases rule: replace_all_cases [of p t r])
    case 2
    from 1(2) 2(3) contains_after_marker [OF assms(1,2)] have "contains s (replace_all p r (drop (length p) t))" by simp
    with 1(1) 2(4) show ?thesis using contains_drop by blast
  next
    case (3 c u)
    from 1(2) consider "startswith s (replace_all p r t)" | "contains s (replace_all p r u)"
      unfolding 3(4) by auto
    then show ?thesis
      by cases (use replace_startswith [OF assms(2,3), of p t] 1(1) 3(3) in auto)
  qed (use 1 in simp)
qed

lemma replace_removes:
  assumes "s \<noteq> []" "set s \<inter> set r = {}" "r \<noteq> []"
  shows "\<not> contains s (replace_all s r t)"
proof (induction t rule: length_induct)
  case (1 t)
  show ?case
  proof (cases rule: replace_all_cases [of s t r])
    case 1
    with assms(1) show ?thesis by simp
  next
    case 2
    then have "\<not> contains s (replace_all s r (drop (length s) t))" using 1 by blast
    with 2(3) contains_after_marker [OF assms(1,2)] show ?thesis by metis
  next
    case (3 c u)
    have "\<not> startswith s (replace_all s r t)" using 3(2) replace_startswith [OF assms(2,3)] by blast
    with 1 3 show ?thesis by auto
  qed
qed

lemma fold_replace_removes:
  assumes "s \<noteq> []" "set s \<inter> set r = {}" "r \<noteq> []" and "s \<in> set ps \<or> \<not> contains s t"
  shows "\<not> contains s (fold (\<lambda>p. replace_all p r) ps t)"
  using assms(4)
proof (induction ps arbitrary: t)
  case (Cons p ps)
  show ?case
  proof (cases "s = p")
    case True
    then show ?thesis using Cons.IH [of "replace_all p r t"] replace_removes [OF assms(1-3)] by simp
  next
    case False
    have "s \<in> set ps \<or> \<not> contains s (replace_all p r t)"
      using Cons.prems False replace_contains [OF assms(1-3), of p t] by auto
    from Cons.IH [OF this] show ?thesis by simp
  qed
qed simp

lemma redact_text_removes:
  assumes "s \<in> set sv" "4 \<le> length s" "set s \<inter> set REDACTED = {}"
  shows "\<not> contains s (redact_text sv t)"
  unfolding redact_text_def
  by (rule fold_replace_removes) (use assms in \<open>auto simp: REDACTED_def\<close>)

text \<open>No text in value position contains the secret.\<close>

fun secret_free :: "string \<Rightarrow> json \<Rightarrow> bool"
  and secret_free_list :: "string \<Rightarrow> json list \<Rightarrow> bool"
  and secret_free_fields :: "string \<Rightarrow> dict \<Rightarrow> bool" where
  "secret_free s (JObj d) = secret_free_fields s d"
| "secret_free s (JArr xs) = secret_free_list s xs"
| "secret_free s (JStr t) = (\<not> contains s t)"
| "secret_free s _ = True"
| "secret_free_list s [] = True"
| "secret_free_list s (x # xs) = (secret_free s x \<and> secret_free_list s xs)"
| "secret_free_fields s [] = True"
| "secret_free_fields s ((k, v) # d) = (secret_free s v \<and> secret_free_fields s d)"

lemma disjoint_not_contains: "s \<noteq> [] \<Longrightarrow> set s \<inter> set t = {} \<Longrightarrow> \<not> contains s t"
  by (cases s) (auto simp: contains_iff)

lemma sanitize_value_secret_free:
  assumes "s \<in> set sv" "4 \<le> length s" "set s \<inter> set REDACTED = {}"
  shows "secret_free s (sanitize_value sv v)" "secret_free_list s (sanitize_list sv xs)"
    "secret_free_fields s (sanitize_fields sv d)"
proof -
  have "\<not> contains s REDACTED" using assms(2,3) by (intro disjoint_not_contains) auto
  with assms show "secret_free s (sanitize_value sv v)" "secret_free_list s (sanitize_list sv xs)"
    "secret_free_fields s (sanitize_fields sv d)"
    by (induction sv v and sv xs and sv d rule: sanitize_value_sanitize_list_sanitize_fields.induct)
       (auto simp: redact_text_removes)
qed

section \<open>Properties of the Run Trace\<close>

text \<open>
  C38: Everything that passes the sanitiser fits the trace limit, and no value under a key that
  names a secret survives at any depth.
\<close>

theorem sanitize_bounded_and_redacted:
  "redacted (sanitize L sv v) \<and> utf8_len (dumps (lib_repr L) (sanitize L sv v)) \<le> 32000"
  using sanitize_redacted [of L sv v] sanitize_size [of L sv v] by (simp add: MAX_TRACE_BYTES_def)



end
