(* ===== verification/GraphIndex.thy ===== *)
theory GraphIndex
  imports Graph
begin

text \<open>
  Graph indexing and analysis (\<^verbatim>\<open>runtime/validation/graph_index.py\<close>): the adjacency
  dictionaries, the three work-list searches and Kahn's algorithm, with their meaning in
  terms of the edge relation. A Python stack is kept with its top first.
\<close>

record graph_index =
  gi_graph :: workflow_graph
  gi_nodes_by_id :: "(string \<times> workflow_node) list"
  gi_edges_by_id :: "(string \<times> workflow_edge) list"
  gi_incoming :: "(string \<times> workflow_edge list) list"
  gi_outgoing :: "(string \<times> workflow_edge list) list"

text \<open>\<open>d.setdefault(k, []).append(x)\<close>\<close>

definition dappend :: "string \<Rightarrow> 'x \<Rightarrow> (string \<times> 'x list) list \<Rightarrow> (string \<times> 'x list) list" where
  "dappend k x d = dset k ((case map_of d k of None \<Rightarrow> [] | Some xs \<Rightarrow> xs) @ [x]) d"

definition build :: "workflow_graph \<Rightarrow> graph_index" where
  "build g =
     \<lparr>gi_graph = g,
      gi_nodes_by_id = fold (\<lambda>n. dset (n_id n) n) (g_nodes g) [],
      gi_edges_by_id = fold (\<lambda>e. dset (e_id e) e) (g_edges g) [],
      gi_incoming = fold (\<lambda>e. dappend (e_target e) e) (g_edges g)
                      (fold (\<lambda>n. dset (n_id n) []) (g_nodes g) []),
      gi_outgoing = fold (\<lambda>e. dappend (e_source e) e) (g_edges g)
                      (fold (\<lambda>n. dset (n_id n) []) (g_nodes g) [])\<rparr>"

definition index_node :: "graph_index \<Rightarrow> string \<Rightarrow> workflow_node option" where
  "index_node idx i = map_of (gi_nodes_by_id idx) i"

definition incoming_edges :: "graph_index \<Rightarrow> string \<Rightarrow> workflow_edge list" where
  "incoming_edges idx i = (case map_of (gi_incoming idx) i of None \<Rightarrow> [] | Some es \<Rightarrow> es)"

definition outgoing_edges :: "graph_index \<Rightarrow> string \<Rightarrow> workflow_edge list" where
  "outgoing_edges idx i = (case map_of (gi_outgoing idx) i of None \<Rightarrow> [] | Some es \<Rightarrow> es)"

section \<open>Work-list search\<close>

type_synonym adjacency = "(string \<times> string list) list"

definition succs :: "adjacency \<Rightarrow> string \<Rightarrow> string list" where
  "succs adj c = (case map_of adj c of None \<Rightarrow> [] | Some ys \<Rightarrow> ys)"

definition endpoints :: "adjacency \<Rightarrow> string set" where
  "endpoints adj = (\<Union>(k, ys)\<in>set adj. set ys)"

lemma succs_endpoints: "set (succs adj c) \<subseteq> endpoints adj"
proof (cases "map_of adj c")
  case (Some ys)
  then have "(c, ys) \<in> set adj" by (rule map_of_SomeD)
  with Some show ?thesis by (force simp: succs_def endpoints_def)
qed (simp add: succs_def)

lemma finite_endpoints [simp]: "finite (endpoints adj)"
  by (auto simp: endpoints_def)

text \<open>
  \<open>skip\<close> is the node a search never enters, \<open>stop\<close> marks nodes that are entered but not
  expanded. Successors already seen, or skipped, are not pushed.
\<close>

function explore ::
  "adjacency \<Rightarrow> (string \<Rightarrow> bool) \<Rightarrow> (string \<Rightarrow> bool) \<Rightarrow> string list \<Rightarrow> string list \<Rightarrow> string list" where
  "explore adj stop skip [] seen = seen"
| "explore adj stop skip (c # stack) seen =
     (if skip c \<or> c \<in> set seen then explore adj stop skip stack seen
      else explore adj stop skip
             ((if stop c then []
               else rev (filter (\<lambda>y. y \<notin> set (seen @ [c]) \<and> \<not> skip y) (succs adj c))) @ stack)
             (seen @ [c]))"
  by pat_completeness auto
termination
proof (relation "measures [\<lambda>(adj, stop, skip, stack, seen). card ((set stack \<union> endpoints adj) - set seen),
                           \<lambda>(adj, stop, skip, stack, seen). length stack]", goal_cases)
  case (2 adj stop skip c stack seen)
  have "card ((set stack \<union> endpoints adj) - set seen) \<le> card ((set (c # stack) \<union> endpoints adj) - set seen)"
    by (intro card_mono) auto
  then show ?case by auto
next
  case (3 adj stop skip c stack seen)
  let ?new = "(if stop c then [] else
    rev (filter (\<lambda>y. y \<notin> set (seen @ [c]) \<and> \<not> skip y) (succs adj c))) @ stack"
  have "(set ?new \<union> endpoints adj) - set (seen @ [c]) \<subset> (set (c # stack) \<union> endpoints adj) - set seen"
    using 3 succs_endpoints [of adj c] by auto
  then have "card ((set ?new \<union> endpoints adj) - set (seen @ [c])) < card ((set (c # stack) \<union> endpoints adj) - set seen)"
    by (intro psubset_card_mono) auto
  then show ?case by auto
qed auto

definition in_adjacency :: "graph_index \<Rightarrow> adjacency" where
  "in_adjacency idx = map (\<lambda>(k, es). (k, map e_source es)) (gi_incoming idx)"

definition out_adjacency :: "graph_index \<Rightarrow> adjacency" where
  "out_adjacency idx = map (\<lambda>(k, es). (k, map e_target es)) (gi_outgoing idx)"

definition ancestors :: "graph_index \<Rightarrow> string \<Rightarrow> string list" where
  "ancestors idx i =
     explore (in_adjacency idx) (\<lambda>_. False) (\<lambda>c. c = i)
       (rev (map e_source (incoming_edges idx i))) []"

definition descendants :: "graph_index \<Rightarrow> string \<Rightarrow> string list" where
  "descendants idx i =
     explore (out_adjacency idx) (\<lambda>_. False) (\<lambda>c. c = i)
       (rev (map e_target (outgoing_edges idx i))) []"

definition reachable_from :: "graph_index \<Rightarrow> string list \<Rightarrow> string list" where
  "reachable_from idx start_ids =
     explore (out_adjacency idx) (\<lambda>_. False) (\<lambda>_. False) (rev start_ids) []"

section \<open>Kahn's algorithm\<close>

fun decrement :: "(string \<times> int) list \<times> string list \<Rightarrow> workflow_edge \<Rightarrow> (string \<times> int) list \<times> string list" where
  "decrement (indegree, queue) e =
     (case map_of indegree (e_target e) of
        None \<Rightarrow> (indegree, queue)
      | Some k \<Rightarrow>
          (dset (e_target e) (k - 1) indegree,
           if k - 1 = 0 then queue @ [e_target e] else queue))"

definition positive_sum :: "(string \<times> int) list \<Rightarrow> nat" where
  "positive_sum d = sum_list (map (\<lambda>(_, k). nat k) d)"

lemma positive_sum_dset:
  "map_of d v = Some k \<Longrightarrow> positive_sum (dset v (k - 1) d) + (if k = 1 then 1 else 0) \<le> positive_sum d"
  unfolding positive_sum_def by (induction d) (auto split: if_splits)

lemma decrement_measure:
  "foldl decrement (d, q) es = (d', q') \<Longrightarrow> positive_sum d' + length q' \<le> positive_sum d + length q"
proof (induction es arbitrary: d q)
  case (Cons e es)
  obtain d1 q1 where 1: "decrement (d, q) e = (d1, q1)" by fastforce
  then have "positive_sum d1 + length q1 \<le> positive_sum d + length q"
    using positive_sum_dset [of d "e_target e"] by (auto split: option.splits if_splits)
  with Cons 1 show ?case by fastforce
qed simp

function kahn :: "graph_index \<Rightarrow> string list \<Rightarrow> (string \<times> int) list \<Rightarrow> (string \<times> int) list" where
  "kahn idx [] indegree = indegree"
| "kahn idx (current # queue) indegree =
     (case foldl decrement (indegree, queue) (outgoing_edges idx current) of
        (indegree', queue') \<Rightarrow> kahn idx queue' indegree')"
  by pat_completeness auto
termination
  by (relation "measure (\<lambda>(idx, q, d). positive_sum d + length q)")
     (auto dest!: decrement_measure [OF sym])

definition initial_indegree :: "graph_index \<Rightarrow> (string \<times> int) list" where
  "initial_indegree idx =
     map (\<lambda>(i, _). (i, int (length (incoming_edges idx i)))) (gi_nodes_by_id idx)"

definition cycle_nodes :: "graph_index \<Rightarrow> string list" where
  "cycle_nodes idx =
     (let indegree = initial_indegree idx;
          queue = map fst (filter (\<lambda>(_, k). k = 0) indegree) in
      map fst (filter (\<lambda>(_, k). 0 < k) (kahn idx queue indegree)))"

definition has_cycle :: "graph_index \<Rightarrow> bool" where
  "has_cycle idx \<longleftrightarrow> cycle_nodes idx \<noteq> []"

definition entry_node_ids :: "graph_index \<Rightarrow> string list" where
  "entry_node_ids idx =
     map n_id (filter (\<lambda>n. n_type n = DATA \<and> n_subtype n = ''input'') (g_nodes (gi_graph idx)))"

definition output_node_ids :: "graph_index \<Rightarrow> string list" where
  "output_node_ids idx =
     map n_id (filter (\<lambda>n. n_type n = DATA \<and> n_subtype n = ''output'') (g_nodes (gi_graph idx)))"

section \<open>The index represents the graph\<close>

lemma find_append:
  "find P (xs @ ys) = (case find P xs of None \<Rightarrow> find P ys | Some x \<Rightarrow> Some x)"
  by (induction xs) auto

lemma map_of_fold_dset:
  "map_of (fold (\<lambda>x. dset (f x) (h x)) xs d) =
     (\<lambda>k. case find (\<lambda>x. f x = k) (rev xs) of None \<Rightarrow> map_of d k | Some x \<Rightarrow> Some (h x))"
  by (induction xs arbitrary: d) (auto simp: fun_eq_iff find_append split: option.splits)

lemma map_of_fold_dappend:
  "(case map_of (fold (\<lambda>x. dappend (f x) x) xs d) k of None \<Rightarrow> [] | Some ys \<Rightarrow> ys) =
     (case map_of d k of None \<Rightarrow> [] | Some ys \<Rightarrow> ys) @ filter (\<lambda>x. f x = k) xs"
  by (induction xs arbitrary: d) (auto simp: dappend_def split: option.splits)

lemma empty_lists:
  "(case map_of (fold (\<lambda>n. dset (n_id n) []) ns []) k of None \<Rightarrow> [] | Some ys \<Rightarrow> ys) = []"
  unfolding map_of_fold_dset by (auto split: option.splits)

lemma incoming_edges_build [simp]:
  "incoming_edges (build g) i = filter (\<lambda>e. e_target e = i) (g_edges g)"
  unfolding incoming_edges_def build_def by (simp add: map_of_fold_dappend empty_lists)

lemma outgoing_edges_build [simp]:
  "outgoing_edges (build g) i = filter (\<lambda>e. e_source e = i) (g_edges g)"
  unfolding outgoing_edges_def build_def by (simp add: map_of_fold_dappend empty_lists)

lemma gi_graph_build [simp]: "gi_graph (build g) = g"
  by (simp add: build_def)

lemma index_node_build: "index_node (build g) i = find (\<lambda>n. n_id n = i) (rev (g_nodes g))"
  by (auto simp: index_node_def build_def map_of_fold_dset split: option.splits)

lemma index_node_Some:
  "index_node (build g) i = Some n \<Longrightarrow> n \<in> set (g_nodes g) \<and> n_id n = i"
proof -
  assume "index_node (build g) i = Some n"
  then have "n \<in> set (rev (g_nodes g))" "n_id n = i"
    unfolding index_node_build find_Some_iff by (auto simp del: set_rev)
  then show ?thesis by simp
qed

lemma index_node_None: "index_node (build g) i = None \<longleftrightarrow> i \<notin> set (node_ids g)"
  unfolding index_node_build by (auto simp: find_None_iff node_ids_def)

lemma index_node_distinct:
  assumes "distinct (node_ids g)" and "n \<in> set (g_nodes g)"
  shows "index_node (build g) (n_id n) = Some n"
proof -
  obtain m where m: "index_node (build g) (n_id n) = Some m"
    using assms(2) index_node_None [of g "n_id n"] by (cases "index_node (build g) (n_id n)") (auto simp: node_ids_def)
  then have "m \<in> set (g_nodes g)" "n_id m = n_id n" using index_node_Some by blast+
  with assms m show ?thesis by (auto simp: node_ids_def distinct_map dest: inj_onD)
qed

lemma succs_map:
  "succs (map (\<lambda>(k, es). (k, map f es)) d) i =
     map f (case map_of d i of None \<Rightarrow> [] | Some es \<Rightarrow> es)"
  by (induction d) (auto simp: succs_def)

lemma succs_in [simp]: "succs (in_adjacency idx) i = map e_source (incoming_edges idx i)"
  by (simp add: in_adjacency_def succs_map incoming_edges_def)

lemma succs_out [simp]: "succs (out_adjacency idx) i = map e_target (outgoing_edges idx i)"
  by (simp add: out_adjacency_def succs_map outgoing_edges_def)

section \<open>Concrete nodes and edges\<close>

definition demo_gnode :: "string \<Rightarrow> workflow_node" where
  "demo_gnode i = \<lparr> n_id = i, n_type = AGENT, n_subtype = ''http'', n_name = i, n_position = (0, 0), n_config = [],
     n_input_mapping = [], n_metadata = [] \<rparr>"

definition demo_gedge :: "string \<Rightarrow> string \<Rightarrow> string \<Rightarrow> workflow_edge" where
  "demo_gedge i s t = \<lparr> e_id = i, e_source = s, e_target = t, e_source_handle = None, e_target_handle = None,
     e_label = None, e_condition = None, e_metadata = [] \<rparr>"

end
