(* ===== verification/Readiness.thy ===== *)
theory Readiness
  imports GraphIndex Fixtures
begin

text \<open>
  The pure part of the scheduler (\<^verbatim>\<open>runtime/scheduler/workflow_scheduler.py\<close>): which nodes are
  ready, which become unreachable once a Condition has selected a branch, and which status the
  Workflow Run has. The Node Runs of a run are the rows the functions receive;
  \<open>UNIQUE(workflow_run_id, node_id)\<close> makes the dictionaries keyed by node id functions of them.
\<close>

definition status_of :: "node_run list \<Rightarrow> string \<Rightarrow> node_run_status option" where
  "status_of nrs k = map_option nr_status (row_get nr_node_id k nrs)"

definition edge_is_active :: "graph_index \<Rightarrow> node_run list \<Rightarrow> workflow_edge \<Rightarrow> bool" where
  "edge_is_active idx nrs e =
     (let source_status = status_of nrs (e_source e) in
      if source_status = Some N_SKIPPED then False
      else (case index_node idx (e_source e) of
          None \<Rightarrow> True
        | Some n \<Rightarrow>
            if n_type n \<noteq> LOGIC \<or> n_subtype n \<noteq> ''condition'' then True
            else if source_status \<noteq> Some N_COMPLETED then True
            else
              (let output = (case row_get nr_node_id (e_source e) nrs of None \<Rightarrow> None | Some r \<Rightarrow> nr_output_json r);
                   selected = (case output of None \<Rightarrow> JNull | Some d \<Rightarrow> dget0 d ''selected_branch'') in
               selected \<notin> {JStr ''true'', JStr ''false''} \<or> json_opt (e_source_handle e) = selected)))"

definition find_ready_nodes :: "workflow_graph \<Rightarrow> node_run list \<Rightarrow> string list" where
  "find_ready_nodes g nrs =
     (let idx = build g in
      map n_id (filter (\<lambda>node.
        status_of nrs (n_id node) = Some N_PENDING
        \<and> (let active = filter (edge_is_active idx nrs) (incoming_edges idx (n_id node)) in
           active \<noteq> [] \<and> list_all (\<lambda>e. status_of nrs (e_source e) = Some N_COMPLETED) active)) (g_nodes g)))"

section \<open>Unreachable branches\<close>

definition skip_row :: "time \<Rightarrow> node_run \<Rightarrow> node_run" where
  "skip_row now n = n\<lparr> nr_status := N_SKIPPED, nr_finished_at := Some now \<rparr>"

text \<open>
  One step of the \<open>for\<close> loop: edge activity is judged on the dictionaries built at the start of
  the pass (\<open>snap\<close>), the status of the node itself on the row as it is now.
\<close>

definition skip_node ::
  "time \<Rightarrow> graph_index \<Rightarrow> node_run list \<Rightarrow> workflow_node \<Rightarrow> node_run list \<times> string list \<Rightarrow> node_run list \<times> string list" where
  "skip_node now idx snap node st =
     (let (nrs, skipped) = st; incoming = incoming_edges idx (n_id node) in
      case row_get nr_node_id (n_id node) nrs of
        None \<Rightarrow> (nrs, skipped)
      | Some nr \<Rightarrow>
          if nr_status nr \<noteq> N_PENDING \<or> incoming = [] then (nrs, skipped)
          else if list_ex (edge_is_active idx snap) incoming then (nrs, skipped)
          else (row_upd nr_node_id (n_id node) (skip_row now) nrs, skipped @ [n_id node]))"

definition skip_pass :: "time \<Rightarrow> workflow_graph \<Rightarrow> node_run list \<Rightarrow> node_run list \<times> string list" where
  "skip_pass now g nrs = fold (skip_node now (build g) nrs) (g_nodes g) (nrs, [])"

definition pending_count :: "node_run list \<Rightarrow> nat" where
  "pending_count nrs = length (filter (\<lambda>n. nr_status n = N_PENDING) nrs)"

lemma skip_row_simps [simp]:
  "nr_status (skip_row now n) = N_SKIPPED" "nr_node_id (skip_row now n) = nr_node_id n" "nr_id (skip_row now n) = nr_id n"
  "nr_workflow_run_id (skip_row now n) = nr_workflow_run_id n" "nr_output_json (skip_row now n) = nr_output_json n"
  by (simp_all add: skip_row_def)

lemma pending_count_row_upd_le:
  "pending_count (row_upd nr_node_id k (skip_row now) nrs) \<le> pending_count nrs"
  by (induction nrs) (auto simp: pending_count_def row_upd_def)

lemma pending_count_row_upd_less:
  "row_get nr_node_id k nrs = Some nr \<Longrightarrow> nr_status nr = N_PENDING \<Longrightarrow>
   pending_count (row_upd nr_node_id k (skip_row now) nrs) < pending_count nrs"
proof (induction nrs)
  case (Cons n nrs)
  show ?case
  proof (cases "nr_node_id n = k")
    case True
    with Cons.prems have "nr_status n = N_PENDING" by (simp add: row_get_Cons)
    with True pending_count_row_upd_le [of k now nrs] show ?thesis
      by (simp add: pending_count_def row_upd_def)
  next
    case False
    with Cons show ?thesis by (auto simp: pending_count_def row_upd_def row_get_Cons)
  qed
qed simp

lemma skip_node_count:
  "skip_node now idx snap node (nrs, sk) = (nrs', sk') \<Longrightarrow>
   nrs' = nrs \<and> sk' = sk \<or> pending_count nrs' < pending_count nrs"
  by (auto simp: skip_node_def Let_def pending_count_row_upd_less split: option.splits if_splits)

lemma skip_fold_count:
  "fold (skip_node now idx snap) nodes (nrs, sk) = (nrs', sk') \<Longrightarrow>
   nrs' = nrs \<and> sk' = sk \<or> pending_count nrs' < pending_count nrs"
proof (induction nodes arbitrary: nrs sk)
  case (Cons node nodes)
  obtain nrs1 sk1 where 1: "skip_node now idx snap node (nrs, sk) = (nrs1, sk1)" by (cases "skip_node now idx snap node (nrs, sk)")
  with Cons.prems have "fold (skip_node now idx snap) nodes (nrs1, sk1) = (nrs', sk')" by simp
  from Cons.IH [OF this] skip_node_count [OF 1] show ?case by auto
qed simp

text \<open>The \<open>while changed\<close> loop ends: every pass that changes anything uses up pending rows.\<close>

function mark_unreachable_condition_nodes ::
  "time \<Rightarrow> workflow_graph \<Rightarrow> node_run list \<Rightarrow> node_run list \<times> string list" where
  "mark_unreachable_condition_nodes now g nrs =
     (let (nrs', skipped) = skip_pass now g nrs in
      if skipped = [] then (nrs', [])
      else let (nrs'', more) = mark_unreachable_condition_nodes now g nrs' in (nrs'', skipped @ more))"
  by pat_completeness auto
termination
proof (relation "measure (\<lambda>(now, g, nrs). pending_count nrs)")
  fix now g nrs x nrs' skipped
  assume "x = skip_pass now g nrs" "(nrs', skipped) = x" "skipped \<noteq> []"
  then show "((now, g, nrs'), (now, g, nrs)) \<in> measure (\<lambda>(now, g, nrs). pending_count nrs)"
    using skip_fold_count [of now "build g" nrs "g_nodes g" nrs "[]" nrs' skipped] by (auto simp: skip_pass_def)
qed simp

declare mark_unreachable_condition_nodes.simps [simp del]

section \<open>The derived status of a run\<close>

definition derive_workflow_state :: "workflow_graph \<Rightarrow> node_run list \<Rightarrow> workflow_run_status" where
  "derive_workflow_state g nrs =
     (let statuses = map nr_status nrs in
      if N_FAILED \<in> set statuses then W_FAILED
      else if statuses \<noteq> [] \<and> list_all is_node_run_terminal statuses then W_COMPLETED
      else if N_WAITING \<in> set statuses then
        (if list_ex (\<lambda>s. s \<in> {N_QUEUED, N_RUNNING, N_RETRYING}) statuses then W_RUNNING
         else if find_ready_nodes g nrs \<noteq> [] then W_RUNNING
         else W_WAITING)
      else W_RUNNING)"

section \<open>Readiness in terms of the graph\<close>

lemma set_find_ready_nodes:
  "k \<in> set (find_ready_nodes g nrs) \<longleftrightarrow>
     k \<in> set (node_ids g) \<and> status_of nrs k = Some N_PENDING
     \<and> (\<exists>e\<in>set (g_edges g). e_target e = k \<and> edge_is_active (build g) nrs e)
     \<and> (\<forall>e\<in>set (g_edges g). e_target e = k \<longrightarrow> edge_is_active (build g) nrs e \<longrightarrow>
          status_of nrs (e_source e) = Some N_COMPLETED)"
  by (auto simp: find_ready_nodes_def Let_def incoming_edges_build node_ids_def list_all_iff filter_empty_conv)

text \<open>
  The nodes the selected branches cut off: pending, with incoming edges, every one of which is
  inactive or starts at such a node.
\<close>

inductive cut_off :: "workflow_graph \<Rightarrow> node_run list \<Rightarrow> string \<Rightarrow> bool" for g nrs where
  cut: "k \<in> set (node_ids g) \<Longrightarrow> status_of nrs k = Some N_PENDING \<Longrightarrow>
    \<exists>e\<in>set (g_edges g). e_target e = k \<Longrightarrow>
    (\<And>e. e \<in> set (g_edges g) \<Longrightarrow> e_target e = k \<Longrightarrow> \<not> edge_is_active (build g) nrs e \<or> cut_off g nrs (e_source e)) \<Longrightarrow>
    cut_off g nrs k"

text \<open>A later state of the rows: pending rows of a set became skipped, nothing else changed.\<close>

definition skips :: "time \<Rightarrow> string set \<Rightarrow> node_run list \<Rightarrow> node_run list" where
  "skips now S nrs = map (\<lambda>n. if nr_node_id n \<in> S then skip_row now n else n) nrs"

lemma row_get_skips:
  "row_get nr_node_id k (skips now S nrs) =
     map_option (\<lambda>n. if k \<in> S then skip_row now n else n) (row_get nr_node_id k nrs)"
  by (induction nrs) (auto simp: skips_def row_get_Cons)

lemma status_of_skips:
  "status_of (skips now S nrs) k = (if k \<in> S then map_option (\<lambda>_. N_SKIPPED) (row_get nr_node_id k nrs) else status_of nrs k)"
  by (auto simp: status_of_def row_get_skips option.map_comp comp_def skip_row_def)

lemma skips_upd: "row_upd nr_node_id k (skip_row now) (skips now S nrs) = skips now (insert k S) nrs"
  by (auto simp: skips_def row_upd_def skip_row_def)

text \<open>Skipping pending rows only deactivates edges, and exactly those that leave a skipped node.\<close>

lemma edge_is_active_skips:
  assumes "\<And>k. k \<in> S \<Longrightarrow> status_of nrs k = Some N_PENDING"
  shows "edge_is_active idx (skips now S nrs) e \<longleftrightarrow> edge_is_active idx nrs e \<and> e_source e \<notin> S"
proof (cases "e_source e \<in> S")
  case True
  with assms obtain r where "row_get nr_node_id (e_source e) nrs = Some r" by (force simp: status_of_def)
  with True have "status_of (skips now S nrs) (e_source e) = Some N_SKIPPED" by (simp add: status_of_skips)
  with True show ?thesis by (simp add: edge_is_active_def)
next
  case False
  then have "row_get nr_node_id (e_source e) (skips now S nrs) = row_get nr_node_id (e_source e) nrs"
    by (simp add: row_get_skips option.map_ident)
  then have "edge_is_active idx (skips now S nrs) e = edge_is_active idx nrs e"
    by (simp only: edge_is_active_def status_of_def)
  with False show ?thesis by simp
qed

lemma cut_off_pending: "cut_off g nrs k \<Longrightarrow> status_of nrs k = Some N_PENDING"
  by (erule cut_off.cases) simp

lemma skip_node_cases:
  assumes "S \<subseteq> T" "T \<subseteq> Collect (cut_off g nrs)" "node \<in> set (g_nodes g)"
  shows "skip_node now (build g) (skips now S nrs) node (skips now T nrs, sk) = (skips now T nrs, sk)
      \<and> (status_of (skips now T nrs) (n_id node) = Some N_PENDING \<longrightarrow> (\<exists>e\<in>set (g_edges g). e_target e = n_id node) \<longrightarrow>
          (\<exists>e\<in>set (g_edges g). e_target e = n_id node \<and> edge_is_active (build g) (skips now S nrs) e))
    \<or> n_id node \<notin> T \<and> cut_off g nrs (n_id node)
      \<and> skip_node now (build g) (skips now S nrs) node (skips now T nrs, sk) =
          (skips now (insert (n_id node) T) nrs, sk @ [n_id node])"
proof (cases "status_of (skips now T nrs) (n_id node) = Some N_PENDING
    \<and> (\<exists>e\<in>set (g_edges g). e_target e = n_id node)
    \<and> \<not> (\<exists>e\<in>set (g_edges g). e_target e = n_id node \<and> edge_is_active (build g) (skips now S nrs) e)")
  case True
  then have notin: "n_id node \<notin> T" and pend: "status_of nrs (n_id node) = Some N_PENDING"
    by (auto simp: status_of_skips split: if_splits)
  have pS: "status_of nrs k = Some N_PENDING" if "k \<in> S" for k
    using that assms(1,2) cut_off_pending by blast
  have "cut_off g nrs (n_id node)"
  proof (rule cut_off.cut)
    show "n_id node \<in> set (node_ids g)" using assms(3) by (simp add: node_ids_def)
    fix e assume "e \<in> set (g_edges g)" "e_target e = n_id node"
    with True have "\<not> edge_is_active (build g) (skips now S nrs) e" by blast
    then have "\<not> edge_is_active (build g) nrs e \<or> e_source e \<in> S" using edge_is_active_skips [OF pS] by blast
    then show "\<not> edge_is_active (build g) nrs e \<or> cut_off g nrs (e_source e)" using assms(1,2) by blast
  qed (use True pend in auto)
  moreover obtain r where "row_get nr_node_id (n_id node) (skips now T nrs) = Some r" "nr_status r = N_PENDING"
    using True by (auto simp: status_of_def)
  then have "skip_node now (build g) (skips now S nrs) node (skips now T nrs, sk) =
      (skips now (insert (n_id node) T) nrs, sk @ [n_id node])"
    using True by (auto simp: skip_node_def incoming_edges_build filter_empty_conv list_ex_iff skips_upd)
  ultimately show ?thesis using notin by blast
next
  case False
  have "skip_node now (build g) (skips now S nrs) node (skips now T nrs, sk) = (skips now T nrs, sk)"
    using False
    by (auto simp: skip_node_def Let_def incoming_edges_build filter_empty_conv list_ex_iff status_of_def split: option.splits)
  with False show ?thesis by blast
qed

lemma skip_fold_result:
  assumes "S \<subseteq> T" "T \<subseteq> Collect (cut_off g nrs)" "set nodes \<subseteq> set (g_nodes g)"
  shows "\<exists>T' new. fold (skip_node now (build g) (skips now S nrs)) nodes (skips now T nrs, sk) = (skips now T' nrs, sk @ new)
    \<and> T' = T \<union> set new \<and> T' \<subseteq> Collect (cut_off g nrs)
    \<and> (new = [] \<longrightarrow> (\<forall>node\<in>set nodes. status_of (skips now T nrs) (n_id node) = Some N_PENDING \<longrightarrow>
          (\<exists>e\<in>set (g_edges g). e_target e = n_id node) \<longrightarrow>
          (\<exists>e\<in>set (g_edges g). e_target e = n_id node \<and> edge_is_active (build g) (skips now S nrs) e)))"
  using assms
proof (induction nodes arbitrary: T sk)
  case Nil
  then show ?case by (intro exI [of _ T] exI [of _ "[]"]) auto
next
  case (Cons node nodes)
  let ?f = "skip_node now (build g) (skips now S nrs)"
  have node: "node \<in> set (g_nodes g)" using Cons.prems by simp
  from skip_node_cases [OF Cons.prems(1,2) node, of now sk] show ?case
  proof (elim disjE conjE)
    assume same: "?f node (skips now T nrs, sk) = (skips now T nrs, sk)"
      and ok: "status_of (skips now T nrs) (n_id node) = Some N_PENDING \<longrightarrow> (\<exists>e\<in>set (g_edges g). e_target e = n_id node) \<longrightarrow>
          (\<exists>e\<in>set (g_edges g). e_target e = n_id node \<and> edge_is_active (build g) (skips now S nrs) e)"
    from Cons.IH [of T sk] Cons.prems show ?thesis unfolding fold_Cons o_apply same using ok by auto
  next
    assume cut: "cut_off g nrs (n_id node)" and
      step: "?f node (skips now T nrs, sk) = (skips now (insert (n_id node) T) nrs, sk @ [n_id node])"
    have "S \<subseteq> insert (n_id node) T" "insert (n_id node) T \<subseteq> Collect (cut_off g nrs)" "set nodes \<subseteq> set (g_nodes g)"
      using Cons.prems cut by auto
    from Cons.IH [OF this, of "sk @ [n_id node]"] obtain T' new where
      "fold ?f nodes (skips now (insert (n_id node) T) nrs, sk @ [n_id node]) = (skips now T' nrs, (sk @ [n_id node]) @ new)"
      "T' = insert (n_id node) T \<union> set new" "T' \<subseteq> Collect (cut_off g nrs)" by blast
    then show ?thesis
      unfolding fold_Cons o_apply step by (intro exI [of _ T'] exI [of _ "n_id node # new"]) auto
  qed
qed

lemma cut_off_closed:
  assumes "S \<subseteq> Collect (cut_off g nrs)"
    and stable: "\<And>node. node \<in> set (g_nodes g) \<Longrightarrow> status_of (skips now S nrs) (n_id node) = Some N_PENDING \<Longrightarrow>
      \<exists>e\<in>set (g_edges g). e_target e = n_id node \<Longrightarrow>
      \<exists>e\<in>set (g_edges g). e_target e = n_id node \<and> edge_is_active (build g) (skips now S nrs) e"
  shows "cut_off g nrs k \<Longrightarrow> k \<in> S"
proof (induction rule: cut_off.induct)
  case (cut k)
  show ?case
  proof (rule ccontr)
    assume "k \<notin> S"
    then have "status_of (skips now S nrs) k = Some N_PENDING" using cut by (simp add: status_of_skips)
    moreover obtain node where "node \<in> set (g_nodes g)" "k = n_id node" using cut(1) by (auto simp: node_ids_def)
    ultimately obtain e where e: "e \<in> set (g_edges g)" "e_target e = k" "edge_is_active (build g) (skips now S nrs) e"
      using stable [of node] cut(3) by blast
    moreover have "status_of nrs j = Some N_PENDING" if "j \<in> S" for j
      using that assms(1) cut_off_pending by blast
    ultimately have "edge_is_active (build g) nrs e" "e_source e \<notin> S" using edge_is_active_skips by blast+
    with cut(4) [OF e(1,2)] show False by blast
  qed
qed

lemma mark_unreachable_skips:
  assumes "S \<subseteq> Collect (cut_off g nrs)"
  shows "\<exists>sk. mark_unreachable_condition_nodes now g (skips now S nrs) = (skips now (Collect (cut_off g nrs)) nrs, sk)
    \<and> S \<union> set sk = Collect (cut_off g nrs)"
  using assms
proof (induction "pending_count (skips now S nrs)" arbitrary: S rule: less_induct)
  case less
  let ?D = "Collect (cut_off g nrs)"
  obtain T new where T: "skip_pass now g (skips now S nrs) = (skips now T nrs, new)" "T = S \<union> set new" "T \<subseteq> ?D"
    and fix_: "new = [] \<longrightarrow> (\<forall>node\<in>set (g_nodes g). status_of (skips now S nrs) (n_id node) = Some N_PENDING \<longrightarrow>
          (\<exists>e\<in>set (g_edges g). e_target e = n_id node) \<longrightarrow>
          (\<exists>e\<in>set (g_edges g). e_target e = n_id node \<and> edge_is_active (build g) (skips now S nrs) e))"
    using skip_fold_result [OF order.refl less.prems, of "g_nodes g" now "[]"] unfolding skip_pass_def by auto
  show ?case
  proof (cases "new = []")
    case True
    with fix_ have "?D \<subseteq> S" using cut_off_closed [OF less.prems, where now = now] by blast
    with T True less.prems have "T = ?D" "S = ?D" by auto
    with T True show ?thesis by (simp add: mark_unreachable_condition_nodes.simps)
  next
    case False
    then have "pending_count (skips now T nrs) < pending_count (skips now S nrs)"
      using skip_fold_count [of now "build g" "skips now S nrs" "g_nodes g" "skips now S nrs" "[]" "skips now T nrs" new] T(1)
      by (auto simp: skip_pass_def)
    from less.hyps [OF this T(3)] obtain sk where
      "mark_unreachable_condition_nodes now g (skips now T nrs) = (skips now ?D nrs, sk)" "T \<union> set sk = ?D" by blast
    with T False show ?thesis by (subst mark_unreachable_condition_nodes.simps) auto
  qed
qed

lemma skips_empty [simp]: "skips now {} nrs = nrs"
  by (simp add: skips_def)

lemma mark_unreachable_result:
  "\<exists>sk. mark_unreachable_condition_nodes now g nrs = (skips now (Collect (cut_off g nrs)) nrs, sk)
    \<and> set sk = Collect (cut_off g nrs)"
  using mark_unreachable_skips [of "{}" g nrs now] by simp

section \<open>Properties of readiness\<close>


definition demo_fork :: workflow_graph where
  "demo_fork = \<lparr> g_nodes = [(demo_gnode ''c'')\<lparr> n_type := LOGIC, n_subtype := ''condition'' \<rparr>, demo_gnode ''x'', demo_gnode ''y''],
     g_edges = [(demo_gedge ''e1'' ''c'' ''x'')\<lparr> e_source_handle := Some ''true'' \<rparr>,
                (demo_gedge ''e2'' ''c'' ''y'')\<lparr> e_source_handle := Some ''false'' \<rparr>],
     g_variables = [], g_metadata = [] \<rparr>"

definition demo_fork_rows :: "node_run list" where
  "demo_fork_rows = [(demo_node ''u1'' ''c'' N_COMPLETED)\<lparr> nr_output_json := Some [(''selected_branch'', JStr ''true'')] \<rparr>,
     demo_node ''u2'' ''x'' N_PENDING, demo_node ''u3'' ''y'' N_PENDING]"

lemmas demo_fork_defs = demo_fork_def demo_fork_rows_def demo_gnode_def demo_gedge_def demo_node_def

lemma demo_fork_status:
  "status_of demo_fork_rows k = (if k = ''c'' then Some N_COMPLETED else if k = ''x'' then Some N_PENDING
     else if k = ''y'' then Some N_PENDING else None)"
  by (simp add: status_of_def demo_fork_defs row_get_Cons)

lemma demo_fork_lookups:
  "index_node (build demo_fork) ''c'' = Some ((demo_gnode ''c'')\<lparr> n_type := LOGIC, n_subtype := ''condition'' \<rparr>)"
  "row_get nr_node_id ''c'' demo_fork_rows = Some ((demo_node ''u1'' ''c'' N_COMPLETED)\<lparr> nr_output_json := Some [(''selected_branch'', JStr ''true'')] \<rparr>)"
  by (simp_all add: index_node_build row_get_Cons demo_fork_defs)

lemma demo_fork_active:
  "e_source e = ''c'' \<Longrightarrow> edge_is_active (build demo_fork) demo_fork_rows e \<longleftrightarrow> e_source_handle e = Some ''true''"
  by (cases "e_source_handle e")
    (simp_all add: edge_is_active_def Let_def demo_fork_status demo_fork_lookups dget_def dget_or_def json_opt_def)


text \<open>
  C17: After a Condition has selected its branch, exactly the nodes that can no longer be reached
  become SKIPPED: the least set of pending nodes all of whose incoming edges are inactive or come from the set. The
  fixpoint iteration ends, the nodes it reports are these nodes, and no other Node Run is touched.
\<close>

theorem unreachable_nodes_exact:
  "\<exists>sk. mark_unreachable_condition_nodes now g nrs =
      (map (\<lambda>n. if cut_off g nrs (nr_node_id n)
                then n\<lparr> nr_status := N_SKIPPED, nr_finished_at := Some now \<rparr> else n) nrs, sk)
    \<and> set sk = {k. cut_off g nrs k}"
  using mark_unreachable_result [of now g nrs] unfolding skips_def skip_row_def mem_Collect_eq .

end
