(* ===== verification/Resolver.thy ===== *)
theory Resolver
  imports ContextRef
begin

text \<open>
  The ContextResolver (\<^verbatim>\<open>runtime/context/resolver.py\<close>): a pure reference keeps the native
  value it denotes, references embedded in text are interpolated as strings, and an
  unavailable value raises \<open>UnresolvedContextReference\<close>. \<open>repr\<close> stands for Python's
  \<open>str(...)\<close> of floats, lists and dictionaries.
\<close>

record resolver =
  rs_workflow_input :: dict
  rs_variables :: dict
  rs_node_outputs :: dict
  rs_run :: dict

fun stringify :: "(json \<Rightarrow> string) \<Rightarrow> json \<Rightarrow> string" where
  "stringify repr JNull = []"
| "stringify repr (JBool b) = (if b then ''true'' else ''false'')"
| "stringify repr (JInt i) = str_int i"
| "stringify repr (JStr s) = s"
| "stringify repr v = repr v"

fun navigate_parts :: "json \<Rightarrow> string list \<Rightarrow> json option" where
  "navigate_parts v [] = Some v"
| "navigate_parts v (p # ps) =
     (case v of JObj d \<Rightarrow> (case dget d p of None \<Rightarrow> None | Some w \<Rightarrow> navigate_parts w ps) | _ \<Rightarrow> None)"

definition navigate :: "json \<Rightarrow> string \<Rightarrow> context_reference \<Rightarrow> exn + json" where
  "navigate data path reference =
     (case navigate_parts data (split_on CHR ''.'' path) of
        None \<Rightarrow> Inl (UnresolvedContextReference (cr_raw reference))
      | Some v \<Rightarrow> Inr v)"

definition resolve_reference :: "resolver \<Rightarrow> context_reference \<Rightarrow> exn + json" where
  "resolve_reference R reference =
     (let scope = cr_scope reference; path = cr_path reference in
      if scope = ''workflow.input'' then navigate (JObj (rs_workflow_input R)) path reference
      else if scope = ''workflow.variables'' then navigate (JObj (rs_variables R)) path reference
      else if scope = ''run'' then navigate (JObj (rs_run R)) path reference
      else (case cr_node_id reference of
              Some i \<Rightarrow>
                (case dget0 (rs_node_outputs R) i of
                   JNull \<Rightarrow> Inl (UnresolvedContextReference (cr_raw reference))
                 | v \<Rightarrow> navigate v path reference)
            | None \<Rightarrow> Inl (UnresolvedContextReference (cr_raw reference))))"

definition as_pure_reference :: "string \<Rightarrow> context_reference option" where
  "as_pure_reference text =
     (case parse_context_reference text of Inl _ \<Rightarrow> None | Inr r \<Rightarrow> Some r)"

definition parse_all :: "string \<Rightarrow> exn + context_reference list" where
  "parse_all text =
     (case extract_context_references (JStr text) of
        Inl (RelayviaError _ _) \<Rightarrow> Inl (UnresolvedContextReference text)
      | r \<Rightarrow> r)"

definition resolve_string :: "(json \<Rightarrow> string) \<Rightarrow> resolver \<Rightarrow> string \<Rightarrow> exn + json" where
  "resolve_string repr R text =
     (if \<not> contains ''{{'' text then Inr (JStr text)
      else (case as_pure_reference text of
        Some r \<Rightarrow> resolve_reference R r
      | None \<Rightarrow>
          ebind (parse_all text) (\<lambda>references.
          ebind (foldM (\<lambda>resolved r. ebind (resolve_reference R r) (\<lambda>v.
                   Inr (replace_all (cr_raw r) (stringify repr v) resolved))) text references)
            (\<lambda>resolved. Inr (JStr resolved)))))"

fun resolve :: "(json \<Rightarrow> string) \<Rightarrow> resolver \<Rightarrow> json \<Rightarrow> exn + json"
  and resolve_list :: "(json \<Rightarrow> string) \<Rightarrow> resolver \<Rightarrow> json list \<Rightarrow> exn + json list"
  and resolve_fields :: "(json \<Rightarrow> string) \<Rightarrow> resolver \<Rightarrow> dict \<Rightarrow> exn + dict" where
  "resolve repr R (JObj d) = ebind (resolve_fields repr R d) (\<lambda>d'. Inr (JObj d'))"
| "resolve repr R (JArr xs) = ebind (resolve_list repr R xs) (\<lambda>ys. Inr (JArr ys))"
| "resolve repr R (JStr s) = resolve_string repr R s"
| "resolve repr R v = Inr v"
| "resolve_list repr R [] = Inr []"
| "resolve_list repr R (x # xs) =
     ebind (resolve repr R x) (\<lambda>y. ebind (resolve_list repr R xs) (\<lambda>ys. Inr (y # ys)))"
| "resolve_fields repr R [] = Inr []"
| "resolve_fields repr R ((k, v) # d) =
     ebind (resolve repr R v) (\<lambda>w. ebind (resolve_fields repr R d) (\<lambda>d'. Inr ((k, w) # d')))"

section \<open>Properties\<close>

text \<open>A value without any opening delimiter resolves to itself.\<close>

fun reference_free :: "json \<Rightarrow> bool"
  and reference_free_list :: "json list \<Rightarrow> bool"
  and reference_free_fields :: "dict \<Rightarrow> bool" where
  "reference_free (JStr s) = (\<not> contains ''{{'' s)"
| "reference_free (JArr xs) = reference_free_list xs"
| "reference_free (JObj d) = reference_free_fields d"
| "reference_free _ = True"
| "reference_free_list [] = True"
| "reference_free_list (x # xs) = (reference_free x \<and> reference_free_list xs)"
| "reference_free_fields [] = True"
| "reference_free_fields ((k, v) # d) = (reference_free v \<and> reference_free_fields d)"

lemma resolve_reference_free_lemma:
  "reference_free v \<Longrightarrow> resolve repr R v = Inr v"
  "reference_free_list xs \<Longrightarrow> resolve_list repr R xs = Inr xs"
  "reference_free_fields d \<Longrightarrow> resolve_fields repr R d = Inr d"
  by (induction v and xs and d rule: reference_free_reference_free_list_reference_free_fields.induct)
     (auto simp: resolve_string_def)

lemma resolve_fields_keys: "resolve_fields repr R d = Inr d' \<Longrightarrow> map fst d' = map fst d"
  by (induction d arbitrary: d') (auto simp: outcome)

lemma resolve_fields_dget:
  "resolve_fields repr R d = Inr d' \<Longrightarrow> dget d k = Some v \<Longrightarrow>
     \<exists>w. dget d' k = Some w \<and> resolve repr R v = Inr w"
  by (induction d arbitrary: d') (auto simp: outcome dget_def split: if_splits)

text \<open>The only exception a resolution ends with is \<open>UnresolvedContextReference\<close>.\<close>

lemma parse_context_references_error:
  "parse_context_references s = Inl e \<Longrightarrow> e = INVALID_CONTEXT_REFERENCE"
proof -
  have fold: "foldM (\<lambda>rs m. ebind (parse_context_reference m) (\<lambda>r. Inr (rs @ [r]))) acc ms = Inl e \<Longrightarrow>
    e = INVALID_CONTEXT_REFERENCE" for acc ms
    by (induction ms arbitrary: acc)
       (auto simp: outcome parse_context_reference_def split: if_splits option.splits)
  assume "parse_context_references s = Inl e"
  then show ?thesis
    by (auto simp: parse_context_references_def outcome dest: fold split: if_splits)
qed

lemma resolve_reference_error:
  "resolve_reference R r = Inl e \<Longrightarrow> e = UnresolvedContextReference (cr_raw r)"
  by (auto simp: resolve_reference_def navigate_def Let_def split: if_splits option.splits json.splits)

lemma resolve_string_error: "resolve_string repr R s = Inl e \<Longrightarrow> \<exists>raw. e = UnresolvedContextReference raw"
proof -
  have fold: "foldM (\<lambda>resolved r. ebind (resolve_reference R r) (\<lambda>v.
      Inr (replace_all (cr_raw r) (stringify repr v) resolved))) t rs = Inl e \<Longrightarrow>
    \<exists>raw. e = UnresolvedContextReference raw" for t rs
    by (induction rs arbitrary: t) (auto simp: outcome dest: resolve_reference_error)
  assume "resolve_string repr R s = Inl e"
  then show ?thesis
    by (auto simp: resolve_string_def parse_all_def outcome INVALID_CONTEXT_REFERENCE_def
             dest: resolve_reference_error fold parse_context_references_error
             split: if_splits option.splits sum.splits exn.splits)
qed

lemma resolve_error_kind:
  "resolve repr R v = Inl e \<Longrightarrow> \<exists>raw. e = UnresolvedContextReference raw"
  "resolve_list repr R xs = Inl e \<Longrightarrow> \<exists>raw. e = UnresolvedContextReference raw"
  "resolve_fields repr R d = Inl e \<Longrightarrow> \<exists>raw. e = UnresolvedContextReference raw"
  by (induction v and xs and d rule: reference_free_reference_free_list_reference_free_fields.induct)
     (auto simp: outcome dest: resolve_string_error)

section \<open>Properties of the resolver\<close>

lemma split_dotted: "ps \<noteq> [] \<Longrightarrow> \<forall>p\<in>set ps. is_identifier p \<Longrightarrow> split_on CHR ''.'' (dotted ps) = ps"
  unfolding dotted_def using identifier_no_dot by (intro split_on_join) auto

lemma reference_parts_node:
  "is_identifier i \<Longrightarrow> ps \<noteq> [] \<Longrightarrow> \<forall>p\<in>set ps. is_identifier p \<Longrightarrow>
   reference_parts raw (''nodes'' # i # ''output'' # ps) =
     Some \<lparr>cr_raw = raw, cr_scope = dotted [''nodes'', i, ''output''], cr_path = dotted ps, cr_node_id = Some i\<rparr>"
  by (cases ps) (auto simp: reference_parts_def is_identifier_def is_ident_char_def)

lemma reference_parts_input:
  "ps \<noteq> [] \<Longrightarrow> \<forall>p\<in>set ps. is_identifier p \<Longrightarrow>
   reference_parts raw (''workflow'' # ''input'' # ps) =
     Some \<lparr>cr_raw = raw, cr_scope = dotted [''workflow'', ''input''], cr_path = dotted ps, cr_node_id = None\<rparr>"
  by (cases ps) (auto simp: reference_parts_def is_identifier_def is_ident_char_def)

lemma resolve_pure: "parse_context_reference v = Inr r \<Longrightarrow> resolve repr R (JStr v) = resolve_reference R r"
  using parse_context_reference_braces [of v r] by (simp add: resolve_string_def as_pure_reference_def)

lemma reference_words:
  "is_identifier ''nodes''" "is_identifier ''output''" "is_identifier ''workflow''" "is_identifier ''input''"
  by (simp_all add: is_identifier_def is_ident_char_def)

lemma reference_scopes:
  "dotted [''nodes'', i, ''output''] \<notin> {''workflow.input'', ''workflow.variables'', ''run''}"
  "dotted [''workflow'', ''input''] = ''workflow.input''"
  by (simp_all add: dotted_def)

lemma resolve_node_output:
  assumes "ps \<noteq> []" "\<forall>p\<in>set ps. is_identifier p" "is_identifier i"
    and "\<forall>c\<in>set l. is_space c" "\<forall>c\<in>set r. is_space c" "raw = ''{{'' @ l @ dotted (''nodes'' # i # ''output'' # ps) @ r @ ''}}''"
  shows "resolve repr R (JStr raw) =
      (case navigate_parts (dget0 (rs_node_outputs R) i) ps of
         None \<Rightarrow> Inl (UnresolvedContextReference raw) | Some v \<Rightarrow> Inr v)"
proof -
  let ?r = "\<lparr>cr_raw = raw, cr_scope = dotted [''nodes'', i, ''output''], cr_path = dotted ps, cr_node_id = Some i\<rparr>"
  have "parse_context_reference raw = Inr ?r"
    unfolding assms(6) by (subst parse_context_reference_parts) (use assms reference_words in \<open>auto simp: reference_parts_node\<close>)
  then have "resolve repr R (JStr raw) = resolve_reference R ?r" by (rule resolve_pure)
  also have "\<dots> = (case dget0 (rs_node_outputs R) i of JNull \<Rightarrow> Inl (UnresolvedContextReference raw) | v \<Rightarrow> navigate v (dotted ps) ?r)"
    using reference_scopes(1) [of i]
    by (cases "dget0 (rs_node_outputs R) i") (simp_all add: resolve_reference_def Let_def)
  also have "\<dots> = (case navigate_parts (dget0 (rs_node_outputs R) i) ps of
      None \<Rightarrow> Inl (UnresolvedContextReference raw) | Some v \<Rightarrow> Inr v)"
    using split_dotted [OF assms(1,2)] assms(1)
    by (cases ps; cases "dget0 (rs_node_outputs R) i") (simp_all add: navigate_def split: option.split)
  finally show ?thesis .
qed

lemma resolve_workflow_input:
  assumes "ps \<noteq> []" "\<forall>p\<in>set ps. is_identifier p"
    and "\<forall>c\<in>set l. is_space c" "\<forall>c\<in>set r. is_space c" "raw = ''{{'' @ l @ dotted (''workflow'' # ''input'' # ps) @ r @ ''}}''"
  shows "resolve repr R (JStr raw) =
      (case navigate_parts (JObj (rs_workflow_input R)) ps of
         None \<Rightarrow> Inl (UnresolvedContextReference raw) | Some v \<Rightarrow> Inr v)"
proof -
  let ?r = "\<lparr>cr_raw = raw, cr_scope = dotted [''workflow'', ''input''], cr_path = dotted ps, cr_node_id = None\<rparr>"
  have "parse_context_reference raw = Inr ?r"
    unfolding assms(5) by (subst parse_context_reference_parts) (use assms reference_words in \<open>auto simp: reference_parts_input\<close>)
  then have "resolve repr R (JStr raw) = resolve_reference R ?r" by (rule resolve_pure)
  also have "\<dots> = navigate (JObj (rs_workflow_input R)) (dotted ps) ?r"
    by (simp add: resolve_reference_def Let_def reference_scopes)
  finally show ?thesis using split_dotted [OF assms(1,2)] by (simp add: navigate_def split: option.split)
qed



text \<open>
  Resolution is total and has one failure: a value without references resolves to itself, and
  whatever the value is, the only exception is UnresolvedContextReference; a resolved dictionary keeps its keys in order.
\<close>

lemma resolve_outcomes:
  "(reference_free v \<longrightarrow> resolve repr R v = Inr v)
   \<and> (\<forall>e. resolve repr R v = Inl e \<longrightarrow> (\<exists>raw. e = UnresolvedContextReference raw))
   \<and> (\<forall>d d'. v = JObj d \<longrightarrow> resolve repr R v = Inr d' \<longrightarrow> (\<exists>w. d' = JObj w \<and> map fst w = map fst d))"
  using resolve_reference_free_lemma(1) resolve_error_kind(1) resolve_fields_keys
  by (auto simp: outcome)

theorem resolve_outcomes_witness:
  "\<forall>R. resolve (\<lambda>_. []) R (JObj [(''a'', JStr ''plain'')]) = Inr (JObj [(''a'', JStr ''plain'')])"
  using resolve_outcomes [of "JObj [(''a'', JStr ''plain'')]" "\<lambda>_. []"] by (simp add: startswith_def)

end
