(* ===== verification/Coding.thy ===== *)
theory Coding
  imports PyString Graph
begin

text \<open>
  The Codex connector (\<^verbatim>\<open>connectors/agents/coding.py\<close>): the command line a Runner executes for
  a coding agent, with \<open>shlex.quote\<close>. \<open>shell_words\<close> is the specification it is measured
  against: the words a POSIX shell reads from a line that contains no expansion, \<open>None\<close>
  where an unquoted character or an expansion would mean something else.
\<close>

definition is_safe_char :: "char \<Rightarrow> bool" where
  "is_safe_char c \<longleftrightarrow> is_alnum c \<or> c \<in> set ''_@%+=:,./-''"

definition squote :: char where
  "squote = CHR 0x27"

definition dquote :: char where
  "dquote = CHR 0x22"

definition quote :: "string \<Rightarrow> string" where
  "quote s =
     (if s = [] then [squote, squote]
      else if list_all is_safe_char s then s
      else [squote] @ replace_all [squote] [squote, dquote, squote, dquote, squote] s @ [squote])"

definition build_command :: "string \<Rightarrow> string option \<Rightarrow> string" where
  "build_command task executable =
     (let cli = (case executable of None \<Rightarrow> ''codex'' | Some e \<Rightarrow> if e = [] then ''codex'' else e) in
      quote cli @ '' exec --json --sandbox workspace-write '' @ quote task)"

section \<open>The words a shell reads\<close>

datatype sh_mode = Outside | Bare | Single | Double

fun shell :: "sh_mode \<Rightarrow> string \<Rightarrow> string list \<Rightarrow> string \<Rightarrow> string list option" where
  "shell Outside w ws [] = Some ws"
| "shell Bare w ws [] = Some (ws @ [w])"
| "shell Single w ws [] = None"
| "shell Double w ws [] = None"
| "shell Outside w ws (c # cs) =
     (if c = CHR '' '' then shell Outside [] ws cs
      else if c = squote then shell Single [] ws cs
      else if c = dquote then shell Double [] ws cs
      else if is_safe_char c then shell Bare [c] ws cs else None)"
| "shell Bare w ws (c # cs) =
     (if c = CHR '' '' then shell Outside [] (ws @ [w]) cs
      else if c = squote then shell Single w ws cs
      else if c = dquote then shell Double w ws cs
      else if is_safe_char c then shell Bare (w @ [c]) ws cs else None)"
| "shell Single w ws (c # cs) = (if c = squote then shell Bare w ws cs else shell Single (w @ [c]) ws cs)"
| "shell Double w ws (c # cs) =
     (if c = dquote then shell Bare w ws cs
      else if c \<in> {CHR ''$'', CHR 0x60, CHR 0x5C} then None
      else shell Double (w @ [c]) ws cs)"

definition shell_words :: "string \<Rightarrow> string list option" where
  "shell_words s = shell Outside [] [] s"

lemma safe_not_special: "is_safe_char c \<Longrightarrow> c \<noteq> CHR '' '' \<and> c \<noteq> squote \<and> c \<noteq> dquote"
proof -
  have "\<not> is_safe_char (CHR '' '')" "\<not> is_safe_char squote" "\<not> is_safe_char dquote" by code_simp+
  then show "is_safe_char c \<Longrightarrow> ?thesis" by auto
qed

lemma shell_bare_safe:
  "list_all is_safe_char s \<Longrightarrow> shell Bare w ws (s @ rest) = shell Bare (w @ s) ws rest"
  by (induction s arbitrary: w) (auto dest: safe_not_special)

lemma replace_squote:
  "replace_all [squote] r s = concat (map (\<lambda>c. if c = squote then r else [c]) s)"
  by (induction s) (simp_all add: replace_all.simps startswith_def)

lemma shell_single_quoted:
  "shell Single w ws (replace_all [squote] [squote, dquote, squote, dquote, squote] s @ [squote] @ rest)
     = shell Bare (w @ s) ws rest"
proof (induction s arbitrary: w)
  case (Cons c s)
  have "dquote \<noteq> squote" "squote \<notin> {CHR '' '', dquote, CHR ''$'', CHR 0x60, CHR 0x5C}" "dquote \<noteq> CHR '' ''"
    by (simp_all add: squote_def dquote_def)
  then show ?case using Cons [of "w @ [c]"] by (cases "c = squote") (simp_all add: replace_squote)
qed (simp add: replace_all.simps)

text \<open>A quoted string is read back as exactly one word, whatever it contains.\<close>

lemma shell_quote: "shell Outside [] ws (quote s @ rest) = shell Bare s ws rest"
proof -
  have d: "dquote \<noteq> squote" "CHR '' '' \<noteq> squote" by (simp_all add: squote_def dquote_def)
  consider "s = []" | "s \<noteq> []" "list_all is_safe_char s" | "s \<noteq> []" "\<not> list_all is_safe_char s" by blast
  then show ?thesis
  proof cases
    case 2
    then obtain c cs where "s = c # cs" "is_safe_char c" "list_all is_safe_char cs" by (cases s) auto
    then show ?thesis using safe_not_special [of c] shell_bare_safe [of cs "[c]" ws rest] by (simp add: quote_def)
  next
    case 3
    then show ?thesis using shell_single_quoted [of "[]" ws s rest] d by (simp add: quote_def)
  qed (use d in \<open>simp add: quote_def\<close>)
qed


end
