(* ===== verification/Scheduler.thy ===== *)
theory Scheduler
  imports Readiness Resolver Workspaces Trace Coding
begin

text \<open>
  WorkflowScheduler (\<^verbatim>\<open>runtime/scheduler/workflow_scheduler.py\<close>): scheduling of ready nodes,
  reconciliation of a run, due wait timers, cancellation, retry settings and the payloads of
  Runner tasks. Every function works inside the caller's transaction on the session state.
\<close>

record scheduler =
  default_priority :: int
  default_max_attempts :: int
  default_backoff_seconds :: int

definition workflow_scheduler :: scheduler where
  "workflow_scheduler = \<lparr> default_priority = 0, default_max_attempts = 3, default_backoff_seconds = 5 \<rparr>"

section \<open>Retry settings\<close>

definition bounded_int :: "json \<Rightarrow> int \<Rightarrow> int \<Rightarrow> int" where
  "bounded_int v dflt maximum = (case py_int v of None \<Rightarrow> dflt | Some i \<Rightarrow> max 0 (min i maximum))"

text \<open>The ServiceAction snapshot a Service node refers to, and its retry policy.\<close>

definition action_policy :: "workflow_run \<Rightarrow> workflow_node \<Rightarrow> dict option" where
  "action_policy run node =
     (case (dget_or (r_execution_snapshot_json run) ''service_actions'' (JObj []), dget0 (n_config node) ''service_action_id'') of
        (JObj actions, JStr action_id) \<Rightarrow>
          (case dget0 actions action_id of JObj action \<Rightarrow> as_dict (dget0 action ''retry_policy'') | _ \<Rightarrow> None)
      | _ \<Rightarrow> None)"

definition service_backoff_seconds :: "workflow_run \<Rightarrow> workflow_node \<Rightarrow> int \<Rightarrow> int" where
  "service_backoff_seconds run node dflt =
     (if n_type node \<noteq> SERVICE \<or> n_subtype node \<noteq> ''http'' then dflt
      else bounded_int (case action_policy run node of None \<Rightarrow> JNull | Some p \<Rightarrow> dget0 p ''backoff_seconds'') dflt 86400)"

definition retry_settings_for_node :: "workflow_run \<Rightarrow> workflow_node \<Rightarrow> int \<Rightarrow> int \<times> int" where
  "retry_settings_for_node run node backoff =
     (let retry = dict_or_empty (dget0 (n_config node) ''retry'') in
      if dhas retry ''max_retries''
      then (bounded_int (dget0 retry ''max_retries'') 0 10 + 1, service_backoff_seconds run node backoff)
      else if n_type node = SERVICE \<and> n_subtype node = ''http'' then
        (case action_policy run node of None \<Rightarrow> (1, 0)
         | Some p \<Rightarrow> (bounded_int (dget0 p ''max_retries'') 0 10 + 1, bounded_int (dget0 p ''backoff_seconds'') 5 86400))
      else (1, 0))"

section \<open>Payloads of Runner tasks\<close>

definition context_resolver :: "lib \<Rightarrow> workflow_run \<Rightarrow> node_run list \<Rightarrow> resolver" where
  "context_resolver L run nrs =
     \<lparr> rs_workflow_input = r_input_json run, rs_variables = r_variables_json run,
       rs_node_outputs = List.map_filter (\<lambda>n. map_option (\<lambda>out. (nr_node_id n, JObj out)) (nr_output_json n)) nrs,
       rs_run = [(''id'', JStr (r_id run)), (''status'', JStr (workflow_status_value (r_status run))),
                 (''created_at'', JStr (lib_isoformat L (r_created_at run)))] \<rparr>"

text \<open>\<open>max(int(value), 1) if value else default\<close>, the default also when \<open>int\<close> raises\<close>

definition timeout_or :: "json \<Rightarrow> int \<Rightarrow> int" where
  "timeout_or v dflt = (if truthy v then (case py_int v of None \<Rightarrow> dflt | Some i \<Rightarrow> max i 1) else dflt)"

definition resolve_dict :: "lib \<Rightarrow> workflow_run \<Rightarrow> node_run list \<Rightarrow> dict \<Rightarrow> dict option" where
  "resolve_dict L run nrs d =
     (case resolve (lib_repr L) (context_resolver L run nrs) (JObj d) of
        Inr (JObj r) \<Rightarrow> Some r | _ \<Rightarrow> None)"

definition resolve_agent_task :: "lib \<Rightarrow> workflow_run \<Rightarrow> node_run list \<Rightarrow> workflow_node \<Rightarrow> (string \<times> int) option" where
  "resolve_agent_task L run nrs node =
     (case resolve_dict L run nrs (n_config node) of None \<Rightarrow> None
      | Some resolved \<Rightarrow>
        (case dget0 resolved ''task_template'' of
           JStr task \<Rightarrow> if strip task = [] then None else Some (task, timeout_or (dget0 resolved ''timeout_seconds'') 600)
         | _ \<Rightarrow> None))"

definition resolve_tool_config :: "lib \<Rightarrow> workflow_run \<Rightarrow> node_run list \<Rightarrow> workflow_node \<Rightarrow> dict option" where
  "resolve_tool_config L run nrs node =
     (case resolve_dict L run nrs (n_config node) of None \<Rightarrow> None
      | Some resolved \<Rightarrow>
        (case dget0 resolved ''command'' of
           JStr command \<Rightarrow>
             if strip command = [] then None
             else Some [(''command'', JStr command),
               (''working_directory'', json_opt (as_str (dget0 resolved ''working_directory''))),
               (''runner_id'', json_opt (as_str (dget0 resolved ''runner_id''))),
               (''timeout_seconds'', JInt (timeout_or (dget0 resolved ''timeout_seconds'') 60))]
         | _ \<Rightarrow> None))"

text \<open>Configuration, capability and Runner of a task a Runner executes.\<close>

record dispatch =
  dp_config :: dict
  dp_execution_type :: string
  dp_capability :: string
  dp_runner_id :: "string option"

definition coding_agent_payload :: "lib \<Rightarrow> workflow_run \<Rightarrow> node_run list \<Rightarrow> workflow_node \<Rightarrow> dispatch option" where
  "coding_agent_payload L run nrs node =
     (case (dget_or (r_execution_snapshot_json run) ''agents'' (JObj []), dget0 (n_config node) ''agent_id'') of
        (JObj snapshot, JStr agent_id) \<Rightarrow>
          (case dget0 snapshot agent_id of
             JObj agent \<Rightarrow>
               if dget0 agent ''connector_type'' \<noteq> JStr ''codex'' then None
               else (case resolve_agent_task L run nrs node of None \<Rightarrow> None
                 | Some (task, timeout_seconds) \<Rightarrow>
                     Some \<lparr> dp_config = [(''command'', JStr (build_command task (as_str (dget0 agent ''executable'')))),
                              (''working_directory'', JNull), (''timeout_seconds'', JInt timeout_seconds)],
                            dp_execution_type = ''coding_agent'', dp_capability = ''codex'',
                            dp_runner_id = as_str (dget0 agent ''runner_id'') \<rparr>)
           | _ \<Rightarrow> None)
      | _ \<Rightarrow> None)"

definition tool_payload :: "lib \<Rightarrow> workflow_run \<Rightarrow> node_run list \<Rightarrow> workflow_node \<Rightarrow> dispatch option" where
  "tool_payload L run nrs node =
     map_option (\<lambda>config. \<lparr> dp_config = dpop ''runner_id'' config, dp_execution_type = ''shell'', dp_capability = ''shell'',
         dp_runner_id = as_str (dget0 config ''runner_id'') \<rparr>)
       (resolve_tool_config L run nrs node)"

text \<open>\<open>str(value)\<close>\<close>

definition py_str :: "lib \<Rightarrow> json \<Rightarrow> string" where
  "py_str L v = (case v of JStr s \<Rightarrow> s | JInt i \<Rightarrow> str_int i | _ \<Rightarrow> lib_repr L v)"

definition attach_workspace ::
  "lib \<Rightarrow> time \<Rightarrow> string \<Rightarrow> node_run \<Rightarrow> workflow_node \<Rightarrow> dict \<Rightarrow> string option \<Rightarrow> db \<Rightarrow> exn + db \<times> dict" where
  "attach_workspace L now run_id nr node payload runner_id d =
     (case dget0 (n_config node) ''workspace'' of
        JObj ws_config \<Rightarrow>
          if \<not> truthy (dget0 ws_config ''repository'') then Inr (d, payload)
          else
            ebind (create_workspace L now run_id (nr_id nr) (n_id node) (take 8 run_id @ ''-'' @ n_id node)
              (py_str L (dget0 ws_config ''repository''))
              (if truthy (dget0 ws_config ''strategy'') then py_str L (dget0 ws_config ''strategy'') else ''worktree'')
              (as_str (dget0 ws_config ''base_branch'')) runner_id d) (\<lambda>(d, ws).
            Inr (d, dset ''workspace'' (JObj [(''id'', JStr (ws_id ws)), (''repository'', JStr (ws_repository ws)),
              (''strategy'', JStr (ws_workspace_type ws)), (''base_branch'', json_opt (ws_base_branch ws)),
              (''branch'', json_opt (ws_branch ws))]) payload))
      | _ \<Rightarrow> Inr (d, payload))"

section \<open>Scheduling\<close>

text \<open>The rows of a run after the in-memory changes of the scheduler.\<close>

definition put_nodes :: "node_run list \<Rightarrow> db \<Rightarrow> db" where
  "put_nodes nrs d = d\<lparr> node_runs := map (\<lambda>n. case row_get nr_id (nr_id n) nrs of None \<Rightarrow> n | Some n' \<Rightarrow> n') (node_runs d) \<rparr>"

definition skip_events :: "time \<Rightarrow> string \<Rightarrow> string list \<Rightarrow> node_run list \<Rightarrow> db \<Rightarrow> db" where
  "skip_events now run_id before_pending nrs d =
     fold (\<lambda>n d. if nr_node_id n \<in> set before_pending \<and> nr_status n = N_SKIPPED
        then record_event now run_id (Some (nr_id n)) NODE_SKIPPED
          (Some (''Node '' @ nr_node_id n @ '' skipped (inactive branch)'')) [(''node_id'', JStr (nr_node_id n))] d
        else d) nrs d"

text \<open>The \<open>ExecutionTask(...)\<close> of a ready node.\<close>

definition new_task ::
  "string \<Rightarrow> string \<Rightarrow> string \<Rightarrow> dict \<Rightarrow> int \<Rightarrow> int \<Rightarrow> time \<Rightarrow> string option \<Rightarrow> string option \<Rightarrow> execution_task" where
  "new_task tid run_id node_run_id payload priority max_attempts now runner_id capability =
     \<lparr> t_id = tid, t_workflow_run_id = run_id, t_node_run_id = node_run_id, t_task_type = ''node_execution'',
       t_status = T_PENDING, t_payload_json = payload, t_priority = priority, t_attempt = 0,
       t_max_attempts = max_attempts, t_available_at = now, t_locked_by = None, t_lease_token = None,
       t_locked_at = None, t_lease_expires_at = None, t_runner_id = runner_id,
       t_required_capability = capability, t_execution_key = Some (run_id @ '':'' @ node_run_id),
       t_last_error_json = None, t_started_at = None, t_finished_at = None, t_created_at = now \<rparr>"

text \<open>
  How one ready node is queued, once its dispatch (if any) is known: transition, event, and the
  task added to the session.
\<close>

definition queue_node ::
  "lib \<Rightarrow> scheduler \<Rightarrow> time \<Rightarrow> workflow_node \<Rightarrow> node_run \<Rightarrow> string \<Rightarrow> int \<Rightarrow> dict \<Rightarrow> string option \<Rightarrow> string option \<Rightarrow>
   db \<Rightarrow> exn + db" where
  "queue_node L S now node nr run_id max_attempts payload runner_id capability d =
     ebind (transition_node_run (nr_status nr) N_QUEUED) (\<lambda>_.
     let d = upd_node (nr_id nr) (\<lambda>n. n\<lparr> nr_status := N_QUEUED \<rparr>) d;
         d = record_event now run_id (Some (nr_id nr)) NODE_QUEUED (Some (''Node '' @ n_id node @ '' queued''))
               [(''node_id'', JStr (n_id node)), (''node_type'', JStr (node_type_value (n_type node)))] d;
         (tid, d) = uuid4 L d in
     Inr (d\<lparr> new_tasks := new_tasks d @ [new_task tid run_id (nr_id nr) payload (default_priority S) max_attempts now runner_id capability] \<rparr>))"

text \<open>One iteration of the loop over the ready nodes; \<open>submitted\<close> collects the queued ids.\<close>

definition schedule_node ::
  "lib \<Rightarrow> scheduler \<Rightarrow> time \<Rightarrow> workflow_run \<Rightarrow> workflow_graph \<Rightarrow> db \<times> string list \<Rightarrow> string \<Rightarrow> exn + db \<times> string list" where
  "schedule_node L S now run g st node_id =
     (let (d, submitted) = st; nrs = list_node_runs (r_id run) d in
      case (row_get nr_node_id node_id nrs, row_get n_id node_id (g_nodes g)) of
        (Some nr, Some node) \<Rightarrow>
          if get_task_by_node_run (nr_id nr) d \<noteq> None then Inr st
          else
            let (max_attempts, backoff) = retry_settings_for_node run node (default_backoff_seconds S);
                payload = [(''workflow_run_id'', JStr (r_id run)), (''node_run_id'', JStr (nr_id nr)),
                  (''node_id'', JStr node_id), (''retry_backoff_seconds'', JInt backoff)];
                dispatch = (if n_type node = TOOL then tool_payload L run nrs node
                            else if n_type node = AGENT then coding_agent_payload L run nrs node else None) in
            (case dispatch of
               None \<Rightarrow>
                 if n_type node = TOOL then Inr st
                 else ebind (queue_node L S now node nr (r_id run) max_attempts payload None None d)
                        (\<lambda>d. Inr (d, submitted @ [node_id]))
             | Some dp \<Rightarrow>
                 (case resolve_dict L run nrs (n_input_mapping node) of None \<Rightarrow> Inr st
                  | Some resolved_input \<Rightarrow>
                      let d = upd_node (nr_id nr) (\<lambda>n. n\<lparr> nr_input_json := sanitize_output L [] (JObj resolved_input) \<rparr>) d;
                          payload = dset ''execution_type'' (JStr (dp_execution_type dp)) (dset ''config'' (JObj (dp_config dp)) payload) in
                      ebind (attach_workspace L now (r_id run) nr node payload (dp_runner_id dp) d) (\<lambda>(d, payload).
                      ebind (queue_node L S now node nr (r_id run) max_attempts payload (dp_runner_id dp) (Some (dp_capability dp)) d)
                        (\<lambda>d. Inr (d, submitted @ [node_id])))))
      | _ \<Rightarrow> Inr st)"

definition schedule_ready_nodes :: "lib \<Rightarrow> scheduler \<Rightarrow> time \<Rightarrow> string \<Rightarrow> db \<Rightarrow> exn + db \<times> string list" where
  "schedule_ready_nodes L S now run_id d =
     (case get_run run_id d of None \<Rightarrow> Inr (d, [])
      | Some run \<Rightarrow>
        if r_status run \<noteq> W_RUNNING then Inr (d, [])
        else
          ebind (parse_workflow_graph L (r_graph_snapshot_json run)) (\<lambda>g.
          let nrs = list_node_runs run_id d;
              before_pending = map nr_node_id (filter (\<lambda>n. nr_status n = N_PENDING) nrs);
              (nrs, _) = mark_unreachable_condition_nodes now g nrs;
              d = skip_events now run_id before_pending nrs (put_nodes nrs d) in
          foldM (schedule_node L S now run g) (d, []) (find_ready_nodes g nrs)))"

section \<open>Reconciliation\<close>

definition waiting_reason :: "node_run list \<Rightarrow> string option" where
  "waiting_reason nrs =
     (case filter (\<lambda>n. nr_status n = N_WAITING \<and> nr_waiting_reason n \<noteq> None \<and> nr_waiting_reason n \<noteq> Some []) nrs of
        [] \<Rightarrow> None | n # _ \<Rightarrow> nr_waiting_reason n)"

definition workflow_event :: "time \<Rightarrow> string \<Rightarrow> workflow_run_status \<Rightarrow> string option \<Rightarrow> db \<Rightarrow> db" where
  "workflow_event now run_id derived reason d =
     (let payload = (case reason of None \<Rightarrow> [] | Some r \<Rightarrow> if r = [] then [] else [(''reason'', JStr r)]);
          emit = (\<lambda>ty. record_event now run_id None ty (Some (''Workflow '' @ workflow_status_value derived)) payload d) in
      case derived of
        W_WAITING \<Rightarrow> emit WORKFLOW_WAITING
      | W_RUNNING \<Rightarrow> emit WORKFLOW_RESUMED
      | W_COMPLETED \<Rightarrow> emit WORKFLOW_COMPLETED
      | W_FAILED \<Rightarrow> emit WORKFLOW_FAILED
      | W_CANCELLED \<Rightarrow> emit WORKFLOW_CANCELLED
      | _ \<Rightarrow> d)"

definition wait_due :: "lib \<Rightarrow> time \<Rightarrow> node_run \<Rightarrow> bool" where
  "wait_due L now n \<longleftrightarrow>
     nr_status n = N_WAITING \<and> nr_waiting_reason n = Some ''WAIT_TIMER''
     \<and> (case dget0 (nr_waiting_metadata_json n) ''resume_at'' of
          JStr s \<Rightarrow> (case lib_fromisoformat L s of None \<Rightarrow> False | Some due \<Rightarrow> due \<le> now)
        | _ \<Rightarrow> False)"

definition promote_wait :: "time \<Rightarrow> string \<Rightarrow> db \<Rightarrow> node_run \<Rightarrow> exn + db" where
  "promote_wait now run_id d n =
     ebind (transition_node_run N_WAITING N_COMPLETED) (\<lambda>_.
     let d = upd_node (nr_id n) (\<lambda>n. n\<lparr> nr_status := N_COMPLETED,
               nr_output_json := Some (nr_waiting_metadata_json n), nr_finished_at := Some now \<rparr>) d;
         d = record_event now run_id (Some (nr_id n)) NODE_RESUMED (Some ''Wait timer elapsed'')
               [(''node_id'', JStr (nr_node_id n)), (''action'', JStr ''wait'')] d in
     Inr (record_event now run_id (Some (nr_id n)) NODE_COMPLETED (Some ''Node completed after wait'')
            [(''node_id'', JStr (nr_node_id n))] d))"

definition promote_due_waits :: "lib \<Rightarrow> time \<Rightarrow> string \<Rightarrow> db \<Rightarrow> exn + db \<times> bool" where
  "promote_due_waits L now run_id d =
     (let due = filter (wait_due L now) (list_node_runs run_id d) in
      ebind (foldM (promote_wait now run_id) d due) (\<lambda>d. Inr (d, due \<noteq> [])))"

definition cancel_task :: "time \<Rightarrow> string \<Rightarrow> db \<Rightarrow> execution_task \<Rightarrow> exn + db" where
  "cancel_task now run_id d t =
     (if is_execution_task_terminal (t_status t) then Inr d
      else
        ebind (transition_execution_task (t_status t) T_CANCELLED) (\<lambda>_.
        let d = upd_task (t_id t) (\<lambda>t. t\<lparr> t_status := T_CANCELLED, t_finished_at := Some now \<rparr>) d in
        ebind (case get_node (t_node_run_id t) d of None \<Rightarrow> Inr d
               | Some n \<Rightarrow>
                   if is_node_run_terminal (nr_status n) then Inr d
                   else ebind (transition_node_run (nr_status n) N_CANCELLED) (\<lambda>_.
                     Inr (upd_node (t_node_run_id t) (\<lambda>n. n\<lparr> nr_status := N_CANCELLED, nr_finished_at := Some now \<rparr>) d))) (\<lambda>d.
        Inr (record_event now run_id (Some (t_node_run_id t)) NODE_CANCELLED (Some ''Node cancelled'')
               [(''node_id'', dget0 (t_payload_json t) ''node_id'')] d))))"

definition cancel_pending :: "time \<Rightarrow> db \<Rightarrow> node_run \<Rightarrow> exn + db" where
  "cancel_pending now d n =
     (if nr_status n = N_PENDING \<and> \<not> is_node_run_terminal (nr_status n)
      then ebind (transition_node_run (nr_status n) N_CANCELLED) (\<lambda>_.
        Inr (upd_node (nr_id n) (\<lambda>n. n\<lparr> nr_status := N_CANCELLED, nr_finished_at := Some now \<rparr>) d))
      else Inr d)"

definition cancel_run_tasks :: "time \<Rightarrow> string \<Rightarrow> db \<Rightarrow> exn + db" where
  "cancel_run_tasks now run_id d =
     ebind (foldM (cancel_task now run_id) d (list_tasks_for_run run_id d)) (\<lambda>d.
     foldM (cancel_pending now) d (list_node_runs run_id d))"

definition set_derived :: "time \<Rightarrow> workflow_run_status \<Rightarrow> workflow_run \<Rightarrow> workflow_run" where
  "set_derived now derived r = r\<lparr> r_status := derived,
     r_finished_at := (if derived \<in> {W_COMPLETED, W_FAILED, W_CANCELLED} then Some now else r_finished_at r) \<rparr>"

definition apply_derived ::
  "lib \<Rightarrow> scheduler \<Rightarrow> time \<Rightarrow> string \<Rightarrow> workflow_run_status \<Rightarrow> workflow_run_status \<Rightarrow> db \<Rightarrow> exn + db" where
  "apply_derived L S now run_id current derived d =
     (if derived = current then Inr d
      else
        ebind (transition_workflow_run current derived) (\<lambda>_.
        let d = upd_run run_id (set_derived now derived) d in
        ebind (if derived = W_FAILED then cancel_run_tasks now run_id d else Inr d) (\<lambda>d.
        Inr (workflow_event now run_id derived (waiting_reason (list_node_runs run_id d)) d))))"

definition reconcile_run ::
  "lib \<Rightarrow> scheduler \<Rightarrow> time \<Rightarrow> string \<Rightarrow> db \<Rightarrow> exn + db \<times> workflow_run_status option" where
  "reconcile_run L S now run_id d =
     (case get_run run_id d of None \<Rightarrow> Inr (d, None)
      | Some run \<Rightarrow>
        let current = r_status run in
        if current = W_CANCELLED then ebind (cancel_run_tasks now run_id d) (\<lambda>d. Inr (d, Some current))
        else if current \<in> {W_COMPLETED, W_FAILED} then Inr (d, Some current)
        else if current = W_PAUSED then Inr (d, Some current)
        else
          ebind (promote_due_waits L now run_id d) (\<lambda>(d, _).
          ebind (schedule_ready_nodes L S now run_id d) (\<lambda>(d, _).
          ebind (parse_workflow_graph L (r_graph_snapshot_json run)) (\<lambda>g.
          let derived = derive_workflow_state g (list_node_runs run_id d) in
          ebind (apply_derived L S now run_id current derived d) (\<lambda>d.
          ebind (if derived = W_RUNNING then schedule_ready_nodes L S now run_id d else Inr (d, [])) (\<lambda>(d, _).
          Inr (upd_run run_id (\<lambda>r. r\<lparr> r_waiting_reason :=
                 (if derived = W_WAITING then waiting_reason (list_node_runs run_id d) else None) \<rparr>) d,
               Some derived)))))))"

section \<open>Bounds of the retry settings\<close>

lemma bounded_int_range: "0 \<le> m \<Longrightarrow> 0 \<le> dflt \<Longrightarrow> dflt \<le> m \<Longrightarrow> 0 \<le> bounded_int v dflt m \<and> bounded_int v dflt m \<le> m"
  by (auto simp: bounded_int_def split: option.splits)

text \<open>
  Whatever a node configuration or an action's retry policy contains, a task gets between 1 and
  11 attempts and a backoff of at most one day.
\<close>

theorem retry_settings_bounded:
  assumes "retry_settings_for_node run node backoff = (attempts, seconds)" "0 \<le> backoff" "backoff \<le> 86400"
  shows "1 \<le> attempts \<and> attempts \<le> 11 \<and> 0 \<le> seconds \<and> seconds \<le> 86400"
  using assms bounded_int_range [of 10 0] bounded_int_range [of 86400 5] bounded_int_range [of 86400 backoff]
  by (auto simp: retry_settings_for_node_def service_backoff_seconds_def Let_def split: if_splits option.splits)

theorem retry_settings_bounded_witness:
  "1 \<le> fst (retry_settings_for_node (demo_run W_RUNNING)
     ((demo_gnode ''a'')\<lparr> n_config := [(''retry'', JObj [(''max_retries'', JInt 99)])] \<rparr>) 5)"
  by (cases "retry_settings_for_node (demo_run W_RUNNING)
     ((demo_gnode ''a'')\<lparr> n_config := [(''retry'', JObj [(''max_retries'', JInt 99)])] \<rparr>) 5")
    (auto dest: retry_settings_bounded)

end
