(* ===== verification/UrlPolicy.thy ===== *)
theory UrlPolicy
  imports Fixtures
begin

text \<open>
  The URL policy (\<^verbatim>\<open>infrastructure/security/url_policy.py\<close>): a target must be an http or https URL
  without credentials, with a valid port and a host, and, unless private networks are allowed, the
  host must resolve to globally routable addresses only. The parts of \<open>urlparse\<close> the code reads
  are defined here; name resolution, the class of an address and \<open>urljoin\<close> are fields of \<open>lib\<close>.
\<close>

section \<open>Parsing\<close>

text \<open>
  \<open>urlparse(url)\<close>, as far as scheme and network location go: leading control characters and
  blanks and all tabs and line breaks are dropped, the scheme is the text before the first colon
  when it is a scheme, the location runs from \<open>//\<close> to the next \<open>/\<close>, \<open>?\<close> or \<open>#\<close>.
\<close>

definition scheme_char :: "char \<Rightarrow> bool" where
  "scheme_char c \<longleftrightarrow> is_alnum c \<or> c \<in> {CHR ''+'', CHR ''-'', CHR ''.''}"

definition is_alpha_ascii :: "char \<Rightarrow> bool" where
  "is_alpha_ascii c \<longleftrightarrow> is_alnum c \<and> \<not> is_digit c"

definition clean_url :: "string \<Rightarrow> string" where
  "clean_url url = filter (\<lambda>c. (of_char c :: nat) \<notin> {9, 10, 13}) (dropWhile (\<lambda>c. (of_char c :: nat) \<le> 32) url)"

definition split_scheme :: "string \<Rightarrow> string \<times> string" where
  "split_scheme url =
     (let before = takeWhile (\<lambda>c. c \<noteq> CHR '':'') url; rest = dropWhile (\<lambda>c. c \<noteq> CHR '':'') url in
      if rest \<noteq> [] \<and> before \<noteq> [] \<and> is_alpha_ascii (hd before) \<and> list_all scheme_char before
      then (lower before, tl rest) else ([], url))"

definition url_scheme_netloc :: "lib \<Rightarrow> string \<Rightarrow> exn + string \<times> string" where
  "url_scheme_netloc L url =
     (let (scheme, rest) = split_scheme (clean_url url);
          netloc = (if startswith ''//'' rest then takeWhile (\<lambda>c. c \<notin> {CHR ''/'', CHR ''?'', CHR ''#''}) (drop 2 rest) else []) in
      if (CHR ''['' \<in> set netloc) \<noteq> (CHR '']'' \<in> set netloc) \<or> \<not> lib_netloc_ok L netloc
      then Inl (PyError ''ValueError'') else Inr (scheme, netloc))"

text \<open>\<open>s.partition(c)\<close>, \<open>s.rpartition(c)\<close>: the text before and after the first, the last \<open>c\<close>.\<close>

definition partition_at :: "char \<Rightarrow> string \<Rightarrow> string \<times> string option" where
  "partition_at c s =
     (takeWhile (\<lambda>x. x \<noteq> c) s, (case dropWhile (\<lambda>x. x \<noteq> c) s of [] \<Rightarrow> None | _ # rest \<Rightarrow> Some rest))"

definition rpartition_at :: "char \<Rightarrow> string \<Rightarrow> string option \<times> string" where
  "rpartition_at c s =
     (let (after, before) = partition_at c (rev s) in (map_option rev before, rev after))"

text \<open>\<open>parsed.username\<close> and \<open>parsed.password\<close>, the empty text for \<open>None\<close>.\<close>

definition url_userinfo :: "string \<Rightarrow> string \<times> string" where
  "url_userinfo netloc =
     (case fst (rpartition_at CHR ''@'' netloc) of None \<Rightarrow> ([], [])
      | Some info \<Rightarrow> (let (user, pw) = partition_at CHR '':'' info in (user, (case pw of None \<Rightarrow> [] | Some p \<Rightarrow> p))))"

text \<open>Host and port text of a network location.\<close>

definition url_hostinfo :: "string \<Rightarrow> string \<times> string" where
  "url_hostinfo netloc =
     (let hostinfo = snd (rpartition_at CHR ''@'' netloc) in
      case snd (partition_at CHR ''['' hostinfo) of
        Some bracketed \<Rightarrow>
          (let (hostname, rest) = partition_at CHR '']'' bracketed;
               port = snd (partition_at CHR '':'' (case rest of None \<Rightarrow> [] | Some r \<Rightarrow> r)) in
           (hostname, case port of None \<Rightarrow> [] | Some p \<Rightarrow> p))
      | None \<Rightarrow>
          (let (hostname, port) = partition_at CHR '':'' hostinfo in (hostname, case port of None \<Rightarrow> [] | Some p \<Rightarrow> p)))"

text \<open>\<open>parsed.port\<close>: \<open>Inr None\<close> when there is none, a \<open>ValueError\<close> when it is no port number.\<close>

definition url_port :: "string \<Rightarrow> exn + nat option" where
  "url_port netloc =
     (let port = snd (url_hostinfo netloc) in
      if port = [] then Inr None
      else if \<not> list_all is_digit port then Inl (PyError ''ValueError'')
      else (case digits_val 0 port of None \<Rightarrow> Inl (PyError ''ValueError'')
        | Some n \<Rightarrow> if n \<le> 65535 then Inr (Some n) else Inl (PyError ''ValueError'')))"

definition url_hostname :: "string \<Rightarrow> string" where
  "url_hostname netloc =
     (let (host, zone) = partition_at CHR ''%'' (fst (url_hostinfo netloc)) in
      lower host @ (case zone of None \<Rightarrow> [] | Some z \<Rightarrow> CHR ''%'' # z))"

section \<open>Policy\<close>

definition INVALID_URL :: exn where
  "INVALID_URL = RelayviaError ''INVALID_URL'' 400"

definition reject_non_public_host :: "lib \<Rightarrow> string \<Rightarrow> exn + unit" where
  "reject_non_public_host L host =
     (case lib_getaddrinfo L host of
        None \<Rightarrow> Inl (RelayviaError ''URL_HOST_UNRESOLVABLE'' 400)
      | Some addresses \<Rightarrow>
          if addresses = [] then Inl (RelayviaError ''URL_HOST_UNRESOLVABLE'' 400)
          else if \<exists>a\<in>set addresses. lib_ip_global L a = None then Inl INVALID_URL
          else if \<exists>a\<in>set addresses. lib_ip_global L a = Some False
            then Inl (RelayviaError ''URL_PRIVATE_NETWORK_FORBIDDEN'' 400)
          else Inr ())"

definition rstrip_char :: "char \<Rightarrow> string \<Rightarrow> string" where
  "rstrip_char c s = rev (dropWhile (\<lambda>x. x = c) (rev s))"

definition validate_http_url :: "lib \<Rightarrow> bool \<Rightarrow> string \<Rightarrow> exn + string" where
  "validate_http_url L allow_private v =
     ebind (url_scheme_netloc L v) (\<lambda>(scheme, netloc).
       if scheme \<notin> {''http'', ''https''} \<or> netloc = [] \<or> fst (url_userinfo netloc) \<noteq> [] \<or> snd (url_userinfo netloc) \<noteq> []
       then Inl INVALID_URL
       else (case url_port netloc of
           Inl _ \<Rightarrow> Inl INVALID_URL
         | Inr port \<Rightarrow>
             if port = Some 0 then Inl INVALID_URL
             else if url_hostname netloc = [] then Inl INVALID_URL
             else ebind (if allow_private then Inr () else reject_non_public_host L (url_hostname netloc))
                    (\<lambda>_. Inr (rstrip_char CHR ''/'' v))))"

definition normalize_action_path :: "lib \<Rightarrow> string \<Rightarrow> exn + string" where
  "normalize_action_path L v =
     (let path = strip v in
      if path = [] then Inl (RelayviaError ''INVALID_PATH'' 400)
      else ebind (url_scheme_netloc L path) (\<lambda>(scheme, netloc).
        if scheme \<noteq> [] \<or> netloc \<noteq> [] \<or> CHR 0x5C \<in> set path then Inl (RelayviaError ''INVALID_PATH'' 400)
        else Inr (CHR ''/'' # dropWhile (\<lambda>c. c = CHR ''/'') path)))"

definition combine_service_url :: "lib \<Rightarrow> bool \<Rightarrow> string \<Rightarrow> string \<Rightarrow> exn + string" where
  "combine_service_url L allow_private base_url path =
     ebind (validate_http_url L allow_private base_url) (\<lambda>base.
     ebind (normalize_action_path L path) (\<lambda>normalized.
     Inr (lib_urljoin L (base @ ''/'') (dropWhile (\<lambda>c. c = CHR ''/'') normalized))))"

section \<open>Guarantees\<close>

lemma reject_non_public_host_Inr:
  "reject_non_public_host L h = Inr () \<longleftrightarrow>
     (\<exists>as. lib_getaddrinfo L h = Some as \<and> as \<noteq> [] \<and> (\<forall>a\<in>set as. lib_ip_global L a = Some True))"
proof (cases "lib_getaddrinfo L h")
  case (Some as)
  have "(\<forall>a\<in>set as. lib_ip_global L a = Some True) \<longleftrightarrow>
      \<not> (\<exists>a\<in>set as. lib_ip_global L a = None) \<and> \<not> (\<exists>a\<in>set as. lib_ip_global L a = Some False)"
    by (metis (full_types) not_None_eq option.inject)
  then show ?thesis using Some by (auto simp: reject_non_public_host_def)
qed (simp add: reject_non_public_host_def)

lemma url_port_range: "url_port netloc = Inr (Some n) \<Longrightarrow> n \<le> 65535"
  by (auto simp: url_port_def Let_def split: if_splits option.splits)

lemma validate_http_url_Inr:
  assumes "validate_http_url L allow v = Inr u"
  shows "\<exists>scheme netloc port. url_scheme_netloc L v = Inr (scheme, netloc) \<and> scheme \<in> {''http'', ''https''}
    \<and> netloc \<noteq> [] \<and> url_userinfo netloc = ([], []) \<and> url_port netloc = Inr port
    \<and> (case port of None \<Rightarrow> True | Some n \<Rightarrow> 1 \<le> n \<and> n \<le> 65535) \<and> url_hostname netloc \<noteq> []
    \<and> (allow \<or> reject_non_public_host L (url_hostname netloc) = Inr ()) \<and> u = rstrip_char CHR ''/'' v"
proof -
  from assms obtain scheme netloc where sn: "url_scheme_netloc L v = Inr (scheme, netloc)"
    by (auto simp: validate_http_url_def outcome)
  with assms have g: "scheme \<in> {''http'', ''https''}" "netloc \<noteq> []" "url_userinfo netloc = ([], [])"
    by (auto simp: validate_http_url_def prod_eq_iff split: if_splits)
  with assms sn obtain port where p: "url_port netloc = Inr port" "port \<noteq> Some 0" "url_hostname netloc \<noteq> []"
    and r: "ebind (if allow then Inr () else reject_non_public_host L (url_hostname netloc)) (\<lambda>_. Inr (rstrip_char CHR ''/'' v)) = Inr u"
    by (auto simp: validate_http_url_def split: if_splits sum.splits)
  moreover have "allow \<or> reject_non_public_host L (url_hostname netloc) = Inr ()" "u = rstrip_char CHR ''/'' v"
    using r by (auto simp: outcome split: if_splits)
  moreover have "case port of None \<Rightarrow> True | Some n \<Rightarrow> 1 \<le> n \<and> n \<le> 65535"
    using p url_port_range by (auto split: option.splits intro: Suc_leI)
  ultimately show ?thesis using sn g by blast
qed

text \<open>
  C36: With private networks forbidden, an accepted URL is http or https, names no user, has a port
  between 1 and 65535 if any, and its host resolves to at least one address, all of them public; the accepted text is
  the given one without trailing slashes.
\<close>

theorem accepted_url_is_public:
  assumes "validate_http_url L False v = Inr u"
  shows "\<exists>scheme netloc port addresses. url_scheme_netloc L v = Inr (scheme, netloc) \<and> scheme \<in> {''http'', ''https''}
    \<and> url_userinfo netloc = ([], []) \<and> url_port netloc = Inr port
    \<and> (case port of None \<Rightarrow> True | Some n \<Rightarrow> 1 \<le> n \<and> n \<le> 65535)
    \<and> lib_getaddrinfo L (url_hostname netloc) = Some addresses \<and> addresses \<noteq> []
    \<and> list_all (\<lambda>a. lib_ip_global L a = Some True) addresses \<and> u = rstrip_char CHR ''/'' v"
  using validate_http_url_Inr [OF assms] unfolding reject_non_public_host_Inr list_all_iff by blast

theorem accepted_url_is_public_witness:
  "\<exists>netloc addresses. url_scheme_netloc demo_lib ''https://h/p/'' = Inr (''https'', netloc)
     \<and> lib_getaddrinfo demo_lib (url_hostname netloc) = Some addresses \<and> addresses \<noteq> []"
proof -
  have eval: "validate_http_url demo_lib False ''https://h/p/'' = Inr ''https://h/p''"
    "url_scheme_netloc demo_lib ''https://h/p/'' = Inr (''https'', ''h'')" by code_simp+
  from accepted_url_is_public [OF eval(1)] eval(2) show ?thesis by auto
qed

end
