(* ===== verification/Artifacts.thy ===== *)
theory Artifacts
  imports Workspaces Trace Scheduler UrlPolicy
begin

text \<open>
  Artifacts (\<^verbatim>\<open>domain/artifacts/service.py\<close>, \<^verbatim>\<open>domain/artifacts/reference.py\<close>, the key check of
  \<^verbatim>\<open>infrastructure/artifact_storage/local.py\<close>): registration of what a node produced and the
  Runner upload protocol. The storage is a function \<open>save\<close> from a key and bytes to the stored
  size; its content is not part of the database.
\<close>

section \<open>References\<close>

definition ARTIFACT_URI_PREFIX :: string where
  "ARTIFACT_URI_PREFIX = ''artifact://''"

definition artifact_uri :: "string \<Rightarrow> string" where
  "artifact_uri artifact_id = ARTIFACT_URI_PREFIX @ artifact_id"

definition is_artifact_uri :: "json \<Rightarrow> bool" where
  "is_artifact_uri v = (case v of JStr s \<Rightarrow> startswith ARTIFACT_URI_PREFIX s | _ \<Rightarrow> False)"

definition INVALID_ARTIFACT_REFERENCE :: exn where
  "INVALID_ARTIFACT_REFERENCE = RelayviaError ''INVALID_ARTIFACT_REFERENCE'' 400"

definition parse_artifact_uri :: "json \<Rightarrow> exn + string" where
  "parse_artifact_uri v =
     (if \<not> is_artifact_uri v then Inl INVALID_ARTIFACT_REFERENCE
      else (case v of
          JStr s \<Rightarrow> (let artifact_id = drop (length ARTIFACT_URI_PREFIX) s in
             if artifact_id = [] then Inl INVALID_ARTIFACT_REFERENCE else Inr artifact_id)
        | _ \<Rightarrow> Inl INVALID_ARTIFACT_REFERENCE))"

text \<open>\<open>_SAFE_KEY\<close> and what \<open>_safe_path\<close> accepts; the local storage returns the length it wrote.\<close>

definition safe_key :: "string \<Rightarrow> bool" where
  "safe_key key \<longleftrightarrow> key \<noteq> [] \<and> (\<forall>c\<in>set key. is_ident_char c)"

definition local_save_bytes :: "string \<Rightarrow> string \<Rightarrow> exn + int" where
  "local_save_bytes key content =
     (if safe_key key then Inr (int (length content)) else Inl (RelayviaError ''INVALID_ARTIFACT_KEY'' 400))"

section \<open>External URIs\<close>

definition validate_external_uri :: "lib \<Rightarrow> string \<Rightarrow> exn + unit" where
  "validate_external_uri L uri =
     ebind (url_scheme_netloc L uri) (\<lambda>(scheme, netloc).
       if scheme \<notin> {''http'', ''https''} \<or> netloc = [] then Inl (RelayviaError ''INVALID_EXTERNAL_ARTIFACT_URI'' 422)
       else Inr ())"

section \<open>Rows\<close>

definition get_artifact_row :: "string \<Rightarrow> db \<Rightarrow> artifact option" where
  "get_artifact_row k d = row_get ar_id k (artifacts d)"

definition upd_artifact :: "string \<Rightarrow> (artifact \<Rightarrow> artifact) \<Rightarrow> db \<Rightarrow> db" where
  "upd_artifact k f d = d\<lparr> artifacts := row_upd ar_id k f (artifacts d) \<rparr>"

interpretation artifact_table: keyed_table get_artifact_row upd_artifact ar_id
  by unfold_locales (unfold get_artifact_row_def upd_artifact_def, erule row_get_key, simp add: row_get_upd)

definition ARTIFACT_NOT_FOUND :: exn where
  "ARTIFACT_NOT_FOUND = RelayviaError ''ARTIFACT_NOT_FOUND'' 404"

definition get_artifact :: "string \<Rightarrow> db \<Rightarrow> exn + artifact" where
  "get_artifact k d = (case get_artifact_row k d of None \<Rightarrow> Inl ARTIFACT_NOT_FOUND | Some a \<Rightarrow> Inr a)"

definition list_artifacts_for_run :: "string \<Rightarrow> db \<Rightarrow> artifact list" where
  "list_artifacts_for_run run_id d =
     sort_key ar_created_at (filter (\<lambda>a. ar_workflow_run_id a = run_id) (artifacts d))"

text \<open>\<open>db.add(artifact); db.flush()\<close>: the two foreign keys are checked.\<close>

definition insert_artifact :: "artifact \<Rightarrow> db \<Rightarrow> exn + db" where
  "insert_artifact a d =
     ebind (flush d) (\<lambda>d.
       if get_run (ar_workflow_run_id a) d \<noteq> None \<and> get_node (ar_producer_node_run_id a) d \<noteq> None
       then Inr (d\<lparr> artifacts := artifacts d @ [a] \<rparr>) else Inl (PyError ''IntegrityError''))"

section \<open>Registration\<close>

definition register_artifact_bytes ::
  "lib \<Rightarrow> (string \<Rightarrow> string \<Rightarrow> exn + int) \<Rightarrow> time \<Rightarrow> string \<Rightarrow> string \<Rightarrow> string \<Rightarrow> string \<Rightarrow> string option \<Rightarrow> string \<Rightarrow> dict \<Rightarrow>
   db \<Rightarrow> exn + db \<times> artifact" where
  "register_artifact_bytes L save now run_id node_run_id name ty content_type content metadata d =
     (let (aid, d) = uuid4 L d in
      ebind (save aid content) (\<lambda>nbytes.
      let a = \<lparr> ar_id = aid, ar_workflow_run_id = run_id, ar_producer_node_run_id = node_run_id, ar_type = ty,
            ar_name = name, ar_uri = artifact_uri aid, ar_size = Some nbytes, ar_content_type = content_type,
            ar_metadata_json = metadata, ar_created_at = now \<rparr> in
      ebind (insert_artifact a d) (\<lambda>d. Inr (d, a))))"

definition register_external_artifact ::
  "lib \<Rightarrow> time \<Rightarrow> string \<Rightarrow> string \<Rightarrow> string \<Rightarrow> string \<Rightarrow> string \<Rightarrow> string option \<Rightarrow> dict \<Rightarrow> db \<Rightarrow> exn + db \<times> artifact" where
  "register_external_artifact L now run_id node_run_id name ty uri content_type metadata d =
     (let (aid, d) = uuid4 L d;
          a = \<lparr> ar_id = aid, ar_workflow_run_id = run_id, ar_producer_node_run_id = node_run_id, ar_type = ty,
            ar_name = name, ar_uri = uri, ar_size = None, ar_content_type = content_type,
            ar_metadata_json = metadata, ar_created_at = now \<rparr> in
      ebind (insert_artifact a d) (\<lambda>d. Inr (d, a)))"

text \<open>
  An item of \<open>candidates\<close>: a JSON value, or a dictionary whose \<open>content\<close> holds bytes (the other
  keys are in the dictionary).
\<close>

datatype artifact_item = AJson json | ABytes dict string

definition item_dict :: "artifact_item \<Rightarrow> dict option" where
  "item_dict it = (case it of ABytes d _ \<Rightarrow> Some d | AJson v \<Rightarrow> as_dict v)"

definition item_bytes :: "artifact_item \<Rightarrow> string option" where
  "item_bytes it = (case it of ABytes _ b \<Rightarrow> Some b | AJson _ \<Rightarrow> None)"

text \<open>\<open>str(item.get(k) or default)\<close>\<close>

definition str_or :: "lib \<Rightarrow> dict \<Rightarrow> string \<Rightarrow> string \<Rightarrow> string" where
  "str_or L item k dflt = (if truthy (dget0 item k) then py_str L (dget0 item k) else dflt)"

definition reference_of :: "artifact \<Rightarrow> dict" where
  "reference_of a = [(''uri'', JStr (ar_uri a)), (''type'', JStr (ar_type a)), (''name'', JStr (ar_name a))]"

text \<open>\<open>status not in {None, "ready"}\<close>; a container is not hashable.\<close>

definition check_upload_status :: "json \<Rightarrow> exn + unit" where
  "check_upload_status v =
     (if v = JNull \<or> v = JStr ''ready'' then Inr ()
      else (case v of JArr _ \<Rightarrow> Inl (PyError ''TypeError'') | JObj _ \<Rightarrow> Inl (PyError ''TypeError'')
        | _ \<Rightarrow> Inl (RelayviaError ''ARTIFACT_UPLOAD_INCOMPLETE'' 422)))"

text \<open>The artifact row an existing \<open>artifact://\<close> URI may refer to.\<close>

definition referenced_artifact :: "string \<Rightarrow> string \<Rightarrow> db \<Rightarrow> exn + artifact" where
  "referenced_artifact run_id uri d =
     ebind (parse_artifact_uri (JStr uri)) (\<lambda>aid.
     case get_artifact_row aid d of
       None \<Rightarrow> Inl (RelayviaError ''ARTIFACT_NOT_FOUND'' 422)
     | Some a \<Rightarrow>
         if ar_workflow_run_id a \<noteq> run_id then Inl (RelayviaError ''ARTIFACT_REFERENCE_FORBIDDEN'' 422)
         else ebind (check_upload_status (dget0 (ar_metadata_json a) ''upload_status'')) (\<lambda>_. Inr a))"

text \<open>One round of the loop: the artifact the item stands for, \<open>None\<close> when it is skipped.\<close>

definition register_item ::
  "lib \<Rightarrow> (string \<Rightarrow> string \<Rightarrow> exn + int) \<Rightarrow> int \<Rightarrow> time \<Rightarrow> string \<Rightarrow> string \<Rightarrow> dict \<Rightarrow> string option \<Rightarrow> db \<Rightarrow>
   exn + db \<times> artifact option" where
  "register_item L save max_bytes now run_id node_run_id item content d =
     (let name = str_or L item ''name'' ''artifact'';
          ty = str_or L item ''type'' ''file'';
          content_type = (if truthy (dget0 item ''content_type'') then Some (py_str L (dget0 item ''content_type'')) else None);
          metadata = sanitize_metadata L [] (JObj (dict_or_empty (dget0 item ''metadata''))) in
      if truthy (dget0 item ''local_path'') then Inl (RelayviaError ''UNSAFE_ARTIFACT_LOCAL_PATH'' 422)
      else (case content of
          Some bytes \<Rightarrow>
            if int (length bytes) > max_bytes then Inl (RelayviaError ''ARTIFACT_TOO_LARGE'' 422)
            else ebind (register_artifact_bytes L save now run_id node_run_id name ty content_type bytes metadata d)
              (\<lambda>(d, a). Inr (d, Some a))
        | None \<Rightarrow>
            (case dget0 item ''uri'' of
               JStr uri \<Rightarrow>
                 if uri = [] then Inr (d, None)
                 else if startswith ARTIFACT_URI_PREFIX uri
                   then ebind (referenced_artifact run_id uri d) (\<lambda>a. Inr (d, Some a))
                 else ebind (validate_external_uri L uri) (\<lambda>_.
                   ebind (register_external_artifact L now run_id node_run_id name ty uri content_type metadata d)
                     (\<lambda>(d, a). Inr (d, Some a)))
             | _ \<Rightarrow> Inr (d, None))))"

definition register_one ::
  "lib \<Rightarrow> (string \<Rightarrow> string \<Rightarrow> exn + int) \<Rightarrow> int \<Rightarrow> time \<Rightarrow> string \<Rightarrow> string \<Rightarrow>
   db \<times> dict list \<times> dict \<Rightarrow> artifact_item \<Rightarrow> exn + db \<times> dict list \<times> dict" where
  "register_one L save max_bytes now run_id node_run_id st it =
     (let (d, refs, output_map) = st in
      case item_dict it of None \<Rightarrow> Inr st
      | Some item \<Rightarrow>
          ebind (register_item L save max_bytes now run_id node_run_id item (item_bytes it) d) (\<lambda>(d, found).
          case found of None \<Rightarrow> Inr (d, refs, output_map)
          | Some a \<Rightarrow>
              Inr (d, refs @ [reference_of a],
                   (case dget0 item ''output_key'' of
                      JStr key \<Rightarrow> if key = [] then output_map else dset key (JStr (ar_uri a)) output_map
                    | _ \<Rightarrow> output_map))))"

definition register_artifact_candidates ::
  "lib \<Rightarrow> (string \<Rightarrow> string \<Rightarrow> exn + int) \<Rightarrow> int \<Rightarrow> time \<Rightarrow> string \<Rightarrow> string \<Rightarrow> artifact_item list \<Rightarrow> db \<Rightarrow>
   exn + db \<times> dict list \<times> dict" where
  "register_artifact_candidates L save max_bytes now run_id node_run_id candidates d =
     foldM (register_one L save max_bytes now run_id node_run_id) (d, [], []) candidates"

section \<open>Runner uploads\<close>

definition upload_allowed :: "string \<Rightarrow> string \<Rightarrow> execution_task \<Rightarrow> bool" where
  "upload_allowed runner_id lease_token t \<longleftrightarrow>
     t_status t = T_RUNNING \<and> t_locked_by t = Some runner_id \<and> t_lease_token t = Some lease_token"

definition create_runner_artifact_upload ::
  "lib \<Rightarrow> time \<Rightarrow> string \<Rightarrow> string \<Rightarrow> string \<Rightarrow> string \<Rightarrow> string \<Rightarrow> string option \<Rightarrow> dict \<Rightarrow> string option \<Rightarrow> db \<Rightarrow>
   (exn + artifact) \<times> db" where
  "create_runner_artifact_upload L now runner_id task_id lease_token name ty content_type metadata output_key d =
     transact d
       (case get_task task_id d of None \<Rightarrow> Inl (RelayviaError ''RUNNER_TASK_STALE'' 409)
        | Some t \<Rightarrow>
          if \<not> upload_allowed runner_id lease_token t then Inl (RelayviaError ''RUNNER_TASK_STALE'' 409)
          else
            let (aid, d) = uuid4 L d;
                a = \<lparr> ar_id = aid, ar_workflow_run_id = t_workflow_run_id t, ar_producer_node_run_id = t_node_run_id t,
                  ar_type = ty, ar_name = name, ar_uri = artifact_uri aid, ar_size = None, ar_content_type = content_type,
                  ar_metadata_json =
                    dmerge (dset ''upload_status'' (JStr ''staging'') (sanitize_metadata L [] (JObj metadata)))
                      (case output_key of None \<Rightarrow> [] | Some k \<Rightarrow> if k = [] then [] else [(''output_key'', JStr k)]),
                  ar_created_at = now \<rparr> in
            ebind (insert_artifact a d) (\<lambda>d. Inr (d, a)))"

definition validate_runner_artifact_upload ::
  "string \<Rightarrow> string \<Rightarrow> string \<Rightarrow> string \<Rightarrow> db \<Rightarrow> exn + artifact" where
  "validate_runner_artifact_upload artifact_id runner_id task_id lease_token d =
     (case get_artifact_row artifact_id d of None \<Rightarrow> Inl ARTIFACT_NOT_FOUND
      | Some a \<Rightarrow>
        (case get_task task_id d of None \<Rightarrow> Inl (RelayviaError ''RUNNER_ARTIFACT_UPLOAD_FORBIDDEN'' 409)
         | Some t \<Rightarrow>
            if \<not> upload_allowed runner_id lease_token t \<or> ar_workflow_run_id a \<noteq> t_workflow_run_id t
               \<or> ar_producer_node_run_id a \<noteq> t_node_run_id t
            then Inl (RelayviaError ''RUNNER_ARTIFACT_UPLOAD_FORBIDDEN'' 409)
            else if dget0 (ar_metadata_json a) ''upload_status'' \<noteq> JStr ''staging''
              then Inl (RelayviaError ''ARTIFACT_UPLOAD_NOT_STAGING'' 409)
            else Inr a))"

definition ready_row :: "int \<Rightarrow> artifact \<Rightarrow> artifact" where
  "ready_row nbytes a = a\<lparr> ar_metadata_json := dset ''upload_status'' (JStr ''ready'') (ar_metadata_json a), ar_size := Some nbytes \<rparr>"

definition failed_row :: "string \<Rightarrow> artifact \<Rightarrow> artifact" where
  "failed_row error a = a\<lparr> ar_metadata_json := dset ''upload_error'' (JStr (take 500 error))
     (dset ''upload_status'' (JStr ''failed'') (ar_metadata_json a)) \<rparr>"

definition finalize_runner_artifact_upload :: "string \<Rightarrow> int \<Rightarrow> db \<Rightarrow> (exn + unit) \<times> db" where
  "finalize_runner_artifact_upload artifact_id nbytes d =
     transact d (Inr (upd_artifact artifact_id (ready_row nbytes) d, ()))"

definition fail_runner_artifact_upload :: "string \<Rightarrow> string \<Rightarrow> db \<Rightarrow> (exn + unit) \<times> db" where
  "fail_runner_artifact_upload artifact_id error d =
     transact d (Inr (upd_artifact artifact_id (failed_row error) d, ()))"

section \<open>Frames\<close>

text \<open>Registration adds artifacts and draws identifiers; it touches nothing else.\<close>

definition adds_artifacts :: "db \<Rightarrow> db \<Rightarrow> bool" where
  "adds_artifacts d d' \<longleftrightarrow>
     (\<exists>as. d' = d\<lparr> artifacts := artifacts d @ as, uuids := uuids d' \<rparr>) \<and> uuids d \<le> uuids d'"

lemma adds_artifacts_refl [simp]: "adds_artifacts d d"
  unfolding adds_artifacts_def by (rule conjI, rule exI [of _ "[]"]) simp_all

lemma adds_artifacts_trans: "adds_artifacts d d1 \<Longrightarrow> adds_artifacts d1 d2 \<Longrightarrow> adds_artifacts d d2"
proof -
  assume "adds_artifacts d d1" "adds_artifacts d1 d2"
  then obtain as bs where 1: "d1 = d\<lparr> artifacts := artifacts d @ as, uuids := uuids d1 \<rparr>"
    and 2: "d2 = d1\<lparr> artifacts := artifacts d1 @ bs, uuids := uuids d2 \<rparr>" and le: "uuids d \<le> uuids d1" "uuids d1 \<le> uuids d2"
    unfolding adds_artifacts_def by blast
  have a: "artifacts d1 = artifacts d @ as" by (subst 1) simp
  have "d2 = d\<lparr> artifacts := artifacts d @ (as @ bs), uuids := uuids d2 \<rparr>"
    by (subst 2, subst (1) 1) (simp add: a)
  with le show ?thesis unfolding adds_artifacts_def by (intro conjI exI [of _ "as @ bs"]) simp_all
qed

lemma insert_artifact_adds:
  assumes "insert_artifact a d = Inr d'" "new_tasks d = []"
  shows "d' = d\<lparr> artifacts := artifacts d @ [a] \<rparr>"
  using assms by (auto simp: insert_artifact_def flush_no_new split: if_splits)

lemma insert_after_uuid:
  assumes "insert_artifact a (snd (uuid4 L d)) = Inr d'" "new_tasks d = []"
  shows "adds_artifacts d d'" "a \<in> set (artifacts d')"
proof -
  have "d' = d\<lparr> uuids := Suc (uuids d), artifacts := artifacts d @ [a] \<rparr>"
    using insert_artifact_adds [OF assms(1)] assms(2) by (simp add: uuid4_def)
  then show "adds_artifacts d d'" "a \<in> set (artifacts d')"
    unfolding adds_artifacts_def by (auto intro!: exI [of _ "[a]"])
qed

lemma register_bytes_adds:
  assumes "register_artifact_bytes L save now rid nid name ty ct content md d = Inr (d', a)" "new_tasks d = []"
  shows "adds_artifacts d d'" "a \<in> set (artifacts d')" "ar_workflow_run_id a = rid"
proof -
  from assms(1) have "insert_artifact a (snd (uuid4 L d)) = Inr d'" "ar_workflow_run_id a = rid"
    by (auto simp: register_artifact_bytes_def Let_def outcome split: prod.splits)
  with insert_after_uuid [OF this(1) assms(2)]
  show "adds_artifacts d d'" "a \<in> set (artifacts d')" "ar_workflow_run_id a = rid" by auto
qed

lemma register_external_adds:
  assumes "register_external_artifact L now rid nid name ty uri ct md d = Inr (d', a)" "new_tasks d = []"
  shows "adds_artifacts d d'" "a \<in> set (artifacts d')" "ar_workflow_run_id a = rid"
proof -
  from assms(1) have "insert_artifact a (snd (uuid4 L d)) = Inr d'" "ar_workflow_run_id a = rid"
    by (auto simp: register_external_artifact_def Let_def outcome split: prod.splits)
  with insert_after_uuid [OF this(1) assms(2)]
  show "adds_artifacts d d'" "a \<in> set (artifacts d')" "ar_workflow_run_id a = rid" by auto
qed

lemma referenced_artifact_own:
  assumes "referenced_artifact rid uri d = Inr a"
  shows "a \<in> set (artifacts d)" "ar_workflow_run_id a = rid"
  using assms by (auto simp: referenced_artifact_def outcome get_artifact_row_def dest: row_get_in
      split: option.splits if_splits)

lemma register_item_result:
  assumes "register_item L save mx now rid nid item content d = Inr (d', found)" "new_tasks d = []"
  shows "adds_artifacts d d' \<and> (\<forall>a. found = Some a \<longrightarrow> a \<in> set (artifacts d') \<and> ar_workflow_run_id a = rid)"
proof (cases content)
  case (Some bytes)
  with assms show ?thesis
    by (auto simp: register_item_def Let_def outcome split: if_splits dest: register_bytes_adds)
next
  case None
  with assms show ?thesis
    by (auto simp: register_item_def Let_def outcome split: if_splits json.splits
        dest: register_external_adds referenced_artifact_own)
qed

lemma adds_artifacts_new_tasks: "adds_artifacts d d' \<Longrightarrow> new_tasks d' = new_tasks d"
  unfolding adds_artifacts_def by (auto dest: arg_cong [where f = new_tasks])

lemma adds_artifacts_keeps: "adds_artifacts d d' \<Longrightarrow> set (artifacts d) \<subseteq> set (artifacts d')"
  unfolding adds_artifacts_def
proof (elim conjE exE)
  fix as assume "d' = d\<lparr> artifacts := artifacts d @ as, uuids := uuids d' \<rparr>"
  then have "artifacts d' = artifacts d @ as" by (auto dest: arg_cong [where f = artifacts])
  then show "set (artifacts d) \<subseteq> set (artifacts d')" by simp
qed

definition references_ok :: "string \<Rightarrow> db \<Rightarrow> dict list \<Rightarrow> dict \<Rightarrow> bool" where
  "references_ok rid d refs output_map \<longleftrightarrow>
     (\<forall>ref\<in>set refs. \<exists>a\<in>set (artifacts d). ref = reference_of a \<and> ar_workflow_run_id a = rid)
     \<and> (\<forall>(k, v)\<in>set output_map. \<exists>ref\<in>set refs. dget ref ''uri'' = Some v)"

lemma set_dset: "set (dset k v d) \<subseteq> insert (k, v) (set d)"
proof (induction d)
  case (Cons p d)
  obtain k' v' where "p = (k', v')" by (cases p)
  with Cons show ?case by (cases "k' = k") auto
qed simp

lemma register_one_step:
  assumes "register_one L save mx now rid nid (d, refs, om) it = Inr (d', refs', om')" "new_tasks d = []"
    and "references_ok rid d refs om"
  shows "adds_artifacts d d' \<and> references_ok rid d' refs' om'"
proof (cases "item_dict it")
  case None
  with assms show ?thesis by (simp add: register_one_def)
next
  case (Some item)
  with assms(1) obtain found where item: "register_item L save mx now rid nid item (item_bytes it) d = Inr (d', found)"
    and rest: "(case found of None \<Rightarrow> Inr (d', refs, om)
          | Some a \<Rightarrow> Inr (d', refs @ [reference_of a],
                   (case dget0 item ''output_key'' of
                      JStr key \<Rightarrow> if key = [] then om else dset key (JStr (ar_uri a)) om | _ \<Rightarrow> om))) = (Inr (d', refs', om') :: exn + _)"
    by (auto simp: register_one_def outcome split: option.splits)
  from register_item_result [OF item assms(2)]
  have adds: "adds_artifacts d d'" and a: "\<And>a. found = Some a \<Longrightarrow> a \<in> set (artifacts d') \<and> ar_workflow_run_id a = rid"
    by auto
  have sub: "set (artifacts d) \<subseteq> set (artifacts d')" using adds by (rule adds_artifacts_keeps)
  show ?thesis
  proof (cases found)
    case None
    with rest have "refs' = refs" "om' = om" by simp_all
    with assms(3) sub have "references_ok rid d' refs' om'" unfolding references_ok_def by blast
    with adds show ?thesis by simp
  next
    case (Some a')
    with rest have refs': "refs' = refs @ [reference_of a']" and om': "set om' \<subseteq> {(k, v). v = JStr (ar_uri a')} \<union> set om"
      using set_dset by (auto split: json.splits if_splits) fastforce+
    have "dget (reference_of a') ''uri'' = Some (JStr (ar_uri a'))" by (simp add: reference_of_def dget_def)
    with refs' om' assms(3) a [OF Some] sub have "references_ok rid d' refs' om'"
      unfolding references_ok_def by fastforce
    with adds show ?thesis by simp
  qed
qed

lemma register_candidates_result:
  assumes "register_artifact_candidates L save mx now rid nid items d = Inr (d', refs, om)" "new_tasks d = []"
  shows "adds_artifacts d d'" and "references_ok rid d' refs om"
proof -
  have "(\<lambda>(d1, refs, om). adds_artifacts d d1 \<and> references_ok rid d1 refs om) (d', refs, om)"
    using assms(1) unfolding register_artifact_candidates_def
  proof (rule foldM_invariant, goal_cases)
    case 1
    then show ?case by (simp add: references_ok_def)
  next
    case (2 s x s')
    obtain d1 r1 o1 where s: "s = (d1, r1, o1)" by (cases s)
    obtain d2 r2 o2 where s': "s' = (d2, r2, o2)" by (cases s')
    from 2 s s' have a: "adds_artifacts d d1" "references_ok rid d1 r1 o1" by auto
    have "adds_artifacts d1 d2 \<and> references_ok rid d2 r2 o2"
      by (rule register_one_step [where d = d1 and refs = r1 and om = o1])
        (use 2 s s' a adds_artifacts_new_tasks [OF a(1)] assms(2) in auto)
    with a(1) s' show ?case by (auto intro: adds_artifacts_trans)
  qed
  then show "adds_artifacts d d'" and "references_ok rid d' refs om" by auto
qed

text \<open>
  C39: What a node may publish. Registering the artifact candidates of a result only adds artifacts;
  every reference that is stored in the Node Run names an artifact of the same Workflow Run, a reference to an
  artifact of another run is refused, and every output key is bound to the URI of one of these references.
\<close>

theorem registered_references_stay_in_run:
  assumes "register_artifact_candidates L save mx now rid nid items d = Inr (d', refs, om)" "new_tasks d = []"
  shows "prefix (artifacts d) (artifacts d') \<and> runs d' = runs d \<and> node_runs d' = node_runs d \<and> tasks d' = tasks d
    \<and> (\<forall>ref\<in>set refs. \<exists>a\<in>set (artifacts d'). ref = reference_of a \<and> ar_workflow_run_id a = rid)
    \<and> (\<forall>(k, v)\<in>set om. \<exists>ref\<in>set refs. dget ref ''uri'' = Some v)"
proof -
  note res = register_candidates_result [OF assms]
  from res(1) obtain as where d': "d' = d\<lparr> artifacts := artifacts d @ as, uuids := uuids d' \<rparr>"
    unfolding adds_artifacts_def by blast
  have "artifacts d' = artifacts d @ as" "runs d' = runs d" "node_runs d' = node_runs d" "tasks d' = tasks d"
    by (subst d', simp)+
  with res(2) show ?thesis unfolding references_ok_def by simp
qed

theorem registered_references_stay_in_run_witness:
  "\<exists>d' refs om. register_artifact_candidates demo_lib (\<lambda>_ _. Inr 3) 100 7 ''u0'' ''u1''
       [ABytes [(''name'', JStr ''n''), (''output_key'', JStr ''k'')] ''abc''] demo_db = Inr (d', refs, om)
     \<and> length refs = 1 \<and> prefix (artifacts demo_db) (artifacts d')"
proof -
  have "new_tasks demo_db = []" by (simp add: demo_db_def empty_db_def)
  moreover obtain d' refs om where res: "register_artifact_candidates demo_lib (\<lambda>_ _. Inr 3) 100 7 ''u0'' ''u1''
      [ABytes [(''name'', JStr ''n''), (''output_key'', JStr ''k'')] ''abc''] demo_db = Inr (d', refs, om)" "length refs = 1"
    by (simp add: register_artifact_candidates_def register_one_def item_dict_def item_bytes_def register_item_def
        register_artifact_bytes_def insert_artifact_def flush_def uuid4_def dget_def dget_or_def get_run_def get_node_def
        row_get_Cons demo_defs Let_def)
  ultimately show ?thesis using registered_references_stay_in_run [OF res(1)] by blast
qed

end
