(* ===== verification/Executor.thy ===== *)
theory Executor
  imports Artifacts
begin

text \<open>
  The default execution units (\<^verbatim>\<open>runtime/executor/default.py\<close>) and the HTTP invocation below them
  (\<^verbatim>\<open>connectors/http.py\<close>, \<^verbatim>\<open>connectors/base.py\<close>): condition evaluation, deterministic nodes, and
  Agent and Service calls. The outside world is the record \<open>exec_env\<close>: the credential lookup,
  decryption, the HTTP transport, text decoding and JSON parsing.
\<close>

section \<open>Conditions\<close>

text \<open>
  Three-way comparison behind \<open><\<close> and \<open><=\<close>: numbers, strings and lists; anything else is a
  \<open>TypeError\<close> (\<open>None\<close>). Lists compare their first unequal elements, then their lengths.
\<close>

definition cmp :: "'a::linorder \<Rightarrow> 'a \<Rightarrow> int" where
  "cmp x y = (if x < y then -1 else if x = y then 0 else 1)"

fun py_cmp :: "json \<Rightarrow> json \<Rightarrow> int option"
  and py_cmp_list :: "json list \<Rightarrow> json list \<Rightarrow> int option" where
  "py_cmp (JStr s) w = (case w of JStr t \<Rightarrow> Some (cmp s t) | _ \<Rightarrow> None)"
| "py_cmp (JArr xs) w = (case w of JArr ys \<Rightarrow> py_cmp_list xs ys | _ \<Rightarrow> None)"
| "py_cmp v w = (case (as_num v, as_num w) of (Some x, Some y) \<Rightarrow> Some (cmp x y) | _ \<Rightarrow> None)"
| "py_cmp_list [] ys = Some (if ys = [] then 0 else -1)"
| "py_cmp_list (x # xs) ys =
     (case ys of [] \<Rightarrow> Some 1 | y # ys' \<Rightarrow> if py_eq x y then py_cmp_list xs ys' else py_cmp x y)"

text \<open>\<open>item in container\<close>\<close>

definition py_in :: "json \<Rightarrow> json \<Rightarrow> bool option" where
  "py_in item container =
     (case container of
        JStr s \<Rightarrow> (case item of JStr t \<Rightarrow> Some (contains t s) | _ \<Rightarrow> None)
      | JArr xs \<Rightarrow> Some (\<exists>x\<in>set xs. py_eq item x)
      | JObj d \<Rightarrow> (case item of JStr k \<Rightarrow> Some (dhas d k) | JArr _ \<Rightarrow> None | JObj _ \<Rightarrow> None | _ \<Rightarrow> Some False)
      | _ \<Rightarrow> None)"

definition py_empty :: "json \<Rightarrow> bool" where
  "py_empty v = (case v of JNull \<Rightarrow> True | JStr s \<Rightarrow> s = [] | JArr xs \<Rightarrow> xs = [] | JObj d \<Rightarrow> d = [] | _ \<Rightarrow> False)"

definition compare_values :: "json \<Rightarrow> json \<Rightarrow> json \<Rightarrow> bool option" where
  "compare_values left operator right =
     (if operator = JStr ''=='' then Some (py_eq left right)
      else if operator = JStr ''!='' then Some (\<not> py_eq left right)
      else if operator = JStr ''>'' then map_option (\<lambda>c. c < 0) (py_cmp right left)
      else if operator = JStr ''>='' then map_option (\<lambda>c. c \<le> 0) (py_cmp right left)
      else if operator = JStr ''<'' then map_option (\<lambda>c. c < 0) (py_cmp left right)
      else if operator = JStr ''<='' then map_option (\<lambda>c. c \<le> 0) (py_cmp left right)
      else if operator = JStr ''contains'' then py_in right left
      else if operator = JStr ''not_contains'' then map_option Not (py_in right left)
      else if operator = JStr ''is_empty'' then Some (py_empty left)
      else if operator = JStr ''is_not_empty'' then Some (\<not> py_empty left)
      else None)"

text \<open>\<open>all\<close> and \<open>any\<close> stop at the first clause that decides; \<open>None\<close> is a raised error.\<close>

fun evaluate_expression :: "json \<Rightarrow> bool option"
  and all_clauses :: "json list \<Rightarrow> bool option"
  and any_clauses :: "json list \<Rightarrow> bool option" where
  "evaluate_expression (JObj expr) =
     (if dhas expr ''and'' then
        (case dget0 expr ''and'' of JArr cs \<Rightarrow> if cs = [] then None else all_clauses cs | _ \<Rightarrow> None)
      else if dhas expr ''or'' then
        (case dget0 expr ''or'' of JArr cs \<Rightarrow> if cs = [] then None else any_clauses cs | _ \<Rightarrow> None)
      else compare_values (dget0 expr ''left'') (dget0 expr ''operator'') (dget0 expr ''right''))"
| "evaluate_expression _ = None"
| "all_clauses [] = Some True"
| "all_clauses (c # cs) = (case evaluate_expression c of None \<Rightarrow> None | Some b \<Rightarrow> if b then all_clauses cs else Some False)"
| "any_clauses [] = Some False"
| "any_clauses (c # cs) = (case evaluate_expression c of None \<Rightarrow> None | Some b \<Rightarrow> if b then Some True else any_clauses cs)"

section \<open>Contexts and results\<close>

record execution_error =
  ee_code :: string
  ee_message :: string
  ee_retryable :: bool
  ee_details :: dict

definition error_to_dict :: "execution_error \<Rightarrow> dict" where
  "error_to_dict e = [(''code'', JStr (ee_code e)), (''message'', JStr (ee_message e)),
     (''retryable'', JBool (ee_retryable e)), (''details'', JObj (ee_details e))]"

text \<open>The same error raised as an exception; its text is that of \<open>lib\<close>.\<close>

definition error_of_exn :: "lib \<Rightarrow> exn \<Rightarrow> execution_error" where
  "error_of_exn L e =
     (case e of
        ExecutionError code retryable \<Rightarrow> \<lparr> ee_code = code, ee_message = lib_error_message L e, ee_retryable = retryable,
          ee_details = lib_error_details L e \<rparr>
      | _ \<Rightarrow> \<lparr> ee_code = ''EXECUTOR_ERROR'', ee_message = lib_error_message L e, ee_retryable = False, ee_details = [] \<rparr>)"

record node_execution_context =
  nx_workflow_run_id :: string
  nx_node_run_id :: string
  nx_node :: workflow_node
  nx_resolved_config :: dict
  nx_resolved_input :: dict
  nx_execution_snapshot :: dict
  nx_attempt :: nat
  nx_execution_key :: "string option"

record node_execution_result =
  er_ok :: bool
  er_output :: "dict option"
  er_retryable :: bool
  er_error :: "execution_error option"
  er_metadata :: dict
  er_artifacts :: "artifact_item list"
  er_sensitive_values :: "string list"

definition result_ok :: "dict \<Rightarrow> node_execution_result" where
  "result_ok out = \<lparr> er_ok = True, er_output = Some out, er_retryable = False, er_error = None, er_metadata = [],
     er_artifacts = [], er_sensitive_values = [] \<rparr>"

definition result_error_of :: "execution_error \<Rightarrow> node_execution_result" where
  "result_error_of e = \<lparr> er_ok = False, er_output = None, er_retryable = False, er_error = Some e, er_metadata = [],
     er_artifacts = [], er_sensitive_values = [] \<rparr>"

definition failure :: "string \<Rightarrow> string \<Rightarrow> node_execution_result" where
  "failure code message = result_error_of \<lparr> ee_code = code, ee_message = message, ee_retryable = False, ee_details = [] \<rparr>"

record execution_result =
  xr_success :: bool
  xr_output :: "dict option"
  xr_artifacts :: "artifact_item list"
  xr_metadata :: dict
  xr_retryable :: bool
  xr_error :: "execution_error option"

section \<open>HTTP invocation\<close>

record credential =
  cred_type :: string
  cred_encrypted_payload :: string

record http_invocation =
  hi_url :: string
  hi_method :: string
  hi_timeout_seconds :: int
  hi_headers :: "(string \<times> string) list"
  hi_credential :: "credential option"
  hi_json_body :: json
  hi_query :: dict
  hi_retry_on_status :: "int list"

record http_request =
  hq_url :: string
  hq_method :: string
  hq_timeout_seconds :: int
  hq_headers :: "(string \<times> string) list"
  hq_basic_auth :: "(string \<times> string) option"
  hq_json_body :: json
  hq_query :: dict

datatype http_outcome = HttpTimeout | HttpRequestError | HttpResponse int "string list"

record exec_env =
  xe_allow_private :: bool
  xe_credential :: "string \<Rightarrow> credential option"
  xe_decrypt :: "string \<Rightarrow> exn + dict"
  xe_transport :: "http_request \<Rightarrow> http_outcome"
  xe_text :: "string \<Rightarrow> string"
  xe_loads :: "string \<Rightarrow> json option"

definition payload_text :: "lib \<Rightarrow> dict \<Rightarrow> string \<Rightarrow> exn + string" where
  "payload_text L payload k = (case dget payload k of None \<Rightarrow> Inl (PyError ''KeyError'') | Some v \<Rightarrow> Inr (py_str L v))"

definition authentication ::
  "lib \<Rightarrow> exec_env \<Rightarrow> (string \<times> string) list \<Rightarrow> credential option \<Rightarrow> exn + (string \<times> string) list \<times> (string \<times> string) option" where
  "authentication L X headers cred =
     (case cred of None \<Rightarrow> Inr (headers, None)
      | Some c \<Rightarrow>
          ebind (xe_decrypt X (cred_encrypted_payload c)) (\<lambda>payload.
          if cred_type c = ''api_key'' then
            ebind (payload_text L payload ''value'') (\<lambda>v. Inr (dset ''X-API-Key'' v headers, None))
          else if cred_type c = ''bearer_token'' then
            ebind (payload_text L payload ''value'') (\<lambda>v. Inr (dset ''Authorization'' (''Bearer '' @ v) headers, None))
          else if cred_type c = ''basic_auth'' then
            ebind (payload_text L payload ''username'') (\<lambda>u.
            ebind (payload_text L payload ''password'') (\<lambda>p. Inr (headers, Some (u, p))))
          else Inl (PyError ''ValueError'')))"

definition MAX_RESPONSE_BYTES :: nat where
  "MAX_RESPONSE_BYTES = 1000000"

record http_invocation_result =
  hr_ok :: bool
  hr_status_code :: "int option"
  hr_output :: "dict option"
  hr_retryable :: bool
  hr_error_code :: "string option"
  hr_message :: "string option"

definition http_failure :: "int option \<Rightarrow> bool \<Rightarrow> string \<Rightarrow> string \<Rightarrow> http_invocation_result" where
  "http_failure status retryable code message =
     \<lparr> hr_ok = False, hr_status_code = status, hr_output = None, hr_retryable = retryable,
       hr_error_code = Some code, hr_message = Some message \<rparr>"

text \<open>Reading the chunks of a response; \<open>None\<close> once more than the cap has arrived.\<close>

fun read_body :: "string \<Rightarrow> string list \<Rightarrow> string option" where
  "read_body content [] = Some content"
| "read_body content (chunk # chunks) =
     (if length (content @ chunk) > MAX_RESPONSE_BYTES then None else read_body (content @ chunk) chunks)"

definition decode_payload :: "exec_env \<Rightarrow> string \<Rightarrow> dict" where
  "decode_payload X content =
     (let text = xe_text X content in
      case xe_loads X text of
        None \<Rightarrow> [(''body'', JStr text)]
      | Some (JObj d) \<Rightarrow> d
      | Some v \<Rightarrow> [(''result'', v)])"

definition http_reply :: "exec_env \<Rightarrow> http_invocation \<Rightarrow> http_outcome \<Rightarrow> http_invocation_result" where
  "http_reply X c reply =
     (case reply of
        HttpTimeout \<Rightarrow> http_failure None True ''HTTP_TIMEOUT'' ''HTTP invocation timed out''
      | HttpRequestError \<Rightarrow> http_failure None True ''HTTP_REQUEST_FAILED'' ''Unable to reach the configured HTTP endpoint''
      | HttpResponse status chunks \<Rightarrow>
          if \<not> (200 \<le> status \<and> status < 300)
          then http_failure (Some status) (status \<in> set (hi_retry_on_status c)) (''HTTP_'' @ str_int status)
                 (''HTTP endpoint returned status '' @ str_int status)
          else (case read_body [] chunks of
              None \<Rightarrow> http_failure (Some status) False ''RESPONSE_TOO_LARGE''
                 (''HTTP response exceeded '' @ str_int (int MAX_RESPONSE_BYTES) @ '' bytes'')
            | Some content \<Rightarrow>
                \<lparr> hr_ok = True, hr_status_code = Some status, hr_output = Some (decode_payload X content),
                  hr_retryable = False, hr_error_code = None, hr_message = None \<rparr>))"

definition invoke_http :: "lib \<Rightarrow> exec_env \<Rightarrow> http_invocation \<Rightarrow> exn + http_invocation_result" where
  "invoke_http L X c =
     (case validate_http_url L (xe_allow_private X) (hi_url c) of
        Inl (RelayviaError code _) \<Rightarrow> Inr (http_failure None False code ''Configured URL is blocked by the URL policy'')
      | Inl e \<Rightarrow> Inl e
      | Inr _ \<Rightarrow>
          ebind (authentication L X (hi_headers c) (hi_credential c)) (\<lambda>(headers, basic_auth).
          Inr (http_reply X c (xe_transport X \<lparr> hq_url = hi_url c, hq_method = hi_method c,
              hq_timeout_seconds = hi_timeout_seconds c, hq_headers = headers, hq_basic_auth = basic_auth,
              hq_json_body = hi_json_body c, hq_query = hi_query c \<rparr>))))"

definition json_status :: "int option \<Rightarrow> json" where
  "json_status s = (case s of None \<Rightarrow> JNull | Some i \<Rightarrow> JInt i)"

definition http_invocation_to_execution_result :: "http_invocation_result \<Rightarrow> execution_result" where
  "http_invocation_to_execution_result r =
     (if hr_ok r then \<lparr> xr_success = True, xr_output = hr_output r, xr_artifacts = [],
        xr_metadata = [(''status_code'', json_status (hr_status_code r))], xr_retryable = False, xr_error = None \<rparr>
      else \<lparr> xr_success = False, xr_output = None, xr_artifacts = [],
        xr_metadata = [(''status_code'', json_status (hr_status_code r))], xr_retryable = hr_retryable r,
        xr_error = Some \<lparr> ee_code = (case hr_error_code r of Some c \<Rightarrow> if c = [] then ''HTTP_INVOCATION_FAILED'' else c
              | None \<Rightarrow> ''HTTP_INVOCATION_FAILED''),
            ee_message = (case hr_message r of Some m \<Rightarrow> if m = [] then ''HTTP invocation failed'' else m
              | None \<Rightarrow> ''HTTP invocation failed''),
            ee_retryable = hr_retryable r, ee_details = [] \<rparr> \<rparr>)"

section \<open>Helpers of the executor\<close>

definition service_payload :: "dict \<Rightarrow> exn + dict \<times> dict \<times> dict" where
  "service_payload v =
     (let (body, query, path) =
        (if dhas v ''path'' \<or> dhas v ''query'' \<or> dhas v ''body''
         then (dget_or v ''body'' (JObj []), dget_or v ''query'' (JObj []), dget_or v ''path'' (JObj []))
         else (JObj v, JObj [], JObj [])) in
      case (body, query, path) of
        (JObj b, JObj q, JObj p) \<Rightarrow> Inr (b, q, p)
      | _ \<Rightarrow> Inl (ExecutionError ''INVALID_SERVICE_INPUT'' False))"

text \<open>\<open>urllib.parse.quote(s, safe="")\<close>: UTF-8 bytes other than letters, digits and \<open>_.-~\<close> as \<open>%XX\<close>.\<close>

definition upper_hex :: "nat \<Rightarrow> char" where
  "upper_hex n = (if n < 10 then char_of (48 + n) else char_of (55 + n))"

definition unreserved :: "char \<Rightarrow> bool" where
  "unreserved c \<longleftrightarrow> is_alnum c \<or> c \<in> {CHR ''_'', CHR ''.'', CHR ''-'', CHR ''~''}"

definition quote_byte :: "nat \<Rightarrow> string" where
  "quote_byte b = [CHR ''%'', upper_hex (b div 16), upper_hex (b mod 16)]"

definition url_quote :: "string \<Rightarrow> string" where
  "url_quote s = concat (map (\<lambda>c. let n = of_char c :: nat in
     if unreserved c then [c]
     else if n < 128 then quote_byte n
     else quote_byte (192 + n div 64) @ quote_byte (128 + n mod 64)) s)"

definition expand_path :: "lib \<Rightarrow> string \<Rightarrow> dict \<Rightarrow> exn + string" where
  "expand_path L path values =
     (let expanded = fold (\<lambda>(name, v) text. replace_all (''{'' @ name @ ''}'') (url_quote (py_str L v)) text) values path in
      if CHR 0x7B \<in> set expanded \<or> CHR 0x7D \<in> set expanded then Inl (ExecutionError ''MISSING_PATH_PARAMETER'' False)
      else Inr expanded)"

definition validate_payload :: "lib \<Rightarrow> json \<Rightarrow> json \<Rightarrow> string \<Rightarrow> node_execution_result option" where
  "validate_payload L v schema label =
     (case schema of
        JObj s \<Rightarrow> if s = [] then None
          else if lib_schema_errors L schema v \<noteq> []
          then Some (failure ''EXECUTION_SCHEMA_MISMATCH'' (label @ '' does not match its declared schema''))
          else None
      | _ \<Rightarrow> None)"

definition execution_result_to_node ::
  "lib \<Rightarrow> execution_result \<Rightarrow> json \<Rightarrow> string \<Rightarrow> string list \<Rightarrow> node_execution_result" where
  "execution_result_to_node L r output_schema label sensitive_values =
     (if \<not> xr_success r then
        \<lparr> er_ok = False, er_output = None, er_retryable = xr_retryable r, er_error = xr_error r,
          er_metadata = xr_metadata r, er_artifacts = xr_artifacts r, er_sensitive_values = sensitive_values \<rparr>
      else
        let out = (case xr_output r of None \<Rightarrow> [] | Some d \<Rightarrow> d) in
        case validate_payload L (JObj out) output_schema label of
          Some invalid \<Rightarrow> invalid
        | None \<Rightarrow> \<lparr> er_ok = True, er_output = Some out, er_retryable = False, er_error = None,
            er_metadata = xr_metadata r, er_artifacts = xr_artifacts r, er_sensitive_values = sensitive_values \<rparr>)"

definition string_dict :: "lib \<Rightarrow> json \<Rightarrow> (string \<times> string) list" where
  "string_dict L v = (case v of JObj d \<Rightarrow> map (\<lambda>(k, x). (k, py_str L x)) d | _ \<Rightarrow> [])"

definition find_credential :: "exec_env \<Rightarrow> lib \<Rightarrow> json \<Rightarrow> exn + credential option" where
  "find_credential X L credential_id =
     (if \<not> truthy credential_id then Inr None
      else (case xe_credential X (py_str L credential_id) of
          None \<Rightarrow> Inl (ExecutionError ''CREDENTIAL_UNAVAILABLE'' False)
        | Some c \<Rightarrow> Inr (Some c)))"

definition credential_secret_values :: "exec_env \<Rightarrow> lib \<Rightarrow> credential option \<Rightarrow> string list" where
  "credential_secret_values X L cred =
     (case cred of None \<Rightarrow> []
      | Some c \<Rightarrow>
          (case xe_decrypt X (cred_encrypted_payload c) of
             Inl _ \<Rightarrow> []
           | Inr payload \<Rightarrow>
               filter (\<lambda>s. s \<noteq> []) (List.map_filter (\<lambda>(_, v). case v of JStr s \<Rightarrow> Some s | JInt i \<Rightarrow> Some (str_int i)
                 | JBool _ \<Rightarrow> Some (py_str L v) | JFloat _ \<Rightarrow> Some (py_str L v) | _ \<Rightarrow> None) payload)))"

text \<open>\<open>int(a or b or default)\<close>\<close>

definition int_or_raise :: "json \<Rightarrow> exn + int" where
  "int_or_raise v = (case py_int v of None \<Rightarrow> Inl (PyError ''ValueError'') | Some i \<Rightarrow> Inr i)"

definition timeout_value :: "json \<Rightarrow> json \<Rightarrow> exn + int" where
  "timeout_value a b = int_or_raise (if truthy a then a else if truthy b then b else JInt 30)"

text \<open>The elements a \<open>for\<close> loop over a JSON value visits.\<close>

definition py_iter :: "json \<Rightarrow> exn + json list" where
  "py_iter v =
     (case v of JArr xs \<Rightarrow> Inr xs | JStr s \<Rightarrow> Inr (map (\<lambda>c. JStr [c]) s) | JObj d \<Rightarrow> Inr (map (\<lambda>(k, _). JStr k) d)
      | _ \<Rightarrow> Inl (PyError ''TypeError''))"

definition retry_statuses :: "dict \<Rightarrow> exn + int list" where
  "retry_statuses action =
     (case dget0 action ''retry_policy'' of
        JObj policy \<Rightarrow>
          ebind (py_iter (dget_or policy ''retry_on_status'' (JArr (map JInt [408, 429, 500, 502, 503, 504])))) (\<lambda>vs.
            foldM (\<lambda>acc v. ebind (int_or_raise v) (\<lambda>i. Inr (acc @ [i]))) [] vs)
      | v \<Rightarrow> if truthy v then Inl (PyError ''AttributeError'') else Inr [408, 429, 500, 502, 503, 504])"

section \<open>Execution units\<close>

definition snapshot_entry :: "dict \<Rightarrow> string \<Rightarrow> json \<Rightarrow> dict option" where
  "snapshot_entry snapshot kind key =
     (case (dget_or snapshot kind (JObj []), key) of (JObj d, JStr k) \<Rightarrow> as_dict (dget0 d k) | _ \<Rightarrow> None)"

definition execute_agent :: "lib \<Rightarrow> exec_env \<Rightarrow> node_execution_context \<Rightarrow> exn + node_execution_result" where
  "execute_agent L X c =
     (case snapshot_entry (nx_execution_snapshot c) ''agents'' (dget0 (n_config (nx_node c)) ''agent_id'') of
        None \<Rightarrow> Inr (failure ''AGENT_SNAPSHOT_MISSING'' ''Agent invocation metadata is missing from the Run snapshot'')
      | Some ag \<Rightarrow>
          if dget0 ag ''connector_type'' \<noteq> JStr ''http''
          then Inr (failure ''UNSUPPORTED_AGENT_CONNECTOR'' ''Only HTTP Agent execution is supported'')
          else (case as_str (dget0 ag ''endpoint'') of
              None \<Rightarrow> Inr (failure ''AGENT_ENDPOINT_MISSING'' ''HTTP Agent endpoint is not configured'')
            | Some endpoint \<Rightarrow>
                if endpoint = [] then Inr (failure ''AGENT_ENDPOINT_MISSING'' ''HTTP Agent endpoint is not configured'')
                else (case validate_payload L (JObj (nx_resolved_input c)) (dget0 ag ''input_schema'') ''Agent input'' of
                    Some invalid \<Rightarrow> Inr invalid
                  | None \<Rightarrow>
                      (case find_credential X L (dget0 ag ''credential_id'') of
                         Inl e \<Rightarrow> Inr (result_error_of (error_of_exn L e))
                       | Inr cred \<Rightarrow>
                           ebind (timeout_value (dget0 (nx_resolved_config c) ''timeout_seconds'') (dget0 ag ''timeout_seconds'')) (\<lambda>timeout.
                           ebind (invoke_http L X \<lparr> hi_url = endpoint,
                             hi_method = str_or L ag ''http_method'' ''POST'', hi_timeout_seconds = timeout,
                             hi_headers = string_dict L (dget0 ag ''headers''), hi_credential = cred,
                             hi_json_body = JObj [(''input'', JObj (nx_resolved_input c)),
                               (''context'', JObj [(''workflow_run_id'', JStr (nx_workflow_run_id c)),
                                 (''node_id'', JStr (n_id (nx_node c))), (''attempt'', JInt (int (nx_attempt c)))])],
                             hi_query = [], hi_retry_on_status = [408, 429, 500, 502, 503, 504] \<rparr>) (\<lambda>r.
                           Inr (execution_result_to_node L (http_invocation_to_execution_result r) (dget0 ag ''output_schema'')
                                  ''Agent output'' (credential_secret_values X L cred))))))))"

definition first_invalid :: "lib \<Rightarrow> (dict \<times> json \<times> string) list \<Rightarrow> node_execution_result option" where
  "first_invalid L checks =
     (case List.map_filter (\<lambda>(v, schema, label). validate_payload L (JObj v) schema label) checks of [] \<Rightarrow> None | r # _ \<Rightarrow> Some r)"

definition execute_service :: "lib \<Rightarrow> exec_env \<Rightarrow> node_execution_context \<Rightarrow> exn + node_execution_result" where
  "execute_service L X c =
     (case (snapshot_entry (nx_execution_snapshot c) ''services'' (dget0 (n_config (nx_node c)) ''service_id''),
            snapshot_entry (nx_execution_snapshot c) ''service_actions'' (dget0 (n_config (nx_node c)) ''service_action_id'')) of
        (Some sv, Some action) \<Rightarrow>
          (let prepared =
             ebind (service_payload (nx_resolved_input c)) (\<lambda>(body, query, path).
             ebind (payload_text L sv ''base_url'') (\<lambda>base.
             ebind (payload_text L action ''path'') (\<lambda>p.
             ebind (expand_path L p path) (\<lambda>expanded.
             ebind (combine_service_url L (xe_allow_private X) base expanded) (\<lambda>url.
             ebind (find_credential X L (dget0 sv ''credential_id'')) (\<lambda>cred.
             Inr (body, query, path, url, cred))))))) in
           case prepared of
             Inl (ExecutionError code retryable) \<Rightarrow> Inr (result_error_of (error_of_exn L (ExecutionError code retryable)))
           | Inl e \<Rightarrow> Inl e
           | Inr (body, query, path, url, cred) \<Rightarrow>
               (case first_invalid L [(path, dget0 action ''path_schema'', ''Service path parameters''),
                   (query, dget0 action ''query_schema'', ''Service query parameters''),
                   (body, dget0 action ''input_schema'', ''Service body'')] of
                  Some invalid \<Rightarrow> Inr invalid
                | None \<Rightarrow>
                    ebind (retry_statuses action) (\<lambda>statuses.
                    ebind (payload_text L action ''method'') (\<lambda>meth.
                    ebind (timeout_value (dget0 (nx_resolved_config c) ''timeout_seconds'') (dget0 action ''timeout_seconds'')) (\<lambda>timeout.
                    ebind (invoke_http L X \<lparr> hi_url = url, hi_method = meth, hi_timeout_seconds = timeout,
                      hi_headers = string_dict L (dget0 action ''headers''), hi_credential = cred, hi_json_body = JObj body,
                      hi_query = query, hi_retry_on_status = statuses \<rparr>) (\<lambda>r.
                    Inr (execution_result_to_node L (http_invocation_to_execution_result r) (dget0 action ''output_schema'')
                           ''Service output'' (credential_secret_values X L cred))))))))
      | _ \<Rightarrow> Inr (failure ''SERVICE_SNAPSHOT_MISSING'' ''Service invocation metadata is missing from the Run snapshot''))"

definition execute_condition :: "node_execution_context \<Rightarrow> node_execution_result" where
  "execute_condition c =
     (case dget0 (nx_resolved_config c) ''expression'' of
        JObj expression \<Rightarrow>
          (case evaluate_expression (JObj expression) of
             None \<Rightarrow> failure ''CONDITION_EVALUATION_FAILED'' ''Condition values cannot be compared with the configured operator''
           | Some matched \<Rightarrow> result_ok [(''selected_branch'', JStr (if matched then ''true'' else ''false'')), (''matched'', JBool matched)])
      | _ \<Rightarrow> failure ''INVALID_CONDITION'' ''Condition expression is missing'')"

text \<open>\<open>dict(config.get(key, {}))\<close> of a value that is an object in every valid graph.\<close>

definition dict_field :: "dict \<Rightarrow> string \<Rightarrow> exn + dict" where
  "dict_field config k =
     (case dget_or config k (JObj []) of JObj d \<Rightarrow> Inr d | JStr s \<Rightarrow> if s = [] then Inr [] else Inl (PyError ''ValueError'')
      | JArr xs \<Rightarrow> if xs = [] then Inr [] else Inl (PyError ''TypeError'') | _ \<Rightarrow> Inl (PyError ''TypeError''))"

definition execute :: "lib \<Rightarrow> exec_env \<Rightarrow> node_execution_context \<Rightarrow> exn + node_execution_result" where
  "execute L X c =
     (let ty = n_type (nx_node c); sub = n_subtype (nx_node c) in
      if ty = AGENT \<and> sub = ''agent'' then execute_agent L X c
      else if ty = SERVICE \<and> sub = ''http'' then execute_service L X c
      else if ty = TOOL then
        Inr (failure ''RUNNER_REQUIRED'' ''Tool nodes require a registered Relayvia Runner; server-side execution is disabled'')
      else if ty = LOGIC \<and> sub = ''condition'' then Inr (execute_condition c)
      else if ty = LOGIC \<and> sub \<in> {''parallel'', ''merge''} then Inr (result_ok (nx_resolved_input c))
      else if ty = DATA \<and> sub = ''transform'' then ebind (dict_field (nx_resolved_config c) ''mappings'') (\<lambda>d. Inr (result_ok d))
      else if ty = DATA \<and> sub = ''output'' then ebind (dict_field (nx_resolved_config c) ''output_mapping'') (\<lambda>d. Inr (result_ok d))
      else if ty = DATA \<and> sub = ''input'' then Inr (result_ok (nx_resolved_input c))
      else Inr (failure ''UNSUPPORTED_NODE_EXECUTION''
        (''Execution is not implemented for '' @ node_type_value ty @ ''.'' @ sub)))"

section \<open>Properties of execution\<close>

lemma transport_fields:
  "xe_allow_private (X\<lparr> xe_transport := T \<rparr>) = xe_allow_private X" "xe_credential (X\<lparr> xe_transport := T \<rparr>) = xe_credential X"
  "xe_decrypt (X\<lparr> xe_transport := T \<rparr>) = xe_decrypt X" "xe_text (X\<lparr> xe_transport := T \<rparr>) = xe_text X"
  "xe_loads (X\<lparr> xe_transport := T \<rparr>) = xe_loads X" "xe_transport (X\<lparr> xe_transport := T \<rparr>) = T"
  by simp_all

lemma transport_irrelevant:
  "find_credential (X\<lparr> xe_transport := T \<rparr>) L v = find_credential X L v"
  "credential_secret_values (X\<lparr> xe_transport := T \<rparr>) L cr = credential_secret_values X L cr"
  "authentication L (X\<lparr> xe_transport := T \<rparr>) h cr = authentication L X h cr"
  "http_reply (X\<lparr> xe_transport := T \<rparr>) i o' = http_reply X i o'"
  unfolding find_credential_def credential_secret_values_def authentication_def http_reply_def decode_payload_def transport_fields
  by (rule refl)+

lemma invoke_http_policy:
  assumes "\<And>q u. validate_http_url L (xe_allow_private X) (hq_url q) = Inr u \<Longrightarrow> T q = xe_transport X q"
  shows "invoke_http L (X\<lparr> xe_transport := T \<rparr>) c = invoke_http L X c"
proof (cases "validate_http_url L (xe_allow_private X) (hi_url c)")
  case (Inr u)
  then have same: "T \<lparr> hq_url = hi_url c, hq_method = m, hq_timeout_seconds = t, hq_headers = h, hq_basic_auth = b,
      hq_json_body = j, hq_query = q \<rparr> = xe_transport X \<lparr> hq_url = hi_url c, hq_method = m, hq_timeout_seconds = t,
      hq_headers = h, hq_basic_auth = b, hq_json_body = j, hq_query = q \<rparr>" for m t h b j q
    by (intro assms [of _ u]) simp
  show ?thesis unfolding invoke_http_def transport_fields transport_irrelevant same ..
next
  case (Inl e)
  then show ?thesis by (simp add: invoke_http_def)
qed

text \<open>
  C31: No execution unit contacts a URL the policy refuses. Two worlds whose HTTP transports agree
  on every request to an admissible URL give the same result for every node, so requests to any other URL are never
  made: not by an Agent, not by a Service action after its path is expanded, not by any other node.
\<close>

theorem refused_urls_are_never_contacted:
  assumes "\<And>q u. validate_http_url L (xe_allow_private X) (hq_url q) = Inr u \<Longrightarrow> T q = xe_transport X q"
  shows "execute L (X\<lparr> xe_transport := T \<rparr>) c = execute L X c"
proof -
  have same: "invoke_http L (X\<lparr> xe_transport := T \<rparr>) i = invoke_http L X i" for i
    by (rule invoke_http_policy) (erule assms)
  show ?thesis
    unfolding execute_def execute_agent_def execute_service_def transport_fields transport_irrelevant same ..
qed

lemma read_body_bound:
  "read_body content chunks = Some out \<Longrightarrow> length content \<le> MAX_RESPONSE_BYTES \<Longrightarrow>
   out = content @ concat chunks \<and> length out \<le> MAX_RESPONSE_BYTES"
  by (induction content chunks rule: read_body.induct) (auto split: if_splits)


lemma all_clauses_values: "map evaluate_expression cs = map Some bs \<Longrightarrow> all_clauses cs = Some (\<forall>b\<in>set bs. b)"
  by (induction cs arbitrary: bs) (auto simp: map_eq_Cons_conv)

lemma any_clauses_values: "map evaluate_expression cs = map Some bs \<Longrightarrow> any_clauses cs = Some (\<exists>b\<in>set bs. b)"
  by (induction cs arbitrary: bs) (auto simp: map_eq_Cons_conv)



lemma upper_hex_unreserved: "n < 16 \<Longrightarrow> unreserved (upper_hex n)"
  by (auto simp: unreserved_def upper_hex_def is_alnum_def is_ident_char_def Let_def of_char_of)

lemma quote_byte_chars: "n < 256 \<Longrightarrow> c \<in> set (quote_byte n) \<Longrightarrow> unreserved c \<or> c = CHR ''%''"
  by (auto simp: quote_byte_def upper_hex_unreserved)

lemma url_quote_chars:
  assumes "c \<in> set (url_quote s)"
  shows "unreserved c \<or> c = CHR ''%''"
proof -
  from assms obtain a where a: "c \<in> set (let n = of_char a :: nat in
     if unreserved a then [a]
     else if n < 128 then quote_byte n
     else quote_byte (192 + n div 64) @ quote_byte (128 + n mod 64))" by (auto simp: url_quote_def)
  define n where "n = (of_char a :: nat)"
  have "n < 256" unfolding n_def by (rule of_char_less)
  then have bytes: "192 + n div 64 < 256" "128 + n mod 64 < 256" by linarith+
  from a have "unreserved a \<and> c = a \<or> c \<in> set (quote_byte n) \<or> c \<in> set (quote_byte (192 + n div 64))
      \<or> c \<in> set (quote_byte (128 + n mod 64))"
    unfolding n_def [symmetric] Let_def by (auto split: if_splits)
  then show ?thesis using quote_byte_chars [OF \<open>n < 256\<close>] quote_byte_chars [OF bytes(1)] quote_byte_chars [OF bytes(2)] by blast
qed

lemma count_replace:
  assumes "sep \<notin> set new"
  shows "count_list (replace_all old new s) sep \<le> count_list s sep"
proof (induction s rule: length_induct)
  case (1 s)
  show ?case
  proof (cases rule: replace_all_cases [of old s new])
    case 2
    have "count_list (replace_all old new (drop (length old) s)) sep \<le> count_list (drop (length old) s) sep"
      using 1 2(4) by blast
    also have "\<dots> \<le> count_list s sep" by (metis append_take_drop_id count_list_append le_add2)
    finally show ?thesis using 2(3) assms by (simp add: count_list_append count_notin)
  next
    case (3 c u)
    then show ?thesis using 1 by auto
  qed simp
qed

text \<open>
  C34: A path parameter stays inside its segment. Expanding a Service path template leaves no brace,
  and for every character that is not an unreserved URL character or a percent sign (slash, question mark, hash, at,
  colon, ...) the expanded path has no more of them than the template: a value cannot add a segment, a query or a host.
\<close>

theorem path_parameters_are_inert:
  assumes "expand_path L path vals = Inr out" "\<not> unreserved sep" "sep \<noteq> CHR ''%''"
  shows "count_list out sep \<le> count_list path sep \<and> CHR 0x7B \<notin> set out \<and> CHR 0x7D \<notin> set out"
proof -
  have "count_list (fold (\<lambda>(name, v) text. replace_all (''{'' @ name @ ''}'') (url_quote (py_str L v)) text) vals path) sep
      \<le> count_list path sep"
  proof (induction vals arbitrary: path)
    case (Cons nv vals)
    obtain name v where nv: "nv = (name, v)" by (cases nv)
    have "sep \<notin> set (url_quote (py_str L v))" using url_quote_chars assms(2,3) by blast
    from count_replace [OF this] Cons.IH show ?case by (simp add: nv) (meson le_trans)
  qed simp
  then show ?thesis using assms(1) by (auto simp: expand_path_def Let_def split: if_splits)
qed

theorem path_parameters_are_inert_witness:
  "\<exists>out. expand_path demo_lib ''/users/{id}'' [(''id'', JStr ''a/b'')] = Inr out \<and> count_list out CHR ''/'' \<le> 2"
proof -
  have out: "expand_path demo_lib ''/users/{id}'' [(''id'', JStr ''a/b'')] = Inr ''/users/a%2Fb''"
    by code_simp
  have "\<not> unreserved CHR ''/''" by code_simp
  from path_parameters_are_inert [OF out this] out show ?thesis by auto
qed

text \<open>A URL that is refused, and a world that would answer it.\<close>

definition demo_env :: exec_env where
  "demo_env = \<lparr> xe_allow_private = False, xe_credential = (\<lambda>_. None), xe_decrypt = (\<lambda>_. Inr []),
     xe_transport = (\<lambda>_. HttpTimeout), xe_text = (\<lambda>s. s), xe_loads = (\<lambda>_. None) \<rparr>"

theorem refused_urls_are_never_contacted_witness:
  "\<forall>c. execute demo_lib (demo_env\<lparr> xe_transport :=
      (\<lambda>q. if hq_url q = ''http://127.0.0.1/'' then HttpResponse 200 [''secret''] else HttpTimeout) \<rparr>) c
    = execute demo_lib demo_env c"
proof (rule allI, rule refused_urls_are_never_contacted)
  fix q :: http_request and u
  have "validate_http_url demo_lib False ''http://127.0.0.1/'' = Inl (RelayviaError ''URL_PRIVATE_NETWORK_FORBIDDEN'' 400)" by code_simp
  moreover assume "validate_http_url demo_lib (xe_allow_private demo_env) (hq_url q) = Inr u"
  ultimately have "hq_url q \<noteq> ''http://127.0.0.1/''" by (auto simp: demo_env_def)
  then show "(if hq_url q = ''http://127.0.0.1/'' then HttpResponse 200 [''secret''] else HttpTimeout) = xe_transport demo_env q"
    by (simp add: demo_env_def)
qed

definition demo_call :: http_invocation where
  "demo_call = \<lparr> hi_url = ''http://h/'', hi_method = ''POST'', hi_timeout_seconds = 30, hi_headers = [], hi_credential = None,
     hi_json_body = JNull, hi_query = [], hi_retry_on_status = [503] \<rparr>"


end
