(* ===== verification/Backend.thy ===== *)
theory Backend
  imports Store
begin

text \<open>
  The execution queue: \<^verbatim>\<open>infrastructure/execution_backend/mysql.py\<close> behind the interface
  of \<^verbatim>\<open>base.py\<close>. Each method is one transaction: it reads the clock as \<open>now\<close>, works on
  the session state, and commits. The locks make transactions on one run and its tasks
  serial, so a method is a function on the database; the candidate lookup of \<open>claim\<close>,
  which takes no lock, is separate from the locked part, which re-checks what it needs.
\<close>

section \<open>Helpers\<close>

record claimed_task =
  ct_id :: string
  ct_workflow_run_id :: string
  ct_node_run_id :: string
  ct_task_type :: string
  ct_payload :: dict
  ct_attempt :: nat
  ct_max_attempts :: int
  ct_execution_key :: "string option"
  ct_locked_by :: string
  ct_lease_token :: string
  ct_lease_expires_at :: time

definition trace :: "time \<Rightarrow> execution_task \<Rightarrow> run_event_type \<Rightarrow> string option \<Rightarrow> dict \<Rightarrow> db \<Rightarrow> db" where
  "trace now t ty msg payload d =
     record_event now (t_workflow_run_id t) (Some (t_node_run_id t)) ty msg
       (dmerge [(''node_id'', dget0 (t_payload_json t) ''node_id'')] payload) d"

definition lease_active :: "time \<Rightarrow> time \<Rightarrow> bool" where
  "lease_active now expires_at \<longleftrightarrow> expires_at > now"

definition owns :: "time \<Rightarrow> execution_task \<Rightarrow> string \<Rightarrow> string \<Rightarrow> bool" where
  "owns now t worker_id lease_token \<longleftrightarrow>
     \<not> is_execution_task_terminal (t_status t)
     \<and> t_locked_by t = Some worker_id
     \<and> t_lease_token t = Some lease_token
     \<and> (case t_lease_expires_at t of None \<Rightarrow> False | Some e \<Rightarrow> lease_active now e)"

definition drop_lease :: "execution_task \<Rightarrow> execution_task" where
  "drop_lease t = t\<lparr> t_locked_by := None, t_lease_token := None, t_locked_at := None, t_lease_expires_at := None \<rparr>"

definition node_status :: "string \<Rightarrow> node_run_status \<Rightarrow> bool \<Rightarrow> db \<Rightarrow> exn + db" where
  "node_status nid target allow_same d =
     (case get_node nid d of None \<Rightarrow> Inr d
      | Some n \<Rightarrow>
          if allow_same \<and> nr_status n = target then Inr d
          else ebind (transition_node_run (nr_status n) target)
            (\<lambda>_. Inr (upd_node nid (\<lambda>n. n\<lparr> nr_status := target \<rparr>) d)))"

definition node_completed :: "time \<Rightarrow> string \<Rightarrow> dict \<Rightarrow> dict \<Rightarrow> dict list \<Rightarrow> db \<Rightarrow> exn + db" where
  "node_completed now nid output execution_metadata refs d =
     (case get_node nid d of None \<Rightarrow> Inr d
      | Some n \<Rightarrow>
          ebind (transition_node_run (nr_status n) N_COMPLETED)
            (\<lambda>_. Inr (upd_node nid (\<lambda>n. n\<lparr> nr_status := N_COMPLETED, nr_output_json := Some output,
                nr_execution_metadata_json := execution_metadata, nr_artifact_refs_json := refs,
                nr_finished_at := Some now \<rparr>) d)))"

definition node_failed :: "time \<Rightarrow> string \<Rightarrow> dict \<Rightarrow> dict \<Rightarrow> dict list \<Rightarrow> db \<Rightarrow> exn + db" where
  "node_failed now nid error execution_metadata refs d =
     (case get_node nid d of None \<Rightarrow> Inr d
      | Some n \<Rightarrow>
          if is_node_run_terminal (nr_status n) then Inr d
          else ebind (transition_node_run (nr_status n) N_FAILED)
            (\<lambda>_. Inr (upd_node nid (\<lambda>n. n\<lparr> nr_status := N_FAILED, nr_error_json := Some error,
                nr_execution_metadata_json := execution_metadata, nr_artifact_refs_json := refs,
                nr_finished_at := Some now \<rparr>) d)))"

definition node_cancelled :: "time \<Rightarrow> string \<Rightarrow> db \<Rightarrow> exn + db" where
  "node_cancelled now nid d =
     (case get_node nid d of None \<Rightarrow> Inr d
      | Some n \<Rightarrow>
          if is_node_run_terminal (nr_status n) then Inr d
          else ebind (transition_node_run (nr_status n) N_CANCELLED)
            (\<lambda>_. Inr (upd_node nid (\<lambda>n. n\<lparr> nr_status := N_CANCELLED, nr_finished_at := Some now \<rparr>) d)))"

text \<open>
  The task a fenced method works on: absent or not owned, the method returns \<open>False\<close>
  and writes nothing.
\<close>

definition fenced ::
  "time \<Rightarrow> string \<Rightarrow> string \<Rightarrow> string \<Rightarrow> db \<Rightarrow> (execution_task \<Rightarrow> exn + db \<times> bool) \<Rightarrow> (exn + bool) \<times> db" where
  "fenced now task_id worker_id lease_token d body =
     transact d
       (case get_task task_id d of None \<Rightarrow> Inr (d, False)
        | Some t \<Rightarrow> if owns now t worker_id lease_token then body t else Inr (d, False))"

section \<open>Submission and claim\<close>

definition submit ::
  "lib \<Rightarrow> time \<Rightarrow> string \<Rightarrow> string \<Rightarrow> dict \<Rightarrow> int \<Rightarrow> int \<Rightarrow> time \<Rightarrow> db \<Rightarrow> (exn + string) \<times> db" where
  "submit L now workflow_run_id node_run_id payload priority max_attempts available_at d =
     transact d
       (let (tid, d) = uuid4 L d in
        Inr (d\<lparr> new_tasks := new_tasks d @
          [\<lparr> t_id = tid, t_workflow_run_id = workflow_run_id, t_node_run_id = node_run_id,
             t_task_type = ''node_execution'', t_status = T_PENDING, t_payload_json = payload,
             t_priority = priority, t_attempt = 0, t_max_attempts = max_attempts,
             t_available_at = available_at, t_locked_by = None, t_lease_token = None,
             t_locked_at = None, t_lease_expires_at = None, t_runner_id = None,
             t_required_capability = None,
             t_execution_key = Some (workflow_run_id @ '':'' @ node_run_id),
             t_last_error_json = None, t_started_at = None, t_finished_at = None,
             t_created_at = now \<rparr>] \<rparr>, tid))"

text \<open>
  The predicates of the candidate query; \<open>capabilities = None\<close> is a Worker, otherwise the
  query is that of a Runner.
\<close>

definition claimable :: "time \<Rightarrow> string \<Rightarrow> string list option \<Rightarrow> db \<Rightarrow> execution_task \<Rightarrow> bool" where
  "claimable now worker_id capabilities d t \<longleftrightarrow>
     t_status t = T_PENDING
     \<and> t_available_at t \<le> now
     \<and> (case get_run (t_workflow_run_id t) d of None \<Rightarrow> False | Some r \<Rightarrow> r_status r = W_RUNNING)
     \<and> (case capabilities of
          None \<Rightarrow> t_required_capability t = None
        | Some caps \<Rightarrow>
            (case t_required_capability t of None \<Rightarrow> False | Some c \<Rightarrow> c \<in> set caps)
            \<and> (t_runner_id t = None \<or> t_runner_id t = Some worker_id))"

definition claim_order :: "execution_task \<Rightarrow> int \<times> time \<times> time" where
  "claim_order t = (- t_priority t, t_available_at t, t_created_at t)"

definition candidate :: "time \<Rightarrow> string \<Rightarrow> string list option \<Rightarrow> db \<Rightarrow> execution_task option" where
  "candidate now worker_id capabilities d =
     (case sort_key claim_order (filter (claimable now worker_id capabilities d) (tasks d)) of
        [] \<Rightarrow> None | t # _ \<Rightarrow> Some t)"

definition claim_locked ::
  "lib \<Rightarrow> int \<Rightarrow> time \<Rightarrow> string \<Rightarrow> bool \<Rightarrow> string \<Rightarrow> string \<Rightarrow> db \<Rightarrow> exn + db \<times> claimed_task option" where
  "claim_locked L lease_seconds now worker_id auto_start task_id run_id d =
     (case get_run run_id d of None \<Rightarrow> Inr (d, None)
      | Some run \<Rightarrow>
        if r_status run \<noteq> W_RUNNING then Inr (d, None)
        else (case get_task task_id d of None \<Rightarrow> Inr (d, None)
          | Some task \<Rightarrow>
            if t_status task \<noteq> T_PENDING then Inr (d, None)
            else
              let (lease_token, d) = uuid4 L d;
                  expires = now + timedelta lease_seconds;
                  d = upd_task task_id (\<lambda>t. t\<lparr> t_status := T_CLAIMED, t_locked_by := Some worker_id,
                        t_lease_token := Some lease_token, t_locked_at := Some now,
                        t_lease_expires_at := Some expires \<rparr>) d;
                  attempt = (if auto_start then Suc (t_attempt task) else t_attempt task);
                  result = \<lparr> ct_id = t_id task, ct_workflow_run_id = t_workflow_run_id task,
                        ct_node_run_id = t_node_run_id task, ct_task_type = t_task_type task,
                        ct_payload = t_payload_json task, ct_attempt = attempt,
                        ct_max_attempts = t_max_attempts task, ct_execution_key = t_execution_key task,
                        ct_locked_by = worker_id, ct_lease_token = lease_token,
                        ct_lease_expires_at = expires \<rparr> in
              if \<not> auto_start then Inr (d, Some result)
              else
                ebind (transition_execution_task T_CLAIMED T_RUNNING) (\<lambda>_.
                let d = upd_task task_id (\<lambda>t. t\<lparr> t_status := T_RUNNING, t_attempt := attempt,
                          t_started_at := Some now \<rparr>) d in
                ebind (node_status (t_node_run_id task) N_RUNNING True d) (\<lambda>d.
                Inr (trace now task NODE_STARTED
                       (Some (''Node started on Runner (attempt '' @ str_nat attempt @ '')''))
                       [(''attempt'', JInt (int attempt))] d, Some result)))))"

definition claim ::
  "lib \<Rightarrow> int \<Rightarrow> time \<Rightarrow> string \<Rightarrow> string list option \<Rightarrow> bool \<Rightarrow> db \<Rightarrow> (exn + claimed_task option) \<times> db" where
  "claim L lease_seconds now worker_id capabilities auto_start d =
     transact d
       (case candidate now worker_id capabilities d of None \<Rightarrow> Inr (d, None)
        | Some t \<Rightarrow> claim_locked L lease_seconds now worker_id auto_start (t_id t) (t_workflow_run_id t) d)"

section \<open>Fenced methods\<close>

definition release_or_cancel_for_run_state ::
  "time \<Rightarrow> execution_task \<Rightarrow> workflow_run option \<Rightarrow> db \<Rightarrow> exn + db" where
  "release_or_cancel_for_run_state now t run d =
     (let status = (case run of None \<Rightarrow> W_CANCELLED | Some r \<Rightarrow> r_status r) in
      if status = W_PAUSED \<or> status = W_WAITING then
        ebind (transition_execution_task (t_status t) T_PENDING)
          (\<lambda>_. Inr (upd_task (t_id t) (\<lambda>t. drop_lease (t\<lparr> t_status := T_PENDING \<rparr>)) d))
      else
        ebind (transition_execution_task (t_status t) T_CANCELLED)
          (\<lambda>_. node_cancelled now (t_node_run_id t)
            (upd_task (t_id t) (\<lambda>t. t\<lparr> t_status := T_CANCELLED, t_finished_at := Some now \<rparr>) d)))"

definition start :: "time \<Rightarrow> string \<Rightarrow> string \<Rightarrow> string \<Rightarrow> db \<Rightarrow> (exn + bool) \<times> db" where
  "start now task_id worker_id lease_token d =
     fenced now task_id worker_id lease_token d (\<lambda>t.
       let run = get_run (t_workflow_run_id t) d in
       if (case run of None \<Rightarrow> True | Some r \<Rightarrow> r_status r \<noteq> W_RUNNING)
       then ebind (release_or_cancel_for_run_state now t run d) (\<lambda>d. Inr (d, False))
       else
         ebind (transition_execution_task (t_status t) T_RUNNING) (\<lambda>_.
         let attempt = Suc (t_attempt t) in
         ebind (node_status (t_node_run_id t) N_RUNNING True
           (upd_task task_id (\<lambda>t. t\<lparr> t_status := T_RUNNING, t_attempt := attempt,
              t_started_at := Some now \<rparr>) d)) (\<lambda>d.
         Inr (trace now t NODE_STARTED (Some (''Node started (attempt '' @ str_nat attempt @ '')''))
                [(''attempt'', JInt (int attempt))] d, True))))"

definition complete ::
  "time \<Rightarrow> string \<Rightarrow> string \<Rightarrow> string \<Rightarrow> dict \<Rightarrow> dict \<Rightarrow> dict list \<Rightarrow> db \<Rightarrow> (exn + bool) \<times> db" where
  "complete now task_id worker_id lease_token output execution_metadata refs d =
     fenced now task_id worker_id lease_token d (\<lambda>t.
       ebind (transition_execution_task (t_status t) T_COMPLETED) (\<lambda>_.
       ebind (node_completed now (t_node_run_id t) output execution_metadata refs
         (upd_task task_id (\<lambda>t. t\<lparr> t_status := T_COMPLETED, t_finished_at := Some now,
            t_last_error_json := None \<rparr>) d)) (\<lambda>d.
       Inr (trace now t NODE_COMPLETED (Some ''Node completed'')
              (case dget output ''selected_branch'' of None \<Rightarrow> [] | Some b \<Rightarrow> [(''selected_branch'', b)]) d,
            True))))"

definition fail ::
  "time \<Rightarrow> string \<Rightarrow> string \<Rightarrow> string \<Rightarrow> dict \<Rightarrow> dict \<Rightarrow> dict list \<Rightarrow> db \<Rightarrow> (exn + bool) \<times> db" where
  "fail now task_id worker_id lease_token error execution_metadata refs d =
     fenced now task_id worker_id lease_token d (\<lambda>t.
       ebind (transition_execution_task (t_status t) T_FAILED) (\<lambda>_.
       ebind (node_failed now (t_node_run_id t) error execution_metadata refs
         (upd_task task_id (\<lambda>t. t\<lparr> t_status := T_FAILED, t_finished_at := Some now,
            t_last_error_json := Some error \<rparr>) d)) (\<lambda>d.
       Inr (trace now t NODE_FAILED (as_str (dget0 error ''message''))
              [(''error_code'', dget0 error ''code'')] d, True))))"

definition wait_node ::
  "time \<Rightarrow> string \<Rightarrow> string \<Rightarrow> string \<Rightarrow> string \<Rightarrow> dict \<Rightarrow> db \<Rightarrow> (exn + bool) \<times> db" where
  "wait_node now task_id worker_id lease_token waiting_reason waiting_metadata d =
     fenced now task_id worker_id lease_token d (\<lambda>t.
       ebind (transition_execution_task (t_status t) T_COMPLETED) (\<lambda>_.
       let d = upd_task task_id (\<lambda>t. t\<lparr> t_status := T_COMPLETED, t_finished_at := Some now \<rparr>) d in
       ebind (case get_node (t_node_run_id t) d of None \<Rightarrow> Inr d
              | Some n \<Rightarrow> ebind (transition_node_run (nr_status n) N_WAITING) (\<lambda>_.
                  Inr (upd_node (t_node_run_id t) (\<lambda>n. n\<lparr> nr_status := N_WAITING,
                    nr_waiting_reason := Some waiting_reason,
                    nr_waiting_metadata_json := waiting_metadata \<rparr>) d))) (\<lambda>d.
       Inr (trace now t NODE_WAITING (Some (''Node waiting ('' @ waiting_reason @ '')''))
              ((''reason'', JStr waiting_reason) # waiting_metadata) d, True))))"

definition schedule_retry ::
  "time \<Rightarrow> string \<Rightarrow> string \<Rightarrow> string \<Rightarrow> int \<Rightarrow> db \<Rightarrow> (exn + bool) \<times> db" where
  "schedule_retry now task_id worker_id lease_token backoff_seconds d =
     fenced now task_id worker_id lease_token d (\<lambda>t.
       ebind (transition_execution_task (t_status t) T_RETRY_WAIT) (\<lambda>_.
       ebind (node_status (t_node_run_id t) N_RETRYING True
         (upd_task task_id (\<lambda>t. drop_lease (t\<lparr> t_status := T_RETRY_WAIT,
            t_available_at := now + timedelta backoff_seconds \<rparr>)) d)) (\<lambda>d.
       Inr (trace now t NODE_RETRYING (Some (''Node retrying in '' @ str_int backoff_seconds @ ''s''))
              [(''attempt'', JInt (int (t_attempt t))), (''backoff_seconds'', JInt backoff_seconds)] d, True))))"

definition renew_lease ::
  "int \<Rightarrow> time \<Rightarrow> string \<Rightarrow> string \<Rightarrow> string \<Rightarrow> db \<Rightarrow> (exn + bool) \<times> db" where
  "renew_lease lease_seconds now task_id worker_id lease_token d =
     fenced now task_id worker_id lease_token d (\<lambda>t.
       Inr (upd_task task_id (\<lambda>t. t\<lparr> t_lease_expires_at := Some (now + timedelta lease_seconds) \<rparr>) d, True))"

section \<open>Cancellation, recovery, retries\<close>

definition cancel :: "time \<Rightarrow> string \<Rightarrow> db \<Rightarrow> (exn + bool) \<times> db" where
  "cancel now task_id d =
     transact d
       (case get_task task_id d of None \<Rightarrow> Inr (d, False)
        | Some t \<Rightarrow>
          if is_execution_task_terminal (t_status t) then Inr (d, False)
          else
            ebind (transition_execution_task (t_status t) T_CANCELLED) (\<lambda>_.
            ebind (node_cancelled now (t_node_run_id t)
              (upd_task task_id (\<lambda>t. t\<lparr> t_status := T_CANCELLED, t_finished_at := Some now \<rparr>) d)) (\<lambda>d.
            Inr (trace now t NODE_CANCELLED (Some ''Node cancelled'') [] d, True))))"

definition lease_expired :: "time \<Rightarrow> execution_task \<Rightarrow> bool" where
  "lease_expired now t \<longleftrightarrow>
     t_status t \<in> {T_CLAIMED, T_RUNNING}
     \<and> (case t_lease_expires_at t of None \<Rightarrow> False | Some e \<Rightarrow> e < now)"

definition recover_task :: "db \<Rightarrow> execution_task \<Rightarrow> exn + db" where
  "recover_task d t =
     ebind (transition_execution_task (t_status t) T_PENDING)
       (\<lambda>_. Inr (upd_task (t_id t) (\<lambda>t. drop_lease (t\<lparr> t_status := T_PENDING \<rparr>)) d))"

definition recover_expired :: "time \<Rightarrow> db \<Rightarrow> (exn + nat) \<times> db" where
  "recover_expired now d =
     transact d
       (let due = filter (lease_expired now) (tasks d) in
        ebind (foldM recover_task d due) (\<lambda>d. Inr (d, length due)))"

definition retry_due :: "time \<Rightarrow> execution_task \<Rightarrow> bool" where
  "retry_due now t \<longleftrightarrow> t_status t = T_RETRY_WAIT \<and> t_available_at t \<le> now"

definition promote_task :: "time \<Rightarrow> db \<Rightarrow> execution_task \<Rightarrow> exn + db" where
  "promote_task now d t =
     ebind (transition_execution_task (t_status t) T_PENDING) (\<lambda>_.
     ebind (node_status (t_node_run_id t) N_QUEUED True
       (upd_task (t_id t) (\<lambda>t. t\<lparr> t_status := T_PENDING \<rparr>) d)) (\<lambda>d.
     Inr (trace now t NODE_QUEUED (Some ''Node requeued after retry delay'') [] d)))"

definition promote_due_retries :: "time \<Rightarrow> db \<Rightarrow> (exn + nat) \<times> db" where
  "promote_due_retries now d =
     transact d
       (let due = filter (retry_due now) (tasks d) in
        ebind (foldM (promote_task now) d due) (\<lambda>d. Inr (d, length due)))"

end
