(* ===== verification/BackendProps.thy ===== *)
theory BackendProps
  imports Backend Progress Fixtures
begin

text \<open>
  Correctness of the execution queue: every method refines \<open>progress\<close>, keeps \<open>db_inv\<close>,
  and the methods that take a lease token form an interface (locale \<open>fenced_write\<close>)
  whose laws are discharged for each of them.
\<close>

section \<open>Progress\<close>

lemma progress_node_status:
  assumes "node_status nid target s d = Inr d'"
  shows "progress d d'"
proof -
  have "progress d (upd_node nid (\<lambda>n. n\<lparr> nr_status := target \<rparr>) d)"
    if "get_node nid d = Some n" "transition_node_run (nr_status n) target = Inr ()" for n
    by (rule progress_upd_node) (use that in \<open>auto intro: node_step_status\<close>)
  then show ?thesis
    using assms by (auto simp: node_status_def outcome split: option.splits if_splits)
qed

lemma progress_node_completed:
  assumes "node_completed now nid out md refs d = Inr d'"
  shows "progress d d'"
proof (cases "get_node nid d")
  case (Some n)
  with assms have ok: "transition_node_run (nr_status n) N_COMPLETED = Inr ()"
    and d': "d' = upd_node nid (\<lambda>n. n\<lparr> nr_status := N_COMPLETED, nr_output_json := Some out,
                nr_execution_metadata_json := md, nr_artifact_refs_json := refs,
                nr_finished_at := Some now \<rparr>) d"
    by (auto simp: node_completed_def outcome)
  show ?thesis unfolding d' by (rule progress_upd_node) (use ok Some in \<open>auto intro: node_step_status\<close>)
qed (use assms in \<open>simp add: node_completed_def\<close>)

lemma progress_node_failed:
  assumes "node_failed now nid err md refs d = Inr d'"
  shows "progress d d'"
proof (cases "get_node nid d")
  case (Some n)
  have "progress d (upd_node nid (\<lambda>n. n\<lparr> nr_status := N_FAILED, nr_error_json := Some err,
                nr_execution_metadata_json := md, nr_artifact_refs_json := refs,
                nr_finished_at := Some now \<rparr>) d)" if "transition_node_run (nr_status n) N_FAILED = Inr ()"
    by (rule progress_upd_node) (use that Some in \<open>auto intro: node_step_status\<close>)
  with Some assms show ?thesis by (auto simp: node_failed_def outcome split: if_splits)
qed (use assms in \<open>simp add: node_failed_def\<close>)

lemma progress_node_cancelled:
  assumes "node_cancelled now nid d = Inr d'"
  shows "progress d d'"
proof (cases "get_node nid d")
  case (Some n)
  have "progress d (upd_node nid (\<lambda>n. n\<lparr> nr_status := N_CANCELLED, nr_finished_at := Some now \<rparr>) d)"
    if "transition_node_run (nr_status n) N_CANCELLED = Inr ()"
    by (rule progress_upd_node) (use that Some in \<open>auto intro: node_step_status\<close>)
  with Some assms show ?thesis by (auto simp: node_cancelled_def outcome split: if_splits)
qed (use assms in \<open>simp add: node_cancelled_def\<close>)

lemma progress_trace: "progress d d' \<Longrightarrow> progress d (trace now t ty msg p d')"
  unfolding trace_def by (erule progress_trans) (rule progress_record_event)

text \<open>A task write that passes its transition check.\<close>

lemma progress_task_status:
  assumes "get_task k d = Some t" "transition_execution_task (t_status t) s = Inr ()"
    and "\<And>t. t_status (f t) = s \<and> t_id (f t) = t_id t \<and> t_workflow_run_id (f t) = t_workflow_run_id t
      \<and> t_node_run_id (f t) = t_node_run_id t \<and> t_payload_json (f t) = t_payload_json t
      \<and> t_max_attempts (f t) = t_max_attempts t \<and> t_priority (f t) = t_priority t
      \<and> t_required_capability (f t) = t_required_capability t"
    and "t_attempt t \<le> t_attempt (f t)"
  shows "progress d (upd_task k f d)"
  using assms by (intro progress_upd_task) (auto intro: task_step_status)

lemma progress_fenced:
  assumes "\<And>t d' b. get_task tid d = Some t \<Longrightarrow> owns now t w k \<Longrightarrow> body t = Inr (d', b) \<Longrightarrow> progress d d'"
  shows "progress d (snd (fenced now tid w k d body))"
  unfolding fenced_def by (rule progress_transact) (use assms in \<open>auto split: option.splits if_splits\<close>)

lemmas progress_helpers =
  progress_node_status progress_node_completed progress_node_failed progress_node_cancelled

lemma progress_claim_locked:
  assumes "claim_locked L secs now w auto tid rid d = Inr (d', c)"
  shows "progress d d'"
proof -
  let ?d1 = "snd (uuid4 L d)"
  let ?claim = "\<lambda>t. t\<lparr> t_status := T_CLAIMED, t_locked_by := Some w, t_lease_token := Some (fst (uuid4 L d)),
      t_locked_at := Some now, t_lease_expires_at := Some (now + timedelta secs) \<rparr>"
  let ?start = "\<lambda>a t. t\<lparr> t_status := T_RUNNING, t_attempt := a, t_started_at := Some now \<rparr>"
  have p1: "progress d ?d1" by (simp add: uuid4_def)
  have g1: "get_task k ?d1 = get_task k d" for k by (simp add: uuid4_def get_task_def)
  have p2: "progress ?d1 (upd_task tid ?claim ?d1)" if "get_task tid d = Some t" "t_status t = T_PENDING" for t
    by (rule progress_task_status [of _ _ t T_CLAIMED]) (use that in \<open>auto simp: g1 status_simps\<close>)
  have p3: "progress (upd_task tid ?claim ?d1) (upd_task tid (?start (Suc (t_attempt t))) (upd_task tid ?claim ?d1))"
    if "get_task tid d = Some t" "t_status t = T_PENDING" for t
    by (rule progress_task_status [of _ _ "?claim t" T_RUNNING])
      (use that in \<open>auto simp: g1 status_simps task_table.get_upd_same\<close>)
  from assms show ?thesis
    using p1 p2 p3
    by (auto simp: claim_locked_def Let_def outcome split: option.splits if_splits prod.splits
        intro!: progress_trace dest!: progress_node_status)
      (blast intro: progress_trans)+
qed

lemma progress_claim: "progress d (snd (claim L secs now w caps auto d))"
  unfolding claim_def
  by (rule progress_transact) (auto split: option.splits dest: progress_claim_locked)

lemma progress_release_or_cancel:
  assumes "release_or_cancel_for_run_state now t run d = Inr d'" "get_task (t_id t) d = Some t"
  shows "progress d d'"
proof -
  have "progress d (upd_task (t_id t) (\<lambda>t. drop_lease (t\<lparr> t_status := T_PENDING \<rparr>)) d)"
    if "transition_execution_task (t_status t) T_PENDING = Inr ()"
    using assms(2) that by (rule progress_task_status) (auto simp: drop_lease_def)
  moreover have "progress d (upd_task (t_id t) (\<lambda>t. t\<lparr> t_status := T_CANCELLED, t_finished_at := Some now \<rparr>) d)"
    if "transition_execution_task (t_status t) T_CANCELLED = Inr ()"
    using assms(2) that by (rule progress_task_status) auto
  ultimately show ?thesis
    using assms(1) by (auto simp: release_or_cancel_for_run_state_def Let_def outcome split: if_splits
        intro: progress_trans dest!: progress_node_cancelled)
qed

lemma progress_start: "progress d (snd (start now tid w k d))"
  unfolding start_def
proof (rule progress_fenced)
  fix t d' b
  assume t: "get_task tid d = Some t"
    and body: "(let run = get_run (t_workflow_run_id t) d in
      if (case run of None \<Rightarrow> True | Some r \<Rightarrow> r_status r \<noteq> W_RUNNING)
      then ebind (release_or_cancel_for_run_state now t run d) (\<lambda>d. Inr (d, False))
      else ebind (transition_execution_task (t_status t) T_RUNNING) (\<lambda>_.
        let attempt = Suc (t_attempt t) in
        ebind (node_status (t_node_run_id t) N_RUNNING True
          (upd_task tid (\<lambda>t. t\<lparr> t_status := T_RUNNING, t_attempt := attempt, t_started_at := Some now \<rparr>) d))
        (\<lambda>d. Inr (trace now t NODE_STARTED (Some (''Node started (attempt '' @ str_nat attempt @ '')''))
          [(''attempt'', JInt (int attempt))] d, True)))) = Inr (d', b)"
  have tid: "t_id t = tid" using t by (rule get_task_key)
  have "progress d (upd_task tid (\<lambda>t. t\<lparr> t_status := T_RUNNING, t_attempt := Suc (t_attempt t'),
      t_started_at := Some now \<rparr>) d)" if "transition_execution_task (t_status t) T_RUNNING = Inr ()" "t' = t" for t'
    by (rule progress_task_status [OF t that(1)]) (use that in auto)
  with body t tid show "progress d d'"
    by (auto simp: Let_def outcome split: if_splits intro!: progress_trace
        dest!: progress_node_status progress_release_or_cancel) (blast intro: progress_trans)+
qed

text \<open>The remaining fenced methods: one checked task write, one node write, one event.\<close>

lemma progress_task_then:
  assumes "progress (upd_task tid f d) d'"
    and "get_task tid d = Some t" "transition_execution_task (t_status t) s = Inr ()"
    and "\<And>t. t_status (f t) = s \<and> t_id (f t) = t_id t \<and> t_workflow_run_id (f t) = t_workflow_run_id t
      \<and> t_node_run_id (f t) = t_node_run_id t \<and> t_payload_json (f t) = t_payload_json t
      \<and> t_max_attempts (f t) = t_max_attempts t \<and> t_priority (f t) = t_priority t
      \<and> t_required_capability (f t) = t_required_capability t \<and> t_attempt (f t) = t_attempt t"
  shows "progress d d'"
  by (rule progress_trans [OF progress_task_status [OF assms(2,3)] assms(1)]) (use assms(4) in auto)

lemma progress_complete: "progress d (snd (complete now tid w k out md refs d))"
  unfolding complete_def
  by (rule progress_fenced)
    (auto simp: outcome intro!: progress_trace elim!: progress_task_then dest!: progress_node_completed)

lemma progress_fail: "progress d (snd (fail now tid w k err md refs d))"
  unfolding fail_def
  by (rule progress_fenced)
    (auto simp: outcome intro!: progress_trace elim!: progress_task_then dest!: progress_node_failed)

lemma progress_schedule_retry: "progress d (snd (schedule_retry now tid w k secs d))"
  unfolding schedule_retry_def
  by (rule progress_fenced)
    (auto simp: outcome drop_lease_def intro!: progress_trace elim!: progress_task_then dest!: progress_node_status)

lemma progress_cancel: "progress d (snd (cancel now tid d))"
  unfolding cancel_def
  by (rule progress_transact)
    (auto simp: outcome intro!: progress_trace elim!: progress_task_then dest!: progress_node_cancelled
      split: option.splits if_splits)

lemma progress_wait_node: "progress d (snd (wait_node now tid w k reason md d))"
  unfolding wait_node_def
proof (rule progress_fenced)
  fix t d' b
  let ?f = "\<lambda>t. t\<lparr> t_status := T_COMPLETED, t_finished_at := Some now \<rparr>"
  let ?g = "\<lambda>n. n\<lparr> nr_status := N_WAITING, nr_waiting_reason := Some reason, nr_waiting_metadata_json := md \<rparr>"
  assume t: "get_task tid d = Some t" and "ebind (transition_execution_task (t_status t) T_COMPLETED) (\<lambda>_.
       let d = upd_task tid ?f d in
       ebind (case get_node (t_node_run_id t) d of None \<Rightarrow> Inr d
              | Some n \<Rightarrow> ebind (transition_node_run (nr_status n) N_WAITING) (\<lambda>_.
                  Inr (upd_node (t_node_run_id t) ?g d))) (\<lambda>d.
       Inr (trace now t NODE_WAITING (Some (''Node waiting ('' @ reason @ '')''))
              ((''reason'', JStr reason) # md) d, True))) = Inr (d', b)"
  moreover have "progress (upd_task tid ?f d) (upd_node (t_node_run_id t) ?g (upd_task tid ?f d))"
    if "get_node (t_node_run_id t) (upd_task tid ?f d) = Some n" "transition_node_run (nr_status n) N_WAITING = Inr ()" for n
    by (rule progress_upd_node) (use that in \<open>auto intro: node_step_status\<close>)
  moreover have "progress d (upd_task tid ?f d)" if "transition_execution_task (t_status t) T_COMPLETED = Inr ()"
    by (rule progress_task_status [OF t that]) auto
  ultimately show "progress d d'"
    by (auto simp: Let_def outcome split: option.splits intro!: progress_trace) (blast intro: progress_trans)+
qed

lemma progress_renew_lease: "progress d (snd (renew_lease secs now tid w k d))"
  unfolding renew_lease_def
proof (rule progress_fenced)
  fix t d' b
  assume "get_task tid d = Some t" "owns now t w k"
    and "Inr (upd_task tid (\<lambda>t. t\<lparr> t_lease_expires_at := Some (now + timedelta secs) \<rparr>) d, True) = Inr (d', b)"
  then show "progress d d'"
    by (auto intro!: progress_upd_task simp: task_step_def task_fsm.history.refl owns_def)
qed

lemma progress_submit: "progress d (snd (submit L now rid nid payload prio maxa avail d))"
  unfolding submit_def
  by (rule progress_transact) (auto simp: uuid4_def Let_def intro!: progress_same_rows [of _ _ "[]" "[]" "[]" "[]"])

section \<open>The interface of a fenced write\<close>

definition stale :: "time \<Rightarrow> string \<Rightarrow> string \<Rightarrow> string \<Rightarrow> db \<Rightarrow> bool" where
  "stale now tid w k d \<longleftrightarrow> (case get_task tid d of None \<Rightarrow> True | Some t \<Rightarrow> \<not> owns now t w k)"

lemma fenced_stale: "stale now tid w k d \<Longrightarrow> new_tasks d = [] \<Longrightarrow> fenced now tid w k d body = (Inr False, d)"
  by (auto simp: stale_def fenced_def transact_no_new split: option.splits)

lemma fenced_owned:
  "get_task tid d = Some t \<Longrightarrow> owns now t w k \<Longrightarrow> fenced now tid w k d body = transact d (body t)"
  by (simp add: fenced_def)

text \<open>Under the invariant the owner of a lease holds a claimed or running task.\<close>

lemma owned_live:
  assumes "db_inv L d" "get_task tid d = Some t" "owns now t w k"
  shows "t_status t = T_CLAIMED \<or> t_status t = T_RUNNING"
proof -
  have "leased t" using assms(1,2) by (auto simp: db_inv_def leases_ok_def)
  with assms(3) show ?thesis
    by (cases "t_status t") (auto simp: leased_def owns_def status_simps)
qed

section \<open>Preservation of the invariant\<close>

lemma db_inv_transact:
  assumes "db_inv L d" and "\<And>d' x. body = Inr (d', x) \<Longrightarrow> db_inv L d'"
  shows "db_inv L (snd (transact d body))"
proof (cases body)
  case (Inr p)
  then obtain d' x where p: "body = Inr (d', x)" by (cases p) auto
  from assms(2) [OF p] have "db_inv L d'" .
  then show ?thesis by (simp add: p transact_no_new db_inv_def)
qed (use assms(1) in \<open>simp add: transact_Inl\<close>)

lemma db_inv_fenced:
  assumes "db_inv L d"
    and "\<And>t d' b. get_task tid d = Some t \<Longrightarrow> owns now t w k \<Longrightarrow> body t = Inr (d', b) \<Longrightarrow> db_inv L d'"
  shows "db_inv L (snd (fenced now tid w k d body))"
  unfolding fenced_def
  by (rule db_inv_transact [OF assms(1)]) (use assms in \<open>auto split: option.splits if_splits\<close>)

text \<open>What each node helper writes, as one update of the node row.\<close>

definition writes :: "node_run \<Rightarrow> node_run_status \<Rightarrow> string \<Rightarrow> db \<Rightarrow> db \<Rightarrow> bool" where
  "writes n s nid d d' \<longleftrightarrow> (\<exists>g. node_frame g \<and> nr_status (g n) = s \<and> d' = upd_node nid g d)"

lemma writes_upd:
  "node_frame g \<Longrightarrow> nr_status (g n) = s \<Longrightarrow> writes n s nid d (upd_node nid g d)"
  by (auto simp: writes_def)

lemma node_status_writes:
  assumes "get_node nid d = Some n" "node_status nid s b d = Inr d'"
  shows "writes n s nid d d'"
proof (cases "nr_status n = s \<and> d' = d")
  case True
  then show ?thesis using writes_upd [of id n s nid d] by (simp add: node_frame_def upd_node_id_unchanged)
next
  case False
  with assms have "d' = upd_node nid (\<lambda>n. n\<lparr> nr_status := s \<rparr>) d"
    by (auto simp: node_status_def outcome split: if_splits)
  then show ?thesis by (auto intro: writes_upd simp: node_frame_def)
qed

lemma node_completed_writes:
  "get_node nid d = Some n \<Longrightarrow> node_completed now nid out md refs d = Inr d' \<Longrightarrow> writes n N_COMPLETED nid d d'"
  by (auto simp: node_completed_def outcome node_frame_def intro!: writes_upd)

lemma node_failed_writes:
  "get_node nid d = Some n \<Longrightarrow> \<not> is_node_run_terminal (nr_status n) \<Longrightarrow>
   node_failed now nid err md refs d = Inr d' \<Longrightarrow> writes n N_FAILED nid d d'"
  by (auto simp: node_failed_def outcome node_frame_def intro!: writes_upd)

lemma node_cancelled_writes:
  "get_node nid d = Some n \<Longrightarrow> \<not> is_node_run_terminal (nr_status n) \<Longrightarrow>
   node_cancelled now nid d = Inr d' \<Longrightarrow> writes n N_CANCELLED nid d d'"
  by (auto simp: node_cancelled_def outcome node_frame_def intro!: writes_upd)

lemma db_inv_writes:
  assumes "writes n s (t_node_run_id t) (upd_task tid f d) d'"
    and "db_inv L d" "get_task tid d = Some t" "get_node (t_node_run_id t) d = Some n" "task_frame f"
    and "link (Some (t_status (f t))) s" "leased (f t)"
    and "\<And>t k. t_lease_token (f t) = Some k \<Longrightarrow> t_lease_token t = Some k \<or> k \<in> issued L d"
  shows "db_inv L d'"
proof -
  from assms(1) obtain g where g: "node_frame g" "nr_status (g n) = s"
    and d': "d' = upd_node (t_node_run_id t) g (upd_task tid f d)" by (auto simp: writes_def)
  show ?thesis unfolding d' by (rule db_inv_move [OF assms(2-5) g(1)]) (use assms(6-8) g(2) in auto)
qed

lemma db_inv_trace [simp]: "db_inv L (trace now t ty msg p d) = db_inv L d"
  by (simp add: trace_def)

lemma live_node_not_terminal:
  "link (Some s) n \<Longrightarrow> \<not> is_execution_task_terminal s \<Longrightarrow> \<not> is_node_run_terminal n"
  by (cases s) (auto simp: link_cases status_simps)

lemma db_inv_complete:
  assumes inv: "db_inv L d"
  shows "db_inv L (snd (complete now tid w k out md refs d))"
  unfolding complete_def
proof (rule db_inv_fenced [OF inv], goal_cases)
  case (1 t d' b)
  let ?f = "\<lambda>t. t\<lparr> t_status := T_COMPLETED, t_finished_at := Some now, t_last_error_json := None \<rparr>"
  from 1(3) obtain d1 where d1: "node_completed now (t_node_run_id t) out md refs (upd_task tid ?f d) = Inr d1"
    and d': "db_inv L d' = db_inv L d1" by (auto simp: outcome)
  obtain n where n: "get_node (t_node_run_id t) d = Some n" using task_node_link [OF inv 1(1)] .
  then have "writes n N_COMPLETED (t_node_run_id t) (upd_task tid ?f d) d1"
    using d1 by (intro node_completed_writes) (auto simp: rows)
  then show ?case
    unfolding d' by (rule db_inv_writes [OF _ inv 1(1) n]) (auto simp: task_frame_def leased_def)
qed

lemma db_inv_fail:
  assumes inv: "db_inv L d"
  shows "db_inv L (snd (fail now tid w k err md refs d))"
  unfolding fail_def
proof (rule db_inv_fenced [OF inv], goal_cases)
  case (1 t d' b)
  let ?f = "\<lambda>t. t\<lparr> t_status := T_FAILED, t_finished_at := Some now, t_last_error_json := Some err \<rparr>"
  from 1(3) obtain d1 where d1: "node_failed now (t_node_run_id t) err md refs (upd_task tid ?f d) = Inr d1"
    and d': "db_inv L d' = db_inv L d1" by (auto simp: outcome)
  obtain n where n: "get_node (t_node_run_id t) d = Some n" "link (Some (t_status t)) (nr_status n)"
    using task_node_link [OF inv 1(1)] .
  with 1(2) have "\<not> is_node_run_terminal (nr_status n)"
    by (auto simp: owns_def dest: live_node_not_terminal)
  then have "writes n N_FAILED (t_node_run_id t) (upd_task tid ?f d) d1"
    using d1 n(1) by (intro node_failed_writes) (auto simp: rows)
  then show ?case
    unfolding d' by (rule db_inv_writes [OF _ inv 1(1) n(1)]) (auto simp: task_frame_def leased_def)
qed

lemma db_inv_schedule_retry:
  assumes inv: "db_inv L d"
  shows "db_inv L (snd (schedule_retry now tid w k secs d))"
  unfolding schedule_retry_def
proof (rule db_inv_fenced [OF inv], goal_cases)
  case (1 t d' b)
  let ?f = "\<lambda>t. drop_lease (t\<lparr> t_status := T_RETRY_WAIT, t_available_at := now + timedelta secs \<rparr>)"
  from 1(3) obtain d1 where d1: "node_status (t_node_run_id t) N_RETRYING True (upd_task tid ?f d) = Inr d1"
    and d': "db_inv L d' = db_inv L d1" by (auto simp: outcome)
  obtain n where n: "get_node (t_node_run_id t) d = Some n" using task_node_link [OF inv 1(1)] .
  then have "writes n N_RETRYING (t_node_run_id t) (upd_task tid ?f d) d1"
    using d1 by (intro node_status_writes) (auto simp: rows)
  then show ?case
    unfolding d' by (rule db_inv_writes [OF _ inv 1(1) n]) (auto simp: task_frame_def leased_def drop_lease_def)
qed

lemma db_inv_wait_node:
  assumes inv: "db_inv L d"
  shows "db_inv L (snd (wait_node now tid w k reason md d))"
  unfolding wait_node_def
proof (rule db_inv_fenced [OF inv], goal_cases)
  case (1 t d' b)
  let ?f = "\<lambda>t. t\<lparr> t_status := T_COMPLETED, t_finished_at := Some now \<rparr>"
  let ?g = "\<lambda>n. n\<lparr> nr_status := N_WAITING, nr_waiting_reason := Some reason, nr_waiting_metadata_json := md \<rparr>"
  obtain n where n: "get_node (t_node_run_id t) d = Some n" using task_node_link [OF inv 1(1)] .
  with 1(3) have d': "db_inv L d' = db_inv L (upd_node (t_node_run_id t) ?g (upd_task tid ?f d))"
    by (auto simp: outcome Let_def rows)
  show ?case
    unfolding d'
    by (rule db_inv_writes [OF _ inv 1(1) n, of N_WAITING])
      (auto simp: task_frame_def leased_def node_frame_def intro: writes_upd)
qed

lemma db_inv_renew_lease:
  assumes inv: "db_inv L d"
  shows "db_inv L (snd (renew_lease secs now tid w k d))"
  unfolding renew_lease_def
proof (rule db_inv_fenced [OF inv], goal_cases)
  case (1 t d' b)
  have "leased t" using inv 1(1) by (auto simp: db_inv_def leases_ok_def)
  with 1 owned_live [OF inv 1(1,2)] show ?case
    by (auto intro!: db_inv_upd_task [OF inv 1(1)] simp: task_frame_def leased_def)
qed

lemma db_inv_release_or_cancel:
  assumes inv: "db_inv L d" and t: "get_task (t_id t) d = Some t"
    and res: "release_or_cancel_for_run_state now t run d = Inr d'" and live: "\<not> is_execution_task_terminal (t_status t)"
    "t_status t \<noteq> T_RETRY_WAIT"
  shows "db_inv L d'"
proof -
  let ?f = "\<lambda>t. t\<lparr> t_status := T_CANCELLED, t_finished_at := Some now \<rparr>"
  obtain n where n: "get_node (t_node_run_id t) d = Some n" "link (Some (t_status t)) (nr_status n)"
    using task_node_link [OF inv t] .
  have "db_inv L (upd_task (t_id t) (\<lambda>t. drop_lease (t\<lparr> t_status := T_PENDING \<rparr>)) d)"
    using inv t
    by (rule db_inv_upd_task)
      (use live in \<open>cases "t_status t"; auto simp: task_frame_def leased_def drop_lease_def link_cases status_simps\<close>)+
  moreover have "db_inv L d1" if "node_cancelled now (t_node_run_id t) (upd_task (t_id t) ?f d) = Inr d1" for d1
  proof -
    have "writes n N_CANCELLED (t_node_run_id t) (upd_task (t_id t) ?f d) d1"
      using that n live by (intro node_cancelled_writes) (auto simp: rows dest: live_node_not_terminal)
    then show ?thesis by (rule db_inv_writes [OF _ inv t n(1)]) (auto simp: task_frame_def leased_def)
  qed
  ultimately show ?thesis
    using res by (auto simp: release_or_cancel_for_run_state_def Let_def outcome split: if_splits)
qed

lemma db_inv_start:
  assumes inv: "db_inv L d"
  shows "db_inv L (snd (start now tid w k d))"
  unfolding start_def
proof (rule db_inv_fenced [OF inv], goal_cases)
  case (1 t d' b)
  let ?f = "\<lambda>ta. ta\<lparr> t_status := T_RUNNING, t_attempt := Suc (t_attempt t), t_started_at := Some now \<rparr>"
  have live: "t_status t = T_CLAIMED \<or> t_status t = T_RUNNING" using owned_live [OF inv 1(1,2)] .
  have tid: "t_id t = tid" using 1(1) by (rule get_task_key)
  obtain n where n: "get_node (t_node_run_id t) d = Some n" using task_node_link [OF inv 1(1)] .
  have lt: "leased t" using inv 1(1) by (auto simp: db_inv_def leases_ok_def)
  have "db_inv L d1" if "node_status (t_node_run_id t) N_RUNNING True (upd_task tid ?f d) = Inr d1" for d1
  proof -
    have "writes n N_RUNNING (t_node_run_id t) (upd_task tid ?f d) d1"
      using that n by (intro node_status_writes) (auto simp: rows)
    then show ?thesis
      by (rule db_inv_writes [OF _ inv 1(1) n]) (use lt live in \<open>auto simp: task_frame_def leased_def\<close>)
  qed
  moreover have "db_inv L d1" if "release_or_cancel_for_run_state now t run d = Inr d1" for run d1
    using inv _ that by (rule db_inv_release_or_cancel) (use 1(1) tid live in \<open>auto simp: status_simps\<close>)
  ultimately show ?case using 1(3) by (auto simp: Let_def outcome split: if_splits)
qed

lemma db_inv_claim_locked:
  assumes inv: "db_inv L d" and res: "claim_locked L secs now w auto tid rid d = Inr (d', c)"
  shows "db_inv L d'"
proof -
  let ?d1 = "snd (uuid4 L d)"
  let ?claim = "\<lambda>t. t\<lparr> t_status := T_CLAIMED, t_locked_by := Some w, t_lease_token := Some (fst (uuid4 L d)),
      t_locked_at := Some now, t_lease_expires_at := Some (now + timedelta secs) \<rparr>"
  let ?start = "\<lambda>a t. t\<lparr> t_status := T_RUNNING, t_attempt := a, t_started_at := Some now \<rparr>"
  have inv1: "db_inv L ?d1" using inv by (rule db_inv_uuid)
  have inv2: "db_inv L (upd_task tid ?claim ?d1)" if "get_task tid d = Some t" "t_status t = T_PENDING" for t
    by (rule db_inv_upd_task [OF inv1, of _ t])
      (use that uuid4_issued in \<open>auto simp: uuid4_def get_task_def task_frame_def leased_def link_cases issued_def\<close>)
  have inv3: "db_inv L d1"
    if t: "get_task tid d = Some t" "t_status t = T_PENDING"
      and r: "node_status (t_node_run_id t) N_RUNNING True (upd_task tid (?start a) (upd_task tid ?claim ?d1)) = Inr d1"
    for t a d1
  proof -
    let ?d2 = "upd_task tid ?claim ?d1"
    have t2: "get_task tid ?d2 = Some (?claim t)"
      using t by (intro task_table.get_upd_same) (auto simp: uuid4_def get_task_def)
    obtain n where n: "get_node (t_node_run_id (?claim t)) ?d2 = Some n" using task_node_link [OF inv2 [OF t] t2] .
    then have "writes n N_RUNNING (t_node_run_id (?claim t)) (upd_task tid (?start a) ?d2) d1"
      using r by (intro node_status_writes) (auto simp: rows)
    then show ?thesis
      by (rule db_inv_writes [OF _ inv2 [OF t] t2 n]) (auto simp: task_frame_def leased_def)
  qed
  show ?thesis
    using res inv inv2 inv3
    by (auto simp: claim_locked_def Let_def outcome split: option.splits if_splits prod.splits)
qed

lemma db_inv_claim: "db_inv L d \<Longrightarrow> db_inv L (snd (claim L secs now w caps auto d))"
  unfolding claim_def
  by (rule db_inv_transact) (auto split: option.splits dest: db_inv_claim_locked)

lemma db_inv_cancel:
  assumes inv: "db_inv L d"
  shows "db_inv L (snd (cancel now tid d))"
  unfolding cancel_def
proof (rule db_inv_transact [OF inv], goal_cases)
  case (1 d' b)
  let ?f = "\<lambda>t. t\<lparr> t_status := T_CANCELLED, t_finished_at := Some now \<rparr>"
  show ?case
  proof (cases "\<exists>t. get_task tid d = Some t \<and> \<not> is_execution_task_terminal (t_status t)")
    case True
    then obtain t where t: "get_task tid d = Some t" and live: "\<not> is_execution_task_terminal (t_status t)" by blast
    from 1 t live obtain d1 where d1: "node_cancelled now (t_node_run_id t) (upd_task tid ?f d) = Inr d1"
      and d': "db_inv L d' = db_inv L d1" by (auto simp: outcome)
    obtain n where n: "get_node (t_node_run_id t) d = Some n" "link (Some (t_status t)) (nr_status n)"
      using task_node_link [OF inv t] .
    then have "writes n N_CANCELLED (t_node_run_id t) (upd_task tid ?f d) d1"
      using d1 live by (intro node_cancelled_writes) (auto simp: rows dest: live_node_not_terminal)
    then show ?thesis
      unfolding d' by (rule db_inv_writes [OF _ inv t n(1)]) (auto simp: task_frame_def leased_def)
  qed (use 1 inv in \<open>auto split: option.splits if_splits\<close>)
qed

section \<open>Batches: lease recovery and due retries\<close>

lemma fold_task_steps:
  assumes step: "\<And>d t. db_inv L d \<Longrightarrow> get_task (t_id t) d = Some t \<Longrightarrow> C t \<Longrightarrow>
      \<exists>d'. f d t = Inr d' \<and> db_inv L d' \<and> progress d d'
        \<and> (\<forall>k. get_task k d' = (if k = t_id t then Some (u t) else get_task k d))"
    and "db_inv L d" "distinct (map t_id xs)" "\<And>t. t \<in> set xs \<Longrightarrow> get_task (t_id t) d = Some t \<and> C t"
  shows "\<exists>d'. foldM f d xs = Inr d' \<and> db_inv L d' \<and> progress d d'
    \<and> (\<forall>k. get_task k d' = (if k \<in> t_id ` set xs then map_option u (get_task k d) else get_task k d))"
  using assms(2-)
proof (induction xs arbitrary: d)
  case (Cons t xs)
  from Cons.prems(3) [of t] step [OF Cons.prems(1), of t] obtain d1 where
    d1: "f d t = Inr d1" "db_inv L d1" "progress d d1"
    "\<And>k. get_task k d1 = (if k = t_id t then Some (u t) else get_task k d)" by auto
  have t: "get_task (t_id t) d = Some t" using Cons.prems(3) by simp
  have "get_task (t_id y) d1 = Some y \<and> C y" if "y \<in> set xs" for y
  proof -
    have "t_id y \<in> t_id ` set xs" using that by (rule imageI)
    then have "t_id y \<noteq> t_id t" using Cons.prems(2) by auto
    with d1(4) [of "t_id y"] Cons.prems(3) [of y] that show ?thesis by simp
  qed
  then obtain d2 where d2: "foldM f d1 xs = Inr d2" "db_inv L d2" "progress d1 d2"
    "\<And>k. get_task k d2 = (if k \<in> t_id ` set xs then map_option u (get_task k d1) else get_task k d1)"
    using Cons.IH [OF d1(2)] Cons.prems(2) by auto
  have "get_task k d2 = (if k \<in> t_id ` set (t # xs) then map_option u (get_task k d) else get_task k d)" for k
    using d2(4) [of k] d1(4) [of k] Cons.prems(2) t by (cases "k = t_id t") simp_all
  with d1 d2 show ?case by (auto intro: progress_trans)
qed simp

definition recovered :: "execution_task \<Rightarrow> execution_task" where
  "recovered t = drop_lease (t\<lparr> t_status := T_PENDING \<rparr>)"

lemma recover_task_step:
  assumes inv: "db_inv L d" and t: "get_task (t_id t) d = Some t" and ex: "lease_expired now t"
  shows "\<exists>d'. recover_task d t = Inr d' \<and> db_inv L d' \<and> progress d d'
    \<and> (\<forall>k. get_task k d' = (if k = t_id t then Some (recovered t) else get_task k d))"
proof -
  let ?d = "upd_task (t_id t) recovered d"
  have ok: "transition_execution_task (t_status t) T_PENDING = Inr ()"
    using ex by (auto simp: lease_expired_def status_simps)
  have "recover_task d t = Inr ?d" using ok by (simp add: recover_task_def recovered_def [abs_def])
  moreover have "db_inv L ?d"
    using inv t by (rule db_inv_upd_task)
      (use ex in \<open>auto simp: lease_expired_def task_frame_def leased_def recovered_def drop_lease_def link_cases\<close>)
  moreover have "progress d ?d"
    using t ok by (rule progress_task_status) (auto simp: recovered_def drop_lease_def)
  moreover have "get_task k ?d = (if k = t_id t then Some (recovered t) else get_task k d)" for k
    using t by (subst get_upd_task) (auto simp: task_frame_def recovered_def drop_lease_def)
  ultimately show ?thesis by blast
qed

lemma due_tasks:
  assumes "db_inv L d"
  shows "distinct (map t_id (filter P (tasks d)))"
    and "t \<in> set (filter P (tasks d)) \<Longrightarrow> get_task (t_id t) d = Some t \<and> P t"
    and "get_task k d = Some t \<Longrightarrow> k \<in> t_id ` set (filter P (tasks d)) \<longleftrightarrow> P t"
proof -
  have u: "unique_rows d" using assms by (simp add: db_inv_def)
  then show "distinct (map t_id (filter P (tasks d)))" by (simp add: unique_rows_def distinct_map_filter)
  show "t \<in> set (filter P (tasks d)) \<Longrightarrow> get_task (t_id t) d = Some t \<and> P t" using get_task_in [OF u] by auto
  assume t: "get_task k d = Some t"
  then have k: "t_id t = k" by (rule get_task_key)
  have "t' = t" if "t' \<in> set (tasks d)" "t_id t' = k" for t'
    using that t get_task_in [OF u, of t'] by simp
  moreover have "t \<in> set (tasks d)" using t k get_task_in [OF u, of t] by simp
  ultimately show "k \<in> t_id ` set (filter P (tasks d)) \<longleftrightarrow> P t" using k by force
qed

lemma fold_due_tasks:
  assumes step: "\<And>d t. db_inv L d \<Longrightarrow> get_task (t_id t) d = Some t \<Longrightarrow> C t \<Longrightarrow>
      \<exists>d'. f d t = Inr d' \<and> db_inv L d' \<and> progress d d'
        \<and> (\<forall>k. get_task k d' = (if k = t_id t then Some (u t) else get_task k d))"
    and inv: "db_inv L d"
  shows "\<exists>d'. foldM f d (filter C (tasks d)) = Inr d' \<and> db_inv L d' \<and> progress d d'
    \<and> (\<forall>k t. get_task k d = Some t \<longrightarrow> get_task k d' = Some (if C t then u t else t))"
proof -
  obtain d' where d': "foldM f d (filter C (tasks d)) = Inr d'" "db_inv L d'" "progress d d'"
    "\<And>k. get_task k d' = (if k \<in> t_id ` set (filter C (tasks d)) then map_option u (get_task k d) else get_task k d)"
    using fold_task_steps [where f = f and C = C and u = u, OF step inv due_tasks(1,2) [OF inv, where P = C]]
    by blast
  have "get_task k d' = Some (if C t then u t else t)" if "get_task k d = Some t" for k t
    using d'(4) [of k] due_tasks(3) [OF inv that, of C] that by simp
  with d' show ?thesis by blast
qed

lemma recover_expired_result:
  assumes inv: "db_inv L d"
  shows "\<exists>d'. recover_expired now d = (Inr (length (filter (lease_expired now) (tasks d))), d')
    \<and> db_inv L d' \<and> progress d d'
    \<and> (\<forall>k t. get_task k d = Some t \<longrightarrow> get_task k d' = Some (if lease_expired now t then recovered t else t))"
proof -
  obtain d' where d': "foldM recover_task d (filter (lease_expired now) (tasks d)) = Inr d'" "db_inv L d'" "progress d d'"
    "\<forall>k t. get_task k d = Some t \<longrightarrow> get_task k d' = Some (if lease_expired now t then recovered t else t)"
    using fold_due_tasks [where f = recover_task and C = "lease_expired now" and u = recovered, OF _ inv]
      recover_task_step by (metis (no_types, lifting))
  moreover have "recover_expired now d = (Inr (length (filter (lease_expired now) (tasks d))), d')"
    using d'(1,2) by (simp add: recover_expired_def Let_def transact_no_new db_inv_def)
  ultimately show ?thesis by blast
qed

lemma promote_task_step:
  assumes inv: "db_inv L d" and t: "get_task (t_id t) d = Some t" and due: "retry_due now t"
  shows "\<exists>d'. promote_task now d t = Inr d' \<and> db_inv L d' \<and> progress d d'
    \<and> (\<forall>k. get_task k d' = (if k = t_id t then Some (t\<lparr> t_status := T_PENDING \<rparr>) else get_task k d))"
proof -
  let ?f = "\<lambda>t. t\<lparr> t_status := T_PENDING \<rparr>"
  let ?g = "\<lambda>n. n\<lparr> nr_status := N_QUEUED \<rparr>"
  let ?d = "upd_node (t_node_run_id t) ?g (upd_task (t_id t) ?f d)"
  obtain n where n: "get_node (t_node_run_id t) d = Some n" "link (Some (t_status t)) (nr_status n)"
    using task_node_link [OF inv t] .
  with due have retrying: "nr_status n = N_RETRYING" by (simp add: retry_due_def link_cases)
  have ok: "transition_execution_task (t_status t) T_PENDING = Inr ()"
    using due by (simp add: retry_due_def status_simps)
  have res: "node_status (t_node_run_id t) N_QUEUED True (upd_task (t_id t) ?f d) = Inr ?d"
    using n retrying by (simp add: node_status_def rows status_simps)
  then have "promote_task now d t = Inr (trace now t NODE_QUEUED (Some ''Node requeued after retry delay'') [] ?d)"
    using ok by (simp add: promote_task_def)
  moreover have "leased (?f t)"
    using inv t due by (auto simp: db_inv_def leases_ok_def leased_def retry_due_def)
  then have "db_inv L ?d"
    by (intro db_inv_move [OF inv t n(1)]) (auto simp: task_frame_def node_frame_def)
  moreover have "progress d ?d"
    by (rule progress_trans [OF progress_task_status [OF t ok] progress_node_status [OF res]]) auto
  moreover have "get_task k ?d = (if k = t_id t then Some (?f t) else get_task k d)" for k
    using t by (auto simp: rows get_upd_task task_frame_def)
  ultimately show ?thesis by (auto simp: trace_def rows intro: progress_trans progress_record_event)
qed

lemma promote_due_retries_result:
  assumes inv: "db_inv L d"
  shows "\<exists>d'. promote_due_retries now d = (Inr (length (filter (retry_due now) (tasks d))), d')
    \<and> db_inv L d' \<and> progress d d'
    \<and> (\<forall>k t. get_task k d = Some t \<longrightarrow>
         get_task k d' = Some (if retry_due now t then t\<lparr> t_status := T_PENDING \<rparr> else t))"
proof -
  obtain d' where d': "foldM (promote_task now) d (filter (retry_due now) (tasks d)) = Inr d'" "db_inv L d'" "progress d d'"
    "\<forall>k t. get_task k d = Some t \<longrightarrow> get_task k d' = Some (if retry_due now t then t\<lparr> t_status := T_PENDING \<rparr> else t)"
    using fold_due_tasks [where f = "promote_task now" and C = "retry_due now" and u = "\<lambda>t. t\<lparr> t_status := T_PENDING \<rparr>",
        OF _ inv] promote_task_step by (metis (no_types, lifting))
  moreover have "promote_due_retries now d = (Inr (length (filter (retry_due now) (tasks d))), d')"
    using d'(1,2) by (simp add: promote_due_retries_def Let_def transact_no_new db_inv_def)
  ultimately show ?thesis by blast
qed

section \<open>The contract of a fenced write\<close>

text \<open>
  What the Worker relies on for every method that takes a lease token, whatever the
  method does: without a current lease nothing is written and the answer is \<open>False\<close>; an
  exception leaves the database as it was; otherwise the write is a legal progress.
\<close>

locale fenced_write =
  fixes op :: "time \<Rightarrow> string \<Rightarrow> string \<Rightarrow> string \<Rightarrow> db \<Rightarrow> (exn + bool) \<times> db"
  assumes fence: "stale now tid w k d \<Longrightarrow> new_tasks d = [] \<Longrightarrow> op now tid w k d = (Inr False, d)"
    and clean: "op now tid w k d = (Inl e, d') \<Longrightarrow> d' = d"
    and keeps: "db_inv L d \<Longrightarrow> db_inv L (snd (op now tid w k d))"
    and advances: "progress d (snd (op now tid w k d))"
begin

lemma terminal_node_kept:
  assumes "get_node nid d = Some n" "is_node_run_terminal (nr_status n)"
  shows "\<exists>n'. get_node nid (snd (op now tid w k d)) = Some n' \<and> node_result n' = node_result n"
  using advances [of d now tid w k] assms unfolding progress_def node_step_def by blast

lemma terminal_task_kept:
  assumes "get_task j d = Some t" "is_execution_task_terminal (t_status t)"
  shows "get_task j (snd (op now tid w k d)) = Some t"
  using advances [of d now tid w k] assms unfolding progress_def task_step_def by blast

text \<open>A worker that lost its lease may call any number of times: nothing happens.\<close>

lemma stale_calls:
  assumes "new_tasks d = []" and "\<And>now. now \<in> set nows \<Longrightarrow> stale now tid w k d"
  shows "fold (\<lambda>now d. snd (op now tid w k d)) nows d = d"
  using assms by (induction nows) (auto simp: fence)

lemma succeeds_only_for_owner:
  assumes "op now tid w k d = (Inr True, d')" "new_tasks d = []"
  obtains t where "get_task tid d = Some t" "owns now t w k"
proof (cases "stale now tid w k d")
  case True
  then show ?thesis using fence [OF True assms(2)] assms(1) by simp
qed (use that in \<open>auto simp: stale_def split: option.splits\<close>)

end

lemma fenced_clean: "fenced now tid w k d body = (Inl e, d') \<Longrightarrow> d' = d"
  by (auto simp: fenced_def transact_def split: sum.splits prod.splits)

lemma fenced_writeI:
  assumes "\<And>now tid w k d. \<exists>body. op now tid w k d = fenced now tid w k d body"
    and "\<And>L now tid w k d. db_inv L d \<Longrightarrow> db_inv L (snd (op now tid w k d))"
    and "\<And>now tid w k d. progress d (snd (op now tid w k d))"
  shows "fenced_write op"
proof
  fix now tid w k d e d'
  obtain body where body: "op now tid w k d = fenced now tid w k d body" using assms(1) by blast
  show "stale now tid w k d \<Longrightarrow> new_tasks d = [] \<Longrightarrow> op now tid w k d = (Inr False, d)"
    unfolding body by (rule fenced_stale)
  show "op now tid w k d = (Inl e, d') \<Longrightarrow> d' = d" unfolding body by (rule fenced_clean)
qed (use assms(2,3) in auto)

interpretation start: fenced_write start
  by (rule fenced_writeI) (rule exI, rule start_def, erule db_inv_start, rule progress_start)

interpretation complete: fenced_write "\<lambda>now tid w k. complete now tid w k out md refs"
  by (rule fenced_writeI) (rule exI, rule complete_def, erule db_inv_complete, rule progress_complete)

interpretation fail: fenced_write "\<lambda>now tid w k. fail now tid w k err md refs"
  by (rule fenced_writeI) (rule exI, rule fail_def, erule db_inv_fail, rule progress_fail)

interpretation wait_node: fenced_write "\<lambda>now tid w k. wait_node now tid w k reason md"
  by (rule fenced_writeI) (rule exI, rule wait_node_def, erule db_inv_wait_node, rule progress_wait_node)

interpretation schedule_retry: fenced_write "\<lambda>now tid w k. schedule_retry now tid w k secs"
  by (rule fenced_writeI) (rule exI, rule schedule_retry_def, erule db_inv_schedule_retry, rule progress_schedule_retry)

interpretation renew_lease: fenced_write "renew_lease secs"
  by (rule fenced_writeI) (rule exI, rule renew_lease_def, erule db_inv_renew_lease, rule progress_renew_lease)

section \<open>What an owner achieves\<close>

lemma running_task_node:
  assumes "db_inv L d" "get_task tid d = Some t" "t_status t = T_RUNNING"
  obtains n where "get_node (t_node_run_id t) d = Some n" "nr_status n = N_RUNNING"
  using task_node_link [OF assms(1,2)] assms(3) by (metis link_cases(3))

lemma complete_running:
  assumes inv: "db_inv L d" and t: "get_task tid d = Some t" and own: "owns now t w k" and run: "t_status t = T_RUNNING"
  shows "\<exists>d' n'. complete now tid w k out md refs d = (Inr True, d')
    \<and> get_task tid d' = Some (t\<lparr> t_status := T_COMPLETED, t_finished_at := Some now, t_last_error_json := None \<rparr>)
    \<and> get_node (t_node_run_id t) d' = Some n'
    \<and> node_result n' = (N_COMPLETED, Some out, nr_error_json n', md, refs, Some now)"
proof -
  obtain n where n: "get_node (t_node_run_id t) d = Some n" "nr_status n = N_RUNNING"
    using running_task_node [OF inv t run] .
  have nn: "new_tasks d = []" using inv by (simp add: db_inv_def)
  show ?thesis
    using n nn t run own
    by (simp add: complete_def fenced_owned node_completed_def status_simps rows transact_no_new trace_def
        upd_node_def upd_task_def record_event_def transact_def flush_def get_task_def get_node_def row_get_upd
        node_result_def)
qed

lemma fail_running:
  assumes inv: "db_inv L d" and t: "get_task tid d = Some t" and own: "owns now t w k" and run: "t_status t = T_RUNNING"
  shows "\<exists>d' n'. fail now tid w k err md refs d = (Inr True, d')
    \<and> get_task tid d' = Some (t\<lparr> t_status := T_FAILED, t_finished_at := Some now, t_last_error_json := Some err \<rparr>)
    \<and> get_node (t_node_run_id t) d' = Some n'
    \<and> node_result n' = (N_FAILED, nr_output_json n', Some err, md, refs, Some now)"
proof -
  obtain n where n: "get_node (t_node_run_id t) d = Some n" "nr_status n = N_RUNNING"
    using running_task_node [OF inv t run] .
  have nn: "new_tasks d = []" using inv by (simp add: db_inv_def)
  show ?thesis
    using n nn t run own
    by (simp add: fail_def fenced_owned node_failed_def status_simps rows trace_def
        upd_node_def upd_task_def record_event_def transact_def flush_def get_task_def get_node_def row_get_upd
        node_result_def)
qed

section \<open>Claiming\<close>

lemma candidate_None: "candidate now w caps d = None \<longleftrightarrow> (\<forall>t\<in>set (tasks d). \<not> claimable now w caps d t)"
proof -
  let ?xs = "filter (claimable now w caps d) (tasks d)"
  have "candidate now w caps d = None \<longleftrightarrow> sort_key claim_order ?xs = []"
    by (simp add: candidate_def split: list.splits)
  also have "\<dots> \<longleftrightarrow> set (sort_key claim_order ?xs) = {}" by (simp only: set_empty)
  also have "\<dots> \<longleftrightarrow> set ?xs = {}" by (simp only: set_sort)
  finally show ?thesis by (auto simp: filter_empty_conv)
qed

lemma candidate_Some:
  assumes "candidate now w caps d = Some t"
  shows "t \<in> set (tasks d)" "claimable now w caps d t"
    and "t' \<in> set (tasks d) \<Longrightarrow> claimable now w caps d t' \<Longrightarrow> claim_order t \<le> claim_order t'"
proof -
  let ?xs = "filter (claimable now w caps d) (tasks d)"
  from assms obtain ts where ts: "sort_key claim_order ?xs = t # ts"
    by (auto simp: candidate_def split: list.splits)
  then have set: "set ?xs = insert t (set ts)" by (metis list.simps(15) set_sort)
  then show "t \<in> set (tasks d)" "claimable now w caps d t" by auto
  have "sorted (map claim_order (t # ts))" unfolding ts [symmetric] by (rule sorted_sort_key)
  then show "t' \<in> set (tasks d) \<Longrightarrow> claimable now w caps d t' \<Longrightarrow> claim_order t \<le> claim_order t'"
    using set by auto
qed

definition claimed_row :: "lib \<Rightarrow> int \<Rightarrow> time \<Rightarrow> string \<Rightarrow> db \<Rightarrow> execution_task \<Rightarrow> execution_task" where
  "claimed_row L secs now w d t = t\<lparr> t_status := T_CLAIMED, t_locked_by := Some w,
     t_lease_token := Some (lib_uuid4 L (uuids d)), t_locked_at := Some now,
     t_lease_expires_at := Some (now + timedelta secs) \<rparr>"

lemma claim_locked_claims:
  assumes "get_run rid d = Some r" "r_status r = W_RUNNING" "get_task tid d = Some t" "t_status t = T_PENDING"
  shows "\<exists>d' c. claim_locked L secs now w False tid rid d = Inr (d', Some c)
    \<and> ct_id c = tid \<and> ct_lease_token c = lib_uuid4 L (uuids d)
    \<and> tasks d' = row_upd t_id tid (claimed_row L secs now w d) (tasks d)
    \<and> new_tasks d' = new_tasks d \<and> node_runs d' = node_runs d \<and> runs d' = runs d"
  using assms get_task_key [OF assms(3)]
  by (simp add: claim_locked_def uuid4_def upd_task_def claimed_row_def [abs_def] Let_def)

lemma claim_locked_guard:
  assumes "claim_locked L secs now w auto tid rid d = Inr (d', Some c)"
  shows "\<exists>r t. get_run rid d = Some r \<and> r_status r = W_RUNNING \<and> get_task tid d = Some t \<and> t_status t = T_PENDING"
  using assms by (auto simp: claim_locked_def split: option.splits if_splits)

lemma claim_result:
  assumes inv: "db_inv L d"
  shows "(\<forall>t\<in>set (tasks d). \<not> claimable now w caps d t) \<and> claim L secs now w caps False d = (Inr None, d)
    \<or> (\<exists>t c d'. t \<in> set (tasks d) \<and> claimable now w caps d t
        \<and> (\<forall>t'\<in>set (tasks d). claimable now w caps d t' \<longrightarrow> claim_order t \<le> claim_order t')
        \<and> claim L secs now w caps False d = (Inr (Some c), d') \<and> ct_id c = t_id t
        \<and> ct_lease_token c = lib_uuid4 L (uuids d)
        \<and> (\<forall>k. get_task k d' = (if k = t_id t then Some (claimed_row L secs now w d t) else get_task k d)))"
proof (cases "candidate now w caps d")
  case None
  moreover have "new_tasks d = []" using inv by (simp add: db_inv_def)
  ultimately have "claim L secs now w caps False d = (Inr None, d)" by (simp add: claim_def transact_no_new)
  with None show ?thesis by (simp add: candidate_None)
next
  case (Some t)
  note t = candidate_Some [OF Some]
  have get: "get_task (t_id t) d = Some t" using t(1) inv get_task_in by (simp add: db_inv_def)
  from t(2) obtain r where "get_run (t_workflow_run_id t) d = Some r" "r_status r = W_RUNNING" "t_status t = T_PENDING"
    by (auto simp: claimable_def split: option.splits)
  from claim_locked_claims [OF this(1,2) get this(3), of L secs now w] obtain d' c where
    c: "claim_locked L secs now w False (t_id t) (t_workflow_run_id t) d = Inr (d', Some c)"
      "ct_id c = t_id t" "ct_lease_token c = lib_uuid4 L (uuids d)"
      "tasks d' = row_upd t_id (t_id t) (claimed_row L secs now w d) (tasks d)" "new_tasks d' = new_tasks d"
    by blast
  have "claim L secs now w caps False d = (Inr (Some c), d')"
    using c inv Some by (simp add: claim_def transact_no_new db_inv_def)
  moreover have "get_task k d' = (if k = t_id t then Some (claimed_row L secs now w d t) else get_task k d)" for k
    using get unfolding get_task_def c(4) by (subst row_get_upd) (auto simp: claimed_row_def)
  ultimately show ?thesis using t c by blast
qed

text \<open>One task, one owner: a second claim of the same task finds it taken.\<close>

lemma claim_locked_exclusive:
  assumes "claim_locked L secs now w False tid rid d = Inr (d', Some c)" "db_inv L d"
  shows "claim_locked L secs' now' w' auto' tid rid' d' = Inr (d', None)"
proof -
  obtain r t where rt: "get_run rid d = Some r" "r_status r = W_RUNNING" "get_task tid d = Some t" "t_status t = T_PENDING"
    using claim_locked_guard [OF assms(1)] by blast
  from claim_locked_claims [OF this, of L secs now w] assms(1)
  have "tasks d' = row_upd t_id tid (claimed_row L secs now w d) (tasks d)" by auto
  then have "get_task tid d' = Some (claimed_row L secs now w d t)"
    using rt(3) unfolding get_task_def by (simp add: row_get_upd claimed_row_def)
  then show ?thesis by (auto simp: claim_locked_def claimed_row_def split: option.splits)
qed

section \<open>Properties of the queue\<close>

text \<open>
  C7: Claiming is exact. Either no task is claimable for this worker and nothing changes, or the
  claim takes the first claimable task in the order priority (descending), availability,
  creation, gives it to the worker under a new token for the lease duration, and leaves every other task alone.
\<close>

theorem claim_exact:
  assumes "db_inv L d"
  shows "(\<forall>t\<in>set (tasks d). \<not> claimable now w caps d t) \<and> claim L secs now w caps False d = (Inr None, d)
    \<or> (\<exists>t c d'. t \<in> set (tasks d) \<and> claimable now w caps d t
        \<and> (\<forall>t'\<in>set (tasks d). claimable now w caps d t' \<longrightarrow> claim_order t \<le> claim_order t')
        \<and> claim L secs now w caps False d = (Inr (Some c), d') \<and> ct_id c = t_id t
        \<and> ct_lease_token c = lib_uuid4 L (uuids d)
        \<and> (\<forall>k. get_task k d' = (if k = t_id t then Some (claimed_row L secs now w d t) else get_task k d)))"
  using assms by (rule claim_result)

theorem claim_exact_witness:
  "\<exists>c d'. claim demo_lib 60 5 ''v'' None False demo_db = (Inr (Some c), d') \<and> ct_id c = ''u5''
     \<and> get_task ''u5'' d' = Some (claimed_row demo_lib 60 5 ''v'' demo_db (demo_task ''u5'' ''u4'' T_PENDING None))"
proof -
  let ?t2 = "demo_task ''u2'' ''u1'' T_RUNNING (Some (''w'', ''u3'', 100))"
  let ?t5 = "demo_task ''u5'' ''u4'' T_PENDING None"
  have rows: "set (tasks demo_db) = {?t2, ?t5}" by (simp add: demo_db_def)
  have t5: "claimable 5 ''v'' None demo_db ?t5"
    by (simp add: claimable_def demo_lookups) (simp add: demo_task_def demo_run_def)
  have t2: "\<not> claimable 5 ''v'' None demo_db ?t2" by (simp add: claimable_def demo_task_def)
  have id: "t_id ?t5 = ''u5''" by (simp add: demo_task_def)
  from claim_exact [OF demo_inv, of 5 "''v''" None 60] t5 rows
  obtain t c d' where t: "t \<in> set (tasks demo_db)" "claimable 5 ''v'' None demo_db t"
    and c: "claim demo_lib 60 5 ''v'' None False demo_db = (Inr (Some c), d')" "ct_id c = t_id t"
    and row: "\<forall>k. get_task k d' = (if k = t_id t then Some (claimed_row demo_lib 60 5 ''v'' demo_db t) else get_task k demo_db)"
    by (elim disjE) blast+
  from t t2 have "t = ?t5" unfolding rows by blast
  with c row id show ?thesis by auto
qed

lemma claim_taken:
  assumes inv: "db_inv L d" and c: "claim L secs now w caps False d = (Inr (Some c), d')"
  obtains t where "get_task (ct_id c) d = Some t" "t_status t = T_PENDING"
    and "ct_lease_token c = lib_uuid4 L (uuids d)" "uuids d' = Suc (uuids d)"
    and "\<And>k. get_task k d' = (if k = ct_id c then Some (claimed_row L secs now w d t) else get_task k d)"
proof -
  from claim_result [OF inv, of now w caps secs] c obtain t where t: "t \<in> set (tasks d)" "claimable now w caps d t"
    "ct_id c = t_id t" "ct_lease_token c = lib_uuid4 L (uuids d)"
    "\<And>k. get_task k d' = (if k = t_id t then Some (claimed_row L secs now w d t) else get_task k d)"
    by auto
  have "get_task (ct_id c) d = Some t" using t inv get_task_in by (simp add: db_inv_def)
  moreover have "t_status t = T_PENDING" using t(2) by (simp add: claimable_def)
  moreover have "uuids d' = Suc (uuids d)"
    using c inv by (auto simp: claim_def claim_locked_def db_inv_def transact_def uuid4_def upd_task_def flush_def
        Let_def split: option.splits if_splits)
  ultimately show ?thesis using that t by simp
qed

text \<open>
  C8: A task has one owner. Once a worker has claimed a task, no later claim by any worker takes
  that task while the claim stands, and no later claim is given the same lease token.
\<close>

theorem claim_exclusive:
  assumes "db_inv L d" "inj (lib_uuid4 L)"
    and "claim L secs now w caps False d = (Inr (Some c), d1)"
    and "claim L secs' now' w' caps' False d1 = (Inr (Some c'), d2)"
  shows "ct_id c' \<noteq> ct_id c \<and> ct_lease_token c' \<noteq> ct_lease_token c \<and> get_task (ct_id c) d2 = get_task (ct_id c) d1"
proof -
  have inv1: "db_inv L d1" using db_inv_claim [OF assms(1), of secs now w caps False] assms(3) by simp
  from claim_taken [OF assms(1,3)] obtain t where t: "get_task (ct_id c) d1 = Some (claimed_row L secs now w d t)"
    "ct_lease_token c = lib_uuid4 L (uuids d)" "uuids d1 = Suc (uuids d)" by metis
  from claim_taken [OF inv1 assms(4)] obtain t' where t': "get_task (ct_id c') d1 = Some t'" "t_status t' = T_PENDING"
    "ct_lease_token c' = lib_uuid4 L (uuids d1)"
    "\<And>k. get_task k d2 = (if k = ct_id c' then Some (claimed_row L secs' now' w' d1 t') else get_task k d1)" by metis
  from t(1) t'(1,2) have "ct_id c' \<noteq> ct_id c" by (auto simp: claimed_row_def)
  moreover have "ct_lease_token c' \<noteq> ct_lease_token c" using t(2,3) t'(3) assms(2) by (simp add: inj_eq)
  ultimately show ?thesis using t'(4) by simp
qed

lemma demo_inj: "inj (lib_uuid4 demo_lib)"
proof (rule injI)
  fix m n assume "lib_uuid4 demo_lib m = lib_uuid4 demo_lib n"
  then have "str_nat m = str_nat n" by (simp add: demo_lib_def)
  then have "parse_nat (str_nat m) = parse_nat (str_nat n)" by simp
  then show "m = n" by (simp only: parse_str_nat option.inject)
qed

theorem claim_exclusive_witness:
  "\<exists>c d1 c' d2. claim demo_lib 60 5 ''v'' None False demo_queue = (Inr (Some c), d1)
     \<and> claim demo_lib 60 6 ''w'' None False d1 = (Inr (Some c'), d2) \<and> ct_id c' \<noteq> ct_id c"
proof -
  note eval = claim_def candidate_def claimable_def claim_order_def claim_locked_def get_run_def get_task_def
    uuid4_def upd_task_def row_get_def row_upd_def transact_def flush_def Let_def demo_queue_def demo_rows empty_db_def
  obtain c d1 where 1: "claim demo_lib 60 5 ''v'' None False demo_queue = (Inr (Some c), d1)"
    by (simp add: eval)
  moreover from 1 obtain c' d2 where 2: "claim demo_lib 60 6 ''w'' None False d1 = (Inr (Some c'), d2)"
    by (auto simp: eval)
  ultimately show ?thesis using claim_exclusive [OF demo_queue_inv demo_inj 1 2] by blast
qed

text \<open>
  C6: Fencing. A caller whose lease on a task is gone (the task is unknown, finished, held by
  another worker, under another token, or expired) changes nothing by any of the six methods that take a
  lease token, however often it calls, and is told so.
\<close>

theorem stale_caller_is_fenced:
  assumes "new_tasks d = []"
    and "\<And>t e. get_task tid d = Some t \<Longrightarrow> \<not> is_execution_task_terminal (t_status t) \<Longrightarrow> t_locked_by t = Some w \<Longrightarrow>
      t_lease_token t = Some k \<Longrightarrow> t_lease_expires_at t = Some e \<Longrightarrow> e \<le> now"
  shows "start now tid w k d = (Inr False, d)
    \<and> complete now tid w k out md refs d = (Inr False, d)
    \<and> fail now tid w k err md refs d = (Inr False, d)
    \<and> wait_node now tid w k reason md d = (Inr False, d)
    \<and> schedule_retry now tid w k secs d = (Inr False, d)
    \<and> renew_lease secs now tid w k d = (Inr False, d)"
proof -
  have "stale now tid w k d"
    using assms(2) by (auto simp: stale_def owns_def lease_active_def linorder_not_less [symmetric] split: option.splits)
  note fences = start.fence complete.fence fail.fence wait_node.fence schedule_retry.fence renew_lease.fence
  then show ?thesis using \<open>stale now tid w k d\<close> assms(1) by (intro conjI fences)
qed

theorem stale_caller_is_fenced_witness:
  "complete 101 ''u2'' ''w'' ''u3'' [] [] [] demo_db = (Inr False, demo_db)"
proof (rule stale_caller_is_fenced [THEN conjunct2, THEN conjunct1])
  show "new_tasks demo_db = []" using demo_inv by (simp add: db_inv_def)
  show "e \<le> 101" if "get_task ''u2'' demo_db = Some t" "t_lease_expires_at t = Some e" for t and e :: time
    using that by (auto simp: demo_lookups demo_task_def)
qed

text \<open>
  The owner's result is recorded. While its lease is current, the owner of a running task that
  reports success finishes the task and its Node Run with the reported output, metadata and artifact references.
\<close>

theorem owner_completes:
  assumes "db_inv L d" "get_task tid d = Some t" "owns now t w k" "t_status t = T_RUNNING"
  shows "\<exists>d' n'. complete now tid w k out md refs d = (Inr True, d')
    \<and> get_task tid d' = Some (t\<lparr> t_status := T_COMPLETED, t_finished_at := Some now, t_last_error_json := None \<rparr>)
    \<and> get_node (t_node_run_id t) d' = Some n'
    \<and> node_result n' = (N_COMPLETED, Some out, nr_error_json n', md, refs, Some now)"
  using assms by (rule complete_running)

lemma demo_owner:
  "get_task ''u2'' demo_db = Some (demo_task ''u2'' ''u1'' T_RUNNING (Some (''w'', ''u3'', 100)))"
  "owns 50 (demo_task ''u2'' ''u1'' T_RUNNING (Some (''w'', ''u3'', 100))) ''w'' ''u3''"
  "t_status (demo_task ''u2'' ''u1'' T_RUNNING (Some (''w'', ''u3'', 100))) = T_RUNNING"
  by (simp_all add: demo_lookups) (simp_all add: owns_def demo_task_def lease_active_def status_simps)

theorem owner_completes_witness:
  "\<exists>d'. complete 50 ''u2'' ''w'' ''u3'' [(''x'', JInt 1)] [] [] demo_db = (Inr True, d')"
  using owner_completes [OF demo_inv demo_owner] by blast

text \<open>
  The owner's failure is recorded: the task and its Node Run become FAILED with the reported error.
\<close>

theorem owner_fails:
  assumes "db_inv L d" "get_task tid d = Some t" "owns now t w k" "t_status t = T_RUNNING"
  shows "\<exists>d' n'. fail now tid w k err md refs d = (Inr True, d')
    \<and> get_task tid d' = Some (t\<lparr> t_status := T_FAILED, t_finished_at := Some now, t_last_error_json := Some err \<rparr>)
    \<and> get_node (t_node_run_id t) d' = Some n'
    \<and> node_result n' = (N_FAILED, nr_output_json n', Some err, md, refs, Some now)"
  using assms by (rule fail_running)

theorem owner_fails_witness:
  "\<exists>d'. fail 50 ''u2'' ''w'' ''u3'' [(''code'', JStr ''X'')] [] [] demo_db = (Inr True, d')"
  using owner_fails [OF demo_inv demo_owner] by blast

text \<open>
  C19: Recovery is exact. Every claimed or running task whose lease ran out goes back to PENDING
  without owner, token or expiry, keeping its attempt count; every other task is untouched; the count of recovered
  tasks is returned and the invariant holds again.
\<close>

theorem recover_expired_exact:
  assumes "db_inv L d"
  shows "\<exists>d'. recover_expired now d = (Inr (length (filter (lease_expired now) (tasks d))), d')
    \<and> db_inv L d' \<and> progress d d'
    \<and> (\<forall>k t. get_task k d = Some t \<longrightarrow>
        get_task k d' = Some (if lease_expired now t then drop_lease (t\<lparr> t_status := T_PENDING \<rparr>) else t))"
  using recover_expired_result [OF assms, of now] unfolding recovered_def .

theorem recover_expired_exact_witness:
  "\<exists>d'. recover_expired 101 demo_db = (Inr 1, d')
     \<and> get_task ''u2'' d' = Some (drop_lease ((demo_task ''u2'' ''u1'' T_RUNNING (Some (''w'', ''u3'', 100)))\<lparr> t_status := T_PENDING \<rparr>))"
proof -
  have "length (filter (lease_expired 101) (tasks demo_db)) = 1" by (simp add: demo_defs lease_expired_def)
  moreover have "lease_expired 101 (demo_task ''u2'' ''u1'' T_RUNNING (Some (''w'', ''u3'', 100)))"
    by (simp add: demo_task_def lease_expired_def)
  ultimately show ?thesis using recover_expired_exact [OF demo_inv, of 101] demo_owner(1) by auto
qed

text \<open>
  Retries are promoted exactly when they are due: every RETRY_WAIT task whose backoff has passed
  becomes PENDING, nothing else changes on any task, and the number of promoted tasks is returned.
\<close>

lemma promote_due_retries_exact:
  assumes "db_inv L d"
  shows "\<exists>d'. promote_due_retries now d = (Inr (length (filter (retry_due now) (tasks d))), d')
    \<and> db_inv L d' \<and> progress d d'
    \<and> (\<forall>k t. get_task k d = Some t \<longrightarrow>
         get_task k d' = Some (if retry_due now t then t\<lparr> t_status := T_PENDING \<rparr> else t))"
  using assms by (rule promote_due_retries_result)

theorem promote_due_retries_exact_witness:
  "\<exists>d'. promote_due_retries 9 demo_retry = (Inr 1, d')
     \<and> get_task ''u2'' d' = Some (demo_task ''u2'' ''u1'' T_PENDING None)"
proof -
  have "length (filter (retry_due 9) (tasks demo_retry)) = 1"
    by (simp add: demo_retry_def demo_rows empty_db_def retry_due_def)
  moreover have "get_task ''u2'' demo_retry = Some (demo_task ''u2'' ''u1'' T_RETRY_WAIT None)"
    by (simp add: demo_retry_def demo_rows empty_db_def get_task_def rows)
  moreover have "retry_due 9 (demo_task ''u2'' ''u1'' T_RETRY_WAIT None)"
    "(demo_task ''u2'' ''u1'' T_RETRY_WAIT None)\<lparr> t_status := T_PENDING \<rparr> = demo_task ''u2'' ''u1'' T_PENDING None"
    by (simp_all add: demo_task_def retry_due_def)
  ultimately show ?thesis using promote_due_retries_exact [OF demo_retry_inv, of 9] by auto
qed

end
