(* ===== verification/SchedulerProps.thy ===== *)
theory SchedulerProps
  imports Scheduler BackendProps
begin

text \<open>
  The scheduler keeps the invariant of the settled session and refines \<open>progress\<close>, on every
  path through scheduling, due waits, cancellation and reconciliation.
\<close>

section \<open>Sessions\<close>

lemma insert_task_settle: "insert_task d t = Inr d' \<Longrightarrow> d' = d\<lparr> tasks := tasks d @ [t] \<rparr>"
  by (simp add: insert_task_def split: if_splits)

lemma fold_insert_task: "foldM insert_task d ts = Inr d' \<Longrightarrow> d' = d\<lparr> tasks := tasks d @ ts \<rparr>"
proof (induction ts arbitrary: d)
  case (Cons t ts)
  then obtain d1 where "insert_task d t = Inr d1" "foldM insert_task d1 ts = Inr d'" by (auto simp: outcome)
  with Cons.IH insert_task_settle show ?case by force
qed simp

lemma flush_settle: "flush d = Inr d' \<Longrightarrow> d' = settle d"
  unfolding flush_def settle_def by (drule fold_insert_task) simp

lemma settle_frames [simp]:
  "settle (upd_node k g d) = upd_node k g (settle d)"
  "settle (upd_run k f d) = upd_run k f (settle d)"
  "settle (upd_workspace k h d) = upd_workspace k h (settle d)"
  "settle (upd_runner k i d) = upd_runner k i (settle d)"
  "settle (record_event now rid nid ty msg p d) = record_event now rid nid ty msg p (settle d)"
  "settle (d\<lparr> workspaces := ws \<rparr>) = (settle d)\<lparr> workspaces := ws \<rparr>"
  "settle (d\<lparr> uuids := u \<rparr>) = (settle d)\<lparr> uuids := u \<rparr>"
  "settle (d\<lparr> artifacts := a \<rparr>) = (settle d)\<lparr> artifacts := a \<rparr>"
  "settle (settle d) = settle d"
  by (simp_all add: settle_def upd_node_def upd_run_def upd_workspace_def upd_runner_def record_event_def)

lemma settle_fields [simp]:
  "node_runs (settle d) = node_runs d" "runs (settle d) = runs d" "new_tasks (settle d) = []"
  "tasks (settle d) = tasks d @ new_tasks d" "uuids (settle d) = uuids d" "events (settle d) = events d"
  by (simp_all add: settle_def)

lemma settle_lookups [simp]:
  "get_node k (settle d) = get_node k d" "get_run k (settle d) = get_run k d"
  "list_node_runs rid (settle d) = list_node_runs rid d"
  by (simp_all add: get_node_def get_run_def list_node_runs_def)

lemma settle_no_new: "new_tasks d = [] \<Longrightarrow> settle d = d"
  by (simp add: settle_def)

lemma db_inv_settled: "db_inv L d \<Longrightarrow> settle d = d"
  by (simp add: settle_no_new db_inv_def)

lemma session_node:
  assumes "db_inv L (settle d)" "n \<in> set (node_runs d)"
  shows "get_node (nr_id n) d = Some n"
  using assms get_node_in [of "settle d" n] by (simp add: db_inv_def)

lemma session_task:
  assumes "db_inv L (settle d)" "t \<in> set (tasks d)"
  shows "get_task (t_id t) d = Some t" "get_task (t_id t) (settle d) = Some t"
proof -
  have u: "unique_rows (settle d)" using assms(1) by (simp add: db_inv_def)
  then show "get_task (t_id t) (settle d) = Some t" using assms(2) get_task_in [OF u, of t] by simp
  from u have "distinct (map t_id (tasks d))" by (simp add: unique_rows_def)
  then show "get_task (t_id t) d = Some t" using assms(2) unfolding get_task_def by (rule row_get_distinct)
qed

lemma settle_upd_task:
  assumes "db_inv L (settle d)" "get_task tid d = Some t"
  shows "settle (upd_task tid f d) = upd_task tid f (settle d)"
proof -
  have "distinct (map t_id (tasks d @ new_tasks d))" using assms(1) by (simp add: db_inv_def unique_rows_def)
  moreover have "tid \<in> t_id ` set (tasks d)"
    using assms(2) row_get_None [of t_id tid "tasks d"] by (auto simp: get_task_def)
  ultimately have "tid \<notin> t_id ` set (new_tasks d)" by auto
  then have "row_upd t_id tid f (new_tasks d) = new_tasks d" by (rule row_upd_absent)
  then show ?thesis by (simp add: settle_def upd_task_def row_upd_append)
qed

lemma get_task_settle: "get_task k d = Some t \<Longrightarrow> get_task k (settle d) = Some t"
  by (simp add: get_task_def row_get_append)

section \<open>Changing many node rows at once\<close>

definition map_nodes :: "(node_run \<Rightarrow> node_run) \<Rightarrow> db \<Rightarrow> db" where
  "map_nodes h d = d\<lparr> node_runs := map h (node_runs d) \<rparr>"

lemma get_map_nodes:
  "(\<And>n. nr_id (h n) = nr_id n) \<Longrightarrow> get_node k (map_nodes h d) = map_option h (get_node k d)"
proof -
  assume h: "\<And>n. nr_id (h n) = nr_id n"
  have "row_get nr_id k (map h ns) = map_option h (row_get nr_id k ns)" for ns
    by (induction ns) (auto simp: h row_get_Cons)
  then show ?thesis by (simp add: map_nodes_def get_node_def)
qed

lemma map_nodes_frames:
  "get_task k (map_nodes h d) = get_task k d" "get_run k (map_nodes h d) = get_run k d"
  "get_task_by_node_run k (map_nodes h d) = get_task_by_node_run k d"
  by (simp_all add: map_nodes_def get_task_def get_run_def get_task_by_node_run_def)

lemma progress_map_nodes:
  assumes "\<And>n. n \<in> set (node_runs d) \<Longrightarrow> node_step n (h n)" and "\<And>n. nr_id (h n) = nr_id n"
  shows "progress d (map_nodes h d)"
proof -
  have "node_step n (h n)" if "get_node k d = Some n" for k n
    using assms(1) row_get_in [OF that [unfolded get_node_def]] .
  then show ?thesis
    using assms(2) by (auto simp: progress_def get_map_nodes map_nodes_frames) (simp add: map_nodes_def)
qed

lemma db_inv_map_nodes:
  assumes inv: "db_inv L d" and h: "node_frame h"
    and link: "\<And>n. n \<in> set (node_runs d) \<Longrightarrow>
      link (map_option t_status (get_task_by_node_run (nr_id n) d)) (nr_status (h n))"
  shows "db_inv L (map_nodes h d)"
proof -
  have get: "get_node k (map_nodes h d) = map_option h (get_node k d)" for k
    using h by (intro get_map_nodes) (simp add: node_frame_def)
  have "unique_rows (map_nodes h d)"
    using inv h by (simp add: db_inv_def unique_rows_def map_nodes_def node_frame_def comp_def)
  moreover have "refs_ok (map_nodes h d)"
    unfolding refs_ok_def get map_nodes_frames
  proof (intro conjI allI impI)
    fix tid t assume "get_task tid d = Some t"
    then obtain n where "get_node (t_node_run_id t) d = Some n" "nr_workflow_run_id n = t_workflow_run_id t"
      using inv unfolding db_inv_def refs_ok_def by blast
    then show "\<exists>n. map_option h (get_node (t_node_run_id t) d) = Some n \<and> nr_workflow_run_id n = t_workflow_run_id t"
      using h by (simp add: node_frame_def)
  next
    fix k m assume "map_option h (get_node k d) = Some m"
    then obtain n where n: "get_node k d = Some n" "m = h n" by (cases "get_node k d") auto
    then have "nr_workflow_run_id m = nr_workflow_run_id n" using h by (simp add: node_frame_def)
    moreover have "get_run (nr_workflow_run_id n) d \<noteq> None" using inv n(1) unfolding db_inv_def refs_ok_def by blast
    ultimately show "get_run (nr_workflow_run_id m) d \<noteq> None" by simp
  qed
  moreover have "linked (map_nodes h d)"
    unfolding linked_def
  proof (intro allI impI)
    fix k m assume "get_node k (map_nodes h d) = Some m"
    then obtain n where n: "get_node k d = Some n" "m = h n" by (auto simp: get)
    then have "n \<in> set (node_runs d)" "nr_id n = k" by (auto simp: get_node_def dest: row_get_in row_get_key)
    then show "link (map_option t_status (get_task_by_node_run k (map_nodes h d))) (nr_status m)"
      using link [of n] n by (simp add: map_nodes_frames)
  qed
  moreover have "leases_ok (map_nodes h d)" using inv by (simp add: db_inv_def leases_ok_def map_nodes_frames)
  moreover have "ids_issued L (map_nodes h d)"
    using inv h by (simp add: db_inv_def ids_issued_def map_nodes_def issued_def node_frame_def image_image)
  ultimately show ?thesis using inv by (simp add: db_inv_def map_nodes_def)
qed

lemma settle_map_nodes [simp]: "settle (map_nodes h d) = map_nodes h (settle d)"
  by (simp add: settle_def map_nodes_def)

section \<open>Skipping cut-off branches\<close>

definition skip_cut :: "time \<Rightarrow> string \<Rightarrow> string set \<Rightarrow> node_run \<Rightarrow> node_run" where
  "skip_cut now rid S n = (if nr_workflow_run_id n = rid \<and> nr_node_id n \<in> S then skip_row now n else n)"

lemma put_nodes_skips:
  assumes "distinct (map nr_id (node_runs d))"
  shows "put_nodes (skips now S (list_node_runs rid d)) d = map_nodes (skip_cut now rid S) d"
proof -
  have "(case row_get nr_id (nr_id n) (skips now S (list_node_runs rid d)) of None \<Rightarrow> n | Some n' \<Rightarrow> n') = skip_cut now rid S n"
    if n: "n \<in> set (node_runs d)" for n
  proof -
    have dist: "distinct (map nr_id (skips now S (list_node_runs rid d)))"
      using assms by (simp add: skips_def list_node_runs_def comp_def if_distrib distinct_map_filter cong: if_cong)
    show ?thesis
    proof (cases "nr_workflow_run_id n = rid")
      case True
      let ?n = "skip_cut now rid S n"
      from True n have "?n \<in> set (skips now S (list_node_runs rid d))"
        by (auto simp: skips_def list_node_runs_def skip_cut_def)
      from row_get_distinct [OF dist this] have "row_get nr_id (nr_id n) (skips now S (list_node_runs rid d)) = Some ?n"
        by (auto simp: skip_cut_def split: if_splits)
      then show ?thesis by simp
    next
      case False
      have "m = n" if "m \<in> set (node_runs d)" "nr_id m = nr_id n" for m
        using assms n that by (auto simp: distinct_map inj_on_def)
      then have "nr_id n \<notin> nr_id ` set (skips now S (list_node_runs rid d))"
        using False by (fastforce simp: skips_def list_node_runs_def split: if_splits)
      then have "row_get nr_id (nr_id n) (skips now S (list_node_runs rid d)) = None" by (rule iffD2 [OF row_get_None])
      with False show ?thesis by (simp add: skip_cut_def)
    qed
  qed
  then show ?thesis by (simp add: put_nodes_def map_nodes_def cong: map_cong)
qed

lemma list_node_runs_map:
  "(\<And>n. nr_workflow_run_id (h n) = nr_workflow_run_id n) \<Longrightarrow> list_node_runs rid (map_nodes h d) = map h (list_node_runs rid d)"
  by (simp add: list_node_runs_def map_nodes_def filter_map comp_def)

lemma run_row_status:
  assumes "db_inv L (settle d)" "n \<in> set (list_node_runs rid d)"
  shows "row_get nr_node_id (nr_node_id n) (list_node_runs rid d) = Some n"
proof -
  have "distinct (map (\<lambda>n. (nr_workflow_run_id n, nr_node_id n)) (node_runs d))"
    using assms(1) by (simp add: db_inv_def unique_rows_def)
  then have "distinct (map nr_node_id (list_node_runs rid d))"
    by (induction "node_runs d" arbitrary: d) (auto simp: list_node_runs_def distinct_map inj_on_def)
  then show ?thesis using assms(2) by (rule row_get_distinct)
qed

lemma db_inv_pending_no_task:
  assumes "db_inv L d" "get_node k d = Some n" "nr_status n = N_PENDING"
  shows "get_task_by_node_run k d = None"
  using assms unfolding db_inv_def linked_def by fastforce

lemma skip_step:
  assumes inv: "db_inv L (settle d)" and S: "\<And>k. k \<in> S \<Longrightarrow> status_of (list_node_runs rid d) k = Some N_PENDING"
  shows "db_inv L (settle (map_nodes (skip_cut now rid S) d))" and "progress d (map_nodes (skip_cut now rid S) d)"
    and "list_node_runs rid (map_nodes (skip_cut now rid S) d) = skips now S (list_node_runs rid d)"
proof -
  have pend: "nr_status n = N_PENDING" if n: "n \<in> set (node_runs d)" "nr_workflow_run_id n = rid" "nr_node_id n \<in> S" for n
  proof -
    have "n \<in> set (list_node_runs rid d)" using n by (simp add: list_node_runs_def)
    from run_row_status [OF inv this] S [OF n(3)] show ?thesis by (simp add: status_of_def)
  qed
  have frame: "node_frame (skip_cut now rid S)" by (auto simp: node_frame_def skip_cut_def)
  show "db_inv L (settle (map_nodes (skip_cut now rid S) d))"
    unfolding settle_map_nodes
  proof (rule db_inv_map_nodes [OF inv frame])
    fix n assume "n \<in> set (node_runs (settle d))"
    then have n: "n \<in> set (node_runs d)" by simp
    have get: "get_node (nr_id n) (settle d) = Some n" using session_node [OF inv n] by simp
    have l: "link (map_option t_status (get_task_by_node_run (nr_id n) (settle d))) (nr_status n)"
      using inv get by (simp add: db_inv_def linked_def)
    show "link (map_option t_status (get_task_by_node_run (nr_id n) (settle d))) (nr_status (skip_cut now rid S n))"
      using l pend [OF n] by (auto simp: skip_cut_def)
  qed
  show "progress d (map_nodes (skip_cut now rid S) d)"
  proof (rule progress_map_nodes)
    fix n assume n: "n \<in> set (node_runs d)"
    have "node_step n (skip_row now n)" if "nr_status n = N_PENDING"
      using that by (intro node_step_status) (auto simp: skip_row_def status_simps)
    with pend [OF n] show "node_step n (skip_cut now rid S n)" by (auto simp: skip_cut_def)
  qed (auto simp: skip_cut_def)
  show "list_node_runs rid (map_nodes (skip_cut now rid S) d) = skips now S (list_node_runs rid d)"
    by (subst list_node_runs_map) (auto simp: skip_cut_def skips_def list_node_runs_def)
qed

lemma skip_events_eq: "\<exists>es. skip_events now rid pend nrs d = d\<lparr> events := events d @ es \<rparr>"
  unfolding skip_events_def
proof (induction nrs arbitrary: d)
  case Nil
  show ?case by (intro exI [of _ "[]"]) simp
next
  case (Cons n nrs)
  let ?ev = "\<lambda>d. if nr_node_id n \<in> set pend \<and> nr_status n = N_SKIPPED
        then record_event now rid (Some (nr_id n)) NODE_SKIPPED
          (Some (''Node '' @ nr_node_id n @ '' skipped (inactive branch)'')) [(''node_id'', JStr (nr_node_id n))] d
        else d"
  obtain e1 where e1: "?ev d = d\<lparr> events := events d @ e1 \<rparr>"
  proof (cases "nr_node_id n \<in> set pend \<and> nr_status n = N_SKIPPED")
    case False
    then show ?thesis using that [of "[]"] by auto
  qed (use that in \<open>auto simp: record_event_def\<close>)
  from Cons [of "?ev d"] show ?case unfolding fold_Cons o_apply e1 by auto
qed

lemma progress_events: "progress d (d\<lparr> events := events d @ es \<rparr>)"
  by (rule progress_same_rows [of _ _ "[]" "[]" "[]" es]) simp_all

lemma db_inv_events [simp]: "db_inv L (d\<lparr> events := es \<rparr>) = db_inv L d"
  by (simp add: db_inv_def unique_rows_def refs_ok_def linked_def leases_ok_def ids_issued_def issued_def
      get_task_def get_node_def get_run_def get_task_by_node_run_def)

lemma settle_events [simp]: "settle (d\<lparr> events := es \<rparr>) = (settle d)\<lparr> events := es \<rparr>"
  by (simp add: settle_def)

section \<open>Queueing a ready node\<close>

text \<open>The insertion of the task of a pending node, seen from the settled state.\<close>

lemma db_inv_add_task:
  assumes inv: "db_inv L d" and inj: "inj (lib_uuid4 L)"
    and n: "get_node nid d = Some n" "nr_status n = N_PENDING"
    and t: "t_id t = lib_uuid4 L (uuids d)" "t_node_run_id t = nid" "t_workflow_run_id t = nr_workflow_run_id n"
      "t_status t = T_PENDING" "t_locked_by t = None" "t_lease_token t = None" "t_lease_expires_at t = None"
  shows "db_inv L ((upd_node nid (\<lambda>n. n\<lparr> nr_status := N_QUEUED \<rparr>) d)\<lparr> uuids := Suc (uuids d), tasks := tasks d @ [t] \<rparr>)"
    (is "db_inv L ?d")
proof -
  let ?g = "\<lambda>n. n\<lparr> nr_status := N_QUEUED \<rparr>"
  have nt: "get_task_by_node_run nid d = None" using inv n by (rule db_inv_pending_no_task)
  have fresh: "t_id t \<notin> t_id ` set (tasks d)"
    using uuid4_fresh [OF inj, of d] inv t(1) unfolding db_inv_def ids_issued_def uuid4_def by auto
  have node: "get_node k ?d = (if k = nid then map_option ?g (get_node k d) else get_node k d)" for k
    using get_upd_node [of ?g k nid d] by (simp add: node_frame_def get_node_def)
  have run: "get_run k ?d = get_run k d" for k by (simp add: get_run_def upd_node_def)
  have task: "get_task k ?d = (if k = t_id t then Some t else get_task k d)" for k
  proof -
    have "row_get t_id (t_id t) (tasks d) = None" using fresh by (rule iffD2 [OF row_get_None])
    then show ?thesis by (auto simp: get_task_def row_get_append row_get_Cons upd_node_def split: option.splits)
  qed
  have tn: "get_task_by_node_run k ?d = (if k = nid then Some t else get_task_by_node_run k d)" for k
    using nt t(2) by (auto simp: get_task_by_node_run_def row_get_append row_get_Cons split: option.splits)
  have "t_node_run_id t \<notin> t_node_run_id ` set (tasks d)"
    using nt t(2) row_get_None [of t_node_run_id nid "tasks d"] by (simp add: get_task_by_node_run_def)
  with fresh have "unique_rows ?d"
    using inv upd_node_unique [of ?g d nid] by (simp add: db_inv_def unique_rows_def upd_node_def node_frame_def)
  moreover have "refs_ok ?d"
    unfolding refs_ok_def node run task
  proof (intro conjI allI impI)
    fix tid t' assume "(if tid = t_id t then Some t else get_task tid d) = Some t'"
    then consider "t' = t" | "get_task tid d = Some t'" by (cases "tid = t_id t") simp_all
    then obtain m where "get_node (t_node_run_id t') d = Some m" "nr_workflow_run_id m = t_workflow_run_id t'"
    proof cases
      case 1
      then show ?thesis using that n t by simp
    next
      case 2
      then show ?thesis using that inv unfolding db_inv_def refs_ok_def by blast
    qed
    then show "\<exists>m. (if t_node_run_id t' = nid then map_option ?g (get_node (t_node_run_id t') d)
        else get_node (t_node_run_id t') d) = Some m \<and> nr_workflow_run_id m = t_workflow_run_id t'" by auto
  next
    fix k m assume "(if k = nid then map_option ?g (get_node k d) else get_node k d) = Some m"
    then obtain m' where m': "get_node k d = Some m'" "nr_workflow_run_id m = nr_workflow_run_id m'"
      by (cases "get_node k d"; cases "k = nid") auto
    then have "get_run (nr_workflow_run_id m') d \<noteq> None" using inv unfolding db_inv_def refs_ok_def by blast
    with m' show "get_run (nr_workflow_run_id m) d \<noteq> None" by simp
  qed
  moreover have "linked ?d"
    using inv n t(4) unfolding linked_def node tn db_inv_def by (auto split: if_splits)
  moreover have "leases_ok ?d" using inv t unfolding leases_ok_def task db_inv_def by (auto simp: leased_def split: if_splits)
  moreover have "ids_issued L ?d"
  proof -
    have "issued L d \<subseteq> issued L ?d" "t_id t \<in> issued L ?d" using t(1) by (auto simp: issued_def)
    then show ?thesis
      using inv t(6) unfolding db_inv_def ids_issued_def
      by (auto simp: upd_node_def image_row_upd)
  qed
  ultimately show ?thesis using inv by (simp add: db_inv_def upd_node_def)
qed

lemma queue_step:
  assumes inv: "db_inv L (settle d)" and inj: "inj (lib_uuid4 L)"
    and n: "get_node (nr_id nr) d = Some n" "nr_status n = N_PENDING" "nr_workflow_run_id n = rid"
    and res: "queue_node L S now node nr rid maxa payload runner cap d = Inr d'"
  shows "db_inv L (settle d') \<and> progress d d' \<and> runs d' = runs d
    \<and> node_runs d' = row_upd nr_id (nr_id nr) (\<lambda>n. n\<lparr> nr_status := N_QUEUED \<rparr>) (node_runs d)"
proof -
  let ?g = "\<lambda>n. n\<lparr> nr_status := N_QUEUED \<rparr>"
  define t where "t = new_task (lib_uuid4 L (uuids d)) rid (nr_id nr) payload (default_priority S) maxa now runner cap"
  have t: "t_id t = lib_uuid4 L (uuids d)" "t_node_run_id t = nr_id nr" "t_workflow_run_id t = rid"
      "t_status t = T_PENDING" "t_locked_by t = None" "t_lease_token t = None" "t_lease_expires_at t = None"
    by (simp_all add: t_def new_task_def)
  obtain es where d': "d' = (upd_node (nr_id nr) ?g d)\<lparr> events := events d @ es, uuids := Suc (uuids d), new_tasks := new_tasks d @ [t] \<rparr>"
    using res by (auto simp: queue_node_def outcome uuid4_def record_event_def upd_node_def t_def)
  let ?s = "(upd_node (nr_id nr) ?g (settle d))\<lparr> uuids := Suc (uuids (settle d)), tasks := tasks (settle d) @ [t] \<rparr>"
  have "db_inv L ?s"
    by (rule db_inv_add_task [OF inv inj]) (use n t in auto)
  moreover have "settle d' = ?s\<lparr> events := events d @ es \<rparr>" by (simp add: d' settle_def upd_node_def)
  moreover have "progress d (upd_node (nr_id nr) ?g d)"
    by (rule progress_upd_node) (use n in \<open>auto intro!: node_step_status simp: status_simps\<close>)
  then have "progress d d'"
    by (rule progress_trans) (rule progress_same_rows [of _ _ "[]" "[]" "[]" es], simp_all add: d' upd_node_def)
  ultimately show ?thesis by (simp add: d' upd_node_def)
qed

lemma attach_step:
  assumes inv: "db_inv L (settle d)" and res: "attach_workspace L now rid nr node payload runner d = Inr (d', p)"
  shows "db_inv L (settle d') \<and> progress d d' \<and> node_runs d' = node_runs d \<and> runs d' = runs d"
proof (cases "d' = d")
  case False
  then obtain d1 ws where
    d1: "flush (snd (uuid4 L d)) = Inr d1" and d': "d' = d1\<lparr> workspaces := ws \<rparr>"
    using res by (auto simp: attach_workspace_def create_workspace_def uuid4_def outcome Let_def
        split: json.splits if_splits)
  from flush_settle [OF d1] have s: "d1 = settle (snd (uuid4 L d))" .
  have "db_inv L (snd (uuid4 L (settle d)))" using inv by (rule db_inv_uuid)
  then have "db_inv L d1" by (simp add: s uuid4_def)
  moreover have "settle d' = d1\<lparr> workspaces := ws \<rparr>" by (simp add: d' s)
  moreover have "progress d d'"
    by (rule progress_same_rows [of _ _ "[]" "[]" "new_tasks d" "[]"]) (simp_all add: d' s uuid4_def)
  ultimately show ?thesis by (simp add: d' s uuid4_def)
qed (use inv in simp)

lemma list_node_runs_upd:
  assumes "node_frame f"
  shows "list_node_runs rid (upd_node k f d) = row_upd nr_id k f (list_node_runs rid d)"
  using assms unfolding list_node_runs_def upd_node_def row_upd_def
  by (induction "node_runs d" arbitrary: d) (auto simp: node_frame_def filter_map comp_def intro!: filter_cong)

lemma schedule_node_step:
  assumes inv: "db_inv L (settle d)" and inj: "inj (lib_uuid4 L)"
    and pend: "status_of (list_node_runs (r_id run) d) k = Some N_PENDING"
    and res: "schedule_node L S now run g (d, sub) k = Inr (d', sub')"
  shows "db_inv L (settle d') \<and> progress d d' \<and> runs d' = runs d
    \<and> (\<forall>j. j \<noteq> k \<longrightarrow> status_of (list_node_runs (r_id run) d') j = status_of (list_node_runs (r_id run) d) j)"
proof -
  let ?rid = "r_id run"
  let ?nrs = "list_node_runs ?rid d"
  obtain nr where nr: "row_get nr_node_id k ?nrs = Some nr" "nr_status nr = N_PENDING"
    using pend by (auto simp: status_of_def)
  then have mem: "nr \<in> set (node_runs d)" "nr_workflow_run_id nr = ?rid" "nr_node_id nr = k"
    by (auto simp: list_node_runs_def dest: row_get_in row_get_key)
  have get: "get_node (nr_id nr) d = Some nr" using session_node [OF inv mem(1)] .
  have others: "status_of (list_node_runs ?rid d0) j = status_of ?nrs j"
    if "node_runs d0 = row_upd nr_id (nr_id nr) f (node_runs d)" "node_frame f" "j \<noteq> k" for f d0 j
  proof -
    have "list_node_runs ?rid d0 = row_upd nr_id (nr_id nr) f ?nrs"
      using list_node_runs_upd [OF that(2), of ?rid "nr_id nr" d] that(1) by (simp add: list_node_runs_def upd_node_def)
    moreover have "nr_id r \<noteq> nr_id nr" if "row_get nr_node_id j ?nrs = Some r" for r
    proof
      assume same: "nr_id r = nr_id nr"
      have "r \<in> set (node_runs d)" using row_get_in [OF that] by (simp add: list_node_runs_def)
      then have "r = nr" using session_node [OF inv] same get by fastforce
      then show False using row_get_key [OF that] mem(3) \<open>j \<noteq> k\<close> by simp
    qed
    ultimately show ?thesis
      using that(2) by (cases "row_get nr_node_id j ?nrs") (simp_all add: status_of_def row_get_upd_other node_frame_def)
  qed
  let ?q = "\<lambda>n. n\<lparr> nr_status := N_QUEUED \<rparr>"
  have frames: "node_frame ?q" "node_frame (\<lambda>n. n\<lparr> nr_input_json := x \<rparr>)" "node_frame (\<lambda>n. ?q (n\<lparr> nr_input_json := x \<rparr>))" for x
    by (simp_all add: node_frame_def)
  have plain: ?thesis if "queue_node L S now node nr ?rid maxa payload runner cap d = Inr d'" for node maxa payload runner cap
  proof -
    from queue_step [OF inv inj get nr(2) mem(2) that] have q: "db_inv L (settle d')" "progress d d'" "runs d' = runs d"
      "node_runs d' = row_upd nr_id (nr_id nr) ?q (node_runs d)" by blast+
    with others [OF q(4) frames(1)] show ?thesis by blast
  qed
  have dispatched: ?thesis
    if a: "attach_workspace L now ?rid nr node p0 runner (upd_node (nr_id nr) (\<lambda>n. n\<lparr> nr_input_json := x \<rparr>) d) = Inr (d2, p)"
      and q: "queue_node L S now node nr ?rid maxa p runner cap d2 = Inr d'" for node p0 runner x d2 p maxa cap
  proof -
    let ?i = "\<lambda>n. n\<lparr> nr_input_json := x \<rparr>"
    let ?d1 = "upd_node (nr_id nr) ?i d"
    have l: "link (map_option t_status (get_task_by_node_run (nr_id nr) (settle d))) N_PENDING"
      using inv get nr(2) unfolding db_inv_def linked_def by fastforce
    have i1: "db_inv L (settle ?d1)"
      unfolding settle_frames by (rule db_inv_upd_node [OF inv _ frames(2)]) (use get l nr(2) in auto)
    have p1: "progress d ?d1"
      by (rule progress_upd_node) (auto simp: node_step_def node_fsm.history.refl node_result_def)
    from attach_step [OF i1 a] have i2: "db_inv L (settle d2)" "progress ?d1 d2" "node_runs d2 = node_runs ?d1" "runs d2 = runs ?d1"
      by blast+
    have g2: "get_node (nr_id nr) d2 = Some (?i nr)"
      using get get_upd_node [OF frames(2), of "nr_id nr" "nr_id nr" x d] i2(3) by (simp add: get_node_def)
    from queue_step [OF i2(1) inj g2 _ _ q] nr(2) mem(2) have q': "db_inv L (settle d')" "progress d2 d'" "runs d' = runs d2"
      "node_runs d' = row_upd nr_id (nr_id nr) ?q (node_runs d2)" by simp_all
    have rows: "node_runs d' = row_upd nr_id (nr_id nr) (\<lambda>n. ?q (?i n)) (node_runs d)"
      by (simp add: q'(4) i2(3) upd_node_def row_upd_def)
    have "progress d d'" using p1 i2(2) q'(2) by (blast intro: progress_trans)
    moreover have "runs d' = runs d" using q'(3) i2(4) by (simp add: upd_node_def)
    ultimately show ?thesis using q'(1) others [OF rows frames(3)] by blast
  qed
  have same: ?thesis if "d' = d" using that inv by simp
  show ?thesis
    using res nr same plain dispatched
    by (auto simp: schedule_node_def Let_def outcome split: option.splits if_splits prod.splits)
qed

lemma schedule_fold:
  assumes "db_inv L (settle d)" "inj (lib_uuid4 L)" "distinct ids"
    and "\<And>k. k \<in> set ids \<Longrightarrow> status_of (list_node_runs (r_id run) d) k = Some N_PENDING"
    and "foldM (schedule_node L S now run g) (d, sub) ids = Inr (d', sub')"
  shows "db_inv L (settle d') \<and> progress d d' \<and> runs d' = runs d"
  using assms
proof (induction ids arbitrary: d sub)
  case (Cons k ids)
  from Cons.prems(5) obtain d1 sub1 where 1: "schedule_node L S now run g (d, sub) k = Inr (d1, sub1)"
    and 2: "foldM (schedule_node L S now run g) (d1, sub1) ids = Inr (d', sub')" by (auto simp: outcome)
  have "status_of (list_node_runs (r_id run) d) k = Some N_PENDING" using Cons.prems(4) by simp
  from schedule_node_step [OF Cons.prems(1,2) this 1] have d1: "db_inv L (settle d1)" "progress d d1" "runs d1 = runs d"
    "\<forall>j. j \<noteq> k \<longrightarrow> status_of (list_node_runs (r_id run) d1) j = status_of (list_node_runs (r_id run) d) j" by blast+
  have "status_of (list_node_runs (r_id run) d1) j = Some N_PENDING" if "j \<in> set ids" for j
  proof -
    have "j \<noteq> k" using Cons.prems(3) that by auto
    with d1(4) Cons.prems(4) that show ?thesis by simp
  qed
  from Cons.IH [OF d1(1) Cons.prems(2) _ this 2] Cons.prems(3) d1 show ?case
    by (auto intro: progress_trans)
qed simp

lemma ready_pending: "k \<in> set (find_ready_nodes g nrs) \<Longrightarrow> status_of nrs k = Some N_PENDING"
  by (simp add: set_find_ready_nodes)

lemma distinct_find_ready_nodes: "well_formed_graph g \<Longrightarrow> distinct (find_ready_nodes g nrs)"
  by (simp add: find_ready_nodes_def Let_def well_formed_graph_def node_ids_def distinct_map_filter)

lemma schedule_ready_step:
  assumes inv: "db_inv L (settle d)" and inj: "inj (lib_uuid4 L)"
    and res: "schedule_ready_nodes L S now rid d = Inr (d', sub)"
  shows "db_inv L (settle d') \<and> progress d d' \<and> runs d' = runs d"
proof (cases "\<exists>run. get_run rid d = Some run \<and> r_status run = W_RUNNING")
  case True
  then obtain run where run: "get_run rid d = Some run" "r_status run = W_RUNNING" by blast
  have rid: "r_id run = rid" using run(1) by (rule get_run_key)
  let ?nrs = "list_node_runs rid d"
  from res run obtain g where g: "parse_workflow_graph L (r_graph_snapshot_json run) = Inr g"
    by (auto simp: schedule_ready_nodes_def outcome)
  obtain sk where mark: "mark_unreachable_condition_nodes now g ?nrs = (skips now (Collect (cut_off g ?nrs)) ?nrs, sk)"
    using mark_unreachable_result by blast
  let ?S = "Collect (cut_off g ?nrs)"
  let ?d1 = "map_nodes (skip_cut now rid ?S) d"
  have S: "\<And>k. k \<in> ?S \<Longrightarrow> status_of ?nrs k = Some N_PENDING" by (simp add: cut_off_pending)
  have d1: "db_inv L (settle ?d1)" "progress d ?d1" "list_node_runs rid ?d1 = skips now ?S ?nrs"
    by (rule skip_step [OF inv], erule S)+
  have "distinct (map nr_id (node_runs d))" using inv by (simp add: db_inv_def unique_rows_def)
  then have put: "put_nodes (skips now ?S ?nrs) d = ?d1" by (rule put_nodes_skips)
  define pend where "pend = map nr_node_id (filter (\<lambda>n. nr_status n = N_PENDING) ?nrs)"
  obtain es where es: "skip_events now rid pend (skips now ?S ?nrs) ?d1 = ?d1\<lparr> events := events ?d1 @ es \<rparr>"
    using skip_events_eq by blast
  let ?d2 = "?d1\<lparr> events := events ?d1 @ es \<rparr>"
  have i2: "db_inv L (settle ?d2)" using d1(1) by simp
  have l2: "list_node_runs rid ?d2 = skips now ?S ?nrs" using d1(3) by (simp add: list_node_runs_def)
  from res run g mark es put have "foldM (schedule_node L S now run g) (?d2, []) (find_ready_nodes g (skips now ?S ?nrs)) = Inr (d', sub)"
    by (simp add: schedule_ready_nodes_def pend_def Let_def)
  from schedule_fold [OF i2 inj _ _ this] have "db_inv L (settle d') \<and> progress ?d2 d' \<and> runs d' = runs ?d2"
    using parse_workflow_graph_Inr(3) [OF g] by (auto simp: rid l2 distinct_find_ready_nodes ready_pending)
  moreover have "progress d ?d2" using d1(2) progress_events by (blast intro: progress_trans)
  ultimately show ?thesis by (auto intro: progress_trans simp: map_nodes_def)
next
  case False
  with res have "d' = d" by (auto simp: schedule_ready_nodes_def split: option.splits if_splits)
  with inv show ?thesis by simp
qed

section \<open>Due waits and cancellation\<close>

lemma fold_node_steps:
  assumes step: "\<And>d n. db_inv L (settle d) \<Longrightarrow> get_node (nr_id n) d = Some n \<Longrightarrow> C n \<Longrightarrow>
      \<exists>d'. f d n = Inr d' \<and> db_inv L (settle d') \<and> progress d d' \<and> runs d' = runs d
        \<and> (\<forall>k. get_node k d' = (if k = nr_id n then Some (u n) else get_node k d))"
    and "db_inv L (settle d)" "distinct (map nr_id xs)" "\<And>n. n \<in> set xs \<Longrightarrow> get_node (nr_id n) d = Some n \<and> C n"
  shows "\<exists>d'. foldM f d xs = Inr d' \<and> db_inv L (settle d') \<and> progress d d' \<and> runs d' = runs d
    \<and> (\<forall>k. get_node k d' = (if k \<in> nr_id ` set xs then map_option u (get_node k d) else get_node k d))"
  using assms(2-)
proof (induction xs arbitrary: d)
  case (Cons n xs)
  have n: "get_node (nr_id n) d = Some n" "C n" using Cons.prems(3) by simp_all
  from step [OF Cons.prems(1) n] obtain d1 where d1: "f d n = Inr d1" "db_inv L (settle d1)" "progress d d1" "runs d1 = runs d"
    "\<And>k. get_node k d1 = (if k = nr_id n then Some (u n) else get_node k d)" by blast
  have "get_node (nr_id y) d1 = Some y \<and> C y" if "y \<in> set xs" for y
  proof -
    have "nr_id y \<in> nr_id ` set xs" using that by (rule imageI)
    then have "nr_id y \<noteq> nr_id n" using Cons.prems(2) by auto
    with d1(5) [of "nr_id y"] Cons.prems(3) [of y] that show ?thesis by simp
  qed
  then obtain d2 where d2: "foldM f d1 xs = Inr d2" "db_inv L (settle d2)" "progress d1 d2" "runs d2 = runs d1"
    "\<And>k. get_node k d2 = (if k \<in> nr_id ` set xs then map_option u (get_node k d1) else get_node k d1)"
    using Cons.IH [OF d1(2)] Cons.prems(2) by auto
  have "get_node k d2 = (if k \<in> nr_id ` set (n # xs) then map_option u (get_node k d) else get_node k d)" for k
    using d2(5) [of k] d1(5) [of k] Cons.prems(2) n by (cases "k = nr_id n") simp_all
  with d1 d2 show ?case by (auto intro: progress_trans)
qed simp

lemma session_node_step:
  assumes inv: "db_inv L (settle d)" and n: "get_node (nr_id n) d = Some n" and g: "node_frame g"
    and ok: "transition_node_run (nr_status n) (nr_status (g n)) = Inr ()"
    and same: "\<And>n. nr_node_type (g n) = nr_node_type n \<and> nr_node_subtype (g n) = nr_node_subtype n"
    and link: "\<And>t. link t (nr_status n) \<Longrightarrow> link t (nr_status (g n))"
  shows "db_inv L (settle (upd_node (nr_id n) g d)) \<and> progress d (upd_node (nr_id n) g d)
    \<and> (\<forall>k. get_node k (upd_node (nr_id n) g d) = (if k = nr_id n then Some (g n) else get_node k d))"
proof -
  have "link (map_option t_status (get_task_by_node_run (nr_id n) (settle d))) (nr_status n)"
    using inv n by (simp add: db_inv_def linked_def)
  then have "db_inv L (upd_node (nr_id n) g (settle d))"
    by (intro db_inv_upd_node [OF inv _ g]) (use n link in auto)
  moreover have "progress d (upd_node (nr_id n) g d)"
    by (rule progress_upd_node) (use n ok g same in \<open>auto intro: node_step_status simp: node_frame_def\<close>)
  ultimately show ?thesis using n by (simp add: get_upd_node [OF g])
qed

lemma promote_wait_step:
  assumes inv: "db_inv L (settle d)" and n: "get_node (nr_id n) d = Some n" and w: "wait_due L now n"
  shows "\<exists>d'. promote_wait now rid d n = Inr d' \<and> db_inv L (settle d') \<and> progress d d' \<and> runs d' = runs d
    \<and> (\<forall>k. get_node k d' = (if k = nr_id n then Some (n\<lparr> nr_status := N_COMPLETED,
         nr_output_json := Some (nr_waiting_metadata_json n), nr_finished_at := Some now \<rparr>) else get_node k d))"
proof -
  let ?g = "\<lambda>n. n\<lparr> nr_status := N_COMPLETED, nr_output_json := Some (nr_waiting_metadata_json n), nr_finished_at := Some now \<rparr>"
  have s: "nr_status n = N_WAITING" using w by (simp add: wait_due_def)
  have "db_inv L (settle (upd_node (nr_id n) ?g d)) \<and> progress d (upd_node (nr_id n) ?g d)
    \<and> (\<forall>k. get_node k (upd_node (nr_id n) ?g d) = (if k = nr_id n then Some (?g n) else get_node k d))"
    by (rule session_node_step [OF inv n]) (use s in \<open>auto simp: node_frame_def status_simps\<close>)
  moreover have "progress (upd_node (nr_id n) ?g d) (record_event now rid a b c e (record_event now rid a' b' c' e' (upd_node (nr_id n) ?g d)))"
    for a b c e a' b' c' e' by (rule progress_trans [OF progress_record_event progress_record_event])
  ultimately show ?thesis
    by (auto simp: promote_wait_def status_simps rows intro: progress_trans)
      (simp_all add: record_event_def upd_node_def)
qed

lemma list_node_runs_current:
  assumes "db_inv L (settle d)"
  shows "distinct (map nr_id (filter P (list_node_runs rid d)))"
    and "n \<in> set (filter P (list_node_runs rid d)) \<Longrightarrow> get_node (nr_id n) d = Some n \<and> P n"
proof -
  have "distinct (map nr_id (node_runs d))" using assms by (simp add: db_inv_def unique_rows_def)
  then show "distinct (map nr_id (filter P (list_node_runs rid d)))"
    by (simp add: list_node_runs_def distinct_map_filter)
  show "n \<in> set (filter P (list_node_runs rid d)) \<Longrightarrow> get_node (nr_id n) d = Some n \<and> P n"
    using session_node [OF assms, of n] by (auto simp: list_node_runs_def)
qed

lemma promote_due_waits_step:
  assumes inv: "db_inv L (settle d)"
  shows "\<exists>d' b. promote_due_waits L now rid d = Inr (d', b) \<and> db_inv L (settle d') \<and> progress d d' \<and> runs d' = runs d"
proof -
  let ?due = "filter (wait_due L now) (list_node_runs rid d)"
  let ?u = "\<lambda>n. n\<lparr> nr_status := N_COMPLETED, nr_output_json := Some (nr_waiting_metadata_json n), nr_finished_at := Some now \<rparr>"
  have "\<exists>d'. foldM (promote_wait now rid) d ?due = Inr d' \<and> db_inv L (settle d') \<and> progress d d' \<and> runs d' = runs d
    \<and> (\<forall>k. get_node k d' = (if k \<in> nr_id ` set ?due then map_option ?u (get_node k d) else get_node k d))"
    by (rule fold_node_steps [where C = "wait_due L now", OF promote_wait_step inv list_node_runs_current(1) [OF inv]])
      (use list_node_runs_current(2) [OF inv] in auto)
  then show ?thesis by (auto simp: promote_due_waits_def Let_def)
qed

lemma cancel_pending_step:
  assumes inv: "db_inv L (settle d)" and n: "get_node (nr_id n) d = Some n"
  shows "\<exists>d'. cancel_pending now d n = Inr d' \<and> db_inv L (settle d') \<and> progress d d' \<and> runs d' = runs d
    \<and> (\<forall>k. get_node k d' = (if k = nr_id n then Some (if nr_status n = N_PENDING
         then n\<lparr> nr_status := N_CANCELLED, nr_finished_at := Some now \<rparr> else n) else get_node k d))"
proof (cases "nr_status n = N_PENDING")
  case True
  let ?g = "\<lambda>n. n\<lparr> nr_status := N_CANCELLED, nr_finished_at := Some now \<rparr>"
  have "db_inv L (settle (upd_node (nr_id n) ?g d)) \<and> progress d (upd_node (nr_id n) ?g d)
    \<and> (\<forall>k. get_node k (upd_node (nr_id n) ?g d) = (if k = nr_id n then Some (?g n) else get_node k d))"
    by (rule session_node_step [OF inv n]) (use True in \<open>auto simp: node_frame_def status_simps\<close>)
  with True show ?thesis by (auto simp: cancel_pending_def status_simps) (simp add: upd_node_def)
qed (use inv n in \<open>auto simp: cancel_pending_def\<close>)

lemma cancel_task_step:
  assumes inv: "db_inv L (settle d)" and t: "get_task (t_id t) d = Some t"
  shows "\<exists>d'. cancel_task now rid d t = Inr d' \<and> db_inv L (settle d') \<and> progress d d' \<and> runs d' = runs d
    \<and> new_tasks d' = new_tasks d
    \<and> (\<forall>k. get_task k d' = (if k = t_id t then Some (if is_execution_task_terminal (t_status t) then t
         else t\<lparr> t_status := T_CANCELLED, t_finished_at := Some now \<rparr>) else get_task k d))"
proof (cases "is_execution_task_terminal (t_status t)")
  case False
  let ?f = "\<lambda>t. t\<lparr> t_status := T_CANCELLED, t_finished_at := Some now \<rparr>"
  let ?g = "\<lambda>n. n\<lparr> nr_status := N_CANCELLED, nr_finished_at := Some now \<rparr>"
  let ?d1 = "upd_task (t_id t) ?f d"
  let ?d2 = "upd_node (t_node_run_id t) ?g ?d1"
  have ts: "get_task (t_id t) (settle d) = Some t" using t by (rule get_task_settle)
  obtain n where n: "get_node (t_node_run_id t) d = Some n" "link (Some (t_status t)) (nr_status n)"
    using task_node_link [OF inv ts] by auto
  have live: "\<not> is_node_run_terminal (nr_status n)" using n(2) False by (rule live_node_not_terminal)
  have okt: "transition_execution_task (t_status t) T_CANCELLED = Inr ()"
    using False by (cases "t_status t") (auto simp: status_simps)
  have okn: "transition_node_run (nr_status n) N_CANCELLED = Inr ()"
    using live by (cases "nr_status n") (auto simp: status_simps)
  have "db_inv L (upd_node (t_node_run_id t) ?g (upd_task (t_id t) ?f (settle d)))"
    by (rule db_inv_move [OF inv ts]) (use n in \<open>auto simp: task_frame_def node_frame_def leased_def\<close>)
  then have i: "db_inv L (settle ?d2)" by (simp add: settle_upd_task [OF inv t])
  have p1: "progress d ?d1" by (rule progress_task_status [OF t okt]) auto
  have "progress ?d1 ?d2"
    by (rule progress_upd_node) (use n okn in \<open>auto intro: node_step_status simp: rows\<close>)
  with p1 have p: "progress d ?d2" by (rule progress_trans)
  have "cancel_task now rid d t = Inr (record_event now rid (Some (t_node_run_id t)) NODE_CANCELLED (Some ''Node cancelled'')
               [(''node_id'', dget0 (t_payload_json t) ''node_id'')] ?d2)"
    using False okt okn live n(1) by (simp add: cancel_task_def Let_def rows)
  moreover have "get_task k ?d2 = (if k = t_id t then Some (?f t) else get_task k d)" for k
    using t by (auto simp: rows get_upd_task task_frame_def)
  ultimately show ?thesis
    using i p False by (auto simp: rows intro: progress_trans progress_record_event)
      (simp_all add: record_event_def upd_node_def upd_task_def)
qed (use inv t in \<open>auto simp: cancel_task_def\<close>)

lemma cancel_tasks_fold:
  assumes "db_inv L (settle d)" "distinct (map t_id ts)" "\<And>t. t \<in> set ts \<Longrightarrow> get_task (t_id t) d = Some t"
  shows "\<exists>d'. foldM (cancel_task now rid) d ts = Inr d' \<and> db_inv L (settle d') \<and> progress d d' \<and> runs d' = runs d
    \<and> new_tasks d' = new_tasks d
    \<and> (\<forall>t\<in>set ts. \<exists>t'. get_task (t_id t) d' = Some t' \<and> is_execution_task_terminal (t_status t'))
    \<and> (\<forall>k. k \<notin> t_id ` set ts \<longrightarrow> get_task k d' = get_task k d)"
  using assms
proof (induction ts arbitrary: d)
  case (Cons t ts)
  have t: "get_task (t_id t) d = Some t" using Cons.prems(3) by simp
  from cancel_task_step [OF Cons.prems(1) t, of now rid] obtain d1 where
    d1: "cancel_task now rid d t = Inr d1" "db_inv L (settle d1)" "progress d d1" "runs d1 = runs d" "new_tasks d1 = new_tasks d"
    "\<And>k. get_task k d1 = (if k = t_id t then Some (if is_execution_task_terminal (t_status t) then t
         else t\<lparr> t_status := T_CANCELLED, t_finished_at := Some now \<rparr>) else get_task k d)" by blast
  have notin: "t_id t \<notin> t_id ` set ts" using Cons.prems(2) by auto
  have "get_task (t_id y) d1 = Some y" if "y \<in> set ts" for y
  proof -
    have "t_id y \<in> t_id ` set ts" using that by (rule imageI)
    then have "t_id y \<noteq> t_id t" using notin by metis
    with d1(6) Cons.prems(3) that show ?thesis by simp
  qed
  with Cons.IH [OF d1(2)] Cons.prems(2) obtain d2 where
    d2: "foldM (cancel_task now rid) d1 ts = Inr d2" "db_inv L (settle d2)" "progress d1 d2" "runs d2 = runs d1"
    "new_tasks d2 = new_tasks d1"
    "\<forall>t\<in>set ts. \<exists>t'. get_task (t_id t) d2 = Some t' \<and> is_execution_task_terminal (t_status t')"
    "\<forall>k. k \<notin> t_id ` set ts \<longrightarrow> get_task k d2 = get_task k d1" by auto
  have tt: "\<exists>t'. get_task (t_id t) d2 = Some t' \<and> is_execution_task_terminal (t_status t')"
    using d2(7) notin d1(6) [of "t_id t"] by (auto simp: status_simps)
  have rest: "get_task k d2 = get_task k d" if "k \<notin> t_id ` set (t # ts)" for k
    using that d2(7) d1(6) [of k] by auto
  have "foldM (cancel_task now rid) d (t # ts) = Inr d2" using d1(1) d2(1) by simp
  moreover have "progress d d2" using d1(3) d2(3) by (rule progress_trans)
  ultimately show ?case using d2 d1(4,5) tt rest by auto
qed simp

lemma cancel_pending_fold:
  assumes "db_inv L (settle d)" "distinct (map nr_id ns)" "\<And>n. n \<in> set ns \<Longrightarrow> get_node (nr_id n) d = Some n"
  shows "\<exists>d'. foldM (cancel_pending now) d ns = Inr d' \<and> db_inv L (settle d') \<and> progress d d' \<and> runs d' = runs d
    \<and> (\<forall>k. get_node k d' = (if k \<in> nr_id ` set ns then map_option (\<lambda>n. if nr_status n = N_PENDING
         then n\<lparr> nr_status := N_CANCELLED, nr_finished_at := Some now \<rparr> else n) (get_node k d) else get_node k d))"
  by (rule fold_node_steps [where C = "\<lambda>_. True", OF _ assms(1,2)])
    (use assms(3) cancel_pending_step in auto)

lemma cancel_pending_tasks:
  "foldM (cancel_pending now) d ns = Inr d' \<Longrightarrow> tasks d' = tasks d \<and> new_tasks d' = new_tasks d"
proof (induction ns arbitrary: d)
  case (Cons n ns)
  then obtain d1 where "cancel_pending now d n = Inr d1" "foldM (cancel_pending now) d1 ns = Inr d'" by (auto simp: outcome)
  moreover from this(1) have "tasks d1 = tasks d \<and> new_tasks d1 = new_tasks d"
    by (auto simp: cancel_pending_def outcome upd_node_def split: if_splits)
  ultimately show ?case using Cons.IH by simp
qed simp

lemma tasks_current:
  assumes "db_inv L (settle d)"
  shows "distinct (map t_id (list_tasks_for_run rid d))"
    and "t \<in> set (list_tasks_for_run rid d) \<Longrightarrow> get_task (t_id t) d = Some t"
proof -
  have "distinct (map t_id (tasks d))" using assms by (simp add: db_inv_def unique_rows_def)
  then show "distinct (map t_id (list_tasks_for_run rid d))" by (simp add: list_tasks_for_run_def distinct_map_filter)
  show "t \<in> set (list_tasks_for_run rid d) \<Longrightarrow> get_task (t_id t) d = Some t"
    using session_task(1) [OF assms, of t] by (simp add: list_tasks_for_run_def)
qed

text \<open>
  Cancelling the tasks of a run never raises; afterwards every task of the run that was flushed
  before the call is terminal, and no node of the run is pending.
\<close>

lemma cancel_run_tasks_step:
  assumes inv: "db_inv L (settle d)"
  shows "\<exists>d'. cancel_run_tasks now rid d = Inr d' \<and> db_inv L (settle d') \<and> progress d d' \<and> runs d' = runs d
    \<and> new_tasks d' = new_tasks d
    \<and> (\<forall>t\<in>set (list_tasks_for_run rid d). \<exists>t'. get_task (t_id t) d' = Some t' \<and> is_execution_task_terminal (t_status t'))
    \<and> (\<forall>n\<in>set (list_node_runs rid d'). nr_status n \<noteq> N_PENDING)"
proof -
  from cancel_tasks_fold [where rid = rid and now = now, OF inv tasks_current(1) [OF inv, where rid = rid]]
    tasks_current(2) [OF inv] obtain d1 where
    d1: "foldM (cancel_task now rid) d (list_tasks_for_run rid d) = Inr d1" "db_inv L (settle d1)" "progress d d1" "runs d1 = runs d"
    "new_tasks d1 = new_tasks d"
    "\<forall>t\<in>set (list_tasks_for_run rid d). \<exists>t'. get_task (t_id t) d1 = Some t' \<and> is_execution_task_terminal (t_status t')"
    by auto
  note cur = list_node_runs_current [where P = "\<lambda>_. True" and rid = rid, OF d1(2), simplified]
  from cancel_pending_fold [where now = now, OF d1(2) cur(1)] cur(2) obtain d2 where
    d2: "foldM (cancel_pending now) d1 (list_node_runs rid d1) = Inr d2" "db_inv L (settle d2)" "progress d1 d2" "runs d2 = runs d1"
    "\<And>k. get_node k d2 = (if k \<in> nr_id ` set (list_node_runs rid d1) then map_option (\<lambda>n. if nr_status n = N_PENDING
         then n\<lparr> nr_status := N_CANCELLED, nr_finished_at := Some now \<rparr> else n) (get_node k d1) else get_node k d1)"
    by auto
  have tasks: "get_task k d2 = get_task k d1" for k
    using cancel_pending_tasks [OF d2(1)] by (simp add: get_task_def)
  have "nr_status n \<noteq> N_PENDING" if n: "n \<in> set (list_node_runs rid d2)" for n
  proof
    assume pend: "nr_status n = N_PENDING"
    have g2: "get_node (nr_id n) d2 = Some n" "nr_workflow_run_id n = rid"
      using list_node_runs_current(2) [where P = "\<lambda>_. True" and rid = rid, OF d2(2)] n by (auto simp: list_node_runs_def)
    then obtain m where m: "get_node (nr_id n) d1 = Some m" using d2(5) [of "nr_id n"] by (auto split: if_splits)
    have "nr_workflow_run_id m = rid"
      using m g2 d2(3) unfolding progress_def node_step_def by fastforce
    moreover have "m \<in> set (node_runs d1)" "nr_id m = nr_id n"
      using m by (auto simp: get_node_def dest: row_get_in row_get_key)
    ultimately have "nr_id n \<in> nr_id ` set (list_node_runs rid d1)"
      by (intro image_eqI [of _ _ m]) (auto simp: list_node_runs_def)
    with d2(5) [of "nr_id n"] m g2 pend show False by (auto split: if_splits)
  qed
  then show ?thesis
    using d1 d2 cancel_pending_tasks [OF d2(1)] tasks by (auto simp: cancel_run_tasks_def intro: progress_trans)
qed

section \<open>Reconciliation\<close>

lemma progress_workflow_event: "progress d (workflow_event now rid s reason d)"
  by (cases s) (simp_all add: workflow_event_def Let_def progress_record_event)

lemma settle_workflow_event [simp]: "settle (workflow_event now rid s reason d) = workflow_event now rid s reason (settle d)"
  by (cases s) (simp_all add: workflow_event_def Let_def)

lemma db_inv_workflow_event [simp]: "db_inv L (workflow_event now rid s reason d) = db_inv L d"
  by (cases s) (simp_all add: workflow_event_def Let_def)

lemma runs_workflow_event [simp]: "runs (workflow_event now rid s reason d) = runs d"
  by (cases s) (simp_all add: workflow_event_def Let_def record_event_def)

lemma get_run_workflow_event [simp]: "get_run k (workflow_event now rid s reason d) = get_run k d"
  by (simp add: get_run_def)

lemma apply_derived_step:
  assumes inv: "db_inv L (settle d)" and run: "get_run rid d = Some run" "r_status run = current"
    and res: "apply_derived L S now rid current derived d = Inr d'"
  shows "db_inv L (settle d') \<and> progress d d' \<and> (\<exists>run'. get_run rid d' = Some run' \<and> r_status run' = derived)"
proof (cases "derived = current")
  case True
  with res inv run show ?thesis by (simp add: apply_derived_def)
next
  case False
  let ?f = "set_derived now derived"
  let ?d1 = "upd_run rid ?f d"
  from False res obtain d2 where ok: "transition_workflow_run current derived = Inr ()"
    and d2: "(if derived = W_FAILED then cancel_run_tasks now rid ?d1 else Inr ?d1) = Inr d2"
    and d': "d' = workflow_event now rid derived (waiting_reason (list_node_runs rid d2)) d2"
    by (auto simp: apply_derived_def outcome Let_def)
  have i1: "db_inv L (settle ?d1)" using inv by (simp add: db_inv_upd_run set_derived_def)
  have p1: "progress d ?d1"
    by (rule progress_upd_run) (use run ok in \<open>auto intro!: run_step_status simp: set_derived_def\<close>)
  have g1: "get_run rid ?d1 = Some (?f run)" using run by (intro run_table.get_upd_same) (auto simp: set_derived_def)
  obtain d3 where "cancel_run_tasks now rid ?d1 = Inr d3" "db_inv L (settle d3)" "progress ?d1 d3" "runs d3 = runs ?d1"
    using cancel_run_tasks_step [OF i1, of now rid] by blast
  then have "db_inv L (settle d2)" "progress ?d1 d2" "get_run rid d2 = get_run rid ?d1"
    using d2 i1 by (auto simp: get_run_def split: if_splits)
  then show ?thesis
    using p1 g1 unfolding d' by (auto intro: progress_trans progress_workflow_event simp: set_derived_def)
qed

lemma reconcile_step:
  assumes inv: "db_inv L (settle d)" and inj: "inj (lib_uuid4 L)" and res: "reconcile_run L S now rid d = Inr (d', out)"
  shows "db_inv L (settle d') \<and> progress d d'"
proof (cases "get_run rid d")
  case None
  with res inv show ?thesis by (simp add: reconcile_run_def)
next
  case (Some run)
  let ?cur = "r_status run"
  obtain dc where dc: "cancel_run_tasks now rid d = Inr dc" "db_inv L (settle dc)" "progress d dc"
    using cancel_run_tasks_step [OF inv] by blast
  show ?thesis
  proof (cases "?cur \<in> {W_CANCELLED, W_COMPLETED, W_FAILED, W_PAUSED}")
    case True
    with res Some dc inv show ?thesis by (auto simp: reconcile_run_def)
  next
    case False
    obtain d1 b where d1: "promote_due_waits L now rid d = Inr (d1, b)" "db_inv L (settle d1)" "progress d d1" "runs d1 = runs d"
      using promote_due_waits_step [OF inv] by blast
    with False res Some obtain d2 sub g d3 d4 sub2 derived where
      d2: "schedule_ready_nodes L S now rid d1 = Inr (d2, sub)" and
      d3: "apply_derived L S now rid ?cur derived d2 = Inr d3" and
      d4: "(if derived = W_RUNNING then schedule_ready_nodes L S now rid d3 else Inr (d3, [])) = Inr (d4, sub2)" and
      d': "d' = upd_run rid (\<lambda>r. r\<lparr> r_waiting_reason :=
                 (if derived = W_WAITING then waiting_reason (list_node_runs rid d4) else None) \<rparr>) d4" and
      derived: "derived = derive_workflow_state g (list_node_runs rid d2)"
      by (auto simp: reconcile_run_def outcome Let_def split: prod.splits)
    note s2 = schedule_ready_step [OF d1(2) inj d2]
    have run2: "get_run rid d2 = Some run" using Some s2 d1(4) by (simp add: get_run_def)
    note s3 = apply_derived_step [OF _ run2 refl d3]
    have s4: "db_inv L (settle d4) \<and> progress d3 d4 \<and> runs d4 = runs d3"
      using s2 s3 d4 schedule_ready_step [OF _ inj, of d3 S now rid d4 sub2] by (auto split: if_splits)
    obtain run4 where run4: "get_run rid d4 = Some run4" "r_status run4 = derived"
      using s2 s3 s4 by (auto simp: get_run_def)
    have "progress d4 d'"
      unfolding d'
      by (rule progress_upd_run) (auto simp: run_step_def run_fsm.history.refl)
    moreover have "progress d d4" using d1(3) s2 s3 s4 by (blast intro: progress_trans)
    moreover have "db_inv L (settle d')" using s4 by (simp add: d' db_inv_upd_run)
    ultimately show ?thesis by (blast intro: progress_trans)
  qed
qed

section \<open>A Tool whose configuration does not resolve\<close>

text \<open>
  A ready Tool node whose configuration holds a reference without a value is passed over: it is
  neither queued nor failed, so every later reconciliation finds it pending again.
\<close>

lemma unresolvable_tool_is_passed_over:
  assumes "row_get n_id k (g_nodes g) = Some node" "n_type node = TOOL"
    and "resolve (lib_repr L) (context_resolver L run (list_node_runs (r_id run) d)) (JObj (n_config node)) = Inl e"
  shows "schedule_node L S now run g (d, submitted) k = Inr (d, submitted)"
proof -
  have "tool_payload L run (list_node_runs (r_id run) d) node = None"
    using assms(3) by (simp add: tool_payload_def resolve_tool_config_def resolve_dict_def)
  then show ?thesis using assms(1,2) by (simp add: schedule_node_def Let_def split: option.splits prod.splits)
qed

end
