(* ===== verification/RunService.thy ===== *)
theory RunService
  imports SchedulerProps
begin

text \<open>
  The lifecycle operations of a Workflow Run (\<^verbatim>\<open>domain/runs/service.py\<close>): start, pause, resume,
  cancel, and the human actions approve, reject and submit. Operations that commit twice keep
  their first commit when the scheduling part raises. Reads return the rows themselves.
\<close>

record workflow_run_read =
  rr_run :: workflow_run
  rr_workflow_name :: "string option"
  rr_graph :: workflow_graph
  rr_node_runs :: "node_run list"

definition WORKFLOW_RUN_NOT_FOUND :: exn where
  "WORKFLOW_RUN_NOT_FOUND = RelayviaError ''WORKFLOW_RUN_NOT_FOUND'' 404"

definition NODE_RUN_NOT_FOUND :: exn where
  "NODE_RUN_NOT_FOUND = RelayviaError ''NODE_RUN_NOT_FOUND'' 404"

definition workflow_name :: "string \<Rightarrow> db \<Rightarrow> string option" where
  "workflow_name wid d = map_option wf_name (row_get wf_id wid (workflows d))"

definition to_read :: "lib \<Rightarrow> workflow_run \<Rightarrow> db \<Rightarrow> exn + workflow_run_read" where
  "to_read L run d =
     ebind (parse_workflow_graph L (r_graph_snapshot_json run)) (\<lambda>g.
       Inr \<lparr> rr_run = run, rr_workflow_name = workflow_name (r_workflow_id run) d, rr_graph = g,
             rr_node_runs = list_node_runs (r_id run) d \<rparr>)"

definition get_run_read :: "lib \<Rightarrow> string \<Rightarrow> db \<Rightarrow> exn + workflow_run_read" where
  "get_run_read L run_id d =
     (case get_run run_id d of None \<Rightarrow> Inl WORKFLOW_RUN_NOT_FOUND | Some run \<Rightarrow> to_read L run d)"

definition run_matches :: "string option \<Rightarrow> workflow_run_status option \<Rightarrow> workflow_run \<Rightarrow> bool" where
  "run_matches workflow_id status r \<longleftrightarrow>
     (case workflow_id of None \<Rightarrow> True | Some w \<Rightarrow> w = [] \<or> r_workflow_id r = w)
     \<and> (case status of None \<Rightarrow> True | Some s \<Rightarrow> r_status r = s)"

definition list_runs ::
  "string option \<Rightarrow> workflow_run_status option \<Rightarrow> nat \<Rightarrow> nat \<Rightarrow> db \<Rightarrow> (workflow_run \<times> string option) list" where
  "list_runs workflow_id status limit offset d =
     map (\<lambda>r. (r, workflow_name (r_workflow_id r) d))
       (take limit (drop offset (sort_key (\<lambda>r. - r_created_at r) (filter (run_matches workflow_id status) (runs d)))))"

definition count_runs :: "string option \<Rightarrow> workflow_run_status option \<Rightarrow> db \<Rightarrow> nat" where
  "count_runs workflow_id status d = length (filter (run_matches workflow_id status) (runs d))"

definition list_node_runs_read :: "string \<Rightarrow> db \<Rightarrow> exn + node_run list" where
  "list_node_runs_read run_id d =
     (case get_run run_id d of None \<Rightarrow> Inl WORKFLOW_RUN_NOT_FOUND | Some _ \<Rightarrow> Inr (list_node_runs run_id d))"

definition get_node_run :: "string \<Rightarrow> string \<Rightarrow> db \<Rightarrow> exn + node_run" where
  "get_node_run run_id node_run_id d =
     (case get_node node_run_id d of None \<Rightarrow> Inl NODE_RUN_NOT_FOUND
      | Some n \<Rightarrow> if nr_workflow_run_id n = run_id then Inr n else Inl NODE_RUN_NOT_FOUND)"

definition list_execution_tasks :: "string \<Rightarrow> db \<Rightarrow> exn + execution_task list" where
  "list_execution_tasks run_id d =
     (case get_run run_id d of None \<Rightarrow> Inl WORKFLOW_RUN_NOT_FOUND | Some _ \<Rightarrow> Inr (list_tasks_for_run run_id d))"

definition get_locked :: "string \<Rightarrow> db \<Rightarrow> exn + workflow_run" where
  "get_locked run_id d = (case get_run run_id d of None \<Rightarrow> Inl WORKFLOW_RUN_NOT_FOUND | Some run \<Rightarrow> Inr run)"

text \<open>\<open>db.refresh(run)\<close> and \<open>_to_read\<close> after the last commit.\<close>

definition read_back :: "lib \<Rightarrow> string \<Rightarrow> (exn + 'a) \<times> db \<Rightarrow> (exn + workflow_run_read) \<times> db" where
  "read_back L run_id res =
     (case res of (Inl e, d) \<Rightarrow> (Inl e, d) | (Inr _, d) \<Rightarrow> (get_run_read L run_id d, d))"

section \<open>Lifecycle\<close>

definition started_row :: "time \<Rightarrow> workflow_run \<Rightarrow> workflow_run" where
  "started_row now r = r\<lparr> r_status := W_RUNNING,
     r_started_at := (case r_started_at r of None \<Rightarrow> Some now | Some s \<Rightarrow> Some s) \<rparr>"

definition start_run :: "lib \<Rightarrow> time \<Rightarrow> string \<Rightarrow> db \<Rightarrow> (exn + workflow_run_read) \<times> db" where
  "start_run L now run_id d =
     read_back L run_id (then_transact
       (transact d (ebind (get_locked run_id d) (\<lambda>run.
          ebind (transition_workflow_run (r_status run) W_RUNNING) (\<lambda>_.
          Inr (record_event now run_id None WORKFLOW_STARTED (Some ''Workflow started'') []
                 (upd_run run_id (started_row now) d), ())))))
       (\<lambda>_ d. schedule_ready_nodes L workflow_scheduler now run_id d))"

definition pause_run :: "lib \<Rightarrow> time \<Rightarrow> string \<Rightarrow> db \<Rightarrow> (exn + workflow_run_read) \<times> db" where
  "pause_run L now run_id d =
     read_back L run_id
       (transact d (ebind (get_locked run_id d) (\<lambda>run.
          ebind (transition_workflow_run (r_status run) W_PAUSED) (\<lambda>_.
          Inr (upd_run run_id (\<lambda>r. r\<lparr> r_status := W_PAUSED, r_paused_at := Some now \<rparr>) d, ())))))"

definition resume_run :: "lib \<Rightarrow> time \<Rightarrow> string \<Rightarrow> db \<Rightarrow> (exn + workflow_run_read) \<times> db" where
  "resume_run L now run_id d =
     read_back L run_id (then_transact
       (transact d (ebind (get_locked run_id d) (\<lambda>run.
          ebind (transition_workflow_run (r_status run) W_RUNNING) (\<lambda>_.
          Inr (upd_run run_id (\<lambda>r. r\<lparr> r_status := W_RUNNING, r_paused_at := None \<rparr>) d, ())))))
       (\<lambda>_ d. reconcile_run L workflow_scheduler now run_id d))"

definition cancelled_row :: "time \<Rightarrow> node_run \<Rightarrow> node_run" where
  "cancelled_row now n = n\<lparr> nr_status := N_CANCELLED,
     nr_finished_at := (case nr_finished_at n of None \<Rightarrow> Some now | Some s \<Rightarrow> Some s) \<rparr>"

definition cancel_node :: "time \<Rightarrow> db \<Rightarrow> node_run \<Rightarrow> exn + db" where
  "cancel_node now d n =
     (if is_node_run_terminal (nr_status n) then Inr d
      else ebind (transition_node_run (nr_status n) N_CANCELLED) (\<lambda>_.
        Inr (upd_node (nr_id n) (cancelled_row now) d)))"

definition cancel_run :: "lib \<Rightarrow> time \<Rightarrow> string \<Rightarrow> db \<Rightarrow> (exn + workflow_run_read) \<times> db" where
  "cancel_run L now run_id d =
     read_back L run_id
       (transact d (ebind (get_locked run_id d) (\<lambda>run.
          if is_workflow_run_terminal (r_status run) then Inl (RelayviaError ''RUN_ALREADY_TERMINAL'' 409)
          else
            ebind (transition_workflow_run (r_status run) W_CANCELLED) (\<lambda>_.
            let d = upd_run run_id (\<lambda>r. r\<lparr> r_status := W_CANCELLED, r_cancelled_at := Some now,
                      r_finished_at := Some now \<rparr>) d;
                d = record_event now run_id None WORKFLOW_CANCELLED (Some ''Workflow cancelled'') [] d in
            ebind (foldM (cancel_node now) d (list_node_runs run_id d)) (\<lambda>d.
            ebind (cancel_run_tasks now run_id d) (\<lambda>d. Inr (d, ())))))))"

section \<open>Human actions\<close>

definition lock_node_run :: "string \<Rightarrow> db \<Rightarrow> exn + node_run \<times> workflow_run" where
  "lock_node_run node_run_id d =
     (case get_node node_run_id d of None \<Rightarrow> Inl NODE_RUN_NOT_FOUND
      | Some n \<Rightarrow>
        (case get_run (nr_workflow_run_id n) d of None \<Rightarrow> Inl WORKFLOW_RUN_NOT_FOUND | Some run \<Rightarrow> Inr (n, run)))"

definition require_waiting :: "node_run \<Rightarrow> exn + unit" where
  "require_waiting n =
     (if nr_status n \<noteq> N_WAITING then Inl (RelayviaError ''NODE_RUN_NOT_WAITING'' 409) else Inr ())"

definition waiting_node :: "lib \<Rightarrow> workflow_run \<Rightarrow> node_run \<Rightarrow> string \<Rightarrow> string \<Rightarrow> exn + workflow_node" where
  "waiting_node L run n subtype reason =
     (if r_status run \<notin> {W_RUNNING, W_WAITING} then Inl (RelayviaError ''WORKFLOW_RUN_NOT_ACTIONABLE'' 409)
      else if nr_node_type n \<noteq> ''human'' \<or> nr_node_subtype n \<noteq> subtype \<or> nr_waiting_reason n \<noteq> Some reason
        then Inl (RelayviaError ''NODE_RUN_ACTION_NOT_ALLOWED'' 409)
      else
        ebind (parse_workflow_graph L (r_graph_snapshot_json run)) (\<lambda>g.
        case row_get n_id (nr_node_id n) (g_nodes g) of
          None \<Rightarrow> Inl (RelayviaError ''NODE_SNAPSHOT_MISSING'' 409)
        | Some node \<Rightarrow> Inr node))"

text \<open>
  The common frame of the three actions: the checks, the write of the node, the two events of the
  first commit, then reconciliation in a second one.
\<close>

definition resume_events ::
  "time \<Rightarrow> workflow_run \<Rightarrow> node_run \<Rightarrow> string \<Rightarrow> string \<Rightarrow> run_event_type \<Rightarrow> string \<Rightarrow> dict \<Rightarrow> db \<Rightarrow> db" where
  "resume_events now run n msg action ty msg2 extra d =
     record_event now (r_id run) (Some (nr_id n)) ty (Some msg2) ((''node_id'', JStr (nr_node_id n)) # extra)
       (record_event now (r_id run) (Some (nr_id n)) NODE_RESUMED (Some msg)
         [(''node_id'', JStr (nr_node_id n)), (''action'', JStr action)] d)"

definition then_reconcile :: "lib \<Rightarrow> time \<Rightarrow> string \<Rightarrow> (exn + string) \<times> db \<Rightarrow> (exn + node_run) \<times> db" where
  "then_reconcile L now node_run_id first =
     (case then_transact first (\<lambda>run_id d. reconcile_run L workflow_scheduler now run_id d) of
        (Inl e, d) \<Rightarrow> (Inl e, d)
      | (Inr _, d) \<Rightarrow> ((case get_node node_run_id d of None \<Rightarrow> Inl NODE_RUN_NOT_FOUND | Some n \<Rightarrow> Inr n), d))"

definition approve_node_run :: "lib \<Rightarrow> time \<Rightarrow> string \<Rightarrow> db \<Rightarrow> (exn + node_run) \<times> db" where
  "approve_node_run L now node_run_id d =
     then_reconcile L now node_run_id
       (transact d (ebind (lock_node_run node_run_id d) (\<lambda>(n, run).
          ebind (require_waiting n) (\<lambda>_.
          ebind (waiting_node L run n ''approval'' ''HUMAN_APPROVAL'') (\<lambda>_.
          ebind (transition_node_run N_WAITING N_COMPLETED) (\<lambda>_.
          let d = upd_node node_run_id (\<lambda>n. n\<lparr> nr_status := N_COMPLETED,
                    nr_output_json := Some [(''approved'', JBool True)], nr_finished_at := Some now \<rparr>) d in
          Inr (resume_events now run n ''Approval approved'' ''approve'' NODE_COMPLETED
                 ''Node completed after approval'' [] d, r_id run)))))))"

definition REJECTED_ERROR :: dict where
  "REJECTED_ERROR = [(''code'', JStr ''REJECTED''), (''message'', JStr ''Approval was rejected''),
     (''retryable'', JBool False), (''details'', JObj [])]"

definition reject_node_run :: "lib \<Rightarrow> time \<Rightarrow> string \<Rightarrow> db \<Rightarrow> (exn + node_run) \<times> db" where
  "reject_node_run L now node_run_id d =
     then_reconcile L now node_run_id
       (transact d (ebind (lock_node_run node_run_id d) (\<lambda>(n, run).
          ebind (require_waiting n) (\<lambda>_.
          ebind (waiting_node L run n ''approval'' ''HUMAN_APPROVAL'') (\<lambda>node.
          if \<not> truthy (dget_or (n_config node) ''allow_reject'' (JBool True))
          then Inl (RelayviaError ''HUMAN_REJECTION_DISABLED'' 409)
          else
            ebind (transition_node_run N_WAITING N_FAILED) (\<lambda>_.
            let d = upd_node node_run_id (\<lambda>n. n\<lparr> nr_status := N_FAILED,
                      nr_error_json := Some REJECTED_ERROR, nr_finished_at := Some now \<rparr>) d in
            Inr (resume_events now run n ''Approval rejected'' ''reject'' NODE_FAILED
                   ''Node failed after rejection'' [(''error_code'', JStr ''REJECTED'')] d, r_id run)))))))"

definition check_form :: "lib \<Rightarrow> workflow_node \<Rightarrow> dict \<Rightarrow> exn + unit" where
  "check_form L node input_data =
     (case dget0 (n_config node) ''form_schema'' of
        JObj schema \<Rightarrow>
          if schema = [] then Inr ()
          else if \<not> lib_check_schema L (JObj schema) then Inl (RelayviaError ''INVALID_HUMAN_INPUT_SCHEMA'' 409)
          else if lib_schema_errors L (JObj schema) (JObj input_data) \<noteq> [] then Inl (RelayviaError ''INVALID_HUMAN_INPUT'' 422)
          else Inr ()
      | _ \<Rightarrow> Inr ())"

definition submit_node_run :: "lib \<Rightarrow> time \<Rightarrow> string \<Rightarrow> dict \<Rightarrow> db \<Rightarrow> (exn + node_run) \<times> db" where
  "submit_node_run L now node_run_id input_data d =
     then_reconcile L now node_run_id
       (transact d (ebind (lock_node_run node_run_id d) (\<lambda>(n, run).
          ebind (require_waiting n) (\<lambda>_.
          ebind (waiting_node L run n ''input'' ''HUMAN_INPUT'') (\<lambda>node.
          ebind (check_form L node input_data) (\<lambda>_.
          ebind (transition_node_run N_WAITING N_COMPLETED) (\<lambda>_.
          let d = upd_node node_run_id (\<lambda>n. n\<lparr> nr_status := N_COMPLETED,
                    nr_output_json := Some input_data, nr_finished_at := Some now \<rparr>) d in
          Inr (resume_events now run n ''Human input submitted'' ''submit'' NODE_COMPLETED
                 ''Node completed after human input'' [] d, r_id run))))))))"

section \<open>Every operation advances\<close>

definition advance :: "lib \<Rightarrow> db \<Rightarrow> db \<Rightarrow> bool" where
  "advance L d d' \<longleftrightarrow> db_inv L d' \<and> progress d d'"

lemma advance_transact:
  assumes "db_inv L d" and "\<And>d' x. body = Inr (d', x) \<Longrightarrow> db_inv L (settle d') \<and> progress d d'"
  shows "advance L d (snd (transact d body))"
proof -
  have "db_inv L (snd (transact d body))"
  proof (cases body)
    case (Inr p)
    then obtain d' x where p: "body = Inr (d', x)" by (cases p) auto
    then show ?thesis
      using assms flush_settle [of d'] by (auto simp: transact_def split: sum.splits)
  qed (use assms(1) in \<open>simp add: transact_Inl\<close>)
  moreover have "progress d (snd (transact d body))" by (rule progress_transact) (use assms(2) in auto)
  ultimately show ?thesis by (simp add: advance_def)
qed

lemma advance_then_transact:
  assumes "advance L d (snd first)"
    and "\<And>x d' y. db_inv L (snd first) \<Longrightarrow> body x (snd first) = Inr (d', y) \<Longrightarrow> db_inv L (settle d') \<and> progress (snd first) d'"
  shows "advance L d (snd (then_transact first body))"
proof (cases "fst first")
  case (Inl e)
  then show ?thesis using assms(1) by (cases first) (simp add: then_transact_def)
next
  case (Inr x)
  have "advance L (snd first) (snd (transact (snd first) (body x (snd first))))"
    by (rule advance_transact) (use assms in \<open>auto simp: advance_def\<close>)
  then show ?thesis
    using assms(1) Inr by (cases first) (auto simp: then_transact_def advance_def intro: progress_trans)
qed

lemma snd_read_back [simp]: "snd (read_back L rid res) = snd res"
  by (cases res) (auto simp: read_back_def split: sum.splits)

lemma snd_then_reconcile:
  "snd (then_reconcile L now nid first) = snd (then_transact first (\<lambda>rid d. reconcile_run L workflow_scheduler now rid d))"
  by (auto simp: then_reconcile_def split: prod.splits sum.splits)

lemma run_status_step:
  assumes inv: "db_inv L d" and run: "get_run rid d = Some run" and ok: "transition_workflow_run (r_status run) s = Inr ()"
    and f: "\<And>r. r_status (f r) = s \<and> r_id (f r) = r_id r \<and> r_workflow_version_id (f r) = r_workflow_version_id r
      \<and> r_graph_snapshot_json (f r) = r_graph_snapshot_json r \<and> r_execution_snapshot_json (f r) = r_execution_snapshot_json r
      \<and> r_input_json (f r) = r_input_json r \<and> r_variables_json (f r) = r_variables_json r"
  shows "db_inv L (settle (upd_run rid f d))" and "progress d (upd_run rid f d)"
proof -
  show "db_inv L (settle (upd_run rid f d))" using inv f by (simp add: db_inv_upd_run db_inv_settled)
  show "progress d (upd_run rid f d)"
    by (rule progress_upd_run) (use run ok f in \<open>auto intro!: run_step_status\<close>)
qed

lemma get_locked_Inr: "get_locked rid d = Inr run \<longleftrightarrow> get_run rid d = Some run"
  by (simp add: get_locked_def split: option.splits)

lemma advance_start_run:
  assumes inv: "db_inv L d" and inj: "inj (lib_uuid4 L)"
  shows "advance L d (snd (start_run L now rid d))"
  unfolding start_run_def snd_read_back
proof (rule advance_then_transact, rule advance_transact [OF inv], goal_cases)
  case (1 d' x)
  let ?f = "started_row now"
  from 1 obtain run where "get_run rid d = Some run" "transition_workflow_run (r_status run) W_RUNNING = Inr ()"
    and d': "d' = record_event now rid None WORKFLOW_STARTED (Some ''Workflow started'') [] (upd_run rid ?f d)"
    by (auto simp: outcome get_locked_Inr)
  with run_status_step [OF inv this(1,2), of ?f] show ?case
    by (auto simp: started_row_def intro: progress_trans progress_record_event)
next
  case (2 x d' y)
  then show ?case using schedule_ready_step [OF _ inj] db_inv_settled by metis
qed

lemma advance_pause_run:
  assumes inv: "db_inv L d"
  shows "advance L d (snd (pause_run L now rid d))"
  unfolding pause_run_def snd_read_back
proof (rule advance_transact [OF inv], goal_cases)
  case (1 d' x)
  let ?f = "\<lambda>r. r\<lparr> r_status := W_PAUSED, r_paused_at := Some now \<rparr>"
  from 1 obtain run where "get_run rid d = Some run" "transition_workflow_run (r_status run) W_PAUSED = Inr ()"
    and d': "d' = upd_run rid ?f d" by (auto simp: outcome get_locked_Inr)
  with run_status_step [OF inv this(1,2), of ?f] show ?case by auto
qed

lemma advance_resume_run:
  assumes inv: "db_inv L d" and inj: "inj (lib_uuid4 L)"
  shows "advance L d (snd (resume_run L now rid d))"
  unfolding resume_run_def snd_read_back
proof (rule advance_then_transact, rule advance_transact [OF inv], goal_cases)
  case (1 d' x)
  let ?f = "\<lambda>r. r\<lparr> r_status := W_RUNNING, r_paused_at := None \<rparr>"
  from 1 obtain run where "get_run rid d = Some run" "transition_workflow_run (r_status run) W_RUNNING = Inr ()"
    and d': "d' = upd_run rid ?f d" by (auto simp: outcome get_locked_Inr)
  with run_status_step [OF inv this(1,2), of ?f] show ?case by auto
next
  case (2 x d' y)
  then show ?case using reconcile_step [OF _ inj] db_inv_settled by metis
qed

lemma advance_then_reconcile:
  assumes "advance L d (snd first)" "inj (lib_uuid4 L)"
  shows "advance L d (snd (then_reconcile L now nid first))"
  unfolding snd_then_reconcile
  by (rule advance_then_transact [OF assms(1)]) (metis reconcile_step [OF _ assms(2)] db_inv_settled)

text \<open>The write of a human action on a waiting node.\<close>

lemma human_write:
  assumes inv: "db_inv L d" and n: "get_node nid d = Some n" "nr_status n = N_WAITING" and g: "node_frame g"
    and s: "nr_status (g n) \<in> {N_COMPLETED, N_FAILED}"
    and same: "\<And>n. nr_node_type (g n) = nr_node_type n \<and> nr_node_subtype (g n) = nr_node_subtype n"
  shows "db_inv L (settle (resume_events now run m a b ty c e (upd_node nid g d)))"
    and "progress d (resume_events now run m a b ty c e (upd_node nid g d))"
proof -
  have nid: "nr_id n = nid" using n(1) by (rule get_node_key)
  have "db_inv L (settle d)" using inv by (simp add: db_inv_settled)
  moreover have "transition_node_run (nr_status n) (nr_status (g n)) = Inr ()" using n(2) s by (auto simp: status_simps)
  moreover have "link t (nr_status (g n))" if "link t (nr_status n)" for t using that n(2) s by auto
  ultimately have *: "db_inv L (settle (upd_node nid g d))" "progress d (upd_node nid g d)"
    using session_node_step [of L d n g] n(1) nid g same by auto
  show "db_inv L (settle (resume_events now run m a b ty c e (upd_node nid g d)))" using *(1) by (simp add: resume_events_def)
  show "progress d (resume_events now run m a b ty c e (upd_node nid g d))"
    unfolding resume_events_def by (blast intro: progress_trans progress_record_event *(2))
qed

lemma lock_node_run_Inr:
  "lock_node_run nid d = Inr (n, run) \<longleftrightarrow> get_node nid d = Some n \<and> get_run (nr_workflow_run_id n) d = Some run"
  by (auto simp: lock_node_run_def split: option.splits)

lemma require_waiting_Inr: "require_waiting n = Inr u \<longleftrightarrow> nr_status n = N_WAITING"
  by (auto simp: require_waiting_def)

lemmas human_simps = outcome lock_node_run_Inr require_waiting_Inr Let_def

lemma advance_approve:
  assumes inv: "db_inv L d" and inj: "inj (lib_uuid4 L)"
  shows "advance L d (snd (approve_node_run L now nid d))"
  unfolding approve_node_run_def
proof (rule advance_then_reconcile [OF advance_transact [OF inv] inj], goal_cases)
  case (1 d' x)
  then show ?case by (auto simp: human_simps intro!: human_write [OF inv] simp: node_frame_def split: prod.splits)
qed

lemma advance_reject:
  assumes inv: "db_inv L d" and inj: "inj (lib_uuid4 L)"
  shows "advance L d (snd (reject_node_run L now nid d))"
  unfolding reject_node_run_def
proof (rule advance_then_reconcile [OF advance_transact [OF inv] inj], goal_cases)
  case (1 d' x)
  then show ?case
    by (auto simp: human_simps intro!: human_write [OF inv] simp: node_frame_def split: prod.splits if_splits)
qed

lemma advance_submit:
  assumes inv: "db_inv L d" and inj: "inj (lib_uuid4 L)"
  shows "advance L d (snd (submit_node_run L now nid input d))"
  unfolding submit_node_run_def
proof (rule advance_then_reconcile [OF advance_transact [OF inv] inj], goal_cases)
  case (1 d' x)
  then show ?case by (auto simp: human_simps intro!: human_write [OF inv] simp: node_frame_def split: prod.splits)
qed

section \<open>Cancelling a run\<close>

definition map_tasks :: "(execution_task \<Rightarrow> execution_task) \<Rightarrow> db \<Rightarrow> db" where
  "map_tasks c d = d\<lparr> tasks := map c (tasks d) \<rparr>"

lemma row_get_map: "(\<And>r. key (c r) = key r) \<Longrightarrow> row_get key k (map c rs) = map_option c (row_get key k rs)"
  by (induction rs) (auto simp: row_get_Cons)

lemma get_map_tasks:
  "(\<And>t. t_id (c t) = t_id t) \<Longrightarrow> get_task k (map_tasks c d) = map_option c (get_task k d)"
  "(\<And>t. t_node_run_id (c t) = t_node_run_id t) \<Longrightarrow>
    get_task_by_node_run k (map_tasks c d) = map_option c (get_task_by_node_run k d)"
  by (simp_all add: map_tasks_def get_task_def get_task_by_node_run_def row_get_map)

lemma progress_map_tasks:
  assumes "\<And>t. t \<in> set (tasks d) \<Longrightarrow> task_step t (c t)" and "\<And>t. t_id (c t) = t_id t"
  shows "progress d (map_tasks c d)"
proof -
  have "task_step t (c t)" if "get_task k d = Some t" for k t
    using assms(1) row_get_in [OF that [unfolded get_task_def]] .
  then show ?thesis
    using assms(2) by (auto simp: progress_def get_map_tasks) (simp_all add: map_tasks_def get_node_def get_run_def)
qed

text \<open>All node rows and all task rows change at once; only the pairs have to be linked again.\<close>

lemma db_inv_map_both:
  assumes inv: "db_inv L d" and h: "node_frame h" and c: "task_frame c"
    and link: "\<And>n. n \<in> set (node_runs d) \<Longrightarrow>
      link (map_option (\<lambda>t. t_status (c t)) (get_task_by_node_run (nr_id n) d)) (nr_status (h n))"
    and lease: "\<And>t. t \<in> set (tasks d) \<Longrightarrow> leased (c t)" and token: "\<And>t. t_lease_token (c t) = t_lease_token t"
  shows "db_inv L (map_nodes h (map_tasks c d))" (is "db_inv L ?d")
proof -
  have node: "get_node k ?d = map_option h (get_node k d)" for k
    using h get_map_nodes [of h k "map_tasks c d"] by (simp add: node_frame_def map_tasks_def get_node_def)
  have task: "get_task k ?d = map_option c (get_task k d)" for k
    using c get_map_tasks(1) [of c k d] by (simp add: task_frame_def map_nodes_frames)
  have tn: "get_task_by_node_run k ?d = map_option c (get_task_by_node_run k d)" for k
    using c get_map_tasks(2) [of c k d] by (simp add: task_frame_def map_nodes_frames)
  have run: "get_run k ?d = get_run k d" for k by (simp add: map_nodes_def map_tasks_def get_run_def)
  have "unique_rows ?d"
    using inv h c by (simp add: db_inv_def unique_rows_def map_nodes_def map_tasks_def node_frame_def task_frame_def comp_def)
  moreover have "refs_ok ?d"
    unfolding refs_ok_def node task run
  proof (intro conjI allI impI)
    fix tid t' assume "map_option c (get_task tid d) = Some t'"
    then obtain t where t: "get_task tid d = Some t" "t' = c t" by (cases "get_task tid d") auto
    then obtain n where "get_node (t_node_run_id t) d = Some n" "nr_workflow_run_id n = t_workflow_run_id t"
      using inv unfolding db_inv_def refs_ok_def by blast
    then show "\<exists>n. map_option h (get_node (t_node_run_id t') d) = Some n \<and> nr_workflow_run_id n = t_workflow_run_id t'"
      using t h c by (simp add: node_frame_def task_frame_def)
  next
    fix k m assume "map_option h (get_node k d) = Some m"
    then obtain n where n: "get_node k d = Some n" "m = h n" by (cases "get_node k d") auto
    then have "get_run (nr_workflow_run_id n) d \<noteq> None" using inv unfolding db_inv_def refs_ok_def by blast
    then show "get_run (nr_workflow_run_id m) d \<noteq> None" using n h by (simp add: node_frame_def)
  qed
  moreover have "linked ?d"
    unfolding linked_def
  proof (intro allI impI)
    fix k m assume "get_node k ?d = Some m"
    then obtain n where n: "get_node k d = Some n" "m = h n" by (cases "get_node k d") (auto simp: node)
    then have "n \<in> set (node_runs d)" "nr_id n = k" by (auto simp: get_node_def dest: row_get_in row_get_key)
    with link [of n] n show "link (map_option t_status (get_task_by_node_run k ?d)) (nr_status m)"
      by (simp add: tn option.map_comp comp_def)
  qed
  moreover have "leases_ok ?d"
    unfolding leases_ok_def task
  proof (intro allI impI)
    fix k t' assume "map_option c (get_task k d) = Some t'"
    then obtain t where "get_task k d = Some t" "t' = c t" by (cases "get_task k d") auto
    then show "leased t'" using lease row_get_in [of t_id k "tasks d" t] by (simp add: get_task_def)
  qed
  moreover have "ids_issued L ?d"
    using inv h c token
    by (simp add: db_inv_def ids_issued_def map_nodes_def map_tasks_def issued_def node_frame_def task_frame_def image_image)
  ultimately show ?thesis using inv by (simp add: db_inv_def map_nodes_def map_tasks_def)
qed

definition in_run :: "string \<Rightarrow> node_run \<Rightarrow> bool" where
  "in_run rid n \<longleftrightarrow> nr_workflow_run_id n = rid \<and> \<not> is_node_run_terminal (nr_status n)"

definition cancel_all_nodes :: "time \<Rightarrow> string \<Rightarrow> node_run \<Rightarrow> node_run" where
  "cancel_all_nodes now rid n = (if in_run rid n then cancelled_row now n else n)"

definition cancel_all_tasks :: "time \<Rightarrow> string \<Rightarrow> execution_task \<Rightarrow> execution_task" where
  "cancel_all_tasks now rid t =
     (if t_workflow_run_id t = rid \<and> \<not> is_execution_task_terminal (t_status t)
      then t\<lparr> t_status := T_CANCELLED, t_finished_at := Some now \<rparr> else t)"

lemma cancel_all_nodes_frame [simp]:
  "nr_id (cancel_all_nodes now rid n) = nr_id n"
  "nr_workflow_run_id (cancel_all_nodes now rid n) = nr_workflow_run_id n"
  by (simp_all add: cancel_all_nodes_def cancelled_row_def)

lemma cancel_all_closes:
  "nr_workflow_run_id n = rid \<Longrightarrow> is_node_run_terminal (nr_status (cancel_all_nodes now rid n))"
  by (cases "is_node_run_terminal (nr_status n)")
    (simp_all add: cancel_all_nodes_def in_run_def cancelled_row_def, simp add: status_simps)

lemma cancel_transition_ok:
  "\<not> is_node_run_terminal s \<Longrightarrow> transition_node_run s N_CANCELLED = Inr ()"
  "\<not> is_execution_task_terminal s' \<Longrightarrow> transition_execution_task s' T_CANCELLED = Inr ()"
proof -
  show "\<not> is_node_run_terminal s \<Longrightarrow> transition_node_run s N_CANCELLED = Inr ()"
    by (cases s) (simp_all add: status_simps)
  show "\<not> is_execution_task_terminal s' \<Longrightarrow> transition_execution_task s' T_CANCELLED = Inr ()"
    by (cases s') (simp_all add: status_simps)
qed

lemma cancel_nodes_fold:
  "foldM (cancel_node now) d ns = Inr (d\<lparr> node_runs :=
     fold (\<lambda>n. row_upd nr_id (nr_id n) (cancelled_row now)) (filter (\<lambda>n. \<not> is_node_run_terminal (nr_status n)) ns) (node_runs d) \<rparr>)"
  by (induction ns arbitrary: d) (auto simp: cancel_node_def cancel_transition_ok upd_node_def)

lemma cancel_nodes_result:
  assumes "distinct (map nr_id (node_runs d))"
  shows "foldM (cancel_node now) d (list_node_runs rid d) = Inr (map_nodes (cancel_all_nodes now rid) d)"
proof -
  let ?live = "filter (\<lambda>n. \<not> is_node_run_terminal (nr_status n)) (list_node_runs rid d)"
  have "nr_id n \<in> nr_id ` set ?live \<longleftrightarrow> in_run rid n" if "n \<in> set (node_runs d)" for n
  proof -
    have "m = n" if "m \<in> set (node_runs d)" "nr_id m = nr_id n" for m
      using assms \<open>n \<in> set (node_runs d)\<close> that by (auto simp: distinct_map inj_on_def)
    then show ?thesis using that by (auto simp: list_node_runs_def in_run_def)
  qed
  then have "map (\<lambda>n. if nr_id n \<in> nr_id ` set ?live then cancelled_row now n else n) (node_runs d)
      = map (cancel_all_nodes now rid) (node_runs d)"
    by (auto simp: cancel_all_nodes_def)
  moreover have "distinct (map nr_id ?live)" using assms by (simp add: list_node_runs_def distinct_map_filter)
  then have "fold (\<lambda>n. row_upd nr_id (nr_id n) (cancelled_row now)) ?live (node_runs d)
      = map (\<lambda>n. if nr_id n \<in> nr_id ` set ?live then cancelled_row now n else n) (node_runs d)"
    by (rule fold_row_upd [rotated]) (simp add: cancelled_row_def)
  ultimately show ?thesis by (simp add: cancel_nodes_fold map_nodes_def)
qed

definition cancelled_task :: "time \<Rightarrow> execution_task \<Rightarrow> execution_task" where
  "cancelled_task now t = t\<lparr> t_status := T_CANCELLED, t_finished_at := Some now \<rparr>"

lemma cancel_tasks_only:
  assumes "\<And>t n. t \<in> set ts \<Longrightarrow> row_get nr_id (t_node_run_id t) (node_runs d) = Some n \<Longrightarrow> is_node_run_terminal (nr_status n)"
  shows "\<exists>es. foldM (cancel_task now rid) d ts = Inr (d\<lparr> tasks :=
     fold (\<lambda>t. row_upd t_id (t_id t) (cancelled_task now)) (filter (\<lambda>t. \<not> is_execution_task_terminal (t_status t)) ts) (tasks d),
     events := events d @ es \<rparr>)"
  using assms
proof (induction ts arbitrary: d)
  case Nil
  show ?case by (intro exI [of _ "[]"]) simp
next
  case (Cons t ts)
  show ?case
  proof (cases "is_execution_task_terminal (t_status t)")
    case True
    then have "cancel_task now rid d t = Inr d" by (simp add: cancel_task_def)
    moreover have "\<exists>es. foldM (cancel_task now rid) d ts = Inr (d\<lparr> tasks :=
        fold (\<lambda>t. row_upd t_id (t_id t) (cancelled_task now)) (filter (\<lambda>t. \<not> is_execution_task_terminal (t_status t)) ts) (tasks d),
        events := events d @ es \<rparr>)" by (rule Cons.IH) (use Cons.prems in auto)
    ultimately show ?thesis using True by simp
  next
    case False
    obtain ev where "cancel_task now rid d t = Inr (d\<lparr> tasks := row_upd t_id (t_id t) (cancelled_task now) (tasks d), events := events d @ [ev] \<rparr>)"
    proof (cases "row_get nr_id (t_node_run_id t) (node_runs d)")
      case None
      with False cancel_transition_ok(2) [OF False] show ?thesis
        using that by (simp add: cancel_task_def Let_def upd_task_def get_node_def record_event_def cancelled_task_def [abs_def])
    next
      case (Some n)
      with Cons.prems [of t n] have "is_node_run_terminal (nr_status n)" by simp
      with Some False cancel_transition_ok(2) [OF False] show ?thesis
        using that by (simp add: cancel_task_def Let_def upd_task_def get_node_def record_event_def cancelled_task_def [abs_def])
    qed
    moreover from Cons.IH [of "d\<lparr> tasks := row_upd t_id (t_id t) (cancelled_task now) (tasks d), events := events d @ [ev] \<rparr>"] Cons.prems
    obtain es where "foldM (cancel_task now rid) (d\<lparr> tasks := row_upd t_id (t_id t) (cancelled_task now) (tasks d), events := events d @ [ev] \<rparr>) ts
      = Inr (d\<lparr> tasks := fold (\<lambda>t. row_upd t_id (t_id t) (cancelled_task now)) (filter (\<lambda>t. \<not> is_execution_task_terminal (t_status t)) ts)
          (row_upd t_id (t_id t) (cancelled_task now) (tasks d)), events := events d @ [ev] @ es \<rparr>)" by auto
    ultimately show ?thesis using False by auto
  qed
qed

lemma cancel_tasks_result:
  assumes "distinct (map t_id (tasks d))"
    and "\<And>t n. t \<in> set (list_tasks_for_run rid d) \<Longrightarrow> get_node (t_node_run_id t) d = Some n \<Longrightarrow> is_node_run_terminal (nr_status n)"
  shows "\<exists>es. foldM (cancel_task now rid) d (list_tasks_for_run rid d) =
    Inr ((map_tasks (cancel_all_tasks now rid) d)\<lparr> events := events d @ es \<rparr>)"
proof -
  let ?live = "filter (\<lambda>t. \<not> is_execution_task_terminal (t_status t)) (list_tasks_for_run rid d)"
  have "t_id t \<in> t_id ` set ?live \<longleftrightarrow> t_workflow_run_id t = rid \<and> \<not> is_execution_task_terminal (t_status t)"
    if "t \<in> set (tasks d)" for t
  proof -
    have "m = t" if "m \<in> set (tasks d)" "t_id m = t_id t" for m
      using assms(1) \<open>t \<in> set (tasks d)\<close> that by (auto simp: distinct_map inj_on_def)
    then show ?thesis using that by (auto simp: list_tasks_for_run_def)
  qed
  then have "map (\<lambda>t. if t_id t \<in> t_id ` set ?live then cancelled_task now t else t) (tasks d) = map (cancel_all_tasks now rid) (tasks d)"
    by (auto simp: cancel_all_tasks_def cancelled_task_def)
  moreover have "distinct (map t_id ?live)" using assms(1) by (simp add: list_tasks_for_run_def distinct_map_filter)
  then have "fold (\<lambda>t. row_upd t_id (t_id t) (cancelled_task now)) ?live (tasks d)
      = map (\<lambda>t. if t_id t \<in> t_id ` set ?live then cancelled_task now t else t) (tasks d)"
    by (rule fold_row_upd [rotated]) (simp add: cancelled_task_def)
  ultimately have eq: "fold (\<lambda>t. row_upd t_id (t_id t) (cancelled_task now)) ?live (tasks d) = map (cancel_all_tasks now rid) (tasks d)"
    by (simp only:)
  show ?thesis
    using cancel_tasks_only [of "list_tasks_for_run rid d" d now rid] assms(2)
    unfolding eq get_node_def map_tasks_def by simp
qed

lemma cancel_pending_none:
  "\<forall>n\<in>set ns. nr_status n \<noteq> N_PENDING \<Longrightarrow> foldM (cancel_pending now) d ns = Inr d"
  by (induction ns) (auto simp: cancel_pending_def)

text \<open>
  The whole cancellation of a run that is not terminal: its run row, all its open nodes and all its
  open tasks, in one transaction.
\<close>

definition cancelled_run_row :: "time \<Rightarrow> workflow_run \<Rightarrow> workflow_run" where
  "cancelled_run_row now r = r\<lparr> r_status := W_CANCELLED, r_cancelled_at := Some now, r_finished_at := Some now \<rparr>"

lemma cancel_run_result:
  assumes inv: "db_inv L d" and run: "get_run rid d = Some run" "\<not> is_workflow_run_terminal (r_status run)"
  shows "\<exists>es. snd (cancel_run L now rid d) =
    (map_nodes (cancel_all_nodes now rid) (map_tasks (cancel_all_tasks now rid)
      (upd_run rid (cancelled_run_row now) d)))\<lparr> events := events d @ es \<rparr>"
proof -
  have u: "distinct (map nr_id (node_runs d))" "distinct (map t_id (tasks d))" "new_tasks d = []"
    using inv by (simp_all add: db_inv_def unique_rows_def)
  have ok: "transition_workflow_run (r_status run) W_CANCELLED = Inr ()"
    using run(2) by (cases "r_status run") (auto simp: status_simps)
  define d1 where "d1 = record_event now rid None WORKFLOW_CANCELLED (Some ''Workflow cancelled'') [] (upd_run rid (cancelled_run_row now) d)"
  define d2 where "d2 = map_nodes (cancel_all_nodes now rid) d1"
  have d1: "node_runs d1 = node_runs d" "tasks d1 = tasks d" "new_tasks d1 = []"
    by (simp_all add: d1_def record_event_def upd_run_def u)
  have nodes: "foldM (cancel_node now) d1 (list_node_runs rid d1) = Inr d2"
    unfolding d2_def by (rule cancel_nodes_result) (simp add: d1 u)
  have closed: "is_node_run_terminal (nr_status n)" if "n \<in> set (list_node_runs rid d2)" for n
  proof -
    from that have mem: "n \<in> cancel_all_nodes now rid ` set (node_runs d1)" and rid: "nr_workflow_run_id n = rid"
      by (simp_all add: d2_def map_nodes_def list_node_runs_def)
    from mem obtain m where "n = cancel_all_nodes now rid m" by (rule imageE)
    with rid show ?thesis by (simp add: cancel_all_closes)
  qed
  have node_term: "is_node_run_terminal (nr_status n)"
    if t: "t \<in> set (list_tasks_for_run rid d2)" and n: "get_node (t_node_run_id t) d2 = Some n" for t n
  proof -
    have mem: "t \<in> set (tasks d)" "t_workflow_run_id t = rid" using t by (auto simp: list_tasks_for_run_def d2_def map_nodes_def d1)
    then have "get_task (t_id t) d = Some t" using inv get_task_in by (simp add: db_inv_def)
    then obtain m where m: "get_node (t_node_run_id t) d = Some m" "nr_workflow_run_id m = t_workflow_run_id t"
      using inv unfolding db_inv_def refs_ok_def by blast
    have "get_node (t_node_run_id t) d2 = map_option (cancel_all_nodes now rid) (get_node (t_node_run_id t) d1)"
      unfolding d2_def by (rule get_map_nodes) (simp add: cancel_all_nodes_def cancelled_row_def)
    with m n have "n = cancel_all_nodes now rid m" by (simp add: get_node_def d1)
    with m mem(2) show ?thesis by (simp add: cancel_all_closes cancel_all_nodes_frame)
  qed
  obtain es where tasks: "foldM (cancel_task now rid) d2 (list_tasks_for_run rid d2) =
      Inr ((map_tasks (cancel_all_tasks now rid) d2)\<lparr> events := events d2 @ es \<rparr>)" (is "_ = Inr ?d3")
    using cancel_tasks_result [of d2 rid now] node_term u by (auto simp: d2_def map_nodes_def d1)
  have "list_node_runs rid ?d3 = list_node_runs rid d2" by (simp add: list_node_runs_def map_tasks_def)
  moreover have "nr_status n \<noteq> N_PENDING" if "n \<in> set (list_node_runs rid d2)" for n
    using closed [OF that] by (cases "nr_status n") (simp_all add: status_simps)
  ultimately have "foldM (cancel_pending now) ?d3 (list_node_runs rid ?d3) = Inr ?d3"
    by (intro cancel_pending_none) simp
  with tasks have "cancel_run_tasks now rid d2 = Inr ?d3" by (simp add: cancel_run_tasks_def)
  then have "snd (cancel_run L now rid d) = snd (transact d (Inr (?d3, ())))"
    using run ok nodes by (simp add: cancel_run_def get_locked_def d1_def cancelled_run_row_def [abs_def] Let_def)
  also have "\<dots> = ?d3" by (simp add: transact_no_new d2_def map_nodes_def map_tasks_def d1)
  also have "\<dots> = (map_nodes (cancel_all_nodes now rid) (map_tasks (cancel_all_tasks now rid)
      (upd_run rid (cancelled_run_row now) d)))\<lparr> events := events d2 @ es \<rparr>"
    by (cases d) (simp add: d2_def d1_def map_nodes_def map_tasks_def record_event_def upd_run_def)
  finally show ?thesis
    by (simp add: d2_def d1_def map_nodes_def record_event_def upd_run_def) blast
qed

lemma progress_add_events: "progress d d' \<Longrightarrow> events d' = events d \<Longrightarrow> progress d (d'\<lparr> events := events d @ es \<rparr>)"
  by (simp add: progress_def get_run_def get_node_def get_task_def)

lemma cancel_all_frames: "node_frame (cancel_all_nodes now rid)" "task_frame (cancel_all_tasks now rid)"
  by (simp_all add: node_frame_def task_frame_def cancel_all_nodes_def cancelled_row_def cancel_all_tasks_def)

lemma cancel_all_nodes_step: "node_step n (cancel_all_nodes now rid n)"
proof (cases "in_run rid n")
  case True
  then have "transition_node_run (nr_status n) N_CANCELLED = Inr ()" by (simp add: in_run_def cancel_transition_ok)
  then show ?thesis
    by (intro node_step_status) (simp_all add: cancel_all_nodes_def True cancelled_row_def)
qed (simp add: cancel_all_nodes_def)

lemma cancel_all_tasks_step: "task_step t (cancel_all_tasks now rid t)"
proof (cases "t_workflow_run_id t = rid \<and> \<not> is_execution_task_terminal (t_status t)")
  case True
  then have "transition_execution_task (t_status t) T_CANCELLED = Inr ()" by (simp add: cancel_transition_ok)
  then show ?thesis
    by (intro task_step_status) (use True in \<open>simp_all add: cancel_all_tasks_def\<close>)
next
  case False
  then have "cancel_all_tasks now rid t = t" unfolding cancel_all_tasks_def by (rule if_not_P)
  then show ?thesis by simp
qed

lemma cancel_all_link:
  assumes "link (map_option t_status to) (nr_status n)"
    and "\<And>t. to = Some t \<Longrightarrow> t_workflow_run_id t = nr_workflow_run_id n"
  shows "link (map_option (\<lambda>t. t_status (cancel_all_tasks now rid t)) to) (nr_status (cancel_all_nodes now rid n))"
proof (cases "nr_workflow_run_id n = rid")
  case True
  show ?thesis
  proof (cases to)
    case None
    then show ?thesis using assms(1) True
      by (cases "nr_status n") (simp_all add: cancel_all_nodes_def in_run_def cancelled_row_def link_cases status_simps)
  next
    case (Some t)
    then show ?thesis using assms True
      by (cases "nr_status n"; cases "t_status t")
        (simp_all add: cancel_all_nodes_def cancel_all_tasks_def in_run_def cancelled_row_def link_cases status_simps)
  qed
next
  case False
  with assms show ?thesis
    by (cases to) (simp_all add: cancel_all_nodes_def cancel_all_tasks_def in_run_def)
qed

lemma cancel_all_leased: "leased t \<Longrightarrow> leased (cancel_all_tasks now rid t)"
  by (cases "t_status t") (simp_all add: cancel_all_tasks_def leased_def status_simps)

lemma cancel_run_refused:
  assumes "db_inv L d" and "\<And>run. get_run rid d = Some run \<Longrightarrow> is_workflow_run_terminal (r_status run)"
  shows "snd (cancel_run L now rid d) = d"
  using assms by (cases "get_run rid d")
    (simp_all add: cancel_run_def get_locked_def transact_def db_inv_def)

lemma advance_cancel_run:
  assumes inv: "db_inv L d"
  shows "advance L d (snd (cancel_run L now rid d))"
proof (cases "\<exists>run. get_run rid d = Some run \<and> \<not> is_workflow_run_terminal (r_status run)")
  case True
  then obtain run where run: "get_run rid d = Some run" "\<not> is_workflow_run_terminal (r_status run)" by blast
  let ?d1 = "upd_run rid (cancelled_run_row now) d"
  let ?d2 = "map_tasks (cancel_all_tasks now rid) ?d1"
  let ?d3 = "map_nodes (cancel_all_nodes now rid) ?d2"
  obtain es where res: "snd (cancel_run L now rid d) = ?d3\<lparr> events := events d @ es \<rparr>"
    using cancel_run_result [OF inv run] by blast
  have ok: "transition_workflow_run (r_status run) W_CANCELLED = Inr ()"
    using run(2) by (cases "r_status run") (simp_all add: status_simps)
  note step = run_status_step [OF inv run(1) ok, of "cancelled_run_row now"]
  have inv1: "db_inv L ?d1"
    using inv by (simp add: db_inv_upd_run cancelled_run_row_def)
  have "db_inv L ?d3"
  proof (rule db_inv_map_both [OF inv1 cancel_all_frames])
    fix n assume "n \<in> set (node_runs ?d1)"
    then have "get_node (nr_id n) ?d1 = Some n" using inv1 get_node_in by (simp add: db_inv_def)
    then have l: "link (map_option t_status (get_task_by_node_run (nr_id n) ?d1)) (nr_status n)"
      using inv1 unfolding db_inv_def linked_def by blast
    have "t_workflow_run_id t = nr_workflow_run_id n" if "get_task_by_node_run (nr_id n) ?d1 = Some t" for t
    proof -
      have "t \<in> set (tasks ?d1)" "t_node_run_id t = nr_id n"
        using that by (auto simp: get_task_by_node_run_def dest: row_get_in row_get_key)
      then have "get_task (t_id t) ?d1 = Some t" using inv1 get_task_in by (simp add: db_inv_def)
      then obtain m where "get_node (t_node_run_id t) ?d1 = Some m" "nr_workflow_run_id m = t_workflow_run_id t"
        using inv1 unfolding db_inv_def refs_ok_def by blast
      with \<open>get_node (nr_id n) ?d1 = Some n\<close> \<open>t_node_run_id t = nr_id n\<close> show ?thesis by simp
    qed
    with l show "link (map_option (\<lambda>t. t_status (cancel_all_tasks now rid t)) (get_task_by_node_run (nr_id n) ?d1))
        (nr_status (cancel_all_nodes now rid n))" by (rule cancel_all_link)
  next
    fix t assume "t \<in> set (tasks ?d1)"
    then have "get_task (t_id t) ?d1 = Some t" using inv1 get_task_in by (simp add: db_inv_def)
    then show "leased (cancel_all_tasks now rid t)" using inv1 unfolding db_inv_def leases_ok_def by (blast intro: cancel_all_leased)
  next
    show "t_lease_token (cancel_all_tasks now rid t) = t_lease_token t" for t by (simp add: cancel_all_tasks_def)
  qed
  moreover have "progress d ?d3"
  proof (rule progress_trans, rule step(2))
    show "progress ?d1 ?d3"
      by (rule progress_trans, rule progress_map_tasks, rule cancel_all_tasks_step, simp add: cancel_all_tasks_def,
        rule progress_map_nodes, rule cancel_all_nodes_step, simp)
  qed (simp add: cancelled_run_row_def)
  ultimately show ?thesis unfolding res advance_def
    by (intro conjI progress_add_events) (simp_all add: db_inv_events map_nodes_def map_tasks_def upd_run_def)
next
  case False
  then show ?thesis using inv cancel_run_refused [OF inv] by (simp add: advance_def)
qed

section \<open>Properties of the run lifecycle\<close>

lemma row_get_cancelled:
  assumes "snd (cancel_run L now rid d) = (map_nodes (cancel_all_nodes now rid) (map_tasks (cancel_all_tasks now rid)
      (upd_run rid (cancelled_run_row now) d)))\<lparr> events := es \<rparr>"
  shows "get_node k (snd (cancel_run L now rid d)) = map_option (cancel_all_nodes now rid) (get_node k d)"
    and "get_task k (snd (cancel_run L now rid d)) = map_option (cancel_all_tasks now rid) (get_task k d)"
    and "get_run k (snd (cancel_run L now rid d)) =
      (if k = rid then map_option (cancelled_run_row now) (get_run k d) else get_run k d)"
  unfolding assms
  by (auto simp: get_node_def get_task_def get_run_def map_nodes_def map_tasks_def upd_run_def cancelled_run_row_def
      row_get_map row_get_upd cancel_all_tasks_def)

lemma cancel_all_tasks_closes:
  "t_workflow_run_id t = rid \<Longrightarrow> is_execution_task_terminal (t_status (cancel_all_tasks now rid t))"
  by (cases "is_execution_task_terminal (t_status t)") (simp_all add: cancel_all_tasks_def, simp add: status_simps)

lemma cancel_all_keeps:
  "nr_workflow_run_id n \<noteq> rid \<or> is_node_run_terminal (nr_status n) \<Longrightarrow> cancel_all_nodes now rid n = n"
  "t_workflow_run_id t \<noteq> rid \<or> is_execution_task_terminal (t_status t) \<Longrightarrow> cancel_all_tasks now rid t = t"
  by (auto simp: cancel_all_nodes_def in_run_def cancel_all_tasks_def)

text \<open>
  C9: Cancelling a run that is not finished closes it completely: the run is CANCELLED, none of its
  Node Runs and none of its tasks is left open, and no finished Node Run, no finished task and nothing of any other
  run is touched.
\<close>

theorem cancel_closes_run:
  assumes "db_inv L d" "get_run rid d = Some run" "\<not> is_workflow_run_terminal (r_status run)"
    and "d' = snd (cancel_run L now rid d)"
  shows "get_run rid d' = Some (run\<lparr> r_status := W_CANCELLED, r_cancelled_at := Some now, r_finished_at := Some now \<rparr>)
    \<and> (\<forall>k n. get_node k d' = Some n \<longrightarrow> nr_workflow_run_id n = rid \<longrightarrow> is_node_run_terminal (nr_status n))
    \<and> (\<forall>k t. get_task k d' = Some t \<longrightarrow> t_workflow_run_id t = rid \<longrightarrow> is_execution_task_terminal (t_status t))
    \<and> (\<forall>k n. get_node k d = Some n \<longrightarrow> nr_workflow_run_id n \<noteq> rid \<or> is_node_run_terminal (nr_status n) \<longrightarrow>
         get_node k d' = Some n)
    \<and> (\<forall>k t. get_task k d = Some t \<longrightarrow> t_workflow_run_id t \<noteq> rid \<or> is_execution_task_terminal (t_status t) \<longrightarrow>
         get_task k d' = Some t)
    \<and> (\<forall>k. k \<noteq> rid \<longrightarrow> get_run k d' = get_run k d)"
proof -
  obtain es where "snd (cancel_run L now rid d) = (map_nodes (cancel_all_nodes now rid) (map_tasks (cancel_all_tasks now rid)
      (upd_run rid (cancelled_run_row now) d)))\<lparr> events := es \<rparr>"
    using cancel_run_result [OF assms(1-3)] by blast
  note get = row_get_cancelled [OF this, folded assms(4)]
  have node: "is_node_run_terminal (nr_status n)" if "get_node k d' = Some n" "nr_workflow_run_id n = rid" for k n
  proof -
    from that(1) obtain m where m: "n = cancel_all_nodes now rid m" by (auto simp: get)
    with that(2) have "nr_workflow_run_id m = rid" by simp
    then show ?thesis unfolding m by (rule cancel_all_closes)
  qed
  have task: "is_execution_task_terminal (t_status t)" if "get_task k d' = Some t" "t_workflow_run_id t = rid" for k t
  proof -
    from that(1) obtain u where u: "t = cancel_all_tasks now rid u" by (auto simp: get)
    with that(2) have "t_workflow_run_id u = rid" by (simp add: cancel_all_tasks_def split: if_splits)
    then show ?thesis unfolding u by (rule cancel_all_tasks_closes)
  qed
  have frames: "get_node k d' = Some n" if "get_node k d = Some n" "nr_workflow_run_id n \<noteq> rid \<or> is_node_run_terminal (nr_status n)" for k n
    using that cancel_all_keeps(1) by (simp add: get)
  have framet: "get_task k d' = Some t" if "get_task k d = Some t" "t_workflow_run_id t \<noteq> rid \<or> is_execution_task_terminal (t_status t)" for k t
    using that cancel_all_keeps(2) by (simp add: get)
  have run: "get_run rid d' = Some (cancelled_run_row now run)" "\<forall>k. k \<noteq> rid \<longrightarrow> get_run k d' = get_run k d"
    using assms(2) by (simp_all add: get)
  from node task frames framet run show ?thesis unfolding cancelled_run_row_def by blast
qed

theorem cancel_closes_run_witness:
  "get_run ''u0'' (snd (cancel_run demo_lib 7 ''u0'' demo_db)) =
     Some ((demo_run W_RUNNING)\<lparr> r_status := W_CANCELLED, r_cancelled_at := Some 7, r_finished_at := Some 7 \<rparr>)"
proof -
  have "get_run ''u0'' demo_db = Some (demo_run W_RUNNING)" by (simp add: demo_lookups)
  moreover have "\<not> is_workflow_run_terminal (r_status (demo_run W_RUNNING))" by (simp add: demo_run_def status_simps)
  ultimately show ?thesis using cancel_closes_run [OF demo_inv _ _ refl] by blast
qed

text \<open>
  A finished run accepts no lifecycle operation: start, pause, resume and cancel raise and leave
  the database exactly as it was.
\<close>

theorem finished_run_refuses:
  assumes "get_run rid d = Some run" "is_workflow_run_terminal (r_status run)"
  shows "(\<exists>e. start_run L now rid d = (Inl e, d)) \<and> (\<exists>e. pause_run L now rid d = (Inl e, d))
    \<and> (\<exists>e. resume_run L now rid d = (Inl e, d))
    \<and> cancel_run L now rid d = (Inl (RelayviaError ''RUN_ALREADY_TERMINAL'' 409), d)"
proof -
  have "transition_workflow_run (r_status run) s \<noteq> Inr ()" for s
    using run_fsm.check_terminal [OF assms(2)] .
  then have "\<exists>e. transition_workflow_run (r_status run) s = Inl e" for s
    by (metis sum.exhaust_sel old.unit.exhaust)
  then obtain e where e: "\<And>s. transition_workflow_run (r_status run) s = Inl (e s)" by metis
  show ?thesis
    using assms
    by (simp add: start_run_def pause_run_def resume_run_def cancel_run_def get_locked_def e transact_def
        then_transact_def read_back_def)
qed

theorem finished_run_refuses_witness:
  "\<exists>e. resume_run demo_lib 7 ''u0'' (demo_db\<lparr> runs := [demo_run W_FAILED] \<rparr>) =
     (Inl e, demo_db\<lparr> runs := [demo_run W_FAILED] \<rparr>)"
proof -
  have "get_run ''u0'' (demo_db\<lparr> runs := [demo_run W_FAILED] \<rparr>) = Some (demo_run W_FAILED)"
    by (simp add: get_run_def rows demo_run_def)
  moreover have "is_workflow_run_terminal (r_status (demo_run W_FAILED))" by (simp add: demo_run_def status_simps)
  ultimately show ?thesis using finished_run_refuses by blast
qed

text \<open>
  C26: A human decision is taken once. On a Node Run that is not waiting (never asked, or already
  decided) approving, rejecting and submitting are all refused with NODE_RUN_NOT_WAITING and change nothing.
\<close>

theorem decision_taken_once:
  assumes "db_inv L d" "get_node nid d = Some n" "nr_status n \<noteq> N_WAITING"
  shows "approve_node_run L now nid d = (Inl (RelayviaError ''NODE_RUN_NOT_WAITING'' 409), d)
    \<and> reject_node_run L now nid d = (Inl (RelayviaError ''NODE_RUN_NOT_WAITING'' 409), d)
    \<and> submit_node_run L now nid input_data d = (Inl (RelayviaError ''NODE_RUN_NOT_WAITING'' 409), d)"
proof -
  obtain run where "get_run (nr_workflow_run_id n) d = Some run"
    using assms(1,2) unfolding db_inv_def refs_ok_def by blast
  then show ?thesis
    using assms(2,3)
    by (simp add: approve_node_run_def reject_node_run_def submit_node_run_def then_reconcile_def lock_node_run_def
        require_waiting_def transact_def then_transact_def)
qed

theorem decision_taken_once_witness:
  "approve_node_run demo_lib 7 ''u1'' demo_db = (Inl (RelayviaError ''NODE_RUN_NOT_WAITING'' 409), demo_db)"
proof -
  have "get_node ''u1'' demo_db = Some (demo_node ''u1'' ''a'' N_RUNNING)" by (simp add: demo_lookups)
  moreover have "nr_status (demo_node ''u1'' ''a'' N_RUNNING) \<noteq> N_WAITING" by (simp add: demo_node_def)
  ultimately show ?thesis using decision_taken_once [OF demo_inv] by blast
qed

end
