(* ===== verification/Base64.thy ===== *)
theory Base64
  imports PyString
begin

text \<open>
  \<open>base64.b64encode\<close> as the Runner uses it on a patch (\<^verbatim>\<open>runners/runner.py\<close>) and
  \<open>base64.b64decode\<close> as the control plane uses it on a result (\<^verbatim>\<open>domain/runners/service.py\<close>).
  The decoder is CPython's lenient one: characters outside the alphabet are skipped, a complete
  padding ends the text, and a dangling group of six-bit values is a \<open>ValueError\<close> (\<open>None\<close>),
  as is a text with a non-ASCII character.
\<close>

definition b64_char :: "nat \<Rightarrow> char" where
  "b64_char n =
     (if n < 26 then char_of (65 + n)
      else if n < 52 then char_of (71 + n)
      else if n < 62 then char_of (n - 4)
      else if n = 62 then CHR ''+'' else CHR ''/'')"

definition b64_val :: "char \<Rightarrow> nat option" where
  "b64_val c = (let n = of_char c :: nat in
     if 65 \<le> n \<and> n \<le> 90 then Some (n - 65)
     else if 97 \<le> n \<and> n \<le> 122 then Some (n - 71)
     else if 48 \<le> n \<and> n \<le> 57 then Some (n + 4)
     else if n = 43 then Some 62
     else if n = 47 then Some 63
     else None)"

fun b64_encode :: "string \<Rightarrow> string" where
  "b64_encode [] = []"
| "b64_encode [a] = (let x = of_char a :: nat in [b64_char (x div 4), b64_char (x mod 4 * 16), CHR ''='', CHR ''=''])"
| "b64_encode [a, b] = (let x = of_char a :: nat; y = of_char b in
     [b64_char (x div 4), b64_char (x mod 4 * 16 + y div 16), b64_char (y mod 16 * 4), CHR ''=''])"
| "b64_encode (a # b # c # rest) = (let x = of_char a :: nat; y = of_char b; z = of_char c in
     b64_char (x div 4) # b64_char (x mod 4 * 16 + y div 16) # b64_char (y mod 16 * 4 + z div 64) # b64_char (z mod 64)
       # b64_encode rest)"

text \<open>State of the decoder: position in the group, bits left over, padding seen, output so far.\<close>

fun b64_loop :: "nat \<Rightarrow> nat \<Rightarrow> nat \<Rightarrow> string \<Rightarrow> string \<Rightarrow> string option" where
  "b64_loop q left pads acc [] = (if q = 0 then Some (rev acc) else None)"
| "b64_loop q left pads acc (c # cs) =
     (if c = CHR ''='' then
        if 2 \<le> q \<and> 4 \<le> q + Suc pads then Some (rev acc)
        else b64_loop q left (if 2 \<le> q then Suc pads else pads) acc cs
      else (case b64_val c of
          None \<Rightarrow> b64_loop q left pads acc cs
        | Some v \<Rightarrow>
            if q = 0 then b64_loop 1 v 0 acc cs
            else if q = 1 then b64_loop 2 (v mod 16) 0 (char_of (left * 4 + v div 16) # acc) cs
            else if q = 2 then b64_loop 3 (v mod 4) 0 (char_of (left * 16 + v div 4) # acc) cs
            else b64_loop 0 0 0 (char_of (left * 64 + v) # acc) cs))"

definition b64_decode :: "string \<Rightarrow> string option" where
  "b64_decode s = (if \<exists>c\<in>set s. 128 \<le> (of_char c :: nat) then None else b64_loop 0 0 0 [] s)"

section \<open>Round trip\<close>

lemma of_b64_char:
  "n < 64 \<Longrightarrow> (of_char (b64_char n) :: nat) =
     (if n < 26 then 65 + n else if n < 52 then 71 + n else if n < 62 then n - 4 else if n = 62 then 43 else 47)"
  by (simp add: b64_char_def)

lemma b64_char_simps:
  assumes "n < 64"
  shows "b64_val (b64_char n) = Some n" "b64_char n \<noteq> CHR ''=''" "(of_char (b64_char n) :: nat) < 128"
proof -
  show "(of_char (b64_char n) :: nat) < 128" using assms by (auto simp: of_b64_char)
  show "b64_val (b64_char n) = Some n"
    using assms by (simp add: b64_val_def of_b64_char Let_def) arith
  have "(of_char (b64_char n) :: nat) \<noteq> of_char (CHR ''='')" using assms by (simp add: of_b64_char) arith
  then show "b64_char n \<noteq> CHR ''=''" by metis
qed

lemma b64_sextets:
  fixes x y z :: nat
  assumes "x < 256" "y < 256" "z < 256"
  shows "x div 4 < 64" "x mod 4 * 16 < 64" "x mod 4 * 16 + y div 16 < 64" "y mod 16 * 4 < 64"
    "y mod 16 * 4 + z div 64 < 64" "z mod 64 < 64"
    "x div 4 * 4 + (x mod 4 * 16 + y div 16) div 16 = x"
    "(x mod 4 * 16) div 16 = x mod 4"
    "(x mod 4 * 16 + y div 16) mod 16 * 16 + (y mod 16 * 4 + z div 64) div 4 = y"
    "(x mod 4 * 16 + y div 16) mod 16 * 16 + (y mod 16 * 4) div 4 = y"
    "(y mod 16 * 4 + z div 64) mod 4 * 64 + z mod 64 = z"
proof -
  have y: "y div 16 < 16" and z: "z div 64 < 4" and m: "x mod 4 < 4" "y mod 16 < 16" using assms by auto
  show "x div 4 < 64" "z mod 64 < 64" "x mod 4 * 16 < 64" "y mod 16 * 4 < 64" "(x mod 4 * 16) div 16 = x mod 4"
    using assms by auto
  show "x mod 4 * 16 + y div 16 < 64" "y mod 16 * 4 + z div 64 < 64" using y z m by linarith+
  have 1: "(x mod 4 * 16 + y div 16) div 16 = x mod 4" "(x mod 4 * 16 + y div 16) mod 16 = y div 16"
    using y by simp_all
  have 2: "(y mod 16 * 4 + z div 64) div 4 = y mod 16" "(y mod 16 * 4 + z div 64) mod 4 = z div 64"
    using z by simp_all
  show "x div 4 * 4 + (x mod 4 * 16 + y div 16) div 16 = x" unfolding 1 by simp
  show "(x mod 4 * 16 + y div 16) mod 16 * 16 + (y mod 16 * 4 + z div 64) div 4 = y" unfolding 1 2 by simp
  show "(x mod 4 * 16 + y div 16) mod 16 * 16 + (y mod 16 * 4) div 4 = y" unfolding 1 by simp
  show "(y mod 16 * 4 + z div 64) mod 4 * 64 + z mod 64 = z" unfolding 2 by simp
qed

lemma b64_step:
  assumes "n < 64"
  shows "b64_loop 0 left pads acc (b64_char n # cs) = b64_loop 1 n 0 acc cs"
    and "b64_loop (Suc 0) left pads acc (b64_char n # cs) = b64_loop 2 (n mod 16) 0 (char_of (left * 4 + n div 16) # acc) cs"
    and "b64_loop 2 left pads acc (b64_char n # cs) = b64_loop 3 (n mod 4) 0 (char_of (left * 16 + n div 4) # acc) cs"
    and "b64_loop 3 left pads acc (b64_char n # cs) = b64_loop 0 0 0 (char_of (left * 64 + n) # acc) cs"
  using assms by (simp_all add: b64_char_simps)

lemma b64_group:
  assumes "x < 256" "y < 256" "z < 256"
  shows "b64_loop 0 0 0 acc (b64_char (x div 4) # b64_char (x mod 4 * 16 + y div 16) # b64_char (y mod 16 * 4 + z div 64)
       # b64_char (z mod 64) # cs) = b64_loop 0 0 0 (char_of z # char_of y # char_of x # acc) cs"
    and "b64_loop 0 0 0 acc (b64_char (x div 4) # b64_char (x mod 4 * 16 + y div 16) # b64_char (y mod 16 * 4) # cs)
       = b64_loop 3 0 0 (char_of y # char_of x # acc) cs"
    and "b64_loop 0 0 0 acc (b64_char (x div 4) # b64_char (x mod 4 * 16) # cs) = b64_loop 2 0 0 (char_of x # acc) cs"
proof -
  note sx = b64_sextets [OF assms]
  note steps = b64_step(1) [OF sx(1)] b64_step(2) [OF sx(2)] b64_step(2) [OF sx(3)] b64_step(3) [OF sx(4)] b64_step(3) [OF sx(5)]
    b64_step(4) [OF sx(6)]
  have low: "(x mod 4 * 16) mod 16 = 0" "(y mod 16 * 4) mod 4 = 0" "x div 4 * 4 + x mod 4 = x" by simp_all
  show "b64_loop 0 0 0 acc (b64_char (x div 4) # b64_char (x mod 4 * 16 + y div 16) # b64_char (y mod 16 * 4 + z div 64)
       # b64_char (z mod 64) # cs) = b64_loop 0 0 0 (char_of z # char_of y # char_of x # acc) cs"
    by (simp only: steps One_nat_def sx(7,9,11))
  show "b64_loop 0 0 0 acc (b64_char (x div 4) # b64_char (x mod 4 * 16 + y div 16) # b64_char (y mod 16 * 4) # cs)
       = b64_loop 3 0 0 (char_of y # char_of x # acc) cs"
    by (simp only: steps One_nat_def sx(7,10) low)
  show "b64_loop 0 0 0 acc (b64_char (x div 4) # b64_char (x mod 4 * 16) # cs) = b64_loop 2 0 0 (char_of x # acc) cs"
    by (simp only: steps One_nat_def sx(8) low)
qed

lemma b64_loop_encode: "b64_loop 0 0 0 acc (b64_encode s) = Some (rev acc @ s)"
proof (induction s arbitrary: acc rule: b64_encode.induct)
  case (2 a)
  show ?case by (simp only: b64_encode.simps Let_def b64_group(3) [OF of_char_less of_char_less of_char_less]) simp
next
  case (3 a b)
  show ?case by (simp only: b64_encode.simps Let_def b64_group(2) [OF of_char_less of_char_less of_char_less]) simp
next
  case (4 a b c rest)
  show ?case by (simp only: b64_encode.simps Let_def b64_group(1) [OF of_char_less of_char_less of_char_less] 4) simp
qed simp

lemma b64_encode_ascii: "list_all (\<lambda>c. (of_char c :: nat) < 128) (b64_encode s)"
proof (induction s rule: b64_encode.induct)
  case (2 a)
  show ?case by (simp add: Let_def b64_char_simps(3) b64_sextets [OF of_char_less of_char_less of_char_less])
next
  case (3 a b)
  show ?case by (simp add: Let_def b64_char_simps(3) b64_sextets [OF of_char_less of_char_less of_char_less])
next
  case (4 a b c rest)
  then show ?case by (simp add: Let_def b64_char_simps(3) b64_sextets [OF of_char_less of_char_less of_char_less])
qed simp

text \<open>Decoding what the Runner encodes gives back every byte.\<close>

lemma b64_roundtrip: "b64_decode (b64_encode s) = Some s"
proof -
  have "(of_char c :: nat) < 128" if "c \<in> set (b64_encode s)" for c
    using b64_encode_ascii [of s] that by (simp add: list_all_iff)
  then show ?thesis using b64_loop_encode [of "[]" s] by (auto simp: b64_decode_def dest: leD)
qed

end
