(* ===== verification/Runners.thy ===== *)
theory Runners
  imports RunService Artifacts Base64
begin

text \<open>
  Runners (\<^verbatim>\<open>domain/runners/service.py\<close>, \<^verbatim>\<open>domain/runners/models.py\<close>) and the Runner endpoints of
  \<^verbatim>\<open>api/routes/runners.py\<close> that compose them: enrollment and tokens, heartbeats, claiming under
  a lease, the task heartbeat with its cancel signal, and the submission of a result.
\<close>

section \<open>Identity and tokens\<close>

definition RUNNER_NOT_FOUND :: exn where
  "RUNNER_NOT_FOUND = RelayviaError ''RUNNER_NOT_FOUND'' 404"

definition RUNNER_DISABLED :: exn where
  "RUNNER_DISABLED = RelayviaError ''RUNNER_DISABLED'' 409"

definition RUNNER_TASK_STALE :: exn where
  "RUNNER_TASK_STALE = RelayviaError ''RUNNER_TASK_STALE'' 409"

definition runner_online :: "int \<Rightarrow> time \<Rightarrow> runner \<Rightarrow> bool" where
  "runner_online offline_after_seconds now r \<longleftrightarrow>
     rn_status r \<noteq> RS_DISABLED
     \<and> (case rn_last_seen_at r of None \<Rightarrow> False | Some seen \<Rightarrow> seen - now > - timedelta offline_after_seconds)"

definition get_runner :: "string \<Rightarrow> db \<Rightarrow> exn + runner" where
  "get_runner runner_id d = (case get_runner_row runner_id d of None \<Rightarrow> Inl RUNNER_NOT_FOUND | Some r \<Rightarrow> Inr r)"

definition effective_status :: "int \<Rightarrow> time \<Rightarrow> runner \<Rightarrow> runner_status" where
  "effective_status offline_after_seconds now r =
     (if rn_status r = RS_DISABLED then RS_DISABLED
      else if runner_online offline_after_seconds now r then RS_ONLINE else RS_OFFLINE)"

definition token_hash :: "lib \<Rightarrow> string \<Rightarrow> string" where
  "token_hash L tok = lib_sha256 L tok"

definition authenticate_runner :: "lib \<Rightarrow> string \<Rightarrow> string option \<Rightarrow> db \<Rightarrow> exn + runner" where
  "authenticate_runner L runner_id runner_token d =
     ebind (get_runner runner_id d) (\<lambda>r.
       case (runner_token, rn_auth_token_hash r) of
         (Some tok, Some expected) \<Rightarrow>
           if tok = [] \<or> expected = [] \<or> token_hash L tok \<noteq> expected
           then Inl (RelayviaError ''RUNNER_AUTH_FAILED'' 401) else Inr r
       | _ \<Rightarrow> Inl (RelayviaError ''RUNNER_AUTH_FAILED'' 401))"

text \<open>\<open>secrets.token_urlsafe(n)\<close>, drawn from the same supply of random values as the identifiers.\<close>

definition token_urlsafe :: "lib \<Rightarrow> db \<Rightarrow> string \<times> db" where
  "token_urlsafe L d = (lib_token_urlsafe L (uuids d), d\<lparr> uuids := Suc (uuids d) \<rparr>)"

definition seen_row :: "time \<Rightarrow> string \<Rightarrow> string option \<Rightarrow> string list \<Rightarrow> dict \<Rightarrow> runner \<Rightarrow> runner" where
  "seen_row now hostname platform capabilities metadata r = r\<lparr> rn_hostname := hostname, rn_platform := platform,
     rn_capabilities_json := capabilities, rn_metadata_json := metadata, rn_status := RS_ONLINE, rn_last_seen_at := Some now \<rparr>"

definition named_row :: "string \<Rightarrow> runner \<Rightarrow> runner" where
  "named_row name r = r\<lparr> rn_name := name \<rparr>"

definition enroll :: "lib \<Rightarrow> time \<Rightarrow> string \<Rightarrow> string \<Rightarrow> string option \<Rightarrow> string list \<Rightarrow> dict \<Rightarrow> db \<Rightarrow> exn + db \<times> runner \<times> string option" where
  "enroll L now name hostname platform capabilities metadata d =
     (let (tok, d) = token_urlsafe L d;
          (rid, d) = uuid4 L d;
          r = \<lparr> rn_id = rid, rn_name = name, rn_hostname = hostname, rn_platform = platform, rn_status = RS_ONLINE,
            rn_auth_token_hash = Some (token_hash L tok), rn_capabilities_json = capabilities,
            rn_last_seen_at = Some now, rn_metadata_json = metadata \<rparr> in
      Inr (d\<lparr> runners := runners d @ [r] \<rparr>, r, Some tok))"

definition register_runner ::
  "lib \<Rightarrow> time \<Rightarrow> string \<Rightarrow> string \<Rightarrow> string option \<Rightarrow> string list \<Rightarrow> dict \<Rightarrow> string option \<Rightarrow> string option \<Rightarrow> db \<Rightarrow>
   (exn + runner \<times> string option) \<times> db" where
  "register_runner L now name hostname platform capabilities metadata runner_id runner_token d =
     transact d
       (case runner_id of
          Some (c # cs) \<Rightarrow>
            ebind (authenticate_runner L (c # cs) runner_token d) (\<lambda>r.
              if rn_status r = RS_DISABLED then Inl RUNNER_DISABLED
              else
                let d = upd_runner (c # cs) (named_row name) d;
                    d = upd_runner (c # cs) (seen_row now hostname platform capabilities metadata) d in
                ebind (get_runner (c # cs) d) (\<lambda>r. Inr (d, r, None)))
        | _ \<Rightarrow> enroll L now name hostname platform capabilities metadata d)"

definition write_runner :: "string \<Rightarrow> (runner \<Rightarrow> runner) \<Rightarrow> db \<Rightarrow> exn + db \<times> runner" where
  "write_runner runner_id f d =
     ebind (get_runner runner_id d) (\<lambda>_.
     let d = upd_runner runner_id f d in ebind (get_runner runner_id d) (\<lambda>r. Inr (d, r)))"

definition enabled_row :: "lib \<Rightarrow> time \<Rightarrow> bool \<Rightarrow> runner \<Rightarrow> runner" where
  "enabled_row L now enabled r = r\<lparr> rn_status := (if enabled then RS_OFFLINE else RS_DISABLED),
     rn_metadata_json := dset ''enabled_changed_at'' (JStr (lib_isoformat L now)) (rn_metadata_json r) \<rparr>"

definition set_runner_enabled :: "lib \<Rightarrow> time \<Rightarrow> string \<Rightarrow> bool \<Rightarrow> db \<Rightarrow> (exn + runner) \<times> db" where
  "set_runner_enabled L now runner_id enabled d = transact d (write_runner runner_id (enabled_row L now enabled) d)"

definition rotated_row :: "lib \<Rightarrow> time \<Rightarrow> string \<Rightarrow> runner \<Rightarrow> runner" where
  "rotated_row L now tok r = r\<lparr> rn_auth_token_hash := Some (token_hash L tok),
     rn_metadata_json := dset ''token_rotated_at'' (JStr (lib_isoformat L now)) (rn_metadata_json r) \<rparr>"

definition rotate_runner_token :: "lib \<Rightarrow> time \<Rightarrow> string \<Rightarrow> db \<Rightarrow> (exn + runner \<times> string) \<times> db" where
  "rotate_runner_token L now runner_id d =
     transact d (ebind (get_runner runner_id d) (\<lambda>_.
       let (tok, d) = token_urlsafe L d in
       ebind (write_runner runner_id (rotated_row L now tok) d) (\<lambda>(d, r). Inr (d, r, tok))))"

definition revoked_row :: "lib \<Rightarrow> time \<Rightarrow> string \<Rightarrow> runner \<Rightarrow> runner" where
  "revoked_row L now tok r = r\<lparr> rn_auth_token_hash := Some (token_hash L tok), rn_status := RS_DISABLED,
     rn_metadata_json := dset ''revoked_at'' (JStr (lib_isoformat L now)) (rn_metadata_json r) \<rparr>"

definition revoke_runner :: "lib \<Rightarrow> time \<Rightarrow> string \<Rightarrow> db \<Rightarrow> (exn + runner) \<times> db" where
  "revoke_runner L now runner_id d =
     transact d (ebind (get_runner runner_id d) (\<lambda>_.
       let (tok, d) = token_urlsafe L d in write_runner runner_id (revoked_row L now tok) d))"

definition heartbeat_runner ::
  "time \<Rightarrow> string \<Rightarrow> string \<Rightarrow> string option \<Rightarrow> string list \<Rightarrow> dict \<Rightarrow> db \<Rightarrow> (exn + runner) \<times> db" where
  "heartbeat_runner now runner_id hostname platform capabilities metadata d =
     transact d (ebind (get_runner runner_id d) (\<lambda>r.
       if rn_status r = RS_DISABLED then Inl RUNNER_DISABLED
       else write_runner runner_id (seen_row now hostname platform capabilities metadata) d))"

section \<open>Claiming\<close>

definition claimed_running :: "string \<Rightarrow> string \<Rightarrow> time \<Rightarrow> int \<Rightarrow> execution_task \<Rightarrow> execution_task" where
  "claimed_running runner_id lease_token now lease_seconds t = t\<lparr> t_status := T_RUNNING, t_locked_by := Some runner_id,
     t_lease_token := Some lease_token, t_locked_at := Some now, t_lease_expires_at := Some (now + timedelta lease_seconds),
     t_attempt := Suc (t_attempt t), t_started_at := Some now \<rparr>"

definition running_node :: "nat \<Rightarrow> time \<Rightarrow> node_run \<Rightarrow> node_run" where
  "running_node attempt now n = n\<lparr> nr_status := N_RUNNING, nr_attempt := attempt,
     nr_started_at := (case nr_started_at n of None \<Rightarrow> Some now | Some s \<Rightarrow> Some s) \<rparr>"

definition start_node :: "string \<Rightarrow> nat \<Rightarrow> time \<Rightarrow> db \<Rightarrow> exn + db" where
  "start_node node_run_id attempt now d =
     (case get_node node_run_id d of None \<Rightarrow> Inr d
      | Some n \<Rightarrow>
          ebind (if nr_status n \<noteq> N_RUNNING then transition_node_run (nr_status n) N_RUNNING else Inr ()) (\<lambda>_.
            Inr (upd_node node_run_id (running_node attempt now) d)))"

text \<open>The Workspace a task's payload refers to.\<close>

definition payload_workspace :: "execution_task \<Rightarrow> string option" where
  "payload_workspace t =
     (case dget0 (t_payload_json t) ''workspace'' of JObj ref \<Rightarrow> as_str (dget0 ref ''id'') | _ \<Rightarrow> None)"

definition in_use_row :: "string \<Rightarrow> time \<Rightarrow> workspace \<Rightarrow> workspace" where
  "in_use_row runner_id now ws = ws\<lparr> ws_runner_id := Some runner_id, ws_status := WS_IN_USE, ws_updated_at := now \<rparr>"

definition use_workspace :: "string \<Rightarrow> time \<Rightarrow> execution_task \<Rightarrow> db \<Rightarrow> db" where
  "use_workspace runner_id now t d =
     (case payload_workspace t of None \<Rightarrow> d | Some k \<Rightarrow> upd_workspace k (in_use_row runner_id now) d)"

definition runner_claim_locked ::
  "lib \<Rightarrow> int \<Rightarrow> time \<Rightarrow> runner \<Rightarrow> string \<Rightarrow> string \<Rightarrow> db \<Rightarrow> exn + db \<times> execution_task option" where
  "runner_claim_locked L lease_seconds now runner task_id run_id d =
     (case (get_run run_id d, get_task task_id d) of
        (Some run, Some task) \<Rightarrow>
          if r_status run \<noteq> W_RUNNING \<or> t_status task \<noteq> T_PENDING then Inr (d, None)
          else
            let (lease_token, d) = uuid4 L d;
                attempt = Suc (t_attempt task) in
            ebind (transition_execution_task T_CLAIMED T_RUNNING) (\<lambda>_.
            ebind (start_node (t_node_run_id task) attempt now
                (upd_task task_id (claimed_running (rn_id runner) lease_token now lease_seconds) d)) (\<lambda>d.
            Inr (record_event now (t_workflow_run_id task) (Some (t_node_run_id task)) NODE_STARTED
                  (Some (''Node started on Runner '' @ rn_name runner @ '' (attempt '' @ str_nat attempt @ '')''))
                  [(''node_id'', dget0 (t_payload_json task) ''node_id''), (''runner_id'', JStr (rn_id runner)),
                   (''attempt'', JInt (int attempt))] (use_workspace (rn_id runner) now task d),
                 Some (claimed_running (rn_id runner) lease_token now lease_seconds task))))
      | _ \<Rightarrow> Inr (d, None))"

definition runner_claim :: "lib \<Rightarrow> int \<Rightarrow> time \<Rightarrow> runner \<Rightarrow> db \<Rightarrow> (exn + execution_task option) \<times> db" where
  "runner_claim L lease_seconds now runner d =
     transact d
       (case candidate now (rn_id runner) (Some (rn_capabilities_json runner)) d of None \<Rightarrow> Inr (d, None)
        | Some t \<Rightarrow> runner_claim_locked L lease_seconds now runner (t_id t) (t_workflow_run_id t) d)"

definition last_seen_row :: "time \<Rightarrow> runner \<Rightarrow> runner" where
  "last_seen_row now r = r\<lparr> rn_last_seen_at := Some now \<rparr>"

definition lease_until :: "time \<Rightarrow> execution_task \<Rightarrow> execution_task" where
  "lease_until e t = t\<lparr> t_lease_expires_at := Some e \<rparr>"

definition runner_task_heartbeat ::
  "int \<Rightarrow> time \<Rightarrow> string \<Rightarrow> string \<Rightarrow> string \<Rightarrow> db \<Rightarrow> (exn + bool) \<times> db" where
  "runner_task_heartbeat lease_seconds now runner_id task_id lease_token d =
     transact d
       (case get_task task_id d of None \<Rightarrow> Inl RUNNER_TASK_STALE
        | Some t \<Rightarrow>
          if t_locked_by t \<noteq> Some runner_id \<or> t_lease_token t \<noteq> Some lease_token then Inl RUNNER_TASK_STALE
          else
            let d = upd_runner runner_id (last_seen_row now) d in
            if t_status t \<noteq> T_RUNNING then Inr (d, True)
            else if (case get_run (t_workflow_run_id t) d of None \<Rightarrow> True
                     | Some run \<Rightarrow> r_status run \<in> {W_FAILED, W_CANCELLED, W_COMPLETED}) then Inr (d, True)
            else Inr (upd_task task_id (lease_until (now + timedelta lease_seconds)) d, False))"

section \<open>Submission of a result\<close>

record runner_result =
  res_ok :: bool
  res_output :: dict
  res_artifacts :: "dict list"
  res_metadata :: dict
  res_error :: "dict option"

definition runner_retry_backoff_seconds :: "dict \<Rightarrow> int" where
  "runner_retry_backoff_seconds payload = bounded_int (dget_or payload ''retry_backoff_seconds'' (JInt 5)) 5 86400"

definition RUNNER_EXECUTION_FAILED :: dict where
  "RUNNER_EXECUTION_FAILED = [(''code'', JStr ''RUNNER_EXECUTION_FAILED''), (''message'', JStr ''Runner execution failed''),
     (''retryable'', JBool False), (''details'', JObj [])]"

definition result_error :: "lib \<Rightarrow> runner_result \<Rightarrow> dict" where
  "result_error L res = sanitize_error L []
     (case res_error res of None \<Rightarrow> RUNNER_EXECUTION_FAILED | Some e \<Rightarrow> if e = [] then RUNNER_EXECUTION_FAILED else e)"

definition should_retry :: "lib \<Rightarrow> runner_result \<Rightarrow> execution_task \<Rightarrow> bool" where
  "should_retry L res t \<longleftrightarrow>
     \<not> res_ok res \<and> truthy (dget0 (result_error L res) ''retryable'') \<and> int (t_attempt t) < t_max_attempts t"

definition decode_item :: "dict \<Rightarrow> exn + artifact_item" where
  "decode_item item =
     (case dget0 item ''content'' of
        JStr s \<Rightarrow> (case b64_decode s of None \<Rightarrow> Inl (RelayviaError ''INVALID_ARTIFACT_CONTENT'' 422)
                  | Some bytes \<Rightarrow> Inr (ABytes (dpop ''content'' item) bytes))
      | _ \<Rightarrow> Inr (AJson (JObj item)))"

definition decode_items :: "dict list \<Rightarrow> exn + artifact_item list" where
  "decode_items items = foldM (\<lambda>acc item. ebind (decode_item item) (\<lambda>it. Inr (acc @ [it]))) [] items"

definition submit_artifacts ::
  "lib \<Rightarrow> (string \<Rightarrow> string \<Rightarrow> exn + int) \<Rightarrow> int \<Rightarrow> time \<Rightarrow> execution_task \<Rightarrow> runner_result \<Rightarrow> db \<Rightarrow> exn + db \<times> dict list \<times> dict" where
  "submit_artifacts L save max_bytes now t res d =
     (if res_artifacts res = [] \<or> should_retry L res t then Inr (d, [], [])
      else ebind (decode_items (res_artifacts res)) (\<lambda>items.
        register_artifact_candidates L save max_bytes now (t_workflow_run_id t) (t_node_run_id t) items d))"

definition log_event :: "time \<Rightarrow> execution_task \<Rightarrow> string \<Rightarrow> string \<Rightarrow> json \<Rightarrow> db \<Rightarrow> db" where
  "log_event now t runner_id stream text d =
     (case text of
        JStr s \<Rightarrow> if s = [] then d
          else record_event now (t_workflow_run_id t) (Some (t_node_run_id t)) NODE_LOG (Some s)
                 [(''stream'', JStr stream), (''runner_id'', JStr runner_id)] d
      | _ \<Rightarrow> d)"

definition runner_event ::
  "time \<Rightarrow> execution_task \<Rightarrow> string \<Rightarrow> run_event_type \<Rightarrow> string option \<Rightarrow> dict \<Rightarrow> db \<Rightarrow> db" where
  "runner_event now t runner_id ty msg extra d =
     record_event now (t_workflow_run_id t) (Some (t_node_run_id t)) ty msg
       ([(''node_id'', dget0 (t_payload_json t) ''node_id''), (''runner_id'', JStr runner_id)] @ extra) d"

definition done_task :: "time \<Rightarrow> execution_task \<Rightarrow> execution_task" where
  "done_task now t = t\<lparr> t_status := T_COMPLETED, t_finished_at := Some now, t_last_error_json := None \<rparr>"

definition retry_task :: "time \<Rightarrow> int \<Rightarrow> dict \<Rightarrow> execution_task \<Rightarrow> execution_task" where
  "retry_task now backoff error t = (drop_lease t)\<lparr> t_status := T_RETRY_WAIT,
     t_available_at := now + timedelta backoff, t_last_error_json := Some error \<rparr>"

definition failed_task :: "time \<Rightarrow> dict \<Rightarrow> execution_task \<Rightarrow> execution_task" where
  "failed_task now error t = t\<lparr> t_status := T_FAILED, t_finished_at := Some now, t_last_error_json := Some error \<rparr>"

definition failed_node :: "time \<Rightarrow> dict \<Rightarrow> dict \<Rightarrow> dict list \<Rightarrow> node_run \<Rightarrow> node_run" where
  "failed_node now error metadata refs n = n\<lparr> nr_status := N_FAILED, nr_error_json := Some error,
     nr_execution_metadata_json := metadata, nr_artifact_refs_json := refs, nr_finished_at := Some now \<rparr>"

definition runner_node_failed :: "time \<Rightarrow> string \<Rightarrow> dict \<Rightarrow> dict \<Rightarrow> dict list \<Rightarrow> db \<Rightarrow> exn + db" where
  "runner_node_failed now nid error metadata refs d =
     (case get_node nid d of None \<Rightarrow> Inr d
      | Some n \<Rightarrow>
          if nr_status n = N_FAILED then Inr d
          else ebind (transition_node_run (nr_status n) N_FAILED) (\<lambda>_.
            Inr (upd_node nid (failed_node now error metadata refs) d)))"

text \<open>The three outcomes.\<close>

definition submit_ok ::
  "time \<Rightarrow> string \<Rightarrow> execution_task \<Rightarrow> dict \<Rightarrow> dict \<Rightarrow> dict list \<Rightarrow> db \<Rightarrow> exn + db" where
  "submit_ok now runner_id t output metadata refs d =
     ebind (transition_execution_task (t_status t) T_COMPLETED) (\<lambda>_.
     ebind (node_completed now (t_node_run_id t) output metadata refs (upd_task (t_id t) (done_task now) d)) (\<lambda>d.
     Inr (runner_event now t runner_id NODE_COMPLETED (Some ''Node completed on Runner'') [] d)))"

definition submit_retry :: "time \<Rightarrow> string \<Rightarrow> execution_task \<Rightarrow> dict \<Rightarrow> db \<Rightarrow> exn + db" where
  "submit_retry now runner_id t error d =
     (let backoff = runner_retry_backoff_seconds (t_payload_json t) in
      ebind (transition_execution_task (t_status t) T_RETRY_WAIT) (\<lambda>_.
      ebind (node_status (t_node_run_id t) N_RETRYING True (upd_task (t_id t) (retry_task now backoff error) d)) (\<lambda>d.
      Inr (runner_event now t runner_id NODE_RETRYING (Some (''Runner execution retrying in '' @ str_int backoff @ ''s''))
             [(''attempt'', JInt (int (t_attempt t))), (''backoff_seconds'', JInt backoff)] d))))"

definition submit_failed ::
  "lib \<Rightarrow> time \<Rightarrow> string \<Rightarrow> execution_task \<Rightarrow> dict \<Rightarrow> dict \<Rightarrow> dict list \<Rightarrow> db \<Rightarrow> exn + db" where
  "submit_failed L now runner_id t error metadata refs d =
     ebind (transition_execution_task (t_status t) T_FAILED) (\<lambda>_.
     ebind (runner_node_failed now (t_node_run_id t) error metadata (sanitize_artifacts L [] (JArr (map JObj refs)))
              (upd_task (t_id t) (failed_task now error) d)) (\<lambda>d.
     Inr (runner_event now t runner_id NODE_FAILED (as_str (dget0 error ''message'')) [(''error_code'', dget0 error ''code'')] d)))"

text \<open>\<open>_sync_workspace_result\<close>\<close>

definition synced_row :: "lib \<Rightarrow> time \<Rightarrow> runner_result \<Rightarrow> workspace \<Rightarrow> workspace" where
  "synced_row L now res ws =
     (let md = res_metadata res;
          ws = (if truthy (dget0 md ''workspace_path'') then ws\<lparr> ws_path := Some (py_str L (dget0 md ''workspace_path'')) \<rparr> else ws);
          ws = (if truthy (dget0 md ''workspace_branch'') then ws\<lparr> ws_branch := Some (py_str L (dget0 md ''workspace_branch'')) \<rparr> else ws);
          ws = ws\<lparr> ws_updated_at := now \<rparr> in
      if \<not> has_path ws then ws\<lparr> ws_status := WS_FAILED \<rparr>
      else if \<not> res_ok res then ws\<lparr> ws_status := WS_FAILED \<rparr>
      else if is_local_type (ws_workspace_type ws) then ws\<lparr> ws_status := WS_RELEASED \<rparr>
      else ws\<lparr> ws_status := WS_RELEASING,
             ws_metadata_json := dset ''cleanup_requested_at'' (JStr (lib_isoformat L now)) (ws_metadata_json ws) \<rparr>)"

definition sync_workspace_result :: "lib \<Rightarrow> time \<Rightarrow> execution_task \<Rightarrow> runner_result \<Rightarrow> db \<Rightarrow> db" where
  "sync_workspace_result L now t res d =
     (case payload_workspace t of None \<Rightarrow> d
      | Some k \<Rightarrow> if k = [] then d else upd_workspace k (synced_row L now res) d)"

text \<open>The body of the first commit for a task the Runner owns.\<close>

definition submit_body ::
  "lib \<Rightarrow> (string \<Rightarrow> string \<Rightarrow> exn + int) \<Rightarrow> int \<Rightarrow> time \<Rightarrow> string \<Rightarrow> execution_task \<Rightarrow> runner_result \<Rightarrow> db \<Rightarrow> exn + db" where
  "submit_body L save max_bytes now runner_id t res d =
     ebind (submit_artifacts L save max_bytes now t res d) (\<lambda>(d, refs, output_map).
     let error = result_error L res;
         output = dmerge (sanitize_output L [] (JObj (res_output res))) output_map;
         metadata = sanitize_metadata L [] (JObj (res_metadata res));
         d = log_event now t runner_id ''stdout'' (dget0 output ''stdout'') d;
         d = log_event now t runner_id ''stderr'' (dget0 metadata ''stderr'') d in
     ebind (if res_ok res then submit_ok now runner_id t output metadata refs d
            else if should_retry L res t then submit_retry now runner_id t error d
            else submit_failed L now runner_id t error metadata refs d) (\<lambda>d.
     Inr (if should_retry L res t then d else sync_workspace_result L now t res d)))"

text \<open>
  The two commits: the result, then (unless the task is retried) reconciliation of the run. The
  first one yields \<open>None\<close> for a stale call, otherwise the task and whether it is retried.
\<close>

definition submit_commit ::
  "lib \<Rightarrow> (string \<Rightarrow> string \<Rightarrow> exn + int) \<Rightarrow> int \<Rightarrow> time \<Rightarrow> string \<Rightarrow> string \<Rightarrow> string \<Rightarrow> runner_result \<Rightarrow> db \<Rightarrow>
   (exn + (execution_task \<times> bool) option) \<times> db" where
  "submit_commit L save max_bytes now runner_id task_id lease_token res d =
     transact d
       (case get_task task_id d of None \<Rightarrow> Inr (d, None)
        | Some t \<Rightarrow>
          if (case get_run (t_workflow_run_id t) d of None \<Rightarrow> True
              | Some run \<Rightarrow> r_status run \<in> {W_COMPLETED, W_FAILED, W_CANCELLED}) then Inr (d, None)
          else if \<not> owns now t runner_id lease_token then Inr (d, None)
          else ebind (submit_body L save max_bytes now runner_id t res d) (\<lambda>d. Inr (d, Some (t, should_retry L res t))))"

definition after_submit :: "lib \<Rightarrow> time \<Rightarrow> (execution_task \<times> bool) option \<Rightarrow> db \<Rightarrow> exn + db \<times> bool" where
  "after_submit L now first d =
     (case first of
        None \<Rightarrow> Inr (d, False)
      | Some (t, retrying) \<Rightarrow>
          if retrying then Inr (d, True)
          else ebind (reconcile_run L workflow_scheduler now (t_workflow_run_id t) d) (\<lambda>(d, _). Inr (d, True)))"

definition runner_submit ::
  "lib \<Rightarrow> (string \<Rightarrow> string \<Rightarrow> exn + int) \<Rightarrow> int \<Rightarrow> time \<Rightarrow> string \<Rightarrow> string \<Rightarrow> string \<Rightarrow> runner_result \<Rightarrow> db \<Rightarrow> (exn + bool) \<times> db" where
  "runner_submit L save max_bytes now runner_id task_id lease_token res d =
     then_transact (submit_commit L save max_bytes now runner_id task_id lease_token res d) (after_submit L now)"

section \<open>Endpoints\<close>

definition authed :: "lib \<Rightarrow> string \<Rightarrow> string option \<Rightarrow> db \<Rightarrow> (runner \<Rightarrow> (exn + 'a) \<times> db) \<Rightarrow> (exn + 'a) \<times> db" where
  "authed L runner_id runner_token d body =
     (case authenticate_runner L runner_id runner_token d of Inl e \<Rightarrow> (Inl e, d) | Inr r \<Rightarrow> body r)"

definition post_heartbeat where
  "post_heartbeat L now runner_id runner_token hostname platform capabilities metadata d =
     authed L runner_id runner_token d (\<lambda>_. heartbeat_runner now runner_id hostname platform capabilities metadata d)"

definition post_claim ::
  "lib \<Rightarrow> int \<Rightarrow> int \<Rightarrow> time \<Rightarrow> string \<Rightarrow> string option \<Rightarrow> db \<Rightarrow> (exn + execution_task option) \<times> db" where
  "post_claim L offline_after_seconds lease_seconds now runner_id runner_token d =
     authed L runner_id runner_token d (\<lambda>runner.
       if rn_status runner = RS_DISABLED then (Inl RUNNER_DISABLED, d)
       else if \<not> runner_online offline_after_seconds now runner then (Inl (RelayviaError ''RUNNER_OFFLINE'' 409), d)
       else runner_claim L lease_seconds now runner d)"

definition post_task_heartbeat where
  "post_task_heartbeat L lease_seconds now runner_id runner_token task_id lease_token d =
     authed L runner_id runner_token d (\<lambda>runner. runner_task_heartbeat lease_seconds now (rn_id runner) task_id lease_token d)"

definition post_submit_result ::
  "lib \<Rightarrow> (string \<Rightarrow> string \<Rightarrow> exn + int) \<Rightarrow> int \<Rightarrow> time \<Rightarrow> string \<Rightarrow> string option \<Rightarrow> string \<Rightarrow> string \<Rightarrow> runner_result \<Rightarrow> db \<Rightarrow>
   (exn + runner) \<times> db" where
  "post_submit_result L save max_bytes now runner_id runner_token task_id lease_token res d =
     authed L runner_id runner_token d (\<lambda>_.
       case runner_submit L save max_bytes now runner_id task_id lease_token res d of
         (Inl e, d) \<Rightarrow> (Inl e, d)
       | (Inr ok, d) \<Rightarrow> (if ok then get_runner runner_id d else Inl RUNNER_TASK_STALE, d))"

definition post_workspace_cleanup_claim ::
  "lib \<Rightarrow> int \<Rightarrow> time \<Rightarrow> string \<Rightarrow> string option \<Rightarrow> db \<Rightarrow> (exn + workspace option) \<times> db" where
  "post_workspace_cleanup_claim L lease_seconds now runner_id runner_token d =
     authed L runner_id runner_token d (\<lambda>runner.
       if rn_status runner = RS_DISABLED then (Inl RUNNER_DISABLED, d)
       else (case claim_workspace_cleanup L now (rn_id runner) lease_seconds d of
           (Inr (Some ws), d) \<Rightarrow> (Inr (if has_path ws then Some ws else None), d)
         | res \<Rightarrow> res))"

definition post_workspace_cleanup_complete where
  "post_workspace_cleanup_complete L now runner_id runner_token workspace_id ok error d =
     authed L runner_id runner_token d (\<lambda>runner. complete_workspace_cleanup L now (rn_id runner) workspace_id ok error d)"

definition post_artifact_upload where
  "post_artifact_upload L now runner_id runner_token task_id lease_token name ty content_type metadata output_key d =
     authed L runner_id runner_token d (\<lambda>_.
       create_runner_artifact_upload L now runner_id task_id lease_token name ty content_type metadata output_key d)"

text \<open>
  The upload of the content: \<open>declared\<close> is the announced length, \<open>stored\<close> what reading the body
  and storing it gave, the stored size or an error.
\<close>

definition post_artifact_upload_content ::
  "lib \<Rightarrow> int \<Rightarrow> string \<Rightarrow> string option \<Rightarrow> string \<Rightarrow> string \<Rightarrow> string \<Rightarrow> int option \<Rightarrow> exn + int \<Rightarrow> db \<Rightarrow> (exn + artifact) \<times> db" where
  "post_artifact_upload_content L maximum runner_id runner_token artifact_id task_id lease_token declared stored d =
     authed L runner_id runner_token d (\<lambda>_.
       case validate_runner_artifact_upload artifact_id runner_id task_id lease_token d of
         Inl e \<Rightarrow> (Inl e, d)
       | Inr a \<Rightarrow>
           if (case declared of None \<Rightarrow> False | Some n \<Rightarrow> n > maximum)
           then (Inl (RelayviaError ''ARTIFACT_TOO_LARGE'' 413),
                 snd (fail_runner_artifact_upload artifact_id ''artifact exceeds configured size limit'' d))
           else (case stored of
               Inr nbytes \<Rightarrow> (Inr a, snd (finalize_runner_artifact_upload artifact_id nbytes d))
             | Inl e \<Rightarrow>
                 (Inl e, snd (fail_runner_artifact_upload artifact_id
                    (case e of RelayviaError _ _ \<Rightarrow> lib_error_message L e | _ \<Rightarrow> ''artifact storage failed'') d))))"

end
