(* ===== verification/RunnersProps.thy ===== *)
theory RunnersProps
  imports Runners
begin

text \<open>
  Every Runner operation keeps the invariant and refines \<open>progress\<close>; a call with a wrong token
  changes nothing; rotating or revoking a token shuts out the old one; a submission by anyone but
  the owner of the lease changes nothing.
\<close>

section \<open>Writes outside the execution tables\<close>

definition same_exec :: "db \<Rightarrow> db \<Rightarrow> bool" where
  "same_exec d d' \<longleftrightarrow> runs d' = runs d \<and> node_runs d' = node_runs d \<and> tasks d' = tasks d
     \<and> new_tasks d' = new_tasks d \<and> prefix (events d) (events d') \<and> uuids d \<le> uuids d'"

lemma same_exec_lookups:
  assumes "same_exec d d'"
  shows "get_run k d' = get_run k d" "get_node k d' = get_node k d" "get_task k d' = get_task k d"
    "get_task_by_node_run k d' = get_task_by_node_run k d" "new_tasks d' = new_tasks d"
  using assms by (simp_all add: same_exec_def get_run_def get_node_def get_task_def get_task_by_node_run_def)

lemma same_exec_refl [simp]: "same_exec d d"
  by (simp add: same_exec_def)

lemma same_exec_trans [trans]: "same_exec a b \<Longrightarrow> same_exec b c \<Longrightarrow> same_exec a c"
  by (auto simp: same_exec_def intro: prefix_order.trans)

lemma same_exec_writes [simp]:
  "same_exec d (upd_runner k f d)" "same_exec d (upd_workspace k' g d)" "same_exec d (upd_artifact k'' h d)"
  "same_exec d (record_event now rid nid ty msg p d)" "same_exec d (snd (uuid4 L d))" "same_exec d (snd (token_urlsafe L d))"
  "same_exec d (d\<lparr> runners := rs \<rparr>)" "same_exec d (d\<lparr> artifacts := as \<rparr>)"
  by (simp_all add: same_exec_def upd_runner_def upd_workspace_def upd_artifact_def record_event_def uuid4_def token_urlsafe_def)

lemma same_exec_adds: "adds_artifacts d d' \<Longrightarrow> same_exec d d'"
  unfolding adds_artifacts_def
proof (elim conjE exE)
  fix as assume d': "d' = d\<lparr> artifacts := artifacts d @ as, uuids := uuids d' \<rparr>" and "uuids d \<le> uuids d'"
  moreover have "same_exec d (d\<lparr> artifacts := artifacts d @ as, uuids := u \<rparr>)" if "uuids d \<le> u" for u
    using that by (simp add: same_exec_def)
  ultimately show "same_exec d d'" by metis
qed

lemma same_exec_inv:
  assumes "same_exec d d'" "db_inv L d"
  shows "db_inv L d'"
proof -
  have "issued L d \<subseteq> issued L d'" using assms(1) by (auto simp: issued_def same_exec_def)
  with assms show ?thesis
    unfolding db_inv_def refs_ok_def linked_def leases_ok_def same_exec_lookups [OF assms(1)]
    by (auto simp: same_exec_def unique_rows_def ids_issued_def)
qed

lemma same_exec_progress:
  assumes "same_exec d d'"
  shows "progress d d'"
proof -
  from assms obtain es where "events d' = events d @ es" by (auto simp: same_exec_def prefix_def)
  with assms show ?thesis
    by (intro progress_same_rows [of _ _ "[]" "[]" "[]" es]) (simp_all add: same_exec_def)
qed

lemma advance_same_exec: "db_inv L d \<Longrightarrow> same_exec d d' \<Longrightarrow> advance L d d'"
  by (simp add: advance_def same_exec_inv same_exec_progress)

lemma advance_refl: "db_inv L d \<Longrightarrow> advance L d d"
  by (simp add: advance_def)

lemma advance_trans: "advance L a b \<Longrightarrow> advance L b c \<Longrightarrow> advance L a c"
  by (auto simp: advance_def intro: progress_trans)

lemma advance_then_same: "advance L d d1 \<Longrightarrow> same_exec d1 d2 \<Longrightarrow> advance L d d2"
  using advance_same_exec [of L d1 d2] advance_trans [of L d d1 d2] by (simp add: advance_def)

lemma advance_commit:
  assumes "db_inv L d" and "\<And>d' x. body = Inr (d', x) \<Longrightarrow> advance L d d'"
  shows "advance L d (snd (transact d body))"
  by (rule advance_transact [OF assms(1)]) (use assms(2) db_inv_settled in \<open>force simp: advance_def\<close>)

lemma advance_commit_same:
  assumes "db_inv L d" and "\<And>d' x. body = Inr (d', x) \<Longrightarrow> same_exec d d'"
  shows "advance L d (snd (transact d body))"
  using assms advance_same_exec by (intro advance_commit) blast+

text \<open>A task and its node move together.\<close>

lemma advance_move:
  assumes "db_inv L d" "get_task tid d = Some t" "get_node (t_node_run_id t) d = Some n" "task_frame f" "node_frame g"
    and "link (Some (t_status (f t))) (nr_status (g n))" "leased (f t)"
    and "\<And>t k. t_lease_token (f t) = Some k \<Longrightarrow> t_lease_token t = Some k \<or> k \<in> issued L d"
    and "task_step t (f t)" "node_step n (g n)"
  shows "advance L d (upd_node (t_node_run_id t) g (upd_task tid f d))"
proof -
  have "progress d (upd_task tid f d)"
    by (rule progress_upd_task) (use assms in \<open>auto simp: task_frame_def\<close>)
  moreover have "progress (upd_task tid f d) (upd_node (t_node_run_id t) g (upd_task tid f d))"
    by (rule progress_upd_node) (use assms in \<open>auto simp: rows node_frame_def\<close>)
  ultimately show ?thesis
    unfolding advance_def using db_inv_move [OF assms(1-8)] progress_trans by blast
qed

section \<open>Runner rows\<close>

lemma write_runner_same: "write_runner k f d = Inr (d', r) \<Longrightarrow> same_exec d d'"
  by (auto simp: write_runner_def Let_def outcome)

lemma advance_runner_rows:
  assumes "db_inv L d"
  shows "advance L d (snd (set_runner_enabled L now k b d))"
    and "advance L d (snd (rotate_runner_token L now k d))"
    and "advance L d (snd (revoke_runner L now k d))"
    and "advance L d (snd (heartbeat_runner now k h p caps md d))"
    and "advance L d (snd (register_runner L now name h p caps md rid tok d))"
proof -
  show "advance L d (snd (set_runner_enabled L now k b d))"
    unfolding set_runner_enabled_def by (rule advance_commit_same [OF assms]) (rule write_runner_same)
  show "advance L d (snd (rotate_runner_token L now k d))"
    unfolding rotate_runner_token_def
    by (rule advance_commit_same [OF assms])
      (auto simp: outcome Let_def case_prod_beta dest!: write_runner_same intro: same_exec_trans [OF same_exec_writes(6)])
  show "advance L d (snd (revoke_runner L now k d))"
    unfolding revoke_runner_def
    by (rule advance_commit_same [OF assms])
      (auto simp: outcome Let_def case_prod_beta dest!: write_runner_same intro: same_exec_trans [OF same_exec_writes(6)])
  show "advance L d (snd (heartbeat_runner now k h p caps md d))"
    unfolding heartbeat_runner_def
    by (rule advance_commit_same [OF assms]) (auto simp: outcome split: if_splits dest: write_runner_same)
  have "same_exec d (upd_runner j g (upd_runner j f d))" for f g j
    by (rule same_exec_trans [OF same_exec_writes(1) same_exec_writes(1)])
  moreover have "same_exec d d'" if "enroll L now name h p caps md d = Inr (d', x)" for d' x
  proof -
    have "d' = d\<lparr> uuids := Suc (Suc (uuids d)), runners := runners d' \<rparr>"
      using that by (auto simp: enroll_def uuid4_def token_urlsafe_def Let_def)
    then have "runs d' = runs d \<and> node_runs d' = node_runs d \<and> tasks d' = tasks d \<and> new_tasks d' = new_tasks d
      \<and> events d' = events d \<and> uuids d' = Suc (Suc (uuids d))" by (metis (no_types, lifting) db.select_convs db.surjective db.update_convs(7,15))
    then show ?thesis by (simp add: same_exec_def)
  qed
  ultimately show "advance L d (snd (register_runner L now name h p caps md rid tok d))"
    unfolding register_runner_def
    by (intro advance_commit_same [OF assms])
      (auto simp: outcome Let_def split: option.splits list.splits if_splits)
qed

section \<open>Claim\<close>

lemma claimed_running_step:
  assumes "t_status t = T_PENDING"
  shows "task_step t (claimed_running w k now secs t)"
proof -
  have "task_fsm.history T_PENDING T_CLAIMED" by (rule task_fsm.history_one) (simp add: status_simps)
  moreover have "transition_execution_task T_CLAIMED T_RUNNING = Inr ()" by (simp add: status_simps)
  ultimately have "task_fsm.history T_PENDING T_RUNNING" by (rule task_fsm.history.step)
  then show ?thesis using assms by (simp add: task_step_def claimed_running_def status_simps)
qed

lemma running_node_step:
  assumes "nr_status n = N_QUEUED \<or> nr_status n = N_RUNNING"
  shows "node_step n (running_node a now n)"
proof (cases "nr_status n = N_RUNNING")
  case True
  then show ?thesis by (simp add: node_step_def running_node_def node_fsm.history.refl status_simps)
next
  case False
  with assms have "transition_node_run (nr_status n) N_RUNNING = Inr ()" by (simp add: status_simps)
  then show ?thesis by (intro node_step_status) (simp_all add: running_node_def)
qed

lemma start_node_upd:
  assumes "get_node nid d = Some n" "start_node nid a now d = Inr d'"
  shows "d' = upd_node nid (running_node a now) d"
  using assms by (auto simp: start_node_def outcome)

lemma use_workspace_same [simp]: "same_exec d (use_workspace w now t d)"
  by (simp add: use_workspace_def split: option.splits)

lemma advance_runner_claim_locked:
  assumes inv: "db_inv L d" and res: "runner_claim_locked L secs now r tid rid d = Inr (d', x)"
  shows "advance L d d'"
proof (cases "d' = d")
  case True
  then show ?thesis using inv by (simp add: advance_refl)
next
  case False
  let ?d1 = "snd (uuid4 L d)"
  let ?f = "claimed_running (rn_id r) (fst (uuid4 L d)) now secs"
  from res False obtain run t d2 where t: "get_task tid d = Some t" "t_status t = T_PENDING"
    and d2: "start_node (t_node_run_id t) (Suc (t_attempt t)) now (upd_task tid ?f ?d1) = Inr d2"
    and d': "same_exec d2 d'"
    by (auto simp: runner_claim_locked_def outcome Let_def case_prod_beta split: option.splits if_splits
        intro: same_exec_trans [OF use_workspace_same same_exec_writes(4)])
  have inv1: "db_inv L ?d1" using inv by (rule db_inv_uuid)
  have t1: "get_task tid ?d1 = Some t" using t(1) by (simp add: uuid4_def get_task_def)
  obtain n where n: "get_node (t_node_run_id t) ?d1 = Some n" "link (Some (t_status t)) (nr_status n)"
    using task_node_link [OF inv1 t1] .
  have "d2 = upd_node (t_node_run_id t) (running_node (Suc (t_attempt t)) now) (upd_task tid ?f ?d1)"
    using d2 by (rule start_node_upd [rotated]) (simp add: rows n)
  also have "advance L ?d1 \<dots>"
    using inv1 t1 n(1)
  proof (rule advance_move)
    show "task_step t (?f t)" using t(2) by (rule claimed_running_step)
    show "node_step n (running_node (Suc (t_attempt t)) now n)" using n(2) t(2) by (intro running_node_step) (auto simp: link_cases)
    show "t_lease_token u = Some k \<or> k \<in> issued L ?d1" if "t_lease_token (?f u) = Some k" for u k
      using that uuid4_issued [of L d] by (simp add: claimed_running_def)
  qed (simp_all add: task_frame_def node_frame_def claimed_running_def running_node_def leased_def)
  finally have "advance L ?d1 d2" .
  moreover have "advance L d2 d'" using calculation d' by (intro advance_same_exec) (simp_all add: advance_def)
  ultimately show ?thesis using advance_same_exec [OF inv same_exec_writes(5)] by (blast intro: advance_trans)
qed

lemma advance_runner_claim: "db_inv L d \<Longrightarrow> advance L d (snd (runner_claim L secs now r d))"
  unfolding runner_claim_def
  by (rule advance_commit) (auto split: option.splits intro: advance_refl advance_runner_claim_locked)

section \<open>Task heartbeat\<close>

lemma advance_runner_task_heartbeat:
  assumes inv: "db_inv L d"
  shows "advance L d (snd (runner_task_heartbeat secs now w tid k d))"
  unfolding runner_task_heartbeat_def
proof (rule advance_commit [OF inv], goal_cases)
  case (1 d' b)
  let ?d1 = "upd_runner w (last_seen_row now) d"
  let ?f = "lease_until (now + timedelta secs)"
  from 1 obtain t where t: "get_task tid d = Some t" "t_locked_by t = Some w" "t_lease_token t = Some k"
    by (auto split: option.splits if_splits)
  with 1 have "d' = ?d1 \<or> t_status t = T_RUNNING \<and> d' = upd_task tid ?f ?d1"
    by (auto simp: Let_def split: if_splits)
  moreover have a1: "advance L d ?d1" using inv by (rule advance_same_exec) simp
  moreover have "advance L ?d1 (upd_task tid ?f ?d1)" if run: "t_status t = T_RUNNING"
  proof -
    have t1: "get_task tid ?d1 = Some t" using t(1) by (simp add: rows)
    have inv1: "db_inv L ?d1" using a1 by (simp add: advance_def)
    have "leased t" using inv t(1) by (auto simp: db_inv_def leases_ok_def)
    then have "db_inv L (upd_task tid ?f ?d1)"
      using run by (intro db_inv_upd_task [OF inv1 t1]) (auto simp: task_frame_def lease_until_def leased_def)
    moreover have "task_step t (?f t)" using run by (simp add: task_step_def lease_until_def task_fsm.history.refl status_simps)
    then have "progress ?d1 (upd_task tid ?f ?d1)"
      using t1 by (intro progress_upd_task) (simp_all add: lease_until_def)
    ultimately show ?thesis by (simp add: advance_def)
  qed
  ultimately show ?case by (blast intro: advance_trans)
qed

section \<open>Submission\<close>

lemma log_event_same [simp]: "same_exec d (log_event now t w s text d)"
  by (simp add: log_event_def split: json.splits)

lemma runner_event_same [simp]: "same_exec d (runner_event now t w ty msg extra d)"
  by (simp add: runner_event_def)

lemma sync_workspace_same [simp]: "same_exec d (sync_workspace_result L now t res d)"
  by (simp add: sync_workspace_result_def split: option.splits)

lemma submit_artifacts_same:
  "submit_artifacts L save mx now t res d = Inr (d', refs, om) \<Longrightarrow> new_tasks d = [] \<Longrightarrow> same_exec d d'"
  by (auto simp: submit_artifacts_def outcome split: if_splits dest: register_candidates_result(1) intro: same_exec_adds)

text \<open>The task and node a Runner reports on: owned, so claimed or running.\<close>

lemma advance_submit_ok:
  assumes inv: "db_inv L d" and t: "get_task (t_id t) d = Some t" and res: "submit_ok now w t out md refs d = Inr d'"
  shows "advance L d d'"
proof -
  let ?g = "\<lambda>n. n\<lparr> nr_status := N_COMPLETED, nr_output_json := Some out, nr_execution_metadata_json := md,
      nr_artifact_refs_json := refs, nr_finished_at := Some now \<rparr>"
  obtain n where n: "get_node (t_node_run_id t) d = Some n" using task_node_link [OF inv t] .
  with res have ok: "transition_execution_task (t_status t) T_COMPLETED = Inr ()" "transition_node_run (nr_status n) N_COMPLETED = Inr ()"
    and d': "d' = runner_event now t w NODE_COMPLETED (Some ''Node completed on Runner'') []
      (upd_node (t_node_run_id t) ?g (upd_task (t_id t) (done_task now) d))"
    by (auto simp: submit_ok_def outcome node_completed_def rows)
  have "advance L d (upd_node (t_node_run_id t) ?g (upd_task (t_id t) (done_task now) d))"
    using inv t n
  proof (rule advance_move)
    show "task_step t (done_task now t)" using ok(1) by (intro task_step_status) (simp_all add: done_task_def)
    show "node_step n (?g n)" using ok(2) by (intro node_step_status) simp_all
  qed (simp_all add: task_frame_def node_frame_def done_task_def leased_def)
  then show ?thesis unfolding d' by (rule advance_then_same) simp
qed

lemma advance_submit_retry:
  assumes inv: "db_inv L d" and t: "get_task (t_id t) d = Some t" and res: "submit_retry now w t err d = Inr d'"
    and live: "t_status t = T_CLAIMED \<or> t_status t = T_RUNNING"
  shows "advance L d d'"
proof -
  let ?f = "retry_task now (runner_retry_backoff_seconds (t_payload_json t)) err"
  let ?g = "\<lambda>n. n\<lparr> nr_status := N_RETRYING \<rparr>"
  obtain n where n: "get_node (t_node_run_id t) d = Some n" "link (Some (t_status t)) (nr_status n)"
    using task_node_link [OF inv t] .
  then have "nr_status n \<noteq> N_RETRYING" using live by (auto simp: link_cases)
  with res n(1) have ok: "transition_execution_task (t_status t) T_RETRY_WAIT = Inr ()" "transition_node_run (nr_status n) N_RETRYING = Inr ()"
    and d': "same_exec (upd_node (t_node_run_id t) ?g (upd_task (t_id t) ?f d)) d'"
    by (auto simp: submit_retry_def Let_def outcome node_status_def rows)
  have "advance L d (upd_node (t_node_run_id t) ?g (upd_task (t_id t) ?f d))"
    using inv t n(1)
  proof (rule advance_move)
    show "task_step t (?f t)" using ok(1) by (intro task_step_status) (simp_all add: retry_task_def drop_lease_def)
    show "node_step n (?g n)" using ok(2) by (intro node_step_status) simp_all
  qed (simp_all add: task_frame_def node_frame_def retry_task_def drop_lease_def leased_def)
  then show ?thesis using d' by (rule advance_then_same)
qed

lemma advance_submit_failed:
  assumes inv: "db_inv L d" and t: "get_task (t_id t) d = Some t" and res: "submit_failed L now w t err md refs d = Inr d'"
    and live: "\<not> is_execution_task_terminal (t_status t)"
  shows "advance L d d'"
proof -
  let ?g = "failed_node now err md (sanitize_artifacts L [] (JArr (map JObj refs)))"
  obtain n where n: "get_node (t_node_run_id t) d = Some n" "link (Some (t_status t)) (nr_status n)"
    using task_node_link [OF inv t] .
  then have "nr_status n \<noteq> N_FAILED" using live_node_not_terminal live by (force simp: status_simps)
  with res n(1) have ok: "transition_execution_task (t_status t) T_FAILED = Inr ()" "transition_node_run (nr_status n) N_FAILED = Inr ()"
    and d': "same_exec (upd_node (t_node_run_id t) ?g (upd_task (t_id t) (failed_task now err) d)) d'"
    by (auto simp: submit_failed_def outcome runner_node_failed_def rows)
  have "advance L d (upd_node (t_node_run_id t) ?g (upd_task (t_id t) (failed_task now err) d))"
    using inv t n(1)
  proof (rule advance_move)
    show "task_step t (failed_task now err t)" using ok(1) by (intro task_step_status) (simp_all add: failed_task_def)
    show "node_step n (?g n)" using ok(2) by (intro node_step_status) (simp_all add: failed_node_def)
  qed (simp_all add: task_frame_def node_frame_def failed_task_def failed_node_def leased_def)
  then show ?thesis using d' by (rule advance_then_same)
qed

lemma advance_submit_body:
  assumes inv: "db_inv L d" and t: "get_task (t_id t) d = Some t" and own: "owns now t w k"
    and res: "submit_body L save mx now w t r d = Inr d'"
  shows "advance L d d'"
proof -
  from res obtain d1 refs om where arts: "submit_artifacts L save mx now t r d = Inr (d1, refs, om)"
    by (auto simp: submit_body_def outcome)
  define out where "out = dmerge (sanitize_output L [] (JObj (res_output r))) om"
  define md where "md = sanitize_metadata L [] (JObj (res_metadata r))"
  define d2 where "d2 = log_event now t w ''stderr'' (dget0 md ''stderr'') (log_event now t w ''stdout'' (dget0 out ''stdout'') d1)"
  have "ebind (if res_ok r then submit_ok now w t out md refs d2
      else if should_retry L r t then submit_retry now w t (result_error L r) d2
      else submit_failed L now w t (result_error L r) md refs d2)
      (\<lambda>d. Inr (if should_retry L r t then d else sync_workspace_result L now t r d)) = Inr d'"
    using res unfolding submit_body_def arts ebind.simps prod.case Let_def out_def md_def d2_def .
  then obtain d3 where d3: "(if res_ok r then submit_ok now w t out md refs d2
      else if should_retry L r t then submit_retry now w t (result_error L r) d2
      else submit_failed L now w t (result_error L r) md refs d2) = Inr d3"
    and d': "d' = (if should_retry L r t then d3 else sync_workspace_result L now t r d3)"
    unfolding ebind_eq_Inr by blast
  have "same_exec d d1" using arts inv by (intro submit_artifacts_same) (simp_all add: db_inv_def)
  then have s2: "same_exec d d2" unfolding d2_def by (rule same_exec_trans [OF _ same_exec_trans [OF log_event_same log_event_same]])
  then have inv2: "db_inv L d2" and t2: "get_task (t_id t) d2 = Some t"
    using inv t by (simp_all add: same_exec_inv same_exec_lookups)
  have live: "t_status t = T_CLAIMED \<or> t_status t = T_RUNNING" using owned_live [OF inv t own] .
  then have nt: "\<not> is_execution_task_terminal (t_status t)" by (auto simp: status_simps)
  have "advance L d2 d3"
    using d3 advance_submit_ok [OF inv2 t2] advance_submit_retry [OF inv2 t2 _ live] advance_submit_failed [OF inv2 t2 _ nt]
    by (auto split: if_splits)
  moreover have "advance L d3 d'"
    unfolding d' using calculation by (intro advance_same_exec) (simp_all add: advance_def)
  ultimately show ?thesis using advance_same_exec [OF inv s2] by (blast intro: advance_trans)
qed

lemma advance_submit_commit:
  assumes inv: "db_inv L d"
  shows "advance L d (snd (submit_commit L save mx now w tid k r d))"
  unfolding submit_commit_def
proof (rule advance_commit [OF inv], goal_cases)
  case (1 d' x)
  show ?case
  proof (cases "d' = d")
    case True
    then show ?thesis using inv by (simp add: advance_refl)
  next
    case False
    with 1 obtain t where t: "get_task tid d = Some t" "owns now t w k" "submit_body L save mx now w t r d = Inr d'"
      by (auto simp: outcome split: option.splits if_splits)
    then have "t_id t = tid" by (auto dest: get_task_key)
    with t show ?thesis using advance_submit_body [OF inv] by blast
  qed
qed

lemma after_submit_step:
  assumes inv: "db_inv L d" and inj: "inj (lib_uuid4 L)" and res: "after_submit L now x d = Inr (d', b)"
  shows "db_inv L (settle d') \<and> progress d d'"
proof -
  have st: "db_inv L (settle d)" using inv by (simp add: db_inv_settled)
  have rec: "db_inv L (settle d2) \<and> progress d d2" if "reconcile_run L workflow_scheduler now rid d = Inr (d2, z)" for rid d2 z
    using reconcile_step [OF st inj that] by blast
  from res show ?thesis
    using st rec by (auto simp: after_submit_def outcome split: option.splits prod.splits if_splits)
qed

lemma advance_runner_submit:
  assumes inv: "db_inv L d" and inj: "inj (lib_uuid4 L)"
  shows "advance L d (snd (runner_submit L save mx now w tid k r d))"
  unfolding runner_submit_def
  by (rule advance_then_transact [OF advance_submit_commit [OF inv]]) (rule after_submit_step [OF _ inj])

section \<open>The contract of an authenticated endpoint\<close>

text \<open>
  Every endpoint a Runner calls authenticates it first: without the current token the call is the
  authentication error and the database stays as it was.
\<close>

locale runner_endpoint =
  fixes L :: lib and runner_id :: string and op :: "string option \<Rightarrow> db \<Rightarrow> (exn + 'a) \<times> db"
  assumes gate: "authenticate_runner L runner_id tok d = Inl e \<Longrightarrow> op tok d = (Inl e, d)"
begin

lemma succeeds_only_authenticated:
  assumes "op tok d = (Inr x, d')"
  obtains r where "authenticate_runner L runner_id tok d = Inr r"
  using assms gate by (cases "authenticate_runner L runner_id tok d") auto

text \<open>Guessing tokens: as long as none of them authenticates, nothing happens.\<close>

lemma failed_guesses:
  assumes "\<And>tok. tok \<in> set toks \<Longrightarrow> \<exists>e. authenticate_runner L runner_id tok d = Inl e"
  shows "fold (\<lambda>tok d. snd (op tok d)) toks d = d"
  using assms by (induction toks) (auto dest!: gate split: prod.splits, metis gate snd_conv)

end

interpretation heartbeat_endpoint: runner_endpoint L rid "\<lambda>tok d. post_heartbeat L now rid tok h p caps md d"
  by unfold_locales (simp add: post_heartbeat_def authed_def)

interpretation claim_endpoint: runner_endpoint L rid "\<lambda>tok d. post_claim L off secs now rid tok d"
  by unfold_locales (simp add: post_claim_def authed_def)

interpretation task_heartbeat_endpoint: runner_endpoint L rid "\<lambda>tok d. post_task_heartbeat L secs now rid tok tid k d"
  by unfold_locales (simp add: post_task_heartbeat_def authed_def)

interpretation submit_endpoint: runner_endpoint L rid "\<lambda>tok d. post_submit_result L save mx now rid tok tid k res d"
  by unfold_locales (simp add: post_submit_result_def authed_def)

interpretation cleanup_claim_endpoint: runner_endpoint L rid "\<lambda>tok d. post_workspace_cleanup_claim L secs now rid tok d"
  by unfold_locales (simp add: post_workspace_cleanup_claim_def authed_def)

interpretation cleanup_complete_endpoint: runner_endpoint L rid "\<lambda>tok d. post_workspace_cleanup_complete L now rid tok wid ok err d"
  by unfold_locales (simp add: post_workspace_cleanup_complete_def authed_def)

interpretation upload_endpoint: runner_endpoint L rid "\<lambda>tok d. post_artifact_upload L now rid tok tid k name ty ct md key d"
  by unfold_locales (simp add: post_artifact_upload_def authed_def)

interpretation upload_content_endpoint: runner_endpoint L rid "\<lambda>tok d. post_artifact_upload_content L mx rid tok aid tid k decl stored d"
  by unfold_locales (simp add: post_artifact_upload_content_def authed_def)

lemma authenticate_runner_iff:
  "authenticate_runner L rid tok d = Inr r \<longleftrightarrow>
     get_runner_row rid d = Some r \<and> lib_sha256 L (the tok) \<noteq> []
     \<and> (\<exists>t. tok = Some t \<and> t \<noteq> [] \<and> rn_auth_token_hash r = Some (lib_sha256 L t))"
  by (auto simp: authenticate_runner_def get_runner_def token_hash_def outcome split: option.splits if_splits)

lemma authenticate_runner_error:
  assumes "get_runner_row rid d = Some r" and "\<And>t. tok = Some t \<Longrightarrow> rn_auth_token_hash r \<noteq> Some (lib_sha256 L t)"
  shows "authenticate_runner L rid tok d = Inl (RelayviaError ''RUNNER_AUTH_FAILED'' 401)"
  using assms by (auto simp: authenticate_runner_def get_runner_def token_hash_def split: option.splits)

section \<open>Properties of Runners\<close>

text \<open>
  C20: Authentication guards every Runner endpoint. A caller that does not present the token whose
  hash is stored for the Runner gets RUNNER_AUTH_FAILED from all eight endpoints and changes nothing: no heartbeat, no
  claim, no lease renewal, no result, no workspace cleanup and no artifact upload.
\<close>

theorem wrong_token_changes_nothing:
  assumes "get_runner_row rid d = Some r" and "\<And>t. tok = Some t \<Longrightarrow> rn_auth_token_hash r \<noteq> Some (lib_sha256 L t)"
    and "e = RelayviaError ''RUNNER_AUTH_FAILED'' 401"
  shows "post_heartbeat L now rid tok h p caps md d = (Inl e, d)
    \<and> post_claim L off secs now rid tok d = (Inl e, d)
    \<and> post_task_heartbeat L secs now rid tok tid k d = (Inl e, d)
    \<and> post_submit_result L save mx now rid tok tid k res d = (Inl e, d)
    \<and> post_workspace_cleanup_claim L secs now rid tok d = (Inl e, d)
    \<and> post_workspace_cleanup_complete L now rid tok wid ok err d = (Inl e, d)
    \<and> post_artifact_upload L now rid tok tid k name ty ct md key d = (Inl e, d)
    \<and> post_artifact_upload_content L mx rid tok aid tid k decl stored d = (Inl e, d)"
proof -
  have auth: "authenticate_runner L rid tok d = Inl e"
    using authenticate_runner_error [OF assms(1), of tok L] assms(2,3) by simp
  show ?thesis
    by (intro conjI heartbeat_endpoint.gate claim_endpoint.gate task_heartbeat_endpoint.gate submit_endpoint.gate
        cleanup_claim_endpoint.gate cleanup_complete_endpoint.gate upload_endpoint.gate upload_content_endpoint.gate auth)
qed

definition demo_runner :: runner where
  "demo_runner = \<lparr> rn_id = ''r1'', rn_name = ''R'', rn_hostname = ''h'', rn_platform = None, rn_status = RS_ONLINE,
     rn_auth_token_hash = Some ''#tok'', rn_capabilities_json = [''codex''], rn_last_seen_at = Some 0, rn_metadata_json = [] \<rparr>"

theorem wrong_token_changes_nothing_witness:
  "post_claim demo_lib 60 60 5 ''r1'' (Some ''other'') (demo_db\<lparr> runners := [demo_runner] \<rparr>)
     = (Inl (RelayviaError ''RUNNER_AUTH_FAILED'' 401), demo_db\<lparr> runners := [demo_runner] \<rparr>)"
proof -
  have "get_runner_row ''r1'' (demo_db\<lparr> runners := [demo_runner] \<rparr>) = Some demo_runner"
    by (simp add: get_runner_row_def row_get_Cons demo_runner_def)
  moreover have "rn_auth_token_hash demo_runner \<noteq> Some (lib_sha256 demo_lib ''other'')"
    by (simp add: demo_runner_def demo_lib_def)
  ultimately show ?thesis by (blast intro: wrong_token_changes_nothing [THEN conjunct2, THEN conjunct1])
qed

lemma get_upd_runner:
  "(\<And>r. rn_id (f r) = rn_id r) \<Longrightarrow> get_runner_row k (upd_runner k f d) = map_option f (get_runner_row k d)"
  by (simp add: runner_table.get_upd)

lemma get_runner_row_token: "get_runner_row k (snd (token_urlsafe L d)) = get_runner_row k d"
  by (simp add: token_urlsafe_def get_runner_row_def)

lemma rotate_result:
  assumes "get_runner_row rid d = Some r" "new_tasks d = []"
  shows "\<exists>d'. rotate_runner_token L now rid d = (Inr (rotated_row L now (lib_token_urlsafe L (uuids d)) r, lib_token_urlsafe L (uuids d)), d')
    \<and> get_runner_row rid d' = Some (rotated_row L now (lib_token_urlsafe L (uuids d)) r)"
  using assms
  by (simp add: rotate_runner_token_def get_runner_def write_runner_def token_urlsafe_def Let_def transact_def flush_def
      get_runner_row_def upd_runner_def row_get_upd rotated_row_def)

lemma revoke_result:
  assumes "get_runner_row rid d = Some r" "new_tasks d = []"
  shows "\<exists>d'. revoke_runner L now rid d = (Inr (revoked_row L now (lib_token_urlsafe L (uuids d)) r), d')
    \<and> get_runner_row rid d' = Some (revoked_row L now (lib_token_urlsafe L (uuids d)) r)"
  using assms
  by (simp add: revoke_runner_def get_runner_def write_runner_def token_urlsafe_def Let_def transact_def flush_def
      get_runner_row_def upd_runner_def row_get_upd revoked_row_def)

text \<open>
  Rotating a Runner's token puts the new one in force and the old one out of it: the returned
  token authenticates, and any text with another hash does not.
\<close>

theorem rotated_token_replaces_old:
  assumes "get_runner_row rid d = Some r" "new_tasks d = []"
    and "lib_token_urlsafe L (uuids d) \<noteq> []" "lib_sha256 L (lib_token_urlsafe L (uuids d)) \<noteq> []"
  shows "\<exists>r' tok d'. rotate_runner_token L now rid d = (Inr (r', tok), d')
    \<and> authenticate_runner L rid (Some tok) d' = Inr r'
    \<and> (\<forall>other. lib_sha256 L other \<noteq> lib_sha256 L tok \<longrightarrow>
         authenticate_runner L rid (Some other) d' = Inl (RelayviaError ''RUNNER_AUTH_FAILED'' 401))"
proof -
  let ?tok = "lib_token_urlsafe L (uuids d)"
  let ?r = "rotated_row L now ?tok r"
  obtain d' where d': "rotate_runner_token L now rid d = (Inr (?r, ?tok), d')" "get_runner_row rid d' = Some ?r"
    using rotate_result [OF assms(1,2)] by blast
  have hash: "rn_auth_token_hash ?r = Some (lib_sha256 L ?tok)" by (simp add: rotated_row_def token_hash_def)
  have "authenticate_runner L rid (Some ?tok) d' = Inr ?r"
    unfolding authenticate_runner_iff using d'(2) assms(3,4) hash by simp
  moreover have "authenticate_runner L rid (Some other) d' = Inl (RelayviaError ''RUNNER_AUTH_FAILED'' 401)"
    if "lib_sha256 L other \<noteq> lib_sha256 L ?tok" for other
    using d'(2) by (rule authenticate_runner_error) (use that hash in auto)
  ultimately show ?thesis using d'(1) by blast
qed

lemma demo_runner_row:
  "get_runner_row ''r1'' (demo_db\<lparr> runners := [demo_runner] \<rparr>) = Some demo_runner"
  "new_tasks (demo_db\<lparr> runners := [demo_runner] \<rparr>) = []"
  by (simp_all add: get_runner_row_def row_get_Cons demo_runner_def demo_db_def empty_db_def)

theorem rotated_token_replaces_old_witness:
  "\<exists>r' tok d'. rotate_runner_token demo_lib 5 ''r1'' (demo_db\<lparr> runners := [demo_runner] \<rparr>) = (Inr (r', tok), d')
     \<and> authenticate_runner demo_lib ''r1'' (Some tok) d' = Inr r'"
proof -
  have "lib_token_urlsafe demo_lib n \<noteq> []" "lib_sha256 demo_lib s \<noteq> []" for n s by (simp_all add: demo_lib_def)
  then show ?thesis using rotated_token_replaces_old [OF demo_runner_row] by blast
qed

text \<open>
  A revoked Runner gets nothing, whatever token it presents: it can neither claim a task nor a
  workspace cleanup, its heartbeat does not bring it back, and it cannot register again under its identity.
\<close>

theorem revoked_runner_is_shut_out:
  assumes "get_runner_row rid d = Some r" "new_tasks d = []" "rid \<noteq> []"
  shows "\<exists>r' d'. revoke_runner L now rid d = (Inr r', d') \<and> (\<forall>tok.
      (\<exists>e. post_claim L off secs now' rid tok d' = (Inl e, d'))
    \<and> (\<exists>e. post_workspace_cleanup_claim L secs now' rid tok d' = (Inl e, d'))
    \<and> (\<exists>e. post_heartbeat L now' rid tok h p caps md d' = (Inl e, d'))
    \<and> (\<exists>e. register_runner L now' name h p caps md (Some rid) tok d' = (Inl e, d')))"
proof -
  let ?r = "revoked_row L now (lib_token_urlsafe L (uuids d)) r"
  obtain d' where d': "revoke_runner L now rid d = (Inr ?r, d')" "get_runner_row rid d' = Some ?r"
    using revoke_result [OF assms(1,2)] by blast
  have off: "rn_status ?r = RS_DISABLED" by (simp add: revoked_row_def)
  have auth: "(\<exists>e. authenticate_runner L rid tok d' = Inl e) \<or> authenticate_runner L rid tok d' = Inr ?r" for tok
    using d'(2) by (cases "authenticate_runner L rid tok d'") (auto simp: authenticate_runner_iff)
  obtain c cs where rid: "rid = c # cs" using assms(3) by (cases rid) auto
  have "(\<exists>e. post_claim L off secs now' rid tok d' = (Inl e, d'))
    \<and> (\<exists>e. post_workspace_cleanup_claim L secs now' rid tok d' = (Inl e, d'))
    \<and> (\<exists>e. post_heartbeat L now' rid tok h p caps md d' = (Inl e, d'))
    \<and> (\<exists>e. register_runner L now' name h p caps md (Some rid) tok d' = (Inl e, d'))" for tok
    using auth [of tok] d'(2) off unfolding rid
    by (auto simp: post_claim_def post_workspace_cleanup_claim_def post_heartbeat_def heartbeat_runner_def
        register_runner_def authed_def get_runner_def transact_def)
  with d'(1) show ?thesis by blast
qed

theorem revoked_runner_is_shut_out_witness:
  "\<exists>r' d'. revoke_runner demo_lib 5 ''r1'' (demo_db\<lparr> runners := [demo_runner] \<rparr>) = (Inr r', d')
     \<and> (\<exists>e. post_claim demo_lib 60 60 6 ''r1'' (Some ''tok'') d' = (Inl e, d'))"
  using revoked_runner_is_shut_out [OF demo_runner_row] by blast

lemma start_node_live:
  assumes "get_node nid d = Some n" "nr_status n = N_QUEUED \<or> nr_status n = N_RUNNING"
  shows "start_node nid a now d = Inr (upd_node nid (running_node a now) d)"
  using assms by (auto simp: start_node_def status_simps)

lemma runner_claim_locked_claims:
  assumes inv: "db_inv L d" and run: "get_run rid d = Some run" "r_status run = W_RUNNING"
    and t: "get_task tid d = Some t" "t_status t = T_PENDING"
  shows "\<exists>d' n. runner_claim_locked L secs now r tid rid d = Inr (d', Some (claimed_running (rn_id r) (lib_uuid4 L (uuids d)) now secs t))
    \<and> new_tasks d' = [] \<and> get_node (t_node_run_id t) d = Some n
    \<and> get_node (t_node_run_id t) d' = Some (running_node (Suc (t_attempt t)) now n)
    \<and> (\<forall>k. get_task k d' = (if k = tid then Some (claimed_running (rn_id r) (lib_uuid4 L (uuids d)) now secs t) else get_task k d))"
proof -
  let ?f = "claimed_running (rn_id r) (lib_uuid4 L (uuids d)) now secs"
  let ?d1 = "upd_task tid ?f (d\<lparr> uuids := Suc (uuids d) \<rparr>)"
  let ?d2 = "upd_node (t_node_run_id t) (running_node (Suc (t_attempt t)) now) ?d1"
  obtain n where n: "get_node (t_node_run_id t) d = Some n" "link (Some (t_status t)) (nr_status n)"
    using task_node_link [OF inv t(1)] .
  have n1: "get_node (t_node_run_id t) ?d1 = Some n" using n by (simp add: rows) (simp add: get_node_def)
  have start: "start_node (t_node_run_id t) (Suc (t_attempt t)) now ?d1 = Inr ?d2"
    using n1 by (rule start_node_live) (use n(2) t(2) in \<open>auto simp: link_cases\<close>)
  have "\<exists>d'. runner_claim_locked L secs now r tid rid d = Inr (d', Some (?f t)) \<and> same_exec ?d2 d'"
    using run t start
    by (auto simp: runner_claim_locked_def uuid4_def status_simps intro: same_exec_trans [OF use_workspace_same same_exec_writes(4)])
  then obtain d' where d': "runner_claim_locked L secs now r tid rid d = Inr (d', Some (?f t))" "same_exec ?d2 d'" by blast
  have "get_node (t_node_run_id t) d' = Some (running_node (Suc (t_attempt t)) now n)"
    using n1 by (simp add: same_exec_lookups [OF d'(2)] get_upd_node node_frame_def running_node_def)
  moreover have "get_task k d' = (if k = tid then Some (?f t) else get_task k d)" for k
  proof -
    have "get_task k ?d1 = (if k = tid then map_option ?f (get_task k (d\<lparr> uuids := Suc (uuids d) \<rparr>)) else get_task k (d\<lparr> uuids := Suc (uuids d) \<rparr>))"
      by (rule get_upd_task) (simp add: task_frame_def claimed_running_def)
    moreover have "get_task k (d\<lparr> uuids := Suc (uuids d) \<rparr>) = get_task k d" by (simp add: get_task_def)
    ultimately show ?thesis using t(1) by (cases "k = tid") (simp_all add: same_exec_lookups [OF d'(2)] rows)
  qed
  moreover have "new_tasks d' = []"
    using inv by (simp add: same_exec_lookups [OF d'(2)] db_inv_def upd_node_def upd_task_def)
  ultimately show ?thesis using d'(1) n(1) by blast
qed

lemma runner_claim_cases:
  assumes "db_inv L d" "authenticate_runner L rid tok d = Inr r" "rn_status r \<noteq> RS_DISABLED" "runner_online off now r"
  shows "(\<forall>t\<in>set (tasks d). \<not> claimable now (rn_id r) (Some (rn_capabilities_json r)) d t)
      \<and> post_claim L off secs now rid tok d = (Inr None, d)
    \<or> (\<exists>t t' n d'. t \<in> set (tasks d) \<and> claimable now (rn_id r) (Some (rn_capabilities_json r)) d t
        \<and> (\<forall>u\<in>set (tasks d). claimable now (rn_id r) (Some (rn_capabilities_json r)) d u \<longrightarrow> claim_order t \<le> claim_order u)
        \<and> post_claim L off secs now rid tok d = (Inr (Some t'), d')
        \<and> t' = claimed_running (rn_id r) (lib_uuid4 L (uuids d)) now secs t
        \<and> get_node (t_node_run_id t) d = Some n
        \<and> get_node (t_node_run_id t) d' = Some (running_node (Suc (t_attempt t)) now n)
        \<and> (\<forall>k. get_task k d' = (if k = t_id t then Some t' else get_task k d)))"
proof -
  have post: "post_claim L off secs now rid tok d = runner_claim L secs now r d"
    using assms(2-4) by (simp add: post_claim_def authed_def)
  have nn: "new_tasks d = []" using assms(1) by (simp add: db_inv_def)
  show ?thesis
  proof (cases "candidate now (rn_id r) (Some (rn_capabilities_json r)) d")
    case None
    then have "runner_claim L secs now r d = (Inr None, d)" by (simp add: runner_claim_def transact_no_new nn)
    with None show ?thesis by (simp add: post candidate_None)
  next
    case (Some t)
    note t = candidate_Some [OF Some]
    have get: "get_task (t_id t) d = Some t" using t(1) assms(1) get_task_in by (simp add: db_inv_def)
    from t(2) obtain run where run: "get_run (t_workflow_run_id t) d = Some run" "r_status run = W_RUNNING" "t_status t = T_PENDING"
      by (auto simp: claimable_def split: option.splits)
    from runner_claim_locked_claims [OF assms(1) run(1,2) get run(3), of secs now r] obtain d' n where
      c: "runner_claim_locked L secs now r (t_id t) (t_workflow_run_id t) d = Inr (d', Some (claimed_running (rn_id r) (lib_uuid4 L (uuids d)) now secs t))"
      "new_tasks d' = []" "get_node (t_node_run_id t) d = Some n"
      "get_node (t_node_run_id t) d' = Some (running_node (Suc (t_attempt t)) now n)"
      "\<And>k. get_task k d' = (if k = t_id t then Some (claimed_running (rn_id r) (lib_uuid4 L (uuids d)) now secs t) else get_task k d)"
      by blast
    then have "runner_claim L secs now r d = (Inr (Some (claimed_running (rn_id r) (lib_uuid4 L (uuids d)) now secs t)), d')"
      using Some by (simp add: runner_claim_def transact_no_new)
    with t c show ?thesis unfolding post by blast
  qed
qed

text \<open>
  C10: A Runner's claim is exact. An authenticated, enabled, online Runner gets nothing only when no
  task is claimable for it; otherwise it gets the first task in queue order that it may run (pending and due, in a
  running run, requiring one of its capabilities, not reserved for another Runner), under a new lease token, already
  running with its attempt counted, the Node Run running too, and no other task touched.
\<close>

theorem runner_claim_exact:
  assumes "db_inv L d" "authenticate_runner L rid tok d = Inr r" "rn_status r \<noteq> RS_DISABLED" "runner_online off now r"
  shows "(\<forall>t\<in>set (tasks d). \<not> claimable now (rn_id r) (Some (rn_capabilities_json r)) d t)
      \<and> post_claim L off secs now rid tok d = (Inr None, d)
    \<or> (\<exists>t t' n' d'. t \<in> set (tasks d) \<and> claimable now (rn_id r) (Some (rn_capabilities_json r)) d t
        \<and> (\<forall>u\<in>set (tasks d). claimable now (rn_id r) (Some (rn_capabilities_json r)) d u \<longrightarrow> claim_order t \<le> claim_order u)
        \<and> post_claim L off secs now rid tok d = (Inr (Some t'), d')
        \<and> t' = t\<lparr> t_status := T_RUNNING, t_locked_by := Some (rn_id r), t_lease_token := Some (lib_uuid4 L (uuids d)),
             t_locked_at := Some now, t_lease_expires_at := Some (now + timedelta secs), t_attempt := Suc (t_attempt t),
             t_started_at := Some now \<rparr>
        \<and> get_node (t_node_run_id t) d' = Some n' \<and> nr_status n' = N_RUNNING \<and> nr_attempt n' = Suc (t_attempt t)
        \<and> (\<forall>k. get_task k d' = (if k = t_id t then Some t' else get_task k d)))"
proof -
  have "nr_status (running_node a now n) = N_RUNNING \<and> nr_attempt (running_node a now n) = a" for a n by (simp add: running_node_def)
  then show ?thesis using runner_claim_cases [OF assms, of secs] unfolding claimed_running_def by blast
qed

definition demo_runner_db :: db where
  "demo_runner_db = demo_queue\<lparr> runners := [demo_runner],
     tasks := [(demo_task ''u2'' ''u1'' T_PENDING None)\<lparr> t_required_capability := Some ''codex'' \<rparr>, demo_task ''u5'' ''u4'' T_PENDING None] \<rparr>"

lemma demo_runner_db_inv: "db_inv demo_lib demo_runner_db"
  by (auto simp: db_inv_def unique_rows_def refs_ok_def linked_def leases_ok_def leased_def ids_issued_def demo_issued
      get_run_def get_node_def get_task_def get_task_by_node_run_def row_get_def demo_runner_db_def demo_queue_def demo_rows
      empty_db_def split: if_splits)

theorem runner_claim_exact_witness:
  "\<exists>t' d'. post_claim demo_lib 60 60 5 ''r1'' (Some ''tok'') demo_runner_db = (Inr (Some t'), d')
     \<and> t_id t' = ''u2'' \<and> t_status t' = T_RUNNING"
proof -
  let ?t2 = "(demo_task ''u2'' ''u1'' T_PENDING None)\<lparr> t_required_capability := Some ''codex'' \<rparr>"
  have auth: "authenticate_runner demo_lib ''r1'' (Some ''tok'') demo_runner_db = Inr demo_runner"
    by (simp add: authenticate_runner_iff demo_runner_db_def get_runner_row_def row_get_Cons demo_runner_def demo_lib_def)
  have live: "rn_status demo_runner \<noteq> RS_DISABLED" "runner_online 60 5 demo_runner"
    by (simp_all add: demo_runner_def runner_online_def timedelta_def)
  have row: "set (tasks demo_runner_db) = {?t2, demo_task ''u5'' ''u4'' T_PENDING None}" by (simp add: demo_runner_db_def)
  have c2: "claimable 5 ''r1'' (Some [''codex'']) demo_runner_db ?t2"
    by (simp add: claimable_def demo_runner_db_def demo_queue_def get_run_def row_get_Cons demo_rows)
  have c5: "\<not> claimable 5 ''r1'' (Some [''codex'']) demo_runner_db (demo_task ''u5'' ''u4'' T_PENDING None)"
    by (simp add: claimable_def demo_task_def)
  have r: "rn_id demo_runner = ''r1''" "rn_capabilities_json demo_runner = [''codex'']" by (simp_all add: demo_runner_def)
  from runner_claim_exact [OF demo_runner_db_inv auth live, of 60, unfolded r] c2 row
  obtain t t' d' where t: "t \<in> set (tasks demo_runner_db)" "claimable 5 ''r1'' (Some [''codex'']) demo_runner_db t"
    and res: "post_claim demo_lib 60 60 5 ''r1'' (Some ''tok'') demo_runner_db = (Inr (Some t'), d')"
    and t': "t_id t' = t_id t" "t_status t' = T_RUNNING"
    by (elim disjE exE conjE) simp_all
  from t c5 have "t = ?t2" unfolding row by blast
  with t' have "t_id t' = ''u2''" "t_status t' = T_RUNNING" by (simp_all add: demo_task_def)
  with res show ?thesis by blast
qed

end
