(* ===== verification/Worker.thy ===== *)
theory Worker
  imports Executor RunnersProps
begin

text \<open>
  The Workflow Worker (\<^verbatim>\<open>workers/workflow_worker.py\<close>) and periodic recovery
  (\<^verbatim>\<open>runtime/recovery/execution_recovery.py\<close>). Processing a claimed task is a sequence of
  transactions around one call of the executor; the \<open>i\<close>-th transaction reads the clock as
  \<open>clock i\<close>. The executor is an argument: any function from contexts to results or exceptions.
\<close>

definition fail_plain where
  "fail_plain now task worker_id error d = fail now (ct_id task) worker_id (ct_lease_token task) error [] [] d"

text \<open>One commit after another: what the first one wrote is kept, its result is dropped.\<close>

definition and_then :: "(exn + 'a) \<times> db \<Rightarrow> ('a \<Rightarrow> db \<Rightarrow> (exn + 'b) \<times> db) \<Rightarrow> (exn + 'b) \<times> db" where
  "and_then first next = (case first of (Inl e, d) \<Rightarrow> (Inl e, d) | (Inr x, d) \<Rightarrow> next x d)"

definition reconcile_after :: "lib \<Rightarrow> scheduler \<Rightarrow> time \<Rightarrow> string \<Rightarrow> db \<Rightarrow> (exn + unit) \<times> db" where
  "reconcile_after L S now run_id d = transact d (ebind (reconcile_run L S now run_id d) (\<lambda>(d, _). Inr (d, ())))"

definition set_input :: "dict \<Rightarrow> node_run \<Rightarrow> node_run" where
  "set_input v n = n\<lparr> nr_input_json := v \<rparr>"

definition resolve_or :: "lib \<Rightarrow> resolver \<Rightarrow> dict \<Rightarrow> exn + dict" where
  "resolve_or L R v = ebind (resolve (lib_repr L) R (JObj v)) (\<lambda>w. Inr (dict_or_empty w))"

definition build_execution_context ::
  "lib \<Rightarrow> claimed_task \<Rightarrow> db \<Rightarrow> (exn + node_execution_context) \<times> db" where
  "build_execution_context L task d =
     (case get_run (ct_workflow_run_id task) d of
        None \<Rightarrow> (Inl (ExecutionError ''WORKFLOW_RUN_MISSING'' False), d)
      | Some run \<Rightarrow>
        (case parse_workflow_graph L (r_graph_snapshot_json run) of Inl e \<Rightarrow> (Inl e, d)
         | Inr g \<Rightarrow>
           (case find (\<lambda>n. JStr (n_id n) = dget0 (ct_payload task) ''node_id'') (g_nodes g) of
              None \<Rightarrow> (Inl (ExecutionError ''NODE_MISSING'' False), d)
            | Some node \<Rightarrow>
              (let R = context_resolver L run (list_node_runs (r_id run) d) in
               case resolve_or L R (n_input_mapping node) of Inl e \<Rightarrow> (Inl e, d)
               | Inr resolved_input \<Rightarrow>
                   and_then (transact d (Inr (upd_node (ct_node_run_id task) (set_input resolved_input) d, ()))) (\<lambda>_ d.
                   (case resolve_or L R (n_config node) of Inl e \<Rightarrow> (Inl e, d)
                    | Inr resolved_config \<Rightarrow>
                        (Inr \<lparr> nx_workflow_run_id = r_id run, nx_node_run_id = ct_node_run_id task, nx_node = node,
                           nx_resolved_config = resolved_config, nx_resolved_input = resolved_input,
                           nx_execution_snapshot = r_execution_snapshot_json run, nx_attempt = ct_attempt task,
                           nx_execution_key = ct_execution_key task \<rparr>, d)))))))"

text \<open>Why a node is parked instead of executed.\<close>

definition waiting_for :: "lib \<Rightarrow> time \<Rightarrow> node_execution_context \<Rightarrow> (string \<times> dict) option" where
  "waiting_for L now c =
     (let ty = n_type (nx_node c); sub = n_subtype (nx_node c) in
      if ty = HUMAN \<and> sub = ''approval''
      then Some (''HUMAN_APPROVAL'', [(''allow_reject'', JBool (truthy (dget_or (nx_resolved_config c) ''allow_reject'' (JBool True))))])
      else if ty = HUMAN \<and> sub = ''input'' then Some (''HUMAN_INPUT'', [])
      else if ty = LOGIC \<and> sub = ''wait'' then
        (let v = dget0 (nx_resolved_config c) ''duration_seconds'';
             duration = (case py_int (if truthy v then v else JInt 0) of None \<Rightarrow> 1 | Some i \<Rightarrow> max i 1) in
         Some (''WAIT_TIMER'', [(''resume_at'', JStr (lib_isoformat L (now + timedelta duration))),
                                (''duration_seconds'', JInt duration)]))
      else None)"

definition retry_backoff_seconds :: "dict \<Rightarrow> int \<Rightarrow> int" where
  "retry_backoff_seconds payload dflt =
     (case py_int (dget_or payload ''retry_backoff_seconds'' (JInt dflt)) of
        None \<Rightarrow> max 0 (min dflt 86400) | Some i \<Rightarrow> max 0 (min i 86400))"

definition UNKNOWN_ERROR :: dict where
  "UNKNOWN_ERROR = [(''code'', JStr ''UNKNOWN''), (''message'', JStr ''execution failed''), (''retryable'', JBool False),
     (''details'', JObj [])]"

text \<open>What the worker does with the exception of the executor.\<close>

definition run_executor ::
  "lib \<Rightarrow> (node_execution_context \<Rightarrow> exn + node_execution_result) \<Rightarrow> node_execution_context \<Rightarrow> node_execution_result" where
  "run_executor L run c =
     (case run c of Inr r \<Rightarrow> r
      | Inl e \<Rightarrow> (result_error_of (error_of_exn L e))\<lparr> er_retryable := ee_retryable (error_of_exn L e) \<rparr>)"

text \<open>\<open>str(b)\<close> of bytes, which is how byte content is traced.\<close>

definition bytes_repr :: "string \<Rightarrow> string" where
  "bytes_repr b =
     (let q = (if CHR 0x27 \<in> set b \<and> CHR 0x22 \<notin> set b then CHR 0x22 else CHR 0x27) in
      [CHR ''b'', q] @ concat (map (\<lambda>c. let n = of_char c :: nat in
        if c = q \<or> n = 92 then [CHR 0x5C, c]
        else if n = 9 then [CHR 0x5C, CHR ''t''] else if n = 10 then [CHR 0x5C, CHR ''n''] else if n = 13 then [CHR 0x5C, CHR ''r'']
        else if n < 32 \<or> 127 \<le> n then [CHR 0x5C, CHR ''x'', hex_digit (n div 16), hex_digit (n mod 16)]
        else [c]) b) @ [q])"

definition json_items :: "artifact_item list \<Rightarrow> json" where
  "json_items items = JArr (map (\<lambda>it. case it of AJson v \<Rightarrow> v | ABytes d b \<Rightarrow> JObj (d @ [(''content'', JStr (bytes_repr b))])) items)"

text \<open>Reporting a result: artifacts, completion, retry or failure.\<close>

definition report_ok ::
  "lib \<Rightarrow> scheduler \<Rightarrow> (string \<Rightarrow> string \<Rightarrow> exn + int) \<Rightarrow> int \<Rightarrow> (nat \<Rightarrow> time) \<Rightarrow> claimed_task \<Rightarrow> string \<Rightarrow> node_execution_result \<Rightarrow>
   db \<Rightarrow> (exn + unit) \<times> db" where
  "report_ok L S save max_bytes clock task worker_id r d =
     (let output = sanitize_output L (er_sensitive_values r) (JObj (case er_output r of None \<Rightarrow> [] | Some out \<Rightarrow> out));
          finish = (\<lambda>refs output_keys d.
            and_then (complete (clock 3) (ct_id task) worker_id (ct_lease_token task) (dmerge output output_keys)
                (sanitize_metadata L (er_sensitive_values r) (JObj (er_metadata r)))
                (sanitize_artifacts L (er_sensitive_values r) (JArr (map JObj refs))) d)
              (\<lambda>_. reconcile_after L S (clock 4) (ct_workflow_run_id task))) in
      if er_artifacts r = [] then finish [] [] d
      else (case transact d (ebind (register_artifact_candidates L save max_bytes (clock 2) (ct_workflow_run_id task)
                (ct_node_run_id task) (er_artifacts r) d) (\<lambda>(d, refs, output_keys). Inr (d, refs, output_keys))) of
          (Inr (refs, output_keys), d) \<Rightarrow> finish refs output_keys d
        | (Inl (RelayviaError code status), d) \<Rightarrow>
            and_then (fail_plain (clock 3) task worker_id (sanitize_error L [] [(''code'', JStr code),
                (''message'', JStr (lib_error_message L (RelayviaError code status))), (''retryable'', JBool False),
                (''details'', JObj (lib_error_details L (RelayviaError code status)))]) d)
              (\<lambda>_. reconcile_after L S (clock 4) (ct_workflow_run_id task))
        | (Inl e, d) \<Rightarrow> (Inl e, d)))"

definition report ::
  "lib \<Rightarrow> scheduler \<Rightarrow> (string \<Rightarrow> string \<Rightarrow> exn + int) \<Rightarrow> int \<Rightarrow> (nat \<Rightarrow> time) \<Rightarrow> claimed_task \<Rightarrow> string \<Rightarrow> node_execution_result \<Rightarrow>
   db \<Rightarrow> (exn + unit) \<times> db" where
  "report L S save max_bytes clock task worker_id r d =
     (if er_ok r then report_ok L S save max_bytes clock task worker_id r d
      else if er_retryable r \<and> int (ct_attempt task) + 1 < ct_max_attempts task then
        and_then (schedule_retry (clock 3) (ct_id task) worker_id (ct_lease_token task)
            (retry_backoff_seconds (ct_payload task) (default_backoff_seconds S)) d) (\<lambda>_ d. (Inr (), d))
      else
        and_then (fail (clock 3) (ct_id task) worker_id (ct_lease_token task)
            (sanitize_error L (er_sensitive_values r) (case er_error r of None \<Rightarrow> UNKNOWN_ERROR | Some e \<Rightarrow> error_to_dict e))
            (sanitize_metadata L (er_sensitive_values r) (JObj (er_metadata r)))
            (sanitize_artifacts L (er_sensitive_values r) (json_items (er_artifacts r))) d)
          (\<lambda>_. reconcile_after L S (clock 4) (ct_workflow_run_id task)))"

definition process_task ::
  "lib \<Rightarrow> scheduler \<Rightarrow> (string \<Rightarrow> string \<Rightarrow> exn + int) \<Rightarrow> int \<Rightarrow> (node_execution_context \<Rightarrow> exn + node_execution_result) \<Rightarrow>
   (nat \<Rightarrow> time) \<Rightarrow> string \<Rightarrow> claimed_task \<Rightarrow> db \<Rightarrow> (exn + unit) \<times> db" where
  "process_task L S save max_bytes run clock worker_id task d =
     and_then (start (clock 0) (ct_id task) worker_id (ct_lease_token task) d) (\<lambda>started d.
       if \<not> started then (Inr (), d)
       else (case build_execution_context L task d of
           (Inl (UnresolvedContextReference reference), d) \<Rightarrow>
             and_then (fail_plain (clock 1) task worker_id (sanitize_error L [] [(''code'', JStr ''UNRESOLVED_CONTEXT_REFERENCE''),
                 (''message'', JStr (lib_error_message L (UnresolvedContextReference reference))), (''retryable'', JBool False),
                 (''details'', JObj [(''reference'', JStr reference)])]) d)
               (\<lambda>_. reconcile_after L S (clock 4) (ct_workflow_run_id task))
         | (Inl (ExecutionError code retryable), d) \<Rightarrow>
             and_then (fail_plain (clock 1) task worker_id
                 (sanitize_error L [] (error_to_dict (error_of_exn L (ExecutionError code retryable)))) d)
               (\<lambda>_. reconcile_after L S (clock 4) (ct_workflow_run_id task))
         | (Inl e, d) \<Rightarrow> (Inl e, d)
         | (Inr c, d) \<Rightarrow>
             (case waiting_for L (clock 1) c of
                Some (reason, metadata) \<Rightarrow>
                  and_then (wait_node (clock 1) (ct_id task) worker_id (ct_lease_token task) reason metadata d)
                    (\<lambda>_. reconcile_after L S (clock 4) (ct_workflow_run_id task))
              | None \<Rightarrow> report L S save max_bytes clock task worker_id (run_executor L run c) d)))"

section \<open>Recovery\<close>

definition active_run_ids :: "db \<Rightarrow> string list" where
  "active_run_ids d = map r_id (filter (\<lambda>r. r_status r \<in> {W_RUNNING, W_PAUSED, W_WAITING}) (runs d))"

definition reconcile_active :: "lib \<Rightarrow> scheduler \<Rightarrow> time \<Rightarrow> db \<Rightarrow> (exn + unit) \<times> db" where
  "reconcile_active L S now d =
     transact d (ebind (foldM (\<lambda>d run_id. ebind (reconcile_run L S now run_id d) (\<lambda>(d, _). Inr d)) d (active_run_ids d))
       (\<lambda>d. Inr (d, ())))"

definition run_execution_recovery :: "lib \<Rightarrow> scheduler \<Rightarrow> (nat \<Rightarrow> time) \<Rightarrow> db \<Rightarrow> (exn + nat \<times> nat) \<times> db" where
  "run_execution_recovery L S clock d =
     and_then (recover_expired (clock 0) d) (\<lambda>expired d.
     and_then (promote_due_retries (clock 1) d) (\<lambda>due d.
     and_then (reconcile_active L S (clock 2) d) (\<lambda>_ d. (Inr (expired, due), d))))"

section \<open>Every path of a worker advances\<close>

lemma advance_and_then:
  assumes "advance L d (snd first)" and "\<And>x. db_inv L (snd first) \<Longrightarrow> advance L (snd first) (snd (rest x (snd first)))"
  shows "advance L d (snd (and_then first rest))"
proof (cases first)
  case (Pair r d1)
  then have a: "advance L d d1" and inv: "db_inv L d1" using assms(1) by (simp_all add: advance_def)
  show ?thesis
  proof (cases r)
    case (Inr x)
    with assms(2) [of x] Pair inv a show ?thesis by (auto simp: and_then_def intro: advance_trans)
  qed (use Pair a in \<open>simp add: and_then_def\<close>)
qed

lemma advance_queue:
  assumes "db_inv L d"
  shows "advance L d (snd (start now tid w k d))"
    and "advance L d (snd (complete now tid w k out md refs d))"
    and "advance L d (snd (fail now tid w k err md refs d))"
    and "advance L d (snd (wait_node now tid w k reason md d))"
    and "advance L d (snd (schedule_retry now tid w k secs d))"
    and "advance L d (snd (renew_lease lsecs now tid w k d))"
    and "advance L d (snd (claim L lsecs now w caps auto d))"
    and "advance L d (snd (cancel now tid d))"
    and "advance L d (snd (recover_expired now d))"
    and "advance L d (snd (promote_due_retries now d))"
    and "advance L d (snd (fail_plain now task w err d))"
  using assms recover_expired_result [OF assms, of now] promote_due_retries_result [OF assms, of now]
  by (auto simp: advance_def fail_plain_def db_inv_start db_inv_complete db_inv_fail db_inv_wait_node db_inv_schedule_retry
      db_inv_renew_lease db_inv_claim db_inv_cancel progress_start progress_complete progress_fail progress_wait_node
      progress_schedule_retry progress_renew_lease progress_claim progress_cancel)

lemma advance_reconcile_after:
  assumes inv: "db_inv L d" and inj: "inj (lib_uuid4 L)"
  shows "advance L d (snd (reconcile_after L S now rid d))"
  unfolding reconcile_after_def
proof (rule advance_transact [OF inv], goal_cases)
  case (1 d' x)
  then obtain z where "reconcile_run L S now rid d = Inr (d', z)" by (auto simp: outcome)
  with reconcile_step [OF _ inj this] inv show ?case by (simp add: db_inv_settled)
qed

lemma set_input_step: "node_step n (set_input v n)"
  by (simp add: node_step_def set_input_def node_fsm.history.refl node_result_def)

lemma advance_set_input:
  assumes inv: "db_inv L d"
  shows "advance L d (upd_node nid (set_input v) d)"
proof -
  have "progress d (upd_node nid (set_input v) d)"
    by (rule progress_upd_node) (rule set_input_step, simp add: set_input_def)
  moreover have "db_inv L (upd_node nid (set_input v) d)"
  proof (cases "get_node nid d")
    case None
    then have "upd_node nid (set_input v) d = d"
      by (simp add: upd_node_def get_node_def row_get_None row_upd_absent)
    then show ?thesis using inv by simp
  next
    case (Some n)
    then have "link (map_option t_status (get_task_by_node_run nid d)) (nr_status n)"
      using inv unfolding db_inv_def linked_def by blast
    with inv Some show ?thesis by (intro db_inv_upd_node) (simp_all add: node_frame_def set_input_def)
  qed
  ultimately show ?thesis by (simp add: advance_def)
qed

lemma advance_build_execution_context:
  assumes inv: "db_inv L d"
  shows "advance L d (snd (build_execution_context L task d))"
proof -
  have input: "advance L d (snd (transact d (Inr (upd_node (ct_node_run_id task) (set_input v) d, ()))))" for v
    by (rule advance_commit [OF inv]) (use advance_set_input [OF inv] in auto)
  have fin: "advance L d (snd (and_then (transact d (Inr (upd_node (ct_node_run_id task) (set_input v) d, ()))) (\<lambda>_ d.
       case x of Inl e \<Rightarrow> (Inl e, d) | Inr y \<Rightarrow> (Inr (f y), d))))" for v x and f :: "dict \<Rightarrow> node_execution_context"
    by (rule advance_and_then [OF input]) (auto split: sum.splits intro: advance_refl)
  show ?thesis
    unfolding build_execution_context_def Let_def
    using inv fin by (simp add: advance_refl split: option.splits sum.splits)
qed

lemma advance_report_ok:
  assumes inv: "db_inv L d" and inj: "inj (lib_uuid4 L)"
  shows "advance L d (snd (report_ok L S save mx clock task w r d))"
proof -
  define fin where "fin refs output_keys d =
     and_then (complete (clock 3) (ct_id task) w (ct_lease_token task)
        (dmerge (sanitize_output L (er_sensitive_values r) (JObj (case er_output r of None \<Rightarrow> [] | Some out \<Rightarrow> out))) output_keys)
        (sanitize_metadata L (er_sensitive_values r) (JObj (er_metadata r)))
        (sanitize_artifacts L (er_sensitive_values r) (JArr (map JObj refs))) d)
      (\<lambda>_. reconcile_after L S (clock 4) (ct_workflow_run_id task))" for refs output_keys d
  define reg where "reg = transact d (ebind (register_artifact_candidates L save mx (clock 2) (ct_workflow_run_id task)
      (ct_node_run_id task) (er_artifacts r) d) (\<lambda>(d, refs, output_keys). Inr (d, refs, output_keys)))"
  have fin: "advance L d (snd (fin refs output_keys d))" if "db_inv L d" for refs output_keys d
    unfolding fin_def by (rule advance_and_then [OF advance_queue(2) [OF that]]) (rule advance_reconcile_after [OF _ inj])
  have flr: "advance L d (snd (and_then (fail_plain now task w err d) (\<lambda>_. reconcile_after L S (clock 4) (ct_workflow_run_id task))))"
    if "db_inv L d" for d now err
    by (rule advance_and_then [OF advance_queue(11) [OF that]]) (rule advance_reconcile_after [OF _ inj])
  have reg: "advance L d (snd reg)"
    unfolding reg_def
    by (rule advance_commit_same [OF inv])
      (use inv in \<open>auto simp: outcome db_inv_def dest!: register_candidates_result(1) intro: same_exec_adds\<close>)
  obtain x d1 where x: "reg = (x, d1)" by (cases reg)
  then have d1: "advance L d d1" "db_inv L d1" using reg by (simp_all add: advance_def)
  have "advance L d (snd (case reg of (Inr (refs, output_keys), d) \<Rightarrow> fin refs output_keys d
        | (Inl (RelayviaError code status), d) \<Rightarrow>
            and_then (fail_plain (clock 3) task w (sanitize_error L [] [(''code'', JStr code),
                (''message'', JStr (lib_error_message L (RelayviaError code status))), (''retryable'', JBool False),
                (''details'', JObj (lib_error_details L (RelayviaError code status)))]) d)
              (\<lambda>_. reconcile_after L S (clock 4) (ct_workflow_run_id task))
        | (Inl e, d) \<Rightarrow> (Inl e, d)))"
    unfolding x using d1 fin [OF d1(2)] flr [OF d1(2)]
    by (auto split: sum.splits exn.splits prod.splits intro: advance_trans)
  then show ?thesis
    using fin [OF inv] unfolding report_ok_def Let_def fin_def [symmetric] reg_def [symmetric] by simp
qed

lemma advance_report:
  assumes inv: "db_inv L d" and inj: "inj (lib_uuid4 L)"
  shows "advance L d (snd (report L S save mx clock task w r d))"
proof -
  have "advance L d (snd (and_then (schedule_retry now (ct_id task) w (ct_lease_token task) secs d) (\<lambda>_ d. (Inr (), d))))" for now secs
    by (rule advance_and_then [OF advance_queue(5) [OF inv]]) (simp add: advance_refl)
  moreover have "advance L d (snd (and_then (fail now (ct_id task) w (ct_lease_token task) err md refs d)
      (\<lambda>_. reconcile_after L S (clock 4) (ct_workflow_run_id task))))" for now err md refs
    by (rule advance_and_then [OF advance_queue(3) [OF inv]]) (rule advance_reconcile_after [OF _ inj])
  ultimately show ?thesis unfolding report_def using advance_report_ok [OF inv inj] by simp
qed

lemma advance_process_task:
  assumes inv: "db_inv L d" and inj: "inj (lib_uuid4 L)"
  shows "advance L d (snd (process_task L S save mx run clock w task d))"
  unfolding process_task_def
proof (rule advance_and_then [OF advance_queue(1) [OF inv]], goal_cases)
  case (1 started)
  let ?d = "snd (start (clock 0) (ct_id task) w (ct_lease_token task) d)"
  obtain x d1 where x: "build_execution_context L task ?d = (x, d1)" by fastforce
  have d1: "advance L ?d d1" "db_inv L d1"
    using advance_build_execution_context [OF 1, of task] x by (simp_all add: advance_def)
  have flr: "advance L ?d (snd (and_then (fail_plain now task w err d1) (\<lambda>_. reconcile_after L S (clock 4) (ct_workflow_run_id task))))" for now err
    by (rule advance_trans [OF d1(1)], rule advance_and_then [OF advance_queue(11) [OF d1(2)]]) (rule advance_reconcile_after [OF _ inj])
  have wait: "advance L ?d (snd (and_then (wait_node (clock 1) (ct_id task) w (ct_lease_token task) reason md d1)
      (\<lambda>_. reconcile_after L S (clock 4) (ct_workflow_run_id task))))" for reason md
    by (rule advance_trans [OF d1(1)], rule advance_and_then [OF advance_queue(4) [OF d1(2)]]) (rule advance_reconcile_after [OF _ inj])
  have rep: "advance L ?d (snd (report L S save mx clock task w r d1))" for r
    using d1(1) advance_report [OF d1(2) inj] by (rule advance_trans)
  show ?case
    unfolding x using 1 d1(1) flr wait rep
    by (simp add: advance_refl split: sum.splits exn.splits option.splits prod.splits)
qed

lemma reconcile_fold_step:
  assumes inv: "db_inv L (settle d)" and inj: "inj (lib_uuid4 L)"
    and res: "foldM (\<lambda>d rid. ebind (reconcile_run L S now rid d) (\<lambda>(d, _). Inr d)) d rids = Inr d'"
  shows "db_inv L (settle d') \<and> progress d d'"
  using inv res
proof (induction rids arbitrary: d)
  case Nil
  then show ?case by simp
next
  case (Cons rid rids)
  then obtain d1 z where d1: "reconcile_run L S now rid d = Inr (d1, z)"
    and rest: "foldM (\<lambda>d rid. ebind (reconcile_run L S now rid d) (\<lambda>(d, _). Inr d)) d1 rids = Inr d'"
    by (auto simp: outcome)
  from reconcile_step [OF Cons.prems(1) inj d1] have "db_inv L (settle d1)" "progress d d1" by blast+
  with Cons.IH [OF this(1) rest] show ?case by (blast intro: progress_trans)
qed

lemma advance_reconcile_active:
  assumes inv: "db_inv L d" and inj: "inj (lib_uuid4 L)"
  shows "advance L d (snd (reconcile_active L S now d))"
  unfolding reconcile_active_def
proof (rule advance_transact [OF inv], goal_cases)
  case (1 d' x)
  then have "foldM (\<lambda>d rid. ebind (reconcile_run L S now rid d) (\<lambda>(d, _). Inr d)) d (active_run_ids d) = Inr d'"
    by (auto simp: outcome)
  then show ?case by (rule reconcile_fold_step [rotated 2]) (use inv inj in \<open>simp_all add: db_inv_settled\<close>)
qed

lemma advance_recovery:
  assumes inv: "db_inv L d" and inj: "inj (lib_uuid4 L)"
  shows "advance L d (snd (run_execution_recovery L S clock d))"
  unfolding run_execution_recovery_def
  by (rule advance_and_then [OF advance_queue(9) [OF inv]], rule advance_and_then [OF advance_queue(10)], assumption,
      rule advance_and_then [OF advance_reconcile_active [OF _ inj]], assumption) (simp add: advance_refl)

end
