(* ===== verification/Leases.thy ===== *)
theory Leases
  imports Worker
begin

text \<open>
  What the operations of the execution core do to lease tokens and to definitions. A lease token on
  a task is the one it had before or one drawn after the operation began, and Workflows, Versions
  and registry rows are not written. Every operation is shown to be quiet in this sense, so that
  the fact holds over whole histories of interleaved transactions.
\<close>

named_theorems quiet "operations that are quiet"

definition tokens :: "db \<Rightarrow> (string \<times> string) set" where
  "tokens d = {(t_id t, k) |t k. (t \<in> set (tasks d) \<or> t \<in> set (new_tasks d)) \<and> t_lease_token t = Some k}"

definition same_definitions :: "db \<Rightarrow> db \<Rightarrow> bool" where
  "same_definitions d d' \<longleftrightarrow> workflows d' = workflows d \<and> workflow_versions d' = workflow_versions d
     \<and> agents d' = agents d \<and> services d' = services d \<and> service_actions d' = service_actions d
     \<and> credentials d' = credentials d"

definition quiet_step :: "lib \<Rightarrow> db \<Rightarrow> db \<Rightarrow> bool" where
  "quiet_step L d d' \<longleftrightarrow> uuids d \<le> uuids d' \<and> same_definitions d d'
     \<and> tokens d' \<subseteq> tokens d \<union> UNIV \<times> lib_uuid4 L ` {uuids d..}"

lemma quiet_refl [simp, quiet]: "quiet_step L d d"
  by (simp add: quiet_step_def same_definitions_def)

lemma quiet_trans: "quiet_step L a b \<Longrightarrow> quiet_step L b c \<Longrightarrow> quiet_step L a c"
  unfolding quiet_step_def same_definitions_def by fastforce

lemma quiet_frames [simp]:
  "quiet_step L d (upd_node k1 f1 d') = quiet_step L d d'"
  "quiet_step L d (upd_run k2 f2 d') = quiet_step L d d'"
  "quiet_step L d (upd_workspace k3 f3 d') = quiet_step L d d'"
  "quiet_step L d (upd_runner k4 f4 d') = quiet_step L d d'"
  "quiet_step L d (upd_artifact k5 f5 d') = quiet_step L d d'"
  "quiet_step L d (record_event now rid nid ty msg p d') = quiet_step L d d'"
  "quiet_step L d (trace now t ty msg p d') = quiet_step L d d'"
  "quiet_step L d (d'\<lparr> workspaces := w \<rparr>) = quiet_step L d d'"
  "quiet_step L d (d'\<lparr> runners := r \<rparr>) = quiet_step L d d'"
  "quiet_step L d (d'\<lparr> artifacts := a \<rparr>) = quiet_step L d d'"
  "quiet_step L d (put_nodes ns d') = quiet_step L d d'"
  by (simp_all add: quiet_step_def same_definitions_def tokens_def upd_node_def upd_run_def upd_workspace_def upd_runner_def
      upd_artifact_def record_event_def trace_def put_nodes_def)

lemma quiet_source [simp]:
  "quiet_step L (upd_node k1 f1 d) d' = quiet_step L d d'" "quiet_step L (upd_run k2 f2 d) d' = quiet_step L d d'"
  "quiet_step L (record_event now rid nid ty msg p d) d' = quiet_step L d d'" "quiet_step L (put_nodes ns d) d' = quiet_step L d d'"
  by (simp_all add: quiet_step_def same_definitions_def tokens_def upd_node_def upd_run_def record_event_def put_nodes_def)

lemma quiet_upd_task:
  assumes "\<And>t. t_id (f t) = t_id t \<and> (t_lease_token (f t) = t_lease_token t \<or> t_lease_token (f t) = None)" "quiet_step L d d'"
  shows "quiet_step L d (upd_task k f d')"
proof -
  have "tokens (upd_task k f d') \<subseteq> tokens d'"
    using assms(1) unfolding tokens_def upd_task_def row_upd_def by (fastforce split: if_splits)
  moreover have "same_definitions d (upd_task k f d') = same_definitions d d'" "uuids (upd_task k f d') = uuids d'"
    by (simp_all add: same_definitions_def upd_task_def)
  ultimately show ?thesis using assms(2) unfolding quiet_step_def by auto
qed

lemma quiet_fresh_token:
  assumes "\<And>t. t_id (f t) = t_id t \<and> t_lease_token (f t) = Some (lib_uuid4 L (uuids d'))" "quiet_step L d d'"
  shows "quiet_step L d (upd_task k f (d'\<lparr> uuids := Suc (uuids d') \<rparr>))"
proof -
  have "tokens (upd_task k f (d'\<lparr> uuids := Suc (uuids d') \<rparr>)) \<subseteq> tokens d' \<union> UNIV \<times> {lib_uuid4 L (uuids d')}"
    using assms(1) unfolding tokens_def upd_task_def row_upd_def by (fastforce split: if_splits)
  moreover have "lib_uuid4 L (uuids d') \<in> lib_uuid4 L ` {uuids d..}" using assms(2) by (auto simp: quiet_step_def)
  ultimately show ?thesis
    using assms(2) by (auto simp: quiet_step_def same_definitions_def upd_task_def)
qed

lemma quiet_uuid [simp]: "quiet_step L d d' \<Longrightarrow> quiet_step L d (d'\<lparr> uuids := Suc (uuids d') \<rparr>)"
  by (simp add: quiet_step_def same_definitions_def tokens_def)

lemma quiet_uuids: "uuids d \<le> n \<Longrightarrow> quiet_step L d (d\<lparr> uuids := n \<rparr>)"
  by (simp add: quiet_step_def same_definitions_def tokens_def)

lemma tokens_session:
  "t_lease_token t = None \<Longrightarrow> tokens (d\<lparr> new_tasks := new_tasks d @ [t] \<rparr>) = tokens d" "tokens (settle d) = tokens d"
  by (auto simp: tokens_def settle_def)

lemma quiet_new_task:
  "t_lease_token t = None \<Longrightarrow> quiet_step L d d' \<Longrightarrow> quiet_step L d (d'\<lparr> new_tasks := new_tasks d' @ [t] \<rparr>)"
  by (simp add: quiet_step_def same_definitions_def tokens_session)

lemma quiet_settle: "quiet_step L d d' \<Longrightarrow> quiet_step L d (settle d')"
  by (simp add: quiet_step_def same_definitions_def tokens_session) (simp add: settle_def)

lemma quiet_add_task:
  "t_lease_token t = None \<Longrightarrow> quiet_step L d d' \<Longrightarrow> quiet_step L d (d'\<lparr> uuids := Suc (uuids d'), new_tasks := new_tasks d' @ [t] \<rparr>)"
  using quiet_new_task [of t L d "d'\<lparr> uuids := Suc (uuids d') \<rparr>"] by simp

lemma quiet_flush: "flush d' = Inr d'' \<Longrightarrow> quiet_step L d d' \<Longrightarrow> quiet_step L d d''"
  by (auto dest!: flush_settle intro: quiet_settle)

lemma quiet_transact [quiet]:
  assumes "\<And>d' x. body = Inr (d', x) \<Longrightarrow> quiet_step L d d'"
  shows "quiet_step L d (snd (transact d body))"
  using assms quiet_settle [of L d] flush_settle
  by (cases body) (fastforce simp: transact_def split: sum.splits prod.splits)+

lemma quiet_then_transact:
  assumes "quiet_step L d (snd first)" "\<And>x e e' y. body x e = Inr (e', y) \<Longrightarrow> quiet_step L e e'"
  shows "quiet_step L d (snd (then_transact first body))"
  using assms quiet_trans [OF assms(1)] quiet_transact [of "body _ (snd first)" L "snd first"]
  by (cases first) (auto simp: then_transact_def split: sum.splits)

lemma quiet_fold:
  assumes "foldM f d xs = Inr d'" "\<And>e x e'. f e x = Inr e' \<Longrightarrow> quiet_step L e e'"
  shows "quiet_step L d d'"
  using foldM_invariant [OF assms(1), of "quiet_step L d"] assms(2) quiet_trans quiet_refl by metis

section \<open>The queue\<close>

lemma quiet_node_writes:
  "node_status nid s b d' = Inr d'' \<Longrightarrow> quiet_step L d d' \<Longrightarrow> quiet_step L d d''"
  "node_completed now nid out md refs d' = Inr d'' \<Longrightarrow> quiet_step L d d' \<Longrightarrow> quiet_step L d d''"
  "node_failed now nid err md refs d' = Inr d'' \<Longrightarrow> quiet_step L d d' \<Longrightarrow> quiet_step L d d''"
  "node_cancelled now nid d' = Inr d'' \<Longrightarrow> quiet_step L d d' \<Longrightarrow> quiet_step L d d''"
  by (auto simp: node_status_def node_completed_def node_failed_def node_cancelled_def outcome split: option.splits if_splits)

lemma drop_lease_token [simp]: "t_lease_token (drop_lease t) = None" "t_id (drop_lease t) = t_id t"
  by (simp_all add: drop_lease_def)

lemma quiet_fenced:
  "(\<And>t d' b. body t = Inr (d', b) \<Longrightarrow> quiet_step L d d') \<Longrightarrow> quiet_step L d (snd (fenced now tid w k d body))"
  unfolding fenced_def by (rule quiet_transact) (auto split: option.splits if_splits)

lemma quiet_release: "release_or_cancel_for_run_state now t run d = Inr d' \<Longrightarrow> quiet_step L d d'"
  by (auto simp: release_or_cancel_for_run_state_def Let_def outcome split: if_splits intro!: quiet_upd_task elim!: quiet_node_writes)

lemma quiet_claim_locked: "claim_locked L secs now w auto tid rid d = Inr (d', c) \<Longrightarrow> quiet_step L d d'"
  by (auto simp: claim_locked_def Let_def uuid4_def outcome split: if_splits option.splits
      intro!: quiet_upd_task quiet_fresh_token elim!: quiet_node_writes)

lemma quiet_start [quiet]: "quiet_step L d (snd (start now tid w k d))"
  unfolding start_def
  by (rule quiet_fenced) (auto simp: Let_def outcome split: if_splits intro!: quiet_upd_task elim!: quiet_node_writes dest: quiet_release)

lemma quiet_complete [quiet]: "quiet_step L d (snd (complete now tid w k out md refs d))"
  unfolding complete_def by (rule quiet_fenced) (auto simp: outcome intro!: quiet_upd_task elim!: quiet_node_writes)

lemma quiet_fail [quiet]: "quiet_step L d (snd (fail now tid w k err md refs d))"
  unfolding fail_def by (rule quiet_fenced) (auto simp: outcome intro!: quiet_upd_task elim!: quiet_node_writes)

lemma quiet_wait_node [quiet]: "quiet_step L d (snd (wait_node now tid w k reason md d))"
  unfolding wait_node_def
  by (rule quiet_fenced) (auto simp: Let_def outcome split: option.splits intro!: quiet_upd_task elim!: quiet_node_writes)

lemma quiet_schedule_retry [quiet]: "quiet_step L d (snd (schedule_retry now tid w k secs d))"
  unfolding schedule_retry_def by (rule quiet_fenced) (auto simp: outcome intro!: quiet_upd_task elim!: quiet_node_writes)

lemma quiet_renew_lease [quiet]: "quiet_step L d (snd (renew_lease secs now tid w k d))"
  unfolding renew_lease_def by (rule quiet_fenced) (auto intro!: quiet_upd_task)

lemma quiet_claim [quiet]: "quiet_step L d (snd (claim L secs now w caps auto d))"
  unfolding claim_def by (rule quiet_transact) (auto split: option.splits dest: quiet_claim_locked)

lemma quiet_cancel [quiet]: "quiet_step L d (snd (cancel now tid d))"
  unfolding cancel_def
  by (rule quiet_transact) (auto simp: outcome split: option.splits if_splits intro!: quiet_upd_task elim!: quiet_node_writes)

lemma quiet_recover_expired [quiet]: "quiet_step L d (snd (recover_expired now d))"
  unfolding recover_expired_def
  by (rule quiet_transact) (auto simp: Let_def outcome recover_task_def elim!: quiet_fold intro!: quiet_upd_task)

lemma quiet_promote_due_retries [quiet]: "quiet_step L d (snd (promote_due_retries now d))"
  unfolding promote_due_retries_def
  by (rule quiet_transact) (auto simp: Let_def outcome promote_task_def elim!: quiet_fold quiet_node_writes intro!: quiet_upd_task)

section \<open>The scheduler\<close>

lemma quiet_create_workspace: "create_workspace L now rid nid node name repo strat base runner d = Inr (d', ws) \<Longrightarrow> quiet_step L d d'"
  by (auto simp: create_workspace_def Let_def uuid4_def outcome split: if_splits elim!: quiet_flush)

lemma quiet_attach: "attach_workspace L now rid nr node payload runner d = Inr (d', p) \<Longrightarrow> quiet_step L d d'"
  by (auto simp: attach_workspace_def outcome split: json.splits if_splits dest: quiet_create_workspace)

lemma quiet_queue_node: "queue_node L S now node nr rid mx payload runner cap d = Inr d' \<Longrightarrow> quiet_step L d d'"
  by (auto simp: queue_node_def Let_def uuid4_def outcome new_task_def intro!: quiet_add_task)

lemma quiet_schedule_node: "schedule_node L S now run g (d, sub) k = Inr (d', sub') \<Longrightarrow> quiet_step L d d'"
  by (auto simp: schedule_node_def Let_def outcome split: option.splits if_splits prod.splits
      dest!: quiet_queue_node [of L] quiet_attach intro: quiet_trans)

lemma quiet_skip_events [simp]: "quiet_step L d (skip_events now rid pend nrs d') = quiet_step L d d'"
proof -
  obtain es where "skip_events now rid pend nrs d' = d'\<lparr> events := events d' @ es \<rparr>"
    using skip_events_eq [of now rid pend nrs d'] by blast
  then show ?thesis by (simp add: quiet_step_def same_definitions_def tokens_def)
qed

lemma quiet_fold_pair:
  assumes "foldM f (d, a) xs = Inr (d', a')" "\<And>e b x e' b'. f (e, b) x = Inr (e', b') \<Longrightarrow> quiet_step L e e'"
  shows "quiet_step L d d'"
  using assms(1)
proof (induction xs arbitrary: d a)
  case (Cons x xs)
  then obtain e b where e: "f (d, a) x = Inr (e, b)" "foldM f (e, b) xs = Inr (d', a')" by (auto simp: outcome)
  show ?case using quiet_trans [OF assms(2) [OF e(1)] Cons.IH [OF e(2)]] .
qed simp

lemma quiet_skip_source [simp]: "quiet_step L (skip_events now rid pend nrs d) d' = quiet_step L d d'"
proof -
  obtain es where "skip_events now rid pend nrs d = d\<lparr> events := events d @ es \<rparr>"
    using skip_events_eq [of now rid pend nrs d] by blast
  then show ?thesis by (simp add: quiet_step_def same_definitions_def tokens_def)
qed

lemma quiet_schedule_ready: "schedule_ready_nodes L S now rid d = Inr (d', sub) \<Longrightarrow> quiet_step L d d'"
  by (auto simp: schedule_ready_nodes_def Let_def outcome case_prod_unfold split: option.splits if_splits
      dest!: quiet_fold_pair [OF _ quiet_schedule_node])

lemma quiet_promote_due_waits: "promote_due_waits L now rid d = Inr (d', b) \<Longrightarrow> quiet_step L d d'"
  by (auto simp: promote_due_waits_def promote_wait_def Let_def outcome elim!: quiet_fold)

lemma quiet_cancel_run_tasks: "cancel_run_tasks now rid d = Inr d' \<Longrightarrow> quiet_step L d d'"
proof -
  have t: "cancel_task now rid e t = Inr e' \<Longrightarrow> quiet_step L e e'" for e t e'
    by (auto simp: cancel_task_def Let_def outcome split: if_splits option.splits intro!: quiet_upd_task)
  have n: "cancel_pending now e n = Inr e' \<Longrightarrow> quiet_step L e e'" for e n e'
    by (auto simp: cancel_pending_def outcome split: if_splits)
  assume "cancel_run_tasks now rid d = Inr d'"
  then obtain e where "foldM (cancel_task now rid) d (list_tasks_for_run rid d) = Inr e"
    "foldM (cancel_pending now) e (list_node_runs rid e) = Inr d'" by (auto simp: cancel_run_tasks_def outcome)
  then show "quiet_step L d d'" by (meson quiet_fold t n quiet_trans)
qed

lemma quiet_workflow_event [simp]: "quiet_step L d (workflow_event now rid s reason d') = quiet_step L d d'"
  by (cases s) (simp_all add: workflow_event_def Let_def)

lemma quiet_apply_derived: "apply_derived L S now rid c s d = Inr d' \<Longrightarrow> quiet_step L d d'"
  by (auto simp: apply_derived_def Let_def outcome split: if_splits dest!: quiet_cancel_run_tasks [where L = L]
      intro: quiet_trans [of L d "upd_run rid (set_derived now s) d"])

lemma quiet_reconcile_run: "reconcile_run L S now rid d = Inr (d', out) \<Longrightarrow> quiet_step L d d'"
proof (cases "get_run rid d")
  case (Some run)
  assume res: "reconcile_run L S now rid d = Inr (d', out)"
  show ?thesis
  proof (cases "r_status run \<in> {W_CANCELLED, W_COMPLETED, W_FAILED, W_PAUSED}")
    case True
    with res Some show ?thesis by (auto simp: reconcile_run_def Let_def outcome dest: quiet_cancel_run_tasks)
  next
    case False
    with res Some show ?thesis
      by (auto simp: reconcile_run_def Let_def outcome split: if_splits prod.splits
          dest!: quiet_promote_due_waits quiet_schedule_ready quiet_apply_derived) (meson quiet_trans)+
  qed
qed (simp add: reconcile_run_def)

section \<open>The run service\<close>

lemma quiet_read_back [quiet]: "quiet_step L d (snd res) \<Longrightarrow> quiet_step L d (snd (read_back L rid res))"
  by (auto simp: read_back_def split: prod.splits sum.splits)

lemma quiet_start_run [quiet]: "quiet_step L d (snd (start_run L now rid d))"
  unfolding start_run_def
  by (intro quiet_read_back quiet_then_transact quiet_transact) (auto simp: outcome dest: quiet_schedule_ready)

lemma quiet_pause_run [quiet]: "quiet_step L d (snd (pause_run L now rid d))"
  unfolding pause_run_def by (intro quiet_read_back quiet_transact) (auto simp: outcome)

lemma quiet_resume_run [quiet]: "quiet_step L d (snd (resume_run L now rid d))"
  unfolding resume_run_def
  by (intro quiet_read_back quiet_then_transact quiet_transact) (auto simp: outcome dest: quiet_reconcile_run)

lemma quiet_cancel_run [quiet]: "quiet_step L d (snd (cancel_run L now rid d))"
proof -
  have n: "cancel_node now e n = Inr e' \<Longrightarrow> quiet_step L e e'" for e n e'
    by (auto simp: cancel_node_def outcome split: if_splits)
  show ?thesis
    unfolding cancel_run_def
    by (intro quiet_read_back quiet_transact)
      (auto simp: outcome Let_def split: if_splits dest!: quiet_fold [OF _ n] quiet_cancel_run_tasks [where L = L] intro: quiet_trans)
qed

lemma quiet_then_reconcile: "quiet_step L d (snd first) \<Longrightarrow> quiet_step L d (snd (then_reconcile L now nid first))"
  unfolding snd_then_reconcile by (rule quiet_then_transact) (auto dest: quiet_reconcile_run)

lemma quiet_resume_events [simp]: "quiet_step L d (resume_events now run n msg act ty msg2 extra d') = quiet_step L d d'"
  by (simp add: resume_events_def)

lemma quiet_approve [quiet]: "quiet_step L d (snd (approve_node_run L now nid d))"
  unfolding approve_node_run_def by (intro quiet_then_reconcile quiet_transact) (auto simp: outcome Let_def)

lemma quiet_reject [quiet]: "quiet_step L d (snd (reject_node_run L now nid d))"
  unfolding reject_node_run_def by (intro quiet_then_reconcile quiet_transact) (auto simp: outcome Let_def split: if_splits)

lemma quiet_submit [quiet]: "quiet_step L d (snd (submit_node_run L now nid input d))"
  unfolding submit_node_run_def by (intro quiet_then_reconcile quiet_transact) (auto simp: outcome Let_def)

section \<open>Runners, workspaces and artifacts\<close>

lemma quiet_write_runner: "write_runner k f d' = Inr (d'', r) \<Longrightarrow> quiet_step L d d' \<Longrightarrow> quiet_step L d d''"
  by (auto simp: write_runner_def Let_def outcome)

lemma quiet_token: "token_urlsafe L d' = (tok, d'') \<Longrightarrow> quiet_step L d d' \<Longrightarrow> quiet_step L d d''"
  by (auto simp: token_urlsafe_def)

lemma quiet_set_runner_enabled [quiet]: "quiet_step L d (snd (set_runner_enabled L now k b d))"
  unfolding set_runner_enabled_def
  by (rule quiet_transact) (auto simp: Let_def outcome split: prod.splits if_splits option.splits elim!: quiet_write_runner quiet_token)

lemma quiet_rotate_runner_token [quiet]: "quiet_step L d (snd (rotate_runner_token L now k d))"
  unfolding rotate_runner_token_def
  by (rule quiet_transact) (auto simp: Let_def outcome split: prod.splits if_splits option.splits elim!: quiet_write_runner quiet_token)

lemma quiet_revoke_runner [quiet]: "quiet_step L d (snd (revoke_runner L now k d))"
  unfolding revoke_runner_def
  by (rule quiet_transact) (auto simp: Let_def outcome split: prod.splits if_splits option.splits elim!: quiet_write_runner quiet_token)

lemma quiet_heartbeat_runner [quiet]: "quiet_step L d (snd (heartbeat_runner now k h p caps md d))"
  unfolding heartbeat_runner_def
  by (rule quiet_transact) (auto simp: Let_def outcome split: prod.splits if_splits option.splits elim!: quiet_write_runner quiet_token)

lemma quiet_register_runner [quiet]: "quiet_step L d (snd (register_runner L now name h p caps md rid tok d))"
  unfolding register_runner_def
  by (rule quiet_transact)
    (auto simp: Let_def outcome enroll_def uuid4_def token_urlsafe_def split: prod.splits if_splits option.splits list.splits
      intro!: quiet_uuids)

lemma quiet_runner_claim [quiet]: "quiet_step L d (snd (runner_claim L secs now r d))"
proof -
  have "runner_claim_locked L secs now r tid rid d = Inr (d', c) \<Longrightarrow> quiet_step L d d'" for tid rid d' c
    by (auto simp: runner_claim_locked_def Let_def uuid4_def outcome start_node_def use_workspace_def claimed_running_def
        split: if_splits option.splits intro!: quiet_fresh_token)
  then show ?thesis unfolding runner_claim_def by (intro quiet_transact) (auto split: option.splits)
qed

lemma quiet_runner_task_heartbeat [quiet]: "quiet_step L d (snd (runner_task_heartbeat secs now w tid k d))"
  unfolding runner_task_heartbeat_def
  by (rule quiet_transact) (auto simp: Let_def lease_until_def split: option.splits if_splits intro!: quiet_upd_task)

lemma quiet_adds: "adds_artifacts d d' \<Longrightarrow> quiet_step L d d'"
  unfolding adds_artifacts_def
  by (elim conjE exE, erule ssubst) (simp add: quiet_step_def same_definitions_def tokens_def)

lemma quiet_log_event [simp]: "quiet_step L d (log_event now t w stream v d') = quiet_step L d d'"
  by (simp add: log_event_def split: json.splits)

lemma quiet_runner_event [simp]: "quiet_step L d (runner_event now t w ty msg extra d') = quiet_step L d d'"
  by (simp add: runner_event_def)

lemma quiet_sync [simp]: "quiet_step L d (sync_workspace_result L now t r d') = quiet_step L d d'"
  by (simp add: sync_workspace_result_def split: option.splits)

lemma quiet_submit_branches:
  "submit_ok now w t out md refs d' = Inr d'' \<Longrightarrow> quiet_step L d d' \<Longrightarrow> quiet_step L d d''"
  "submit_retry now w t err d' = Inr d'' \<Longrightarrow> quiet_step L d d' \<Longrightarrow> quiet_step L d d''"
  "submit_failed L2 now w t err md refs d' = Inr d'' \<Longrightarrow> quiet_step L d d' \<Longrightarrow> quiet_step L d d''"
  unfolding submit_ok_def submit_retry_def submit_failed_def runner_node_failed_def done_task_def retry_task_def failed_task_def Let_def
  by (auto simp: outcome split: option.splits if_splits intro!: quiet_upd_task elim!: quiet_node_writes)

lemma quiet_submit_body:
  assumes "new_tasks d = []" "submit_body L save mx now w t r d = Inr d'"
  shows "quiet_step L d d'"
proof -
  obtain e refs om where a: "submit_artifacts L save mx now t r d = Inr (e, refs, om)"
    using assms(2) by (auto simp: submit_body_def outcome)
  have "quiet_step L d e"
    using a assms(1) by (auto simp: submit_artifacts_def outcome split: if_splits dest!: register_candidates_result(1) intro: quiet_adds)
  then show ?thesis
    using assms(2) a by (auto simp: submit_body_def outcome Let_def split: if_splits elim!: quiet_submit_branches)
qed

lemma quiet_runner_submit [quiet]:
  assumes "new_tasks d = []"
  shows "quiet_step L d (snd (runner_submit L save mx now w tid k r d))"
proof -
  have "quiet_step L d (snd (submit_commit L save mx now w tid k r d))"
    unfolding submit_commit_def
    by (rule quiet_transact) (auto simp: outcome split: option.splits if_splits dest: quiet_submit_body [OF assms])
  then show ?thesis
    unfolding runner_submit_def
    by (rule quiet_then_transact)
      (auto simp: after_submit_def outcome split: option.splits if_splits prod.splits dest: quiet_reconcile_run)
qed

lemma quiet_workspace_ops [quiet]:
  "quiet_step L d (snd (finalize_workspace now wid path branch status d))"
  "quiet_step L d (snd (release_workspace L now wid d))"
  "quiet_step L d (snd (claim_workspace_cleanup L now rid secs d))"
  "quiet_step L d (snd (complete_workspace_cleanup L now rid wid ok err d))"
proof -
  have w: "write_workspace now wid f e = Inr (e', ws) \<Longrightarrow> quiet_step L e e'" for wid f e e' ws
    by (auto simp: write_workspace_def Let_def outcome)
  show "quiet_step L d (snd (finalize_workspace now wid path branch status d))"
    unfolding finalize_workspace_def by (rule quiet_transact) (auto simp: outcome dest: w)
  show "quiet_step L d (snd (release_workspace L now wid d))"
    unfolding release_workspace_def by (rule quiet_transact) (auto simp: outcome split: if_splits dest: w)
  show "quiet_step L d (snd (claim_workspace_cleanup L now rid secs d))"
    unfolding claim_workspace_cleanup_def by (rule quiet_transact) (auto simp: outcome split: list.splits dest: w)
  show "quiet_step L d (snd (complete_workspace_cleanup L now rid wid ok err d))"
    unfolding complete_workspace_cleanup_def by (rule quiet_transact) (auto simp: outcome split: if_splits dest: w)
qed

lemma quiet_artifact_ops [quiet]:
  assumes "new_tasks d = []"
  shows "quiet_step L d (snd (create_runner_artifact_upload L now w tid k name ty ct md key d))"
    and "quiet_step L d (snd (finalize_runner_artifact_upload aid n d))"
    and "quiet_step L d (snd (fail_runner_artifact_upload aid err d))"
proof -
  have i: "insert_artifact a (e\<lparr> uuids := Suc (uuids e) \<rparr>) = Inr e' \<Longrightarrow> new_tasks e = [] \<Longrightarrow> quiet_step L e e'" for a e e'
    using insert_after_uuid(1) [of a L e e'] by (auto simp: uuid4_def intro: quiet_adds)
  show "quiet_step L d (snd (create_runner_artifact_upload L now w tid k name ty ct md key d))"
    unfolding create_runner_artifact_upload_def
    by (rule quiet_transact) (auto simp: outcome Let_def uuid4_def assms split: option.splits if_splits dest: i)
  show "quiet_step L d (snd (finalize_runner_artifact_upload aid n d))"
    unfolding finalize_runner_artifact_upload_def by (rule quiet_transact) auto
  show "quiet_step L d (snd (fail_runner_artifact_upload aid err d))"
    unfolding fail_runner_artifact_upload_def by (rule quiet_transact) auto
qed

section \<open>The worker and recovery\<close>

lemma quiet_and_then:
  assumes "quiet_step L d (snd first)" "\<And>x. quiet_step L (snd first) (snd (rest x (snd first)))"
  shows "quiet_step L d (snd (and_then first rest))"
  using assms quiet_trans [OF assms(1)] by (auto simp: and_then_def split: prod.splits sum.splits)

lemma quiet_reconcile_after [quiet]: "quiet_step L d (snd (reconcile_after L S now rid d))"
  unfolding reconcile_after_def by (rule quiet_transact) (auto simp: outcome dest: quiet_reconcile_run)

lemma quiet_reconcile_active [quiet]: "quiet_step L d (snd (reconcile_active L S now d))"
  unfolding reconcile_active_def
  by (rule quiet_transact) (auto simp: outcome elim!: quiet_fold dest: quiet_reconcile_run)

lemma quiet_build_execution_context [quiet]: "quiet_step L d (snd (build_execution_context L task d))"
proof -
  have "quiet_step L d (snd (and_then (transact d (Inr (upd_node k f d, ()))) (\<lambda>_ e. case r of Inl x \<Rightarrow> (Inl x, e) | Inr y \<Rightarrow> (Inr (g y), e))))"
    for k f and r :: "exn + dict" and g :: "dict \<Rightarrow> node_execution_context"
    by (rule quiet_and_then [OF quiet_transact]) (auto split: sum.splits)
  then show ?thesis unfolding build_execution_context_def by (auto simp: Let_def split: option.splits sum.splits)
qed

lemma quiet_register_candidates [quiet]:
  assumes "new_tasks d = []"
  shows "quiet_step L d (snd (transact d (register_artifact_candidates L save mx now rid nid items d)))"
  by (rule quiet_transact) (auto dest!: register_candidates_result(1) [OF _ assms] intro: quiet_adds)

end
