(* ===== verification/GraphReach.thy ===== *)
theory GraphReach
  imports GraphIndex
begin

text \<open>
  What the searches of the graph index compute: reachability along the edge relation, proper
  ancestors and descendants, and, for Kahn's algorithm, the nodes that lie on a cycle or
  downstream of one.
\<close>

definition edge_rel :: "workflow_graph \<Rightarrow> (string \<times> string) set" where
  "edge_rel g = {(e_source e, e_target e) |e. e \<in> set (g_edges g)}"

lemma edge_rel_iff: "(a, b) \<in> edge_rel g \<longleftrightarrow> (\<exists>e\<in>set (g_edges g). e_source e = a \<and> e_target e = b)"
  by (auto simp: edge_rel_def)

lemma finite_edge_rel: "finite (edge_rel g)"
proof -
  have "edge_rel g = (\<lambda>e. (e_source e, e_target e)) ` set (g_edges g)"
    by (auto simp: edge_rel_def)
  then show ?thesis by simp
qed

section \<open>The work-list search\<close>

definition search_rel :: "adjacency \<Rightarrow> (string \<Rightarrow> bool) \<Rightarrow> (string \<Rightarrow> bool) \<Rightarrow> (string \<times> string) set" where
  "search_rel adj stop skip = {(x, y). y \<in> set (succs adj x) \<and> \<not> stop x \<and> \<not> skip y}"

definition search_closed ::
  "adjacency \<Rightarrow> (string \<Rightarrow> bool) \<Rightarrow> (string \<Rightarrow> bool) \<Rightarrow> string list \<Rightarrow> string list \<Rightarrow> bool" where
  "search_closed adj stop skip stack seen \<longleftrightarrow>
     (\<forall>x\<in>set seen. \<forall>y. (x, y) \<in> search_rel adj stop skip \<longrightarrow> y \<in> set seen \<union> set stack)"

lemma search_closed_reach:
  assumes "search_closed adj stop skip stack seen" and "x \<in> set seen"
    and "(x, y) \<in> (search_rel adj stop skip)\<^sup>*"
  shows "y \<in> set seen \<union> (search_rel adj stop skip)\<^sup>* `` {s \<in> set stack. \<not> skip s}"
  using assms(3)
proof (induction rule: rtrancl_induct)
  case base
  with assms(2) show ?case by simp
next
  case (step y z)
  show ?case
  proof (cases "y \<in> set seen")
    case True
    with assms(1) step(2) have "z \<in> set seen \<union> set stack" by (auto simp: search_closed_def)
    moreover from step(2) have "\<not> skip z" by (simp add: search_rel_def)
    ultimately show ?thesis by blast
  next
    case False
    with step show ?thesis by (auto intro: rtrancl_into_rtrancl)
  qed
qed

lemma absorb_frontier:
  assumes "A \<subseteq> C \<union> B" "B \<subseteq> A" "C \<subseteq> set (xs @ [c]) \<union> A" "c \<in> C"
  shows "set (xs @ [c]) \<union> A = set xs \<union> (C \<union> B)"
  using assms by auto

lemma explore_reach:
  "search_closed adj stop skip stack seen \<Longrightarrow>
   set (explore adj stop skip stack seen) =
     set seen \<union> (search_rel adj stop skip)\<^sup>* `` {s \<in> set stack. \<not> skip s}"
proof (induction adj stop skip stack seen rule: explore.induct)
  case (1 adj stop skip seen)
  then show ?case by simp
next
  case (2 adj stop skip c stack seen)
  let ?R = "search_rel adj stop skip"
  show ?case
  proof (cases "skip c \<or> c \<in> set seen")
    case True
    have closed: "search_closed adj stop skip stack seen"
      using "2.prems" True by (auto simp: search_closed_def search_rel_def)
    have "?R\<^sup>* `` {s \<in> set (c # stack). \<not> skip s} \<subseteq>
        set seen \<union> ?R\<^sup>* `` {s \<in> set stack. \<not> skip s}"
      using True search_closed_reach [OF closed] by auto
    then show ?thesis using "2.IH"(1) [OF True closed] True by auto
  next
    case False
    let ?new = "if stop c then []
      else rev (filter (\<lambda>y. y \<notin> set (seen @ [c]) \<and> \<not> skip y) (succs adj c))"
    have closed: "search_closed adj stop skip (?new @ stack) (seen @ [c])"
      using "2.prems" by (auto simp: search_closed_def search_rel_def)
    have new: "s \<in> set ?new \<Longrightarrow> (c, s) \<in> ?R" for s
      by (auto simp: search_rel_def split: if_splits)
    let ?A = "{s \<in> set (?new @ stack). \<not> skip s}" and ?B = "{s \<in> set stack. \<not> skip s}"
    have c: "?R\<^sup>* `` {s \<in> set (c # stack). \<not> skip s} = ?R\<^sup>* `` {c} \<union> ?R\<^sup>* `` ?B"
      using False by auto
    have "(c, x) \<in> ?R\<^sup>*" if "s \<in> set ?new" "(s, x) \<in> ?R\<^sup>*" for s x
      using new [OF that(1)] that(2) by (rule converse_rtrancl_into_rtrancl)
    moreover have "?A \<subseteq> set ?new \<union> ?B" by auto
    ultimately have "?R\<^sup>* `` ?A \<subseteq> ?R\<^sup>* `` {c} \<union> ?R\<^sup>* `` ?B" by blast
    moreover have "?R\<^sup>* `` ?B \<subseteq> ?R\<^sup>* `` ?A" by auto
    moreover have "?R\<^sup>* `` {c} \<subseteq> set (seen @ [c]) \<union> ?R\<^sup>* `` ?A"
      using search_closed_reach [OF closed, of c] by (intro subsetI) simp
    ultimately have "set (seen @ [c]) \<union> ?R\<^sup>* `` ?A = set seen \<union> ?R\<^sup>* `` {s \<in> set (c # stack). \<not> skip s}"
      unfolding c by (intro absorb_frontier) auto
    then show ?thesis using "2.IH"(2) [OF False closed] False by auto
  qed
qed

lemma explore_from_start:
  "set (explore adj stop skip stack []) = (search_rel adj stop skip)\<^sup>* `` {s \<in> set stack. \<not> skip s}"
  by (subst explore_reach) (auto simp: search_closed_def)

section \<open>Reachability, ancestors, descendants\<close>

lemma set_reachable_from: "set (reachable_from (build g) ids) = (edge_rel g)\<^sup>* `` set ids"
proof -
  have "search_rel (out_adjacency (build g)) (\<lambda>_. False) (\<lambda>_. False) = edge_rel g"
    by (auto simp: search_rel_def edge_rel_def)
  then show ?thesis by (simp add: reachable_from_def explore_from_start)
qed

text \<open>Cutting a path at its last visit of \<open>i\<close>: forbidding to re-enter \<open>i\<close> loses nothing.\<close>

lemma avoid_start:
  assumes "(i, m) \<in> E\<^sup>+" and "m \<noteq> i"
  shows "m \<in> {(x, y). (x, y) \<in> E \<and> y \<noteq> i}\<^sup>* `` {s. (i, s) \<in> E \<and> s \<noteq> i}"
  using assms
proof (induction rule: trancl_induct)
  case (base y)
  then show ?case by auto
next
  case (step y z)
  show ?case
  proof (cases "y = i")
    case True
    with step show ?thesis by auto
  next
    case False
    with step show ?thesis by (auto intro: rtrancl_into_rtrancl)
  qed
qed

lemma avoid_start_iff:
  "{(x, y). (x, y) \<in> E \<and> y \<noteq> i}\<^sup>* `` {s. (i, s) \<in> E \<and> s \<noteq> i} = {m. m \<noteq> i \<and> (i, m) \<in> E\<^sup>+}"
proof -
  let ?R = "{(x, y). (x, y) \<in> E \<and> y \<noteq> i}"
  have "(s, m) \<in> ?R\<^sup>* \<Longrightarrow> (i, s) \<in> E \<Longrightarrow> s \<noteq> i \<Longrightarrow> m \<noteq> i \<and> (i, m) \<in> E\<^sup>+" for s m
    by (induction rule: rtrancl_induct) (auto intro: trancl_into_trancl)
  then show ?thesis using avoid_start [of i _ E] by blast
qed

lemma set_descendants: "set (descendants (build g) i) = {m. m \<noteq> i \<and> (i, m) \<in> (edge_rel g)\<^sup>+}"
proof -
  have "search_rel (out_adjacency (build g)) (\<lambda>_. False) (\<lambda>c. c = i) = {(x, y). (x, y) \<in> edge_rel g \<and> y \<noteq> i}"
    by (auto simp: search_rel_def edge_rel_def)
  moreover have "{s \<in> set (rev (map e_target (outgoing_edges (build g) i))). s \<noteq> i} = {s. (i, s) \<in> edge_rel g \<and> s \<noteq> i}"
    by (auto simp: edge_rel_def)
  ultimately show ?thesis by (simp only: descendants_def explore_from_start avoid_start_iff)
qed

lemma set_ancestors: "set (ancestors (build g) i) = {m. m \<noteq> i \<and> (m, i) \<in> (edge_rel g)\<^sup>+}"
proof -
  have "search_rel (in_adjacency (build g)) (\<lambda>_. False) (\<lambda>c. c = i) = {(x, y). (x, y) \<in> (edge_rel g)\<inverse> \<and> y \<noteq> i}"
    by (auto simp: search_rel_def edge_rel_def)
  moreover have "{s \<in> set (rev (map e_source (incoming_edges (build g) i))). s \<noteq> i} = {s. (i, s) \<in> (edge_rel g)\<inverse> \<and> s \<noteq> i}"
    by (auto simp: edge_rel_def)
  ultimately have "set (ancestors (build g) i) = {m. m \<noteq> i \<and> (i, m) \<in> ((edge_rel g)\<inverse>)\<^sup>+}"
    by (simp only: ancestors_def explore_from_start avoid_start_iff)
  then show ?thesis by (simp add: trancl_converse)
qed

section \<open>Kahn's algorithm\<close>

text \<open>The nodes on a cycle, or reachable from one.\<close>

definition cycle_shadow :: "('a \<times> 'a) set \<Rightarrow> 'a set" where
  "cycle_shadow E = {v. \<exists>u. (u, u) \<in> E\<^sup>+ \<and> (u, v) \<in> E\<^sup>*}"

lemma cycle_shadow_empty: "cycle_shadow E = {} \<longleftrightarrow> acyclic E"
  by (auto simp: cycle_shadow_def acyclic_def)

lemma cycle_shadow_pred:
  assumes "v \<in> cycle_shadow E"
  obtains w where "(w, v) \<in> E" and "w \<in> cycle_shadow E"
proof -
  from assms obtain u where u: "(u, u) \<in> E\<^sup>+" and "(u, v) \<in> E\<^sup>*" by (auto simp: cycle_shadow_def)
  then have "(u, v) \<in> E\<^sup>+" by auto
  then obtain w where "(u, w) \<in> E\<^sup>*" and "(w, v) \<in> E" by (meson tranclD2)
  with u that show thesis by (auto simp: cycle_shadow_def)
qed

lemma backward_closed_in_shadow:
  assumes fin: "finite E" and pred: "\<And>x. x \<in> S \<Longrightarrow> \<exists>y\<in>S. (y, x) \<in> E"
  shows "S \<subseteq> cycle_shadow E"
proof (rule ccontr)
  assume "\<not> S \<subseteq> cycle_shadow E"
  then obtain x0 where x0: "x0 \<in> S - cycle_shadow E" by blast
  let ?T = "S - cycle_shadow E"
  let ?F = "E \<inter> ?T \<times> ?T"
  have shadow_step: "y \<in> cycle_shadow E \<Longrightarrow> (y, x) \<in> E \<Longrightarrow> x \<in> cycle_shadow E" for x y
    by (auto simp: cycle_shadow_def intro: rtrancl_into_rtrancl)
  have backw: "x \<in> ?T \<Longrightarrow> \<exists>y\<in>?T. (y, x) \<in> ?F" for x
    using pred [of x] shadow_step by blast
  have "acyclic ?F"
  proof (rule acyclicI, intro allI notI)
    fix x assume cyc: "(x, x) \<in> ?F\<^sup>+"
    then have "x \<in> ?T" by (auto elim: tranclE)
    moreover from cyc have "(x, x) \<in> E\<^sup>+" by (rule trancl_mono) blast
    ultimately show False by (auto simp: cycle_shadow_def)
  qed
  then have "wf ?F" using fin by (simp add: finite_acyclic_wf)
  then obtain z where "z \<in> ?T" and "\<And>y. (y, z) \<in> ?F \<Longrightarrow> y \<notin> ?T"
    using x0 wfE_min [of ?F x0 ?T] by metis
  with backw show False by blast
qed

lemma foldl_decrement:
  assumes "\<And>v k. map_of d v = Some k \<Longrightarrow> int (length (filter (\<lambda>e. e_target e = v) es)) \<le> k"
  shows "\<exists>d' new. foldl decrement (d, q) es = (d', q @ new) \<and> distinct new
    \<and> set new = {v. \<exists>k>0. map_of d v = Some k \<and> k = int (length (filter (\<lambda>e. e_target e = v) es))}
    \<and> (\<forall>v. map_of d' v = map_option (\<lambda>k. k - int (length (filter (\<lambda>e. e_target e = v) es))) (map_of d v))"
  using assms
proof (induction es arbitrary: d q)
  case Nil
  have "map_option (\<lambda>k. k) x = x" for x :: "int option" by (cases x) auto
  then show ?case by auto
next
  case (Cons e es)
  let ?t = "e_target e"
  show ?case
  proof (cases "map_of d ?t")
    case None
    have "map_of d v = Some k \<Longrightarrow> int (length (filter (\<lambda>e. e_target e = v) es)) \<le> k" for v k
      using Cons.prems [of v k] by (auto split: if_splits)
    from Cons.IH [where q = q, OF this] obtain d' new where IH:
      "foldl decrement (d, q) es = (d', q @ new)" "distinct new"
      "set new = {v. \<exists>k>0. map_of d v = Some k \<and> k = int (length (filter (\<lambda>e. e_target e = v) es))}"
      "\<forall>v. map_of d' v = map_option (\<lambda>k. k - int (length (filter (\<lambda>e. e_target e = v) es))) (map_of d v)"
      by blast
    show ?thesis using IH None by (intro exI [of _ d'] exI [of _ new]) auto
  next
    case (Some k)
    let ?d = "dset ?t (k - 1) d" and ?a = "if k - 1 = 0 then [?t] else []"
    have k: "int (length (filter (\<lambda>e. e_target e = ?t) es)) \<le> k - 1"
      using Cons.prems [OF Some] by simp
    then have "map_of ?d v = Some j \<Longrightarrow> int (length (filter (\<lambda>e. e_target e = v) es)) \<le> j" for v j
      using Cons.prems [of v j] by (auto split: if_splits)
    from Cons.IH [where q = "q @ ?a", OF this] obtain d' new where IH:
      "foldl decrement (?d, q @ ?a) es = (d', (q @ ?a) @ new)" "distinct new"
      "set new = {v. \<exists>k>0. map_of ?d v = Some k \<and> k = int (length (filter (\<lambda>e. e_target e = v) es))}"
      "\<forall>v. map_of d' v = map_option (\<lambda>k. k - int (length (filter (\<lambda>e. e_target e = v) es))) (map_of ?d v)"
      by blast
    have "foldl decrement (d, q) (e # es) = (d', q @ (?a @ new))"
      using IH(1) Some by (cases "k = 1") simp_all
    moreover have "distinct (?a @ new)" using IH(2,3) k by auto
    moreover have "set (?a @ new) =
      {v. \<exists>k>0. map_of d v = Some k \<and> k = int (length (filter (\<lambda>e. e_target e = v) (e # es)))}"
    proof (rule set_eqI)
      fix v
      show "v \<in> set (?a @ new) \<longleftrightarrow>
        v \<in> {v. \<exists>k>0. map_of d v = Some k \<and> k = int (length (filter (\<lambda>e. e_target e = v) (e # es)))}"
      proof (cases "v = ?t")
        case True
        then show ?thesis using IH(3) Some k by (cases "k = 1") force+
      next
        case False
        then show ?thesis using IH(3) by simp
      qed
    qed
    moreover have "\<forall>v. map_of d' v = map_option (\<lambda>k. k - int (length (filter (\<lambda>e. e_target e = v) (e # es)))) (map_of d v)"
      using IH(4) Some by auto
    ultimately show ?thesis by blast
  qed
qed

text \<open>
  The loop invariant: \<open>P\<close> has been taken off the queue; an indegree counts the edges from
  nodes outside \<open>P\<close>; the processed and queued nodes are those of indegree 0; nothing processed
  lies in the shadow of a cycle.
\<close>

definition open_in :: "workflow_graph \<Rightarrow> string set \<Rightarrow> string \<Rightarrow> nat" where
  "open_in g P v = length (filter (\<lambda>e. e_target e = v \<and> e_source e \<notin> P) (g_edges g))"

definition kahn_inv :: "workflow_graph \<Rightarrow> string set \<Rightarrow> string list \<Rightarrow> (string \<times> int) list \<Rightarrow> bool" where
  "kahn_inv g P q d \<longleftrightarrow>
     distinct q \<and> set q \<inter> P = {} \<and> set q \<union> P \<subseteq> set (node_ids g)
     \<and> (\<forall>v. map_of d v = (if v \<in> set (node_ids g) then Some (int (open_in g P v)) else None))
     \<and> (\<forall>v\<in>set (node_ids g). v \<in> P \<union> set q \<longleftrightarrow> open_in g P v = 0)
     \<and> P \<inter> cycle_shadow (edge_rel g) = {}"

lemma length_filter_split:
  "length (filter Q xs) = length (filter (\<lambda>x. Q x \<and> R x) xs) + length (filter (\<lambda>x. Q x \<and> \<not> R x) xs)"
  by (induction xs) auto

lemma open_in_insert:
  assumes "c \<notin> P"
  shows "open_in g P v = open_in g (insert c P) v
    + length (filter (\<lambda>e. e_target e = v) (filter (\<lambda>e. e_source e = c) (g_edges g)))"
proof -
  have 1: "(e_target e = v \<and> e_source e \<notin> P) \<and> e_source e \<noteq> c \<longleftrightarrow> e_target e = v \<and> e_source e \<notin> insert c P" for e
    by auto
  have 2: "(e_target e = v \<and> e_source e \<notin> P) \<and> \<not> e_source e \<noteq> c \<longleftrightarrow> e_source e = c \<and> e_target e = v" for e
    using assms by auto
  show ?thesis
    unfolding open_in_def filter_filter
    by (subst length_filter_split [where R = "\<lambda>e. e_source e \<noteq> c"]) (simp only: 1 2)
qed

lemma open_in_zero: "open_in g P v = 0 \<longleftrightarrow> (\<forall>u. (u, v) \<in> edge_rel g \<longrightarrow> u \<in> P)"
  by (auto simp: open_in_def filter_empty_conv edge_rel_iff)

lemma kahn_inv_step:
  assumes inv: "kahn_inv g P (c # q) d" and wf: "well_formed_graph g"
    and step: "foldl decrement (d, q) (outgoing_edges (build g) c) = (d', q')"
  shows "kahn_inv g (insert c P) q' d'"
proof -
  let ?es = "filter (\<lambda>e. e_source e = c) (g_edges g)"
  let ?V = "set (node_ids g)"
  have c: "c \<notin> P" "c \<in> ?V" "c \<notin> set q" and dist: "distinct q"
    using inv by (auto simp: kahn_inv_def)
  have d: "map_of d v = (if v \<in> ?V then Some (int (open_in g P v)) else None)" for v
    using inv by (simp add: kahn_inv_def)
  have zero: "v \<in> ?V \<Longrightarrow> v \<in> P \<union> set (c # q) \<longleftrightarrow> open_in g P v = 0" for v
    using inv by (simp add: kahn_inv_def)
  have le: "map_of d v = Some k \<Longrightarrow> int (length (filter (\<lambda>e. e_target e = v) ?es)) \<le> k" for v k
    using open_in_insert [OF c(1), of g v] by (auto simp: d split: if_splits)
  obtain new where q': "q' = q @ new" and new: "distinct new"
    "set new = {v. \<exists>k>0. map_of d v = Some k \<and> k = int (length (filter (\<lambda>e. e_target e = v) ?es))}"
    and d': "\<And>v. map_of d' v = map_option (\<lambda>k. k - int (length (filter (\<lambda>e. e_target e = v) ?es))) (map_of d v)"
    using foldl_decrement [where d = d and q = q and es = ?es, OF le] step by fastforce
  have d'': "map_of d' v = (if v \<in> ?V then Some (int (open_in g (insert c P) v)) else None)" for v
    using open_in_insert [OF c(1), of g v] by (simp add: d' d)
  have new': "v \<in> set new \<longleftrightarrow> v \<in> ?V \<and> 0 < open_in g P v \<and> open_in g (insert c P) v = 0" for v
    using open_in_insert [OF c(1), of g v] by (auto simp: new(2) d split: if_splits)
  have zero': "v \<in> insert c P \<union> set q' \<longleftrightarrow> open_in g (insert c P) v = 0" if "v \<in> ?V" for v
  proof -
    have "open_in g P v = 0 \<Longrightarrow> open_in g (insert c P) v = 0"
      using open_in_insert [OF c(1), of g v] by simp
    then show ?thesis using zero [OF that] new' [of v] that by (auto simp: q')
  qed
  have preds: "u \<in> P" if "(u, c) \<in> edge_rel g" for u
    using zero [OF c(2)] that by (simp add: open_in_zero)
  have "c \<notin> cycle_shadow (edge_rel g)"
  proof
    assume "c \<in> cycle_shadow (edge_rel g)"
    then obtain w where "(w, c) \<in> edge_rel g" "w \<in> cycle_shadow (edge_rel g)"
      by (rule cycle_shadow_pred)
    then have "w \<in> P \<inter> cycle_shadow (edge_rel g)" using preds by simp
    with inv show False by (simp add: kahn_inv_def)
  qed
  moreover have "set new \<inter> (insert c P \<union> set q) = {}"
    using new' zero by fastforce
  ultimately show ?thesis
    using inv c dist new(1) new' d'' zero' by (auto simp: kahn_inv_def q')
qed

lemma kahn_result:
  "kahn_inv g P q d \<Longrightarrow> well_formed_graph g \<Longrightarrow> \<exists>P'. kahn_inv g P' [] (kahn (build g) q d)"
proof (induction "build g" q d arbitrary: P rule: kahn.induct)
  case (1 indegree)
  then show ?case by auto
next
  case (2 c q d)
  obtain d' q' where step: "foldl decrement (d, q) (outgoing_edges (build g) c) = (d', q')" by fastforce
  then have "kahn_inv g (insert c P) q' d'" using "2.prems" by (intro kahn_inv_step)
  from "2.hyps" [OF step [symmetric] this] "2.prems" step show ?case by simp
qed

lemma map_of_initial_indegree:
  "map_of (initial_indegree (build g)) v =
     (if v \<in> set (node_ids g) then Some (int (open_in g {} v)) else None)"
proof -
  have map: "map_of (map (\<lambda>(i, _). (i, h i)) xs) v = (if v \<in> fst ` set xs then Some (h v) else None)"
    for h :: "string \<Rightarrow> int" and xs :: "(string \<times> workflow_node) list"
    by (induction xs) (auto simp: image_iff)
  have "v \<in> fst ` set (gi_nodes_by_id (build g)) \<longleftrightarrow> v \<in> set (node_ids g)"
    using index_node_None [of g v] by (auto simp: index_node_def map_of_eq_None_iff)
  then show ?thesis
    by (simp add: initial_indegree_def map open_in_def)
qed

lemma distinct_index_keys: "distinct (map fst (gi_nodes_by_id (build g)))"
proof -
  have "wf_dict d \<Longrightarrow> wf_dict (fold (\<lambda>n. dset (n_id n) n) ns d)" for d ns
    by (induction ns arbitrary: d) auto
  from this [of "[]" "g_nodes g"] show ?thesis by (simp add: build_def wf_dict_def)
qed

lemma map_fst_initial_indegree: "map fst (initial_indegree idx) = map fst (gi_nodes_by_id idx)"
  by (simp add: initial_indegree_def comp_def case_prod_beta)

lemma kahn_keys: "map fst d = ks \<Longrightarrow> map fst (kahn idx q d) = ks"
proof (induction idx q d rule: kahn.induct)
  case (2 idx c q d)
  have step: "map fst (fst (decrement (d, q) e)) = map fst d" for d q e
    by (auto simp: keys_dset map_of_eq_None_iff [symmetric] simp del: not_None_eq split: option.splits)
  have "map fst (fst (foldl decrement s es)) = map fst (fst s)" for s es
    by (induction es arbitrary: s) (simp, metis step foldl_Cons prod.collapse)
  from this [of "(d, q)" "outgoing_edges idx c"] 2 show ?case by (auto split: prod.splits)
qed simp

lemma set_cycle_nodes:
  assumes wf: "well_formed_graph g"
  shows "set (cycle_nodes (build g)) = cycle_shadow (edge_rel g)"
proof -
  let ?d = "initial_indegree (build g)" and ?V = "set (node_ids g)"
  let ?q = "map fst (filter (\<lambda>(_, k). k = 0) ?d)"
  have dist: "distinct (map fst ?d)" by (simp add: map_fst_initial_indegree distinct_index_keys)
  have q: "v \<in> set ?q \<longleftrightarrow> map_of ?d v = Some 0" for v
    using map_of_eq_Some_iff [OF dist] by force
  have "set ?q = {v. map_of ?d v = Some 0}" using q by blast
  then have q': "set ?q = {v \<in> ?V. open_in g {} v = 0}"
    unfolding map_of_initial_indegree by auto
  have "distinct ?q" using dist by (rule distinct_map_filter)
  then have "kahn_inv g {} ?q ?d"
    unfolding kahn_inv_def q' by (auto simp: map_of_initial_indegree)
  then obtain P where inv: "kahn_inv g P [] (kahn (build g) ?q ?d)"
    using kahn_result wf by blast
  let ?k = "kahn (build g) ?q ?d"
  have "distinct (map fst ?k)" using dist by (simp add: kahn_keys)
  then have "v \<in> set (cycle_nodes (build g)) \<longleftrightarrow> (\<exists>k>0. map_of ?k v = Some k)" for v
    unfolding cycle_nodes_def Let_def by (force simp: map_of_eq_Some_iff)
  then have cyc: "set (cycle_nodes (build g)) = ?V - P"
    using inv by (auto simp: kahn_inv_def)
  have edges_in: "(u, v) \<in> edge_rel g \<Longrightarrow> u \<in> ?V \<and> v \<in> ?V" for u v
    using wf by (auto simp: well_formed_graph_def edge_rel_def)
  have "?V - P \<subseteq> cycle_shadow (edge_rel g)"
  proof (rule backward_closed_in_shadow [OF finite_edge_rel])
    fix x assume "x \<in> ?V - P"
    then have "open_in g P x \<noteq> 0" using inv by (auto simp: kahn_inv_def)
    then show "\<exists>y\<in>?V - P. (y, x) \<in> edge_rel g" using edges_in by (auto simp: open_in_zero)
  qed
  moreover have "cycle_shadow (edge_rel g) \<subseteq> ?V - P"
  proof
    fix v assume v: "v \<in> cycle_shadow (edge_rel g)"
    then obtain w where "(w, v) \<in> edge_rel g" by (rule cycle_shadow_pred)
    with v inv edges_in show "v \<in> ?V - P" by (auto simp: kahn_inv_def)
  qed
  ultimately show ?thesis using cyc by blast
qed

lemma has_cycle_iff: "well_formed_graph g \<Longrightarrow> has_cycle (build g) \<longleftrightarrow> \<not> acyclic (edge_rel g)"
  using set_cycle_nodes [of g] cycle_shadow_empty [of "edge_rel g"]
  by (metis has_cycle_def set_empty)

section \<open>Properties of the graph index\<close>

text \<open>
  C27: The index answers reachability questions exactly: the ancestors and descendants of a node
  are the other nodes from which, and to which, a path of edges leads, and a search from a set of nodes reaches
  exactly what paths from them reach.
\<close>

theorem index_reachability:
  "set (ancestors (build g) i) = {m. m \<noteq> i \<and> (m, i) \<in> (edge_rel g)\<^sup>+}
   \<and> set (descendants (build g) i) = {m. m \<noteq> i \<and> (i, m) \<in> (edge_rel g)\<^sup>+}
   \<and> set (reachable_from (build g) ids) = (edge_rel g)\<^sup>* `` set ids"
  by (simp add: set_ancestors set_descendants set_reachable_from)

text \<open>
  C28: On a graph that passed the contract check, a cycle is reported exactly when there is one, and
  the reported nodes are the nodes of the cycles together with everything downstream of a cycle.
\<close>

theorem cycle_detection:
  assumes "well_formed_graph g"
  shows "(has_cycle (build g) \<longleftrightarrow> \<not> acyclic (edge_rel g))
    \<and> set (cycle_nodes (build g)) = {v. \<exists>u. (u, u) \<in> (edge_rel g)\<^sup>+ \<and> (u, v) \<in> (edge_rel g)\<^sup>*}"
  using has_cycle_iff [OF assms] set_cycle_nodes [OF assms] by (simp add: cycle_shadow_def)

definition demo_cyclic :: workflow_graph where
  "demo_cyclic = \<lparr> g_nodes = [demo_gnode ''a'', demo_gnode ''b'', demo_gnode ''c''],
     g_edges = [demo_gedge ''e1'' ''a'' ''b'', demo_gedge ''e2'' ''b'' ''a'', demo_gedge ''e3'' ''b'' ''c''],
     g_variables = [], g_metadata = [] \<rparr>"

theorem cycle_detection_witness:
  "has_cycle (build demo_cyclic) \<and> ''c'' \<in> set (cycle_nodes (build demo_cyclic))"
proof -
  have wf: "well_formed_graph demo_cyclic"
    by (simp add: well_formed_graph_def demo_cyclic_def demo_gnode_def demo_gedge_def node_ids_def edge_ids_def)
  have e: "(''a'', ''b'') \<in> edge_rel demo_cyclic" "(''b'', ''a'') \<in> edge_rel demo_cyclic" "(''b'', ''c'') \<in> edge_rel demo_cyclic"
    by (simp_all add: edge_rel_iff demo_cyclic_def demo_gedge_def)
  then have loop: "(''b'', ''b'') \<in> (edge_rel demo_cyclic)\<^sup>+" and down: "(''b'', ''c'') \<in> (edge_rel demo_cyclic)\<^sup>*" by auto
  from loop have "\<not> acyclic (edge_rel demo_cyclic)" by (auto simp: acyclic_def)
  with loop down cycle_detection [OF wf] show ?thesis by blast
qed

end
