(* ===== verification/Validation.thy ===== *)
theory Validation
  imports GraphReach
begin

text \<open>
  The static Validation Engine (\<^verbatim>\<open>runtime/validation/validator.py\<close> and its six rules): identity,
  topology, registry references, node configuration, Context References and input mappings. An
  issue keeps its code, severity and location; message and details are text for the client and
  decide nothing. The registry arrives as plain records, as in \<^verbatim>\<open>context.py\<close>.
\<close>

section \<open>Issues and registry snapshots\<close>

datatype severity = SEV_ERROR | SEV_WARNING

record validation_issue =
  vi_code :: string
  vi_severity :: severity
  vi_node_id :: "string option"
  vi_edge_id :: "string option"
  vi_field :: "string option"

record validation_result =
  vr_valid :: bool
  vr_errors :: "validation_issue list"
  vr_warnings :: "validation_issue list"

definition from_issues :: "validation_issue list \<Rightarrow> validation_result" where
  "from_issues issues =
     \<lparr> vr_valid = (\<not> list_ex (\<lambda>i. vi_severity i = SEV_ERROR) issues),
       vr_errors = filter (\<lambda>i. vi_severity i = SEV_ERROR) issues,
       vr_warnings = filter (\<lambda>i. vi_severity i = SEV_WARNING) issues \<rparr>"

record registry_agent =
  ra_id :: string
  ra_name :: string
  ra_enabled :: bool
  ra_connector_type :: string
  ra_status :: string
  ra_timeout_seconds :: "int option"
  ra_input_schema :: dict
  ra_output_schema :: dict

record registry_service =
  rg_id :: string
  rg_name :: string
  rg_enabled :: bool
  rg_status :: string
  rg_timeout_seconds :: "int option"

record registry_service_action =
  rx_id :: string
  rx_service_id :: string
  rx_name :: string
  rx_enabled :: bool
  rx_timeout_seconds :: "int option"
  rx_query_schema :: dict
  rx_path_schema :: dict
  rx_input_schema :: dict
  rx_output_schema :: dict

record validation_context =
  vc_agents :: "(string \<times> registry_agent) list"
  vc_services :: "(string \<times> registry_service) list"
  vc_service_actions :: "(string \<times> registry_service_action) list"

definition node_error :: "string \<Rightarrow> string \<Rightarrow> string \<Rightarrow> validation_issue" where
  "node_error code nid fld =
     \<lparr> vi_code = code, vi_severity = SEV_ERROR, vi_node_id = Some nid, vi_edge_id = None, vi_field = Some fld \<rparr>"

definition node_warning :: "string \<Rightarrow> string \<Rightarrow> string \<Rightarrow> validation_issue" where
  "node_warning code nid fld =
     \<lparr> vi_code = code, vi_severity = SEV_WARNING, vi_node_id = Some nid, vi_edge_id = None, vi_field = Some fld \<rparr>"

definition edge_error :: "string \<Rightarrow> string option \<Rightarrow> string \<Rightarrow> string \<Rightarrow> validation_issue" where
  "edge_error code nid eid fld =
     \<lparr> vi_code = code, vi_severity = SEV_ERROR, vi_node_id = nid, vi_edge_id = Some eid, vi_field = Some fld \<rparr>"

definition graph_error :: "string \<Rightarrow> string option \<Rightarrow> validation_issue" where
  "graph_error code fld =
     \<lparr> vi_code = code, vi_severity = SEV_ERROR, vi_node_id = None, vi_edge_id = None, vi_field = fld \<rparr>"

text \<open>\<open>[issue] if condition else []\<close>\<close>

definition issue_if :: "bool \<Rightarrow> 'a \<Rightarrow> 'a list" where
  "issue_if b x = (if b then [x] else [])"

text \<open>
  \<open>d.get(key)\<close> on a registry keyed by strings. The configuration models admit a string or
  nothing as key.
\<close>

definition registry_get :: "(string \<times> 'a) list \<Rightarrow> json \<Rightarrow> 'a option" where
  "registry_get d key = (case key of JStr k \<Rightarrow> map_of d k | _ \<Rightarrow> None)"

section \<open>Pass 1: identity\<close>

text \<open>Keys of a \<open>Counter\<close> in the order of first occurrence, those that occur twice or more.\<close>

definition duplicated :: "string list \<Rightarrow> string list" where
  "duplicated xs = filter (\<lambda>x. count_list xs x > 1) (rev (remdups (rev xs)))"

definition edge_identity :: "string list \<Rightarrow> (string \<times> string \<times> string option) list \<Rightarrow> workflow_edge \<Rightarrow> validation_issue list" where
  "edge_identity ids seen e =
     issue_if (e_source e \<notin> set ids) (edge_error ''INVALID_EDGE_SOURCE'' None (e_id e) ''edges[].source'')
     @ issue_if (e_target e \<notin> set ids) (edge_error ''INVALID_EDGE_TARGET'' None (e_id e) ''edges[].target'')
     @ issue_if (e_source e = e_target e) (edge_error ''SELF_CONNECTION'' (Some (e_source e)) (e_id e) ''edges[]'')
     @ issue_if ((e_source e, e_target e, e_source_handle e) \<in> set seen)
         (edge_error ''DUPLICATE_CONNECTION'' (Some (e_source e)) (e_id e) ''edges[]'')"

fun edge_identities :: "string list \<Rightarrow> (string \<times> string \<times> string option) list \<Rightarrow> workflow_edge list \<Rightarrow> validation_issue list" where
  "edge_identities ids seen [] = []"
| "edge_identities ids seen (e # es) =
     edge_identity ids seen e @ edge_identities ids ((e_source e, e_target e, e_source_handle e) # seen) es"

definition validate_identity :: "workflow_graph \<Rightarrow> validation_issue list" where
  "validate_identity g =
     map (\<lambda>i. node_error ''DUPLICATE_NODE_ID'' i ''nodes[].id'') (duplicated (node_ids g))
     @ map (\<lambda>i. edge_error ''DUPLICATE_EDGE_ID'' None i ''edges[].id'') (duplicated (edge_ids g))
     @ edge_identities (node_ids g) [] (g_edges g)"

section \<open>Pass 2: topology\<close>

definition validate_entry :: "graph_index \<Rightarrow> validation_issue list" where
  "validate_entry idx =
     (case entry_node_ids idx of
        [] \<Rightarrow> [graph_error ''MISSING_INPUT_NODE'' (Some ''nodes[]'')]
      | [i] \<Rightarrow> map (\<lambda>e. edge_error ''INVALID_INPUT_NODE_EDGE'' (Some i) (e_id e) ''edges[]'') (incoming_edges idx i)
      | _ \<Rightarrow> [graph_error ''MULTIPLE_INPUT_NODES'' (Some ''nodes[]'')])"

definition validate_outputs :: "graph_index \<Rightarrow> validation_issue list" where
  "validate_outputs idx =
     (if output_node_ids idx = [] then [graph_error ''MISSING_OUTPUT_NODE'' (Some ''nodes[]'')]
      else concat (map (\<lambda>i. map (\<lambda>e. edge_error ''INVALID_OUTPUT_NODE_EDGE'' (Some i) (e_id e) ''edges[]'')
                     (outgoing_edges idx i)) (output_node_ids idx)))"

definition is_data :: "workflow_node \<Rightarrow> bool" where
  "is_data n \<longleftrightarrow> n_type n = DATA \<and> n_subtype n \<in> {''input'', ''output''}"

definition validate_reachable :: "workflow_graph \<Rightarrow> graph_index \<Rightarrow> validation_issue list" where
  "validate_reachable g idx =
     (if length (entry_node_ids idx) = 1 \<and> \<not> has_cycle idx
      then map (\<lambda>n. node_error ''UNREACHABLE_NODE'' (n_id n) ''nodes[]'')
             (filter (\<lambda>n. n_id n \<notin> set (reachable_from idx (entry_node_ids idx))) (g_nodes g))
      else [])"

definition dead_end :: "graph_index \<Rightarrow> workflow_node \<Rightarrow> bool" where
  "dead_end idx n \<longleftrightarrow>
     n_id n \<in> set (reachable_from idx (entry_node_ids idx))
     \<and> \<not> (\<exists>out\<in>set (output_node_ids idx). n_id n = out \<or> n_id n \<in> set (ancestors idx out))
     \<and> \<not> is_data n
     \<and> \<not> (n_type n = LOGIC \<and> n_subtype n \<in> {''condition'', ''parallel'', ''merge''})"

definition validate_dead_ends :: "workflow_graph \<Rightarrow> graph_index \<Rightarrow> validation_issue list" where
  "validate_dead_ends g idx =
     (if output_node_ids idx \<noteq> [] \<and> \<not> has_cycle idx \<and> length (entry_node_ids idx) = 1
      then map (\<lambda>n. node_error ''DEAD_END_BRANCH'' (n_id n) ''nodes[]'') (filter (dead_end idx) (g_nodes g))
      else [])"

definition parallel_merge_node :: "graph_index \<Rightarrow> workflow_node \<Rightarrow> validation_issue list" where
  "parallel_merge_node idx n =
     (if n_type n \<noteq> LOGIC then []
      else if n_subtype n = ''parallel'' then
        issue_if (length (outgoing_edges idx (n_id n)) < 2) (node_error ''INVALID_PARALLEL'' (n_id n) ''config'')
        @ issue_if (length (incoming_edges idx (n_id n)) \<noteq> 1) (node_error ''INVALID_PARALLEL'' (n_id n) ''edges[]'')
      else if n_subtype n = ''merge'' then
        issue_if (dget0 (n_config n) ''strategy'' \<noteq> JStr ''all'') (node_error ''INVALID_MERGE'' (n_id n) ''config.strategy'')
        @ issue_if (length (incoming_edges idx (n_id n)) < 2) (node_error ''INVALID_MERGE'' (n_id n) ''edges[]'')
        @ issue_if (length (outgoing_edges idx (n_id n)) \<noteq> 1) (node_error ''INVALID_MERGE'' (n_id n) ''edges[]'')
      else [])"

definition is_merge :: "graph_index \<Rightarrow> string \<Rightarrow> bool" where
  "is_merge idx i = (case index_node idx i of None \<Rightarrow> False | Some n \<Rightarrow> n_type n = LOGIC \<and> n_subtype n = ''merge'')"

text \<open>Reachability that does not expand beyond merge nodes.\<close>

definition merge_free :: "graph_index \<Rightarrow> string \<Rightarrow> string list" where
  "merge_free idx i =
     explore (out_adjacency idx) (is_merge idx) (\<lambda>_. False) (rev (map e_target (outgoing_edges idx i))) []"

definition pairing_node :: "graph_index \<Rightarrow> workflow_node \<Rightarrow> validation_issue list" where
  "pairing_node idx n =
     (if n_type n \<noteq> LOGIC \<or> n_subtype n \<noteq> ''parallel'' then []
      else if \<not> list_ex (\<lambda>i. (case index_node idx i of None \<Rightarrow> [] | Some m \<Rightarrow> n_subtype m) = ''merge'') (descendants idx (n_id n)) then []
      else issue_if (list_ex (\<lambda>i. i \<in> set (output_node_ids idx)) (merge_free idx (n_id n)))
             (node_error ''INVALID_PARALLEL_MERGE_STRUCTURE'' (n_id n) ''edges[]''))"

definition validate_parallel_merge :: "workflow_graph \<Rightarrow> graph_index \<Rightarrow> validation_issue list" where
  "validate_parallel_merge g idx =
     concat (map (parallel_merge_node idx) (g_nodes g))
     @ (if has_cycle idx then [] else concat (map (pairing_node idx) (g_nodes g)))"

definition validate_topology :: "workflow_graph \<Rightarrow> graph_index \<Rightarrow> validation_issue list" where
  "validate_topology g idx =
     validate_entry idx @ validate_outputs idx
     @ issue_if (has_cycle idx) (graph_error ''UNSUPPORTED_CYCLE'' (Some ''edges[]''))
     @ validate_reachable g idx @ validate_dead_ends g idx @ validate_parallel_merge g idx"

section \<open>Pass 3: registry references\<close>

definition validate_agent :: "validation_context \<Rightarrow> workflow_node \<Rightarrow> validation_issue list" where
  "validate_agent C n =
     (let agent_id = dget0 (n_config n) ''agent_id'' in
      if \<not> truthy agent_id then [node_error ''MISSING_AGENT_REFERENCE'' (n_id n) ''config.agent_id'']
      else (case registry_get (vc_agents C) agent_id of
          None \<Rightarrow> [node_error ''AGENT_NOT_FOUND'' (n_id n) ''config.agent_id'']
        | Some a \<Rightarrow>
            issue_if (\<not> ra_enabled a) (node_error ''AGENT_DISABLED'' (n_id n) ''config.agent_id'')
            @ (if ra_connector_type a \<notin> {''http'', ''codex''}
               then [node_error ''UNSUPPORTED_AGENT_CONNECTOR'' (n_id n) ''config.agent_id'']
               else issue_if (ra_status a = ''unhealthy'') (node_warning ''AGENT_UNHEALTHY'' (n_id n) ''config.agent_id''))))"

definition validate_service_ref :: "validation_context \<Rightarrow> workflow_node \<Rightarrow> validation_issue list" where
  "validate_service_ref C n =
     (let service_id = dget0 (n_config n) ''service_id'' in
      if \<not> truthy service_id then [node_error ''MISSING_SERVICE_REFERENCE'' (n_id n) ''config.service_id'']
      else (case registry_get (vc_services C) service_id of
          None \<Rightarrow> [node_error ''SERVICE_NOT_FOUND'' (n_id n) ''config.service_id'']
        | Some s \<Rightarrow>
            if \<not> rg_enabled s then [node_error ''SERVICE_DISABLED'' (n_id n) ''config.service_id'']
            else issue_if (rg_status s = ''unhealthy'') (node_warning ''SERVICE_UNHEALTHY'' (n_id n) ''config.service_id'')))"

definition validate_action_ref :: "validation_context \<Rightarrow> workflow_node \<Rightarrow> validation_issue list" where
  "validate_action_ref C n =
     (let service_id = dget0 (n_config n) ''service_id''; action_id = dget0 (n_config n) ''service_action_id'' in
      if \<not> truthy action_id then [node_error ''MISSING_SERVICE_ACTION_REFERENCE'' (n_id n) ''config.service_action_id'']
      else (case registry_get (vc_service_actions C) action_id of
          None \<Rightarrow> [node_error ''SERVICE_ACTION_NOT_FOUND'' (n_id n) ''config.service_action_id'']
        | Some x \<Rightarrow>
            if truthy service_id \<and> JStr (rx_service_id x) \<noteq> service_id
            then [node_error ''SERVICE_ACTION_MISMATCH'' (n_id n) ''config.service_action_id'']
            else issue_if (\<not> rx_enabled x) (node_error ''SERVICE_ACTION_DISABLED'' (n_id n) ''config.service_action_id'')))"

definition validate_references :: "workflow_graph \<Rightarrow> validation_context \<Rightarrow> validation_issue list" where
  "validate_references g C =
     concat (map (\<lambda>n. case n_type n of
         AGENT \<Rightarrow> validate_agent C n
       | SERVICE \<Rightarrow> validate_service_ref C n @ validate_action_ref C n
       | _ \<Rightarrow> []) (g_nodes g))"

section \<open>Pass 4: node configuration\<close>

text \<open>
  A clause: a comparison, or \<open>and\<close>/\<open>or\<close> over clauses. The graph contract admits only operator
  names as operator, so the membership test is one on strings.
\<close>

fun validate_expression :: "string \<Rightarrow> json \<Rightarrow> validation_issue list"
  and validate_clauses :: "string \<Rightarrow> json list \<Rightarrow> validation_issue list" where
  "validate_expression nid (JObj expr) =
     (if dhas expr ''and'' \<or> dhas expr ''or'' then
        if dhas expr ''and'' \<and> dhas expr ''or'' then [node_error ''INVALID_CONDITION'' nid ''config.expression'']
        else if truthy (dget0 expr ''and'')
          then (case dget0 expr ''and'' of JArr cs \<Rightarrow> validate_clauses nid cs
                | _ \<Rightarrow> [node_error ''INVALID_CONDITION'' nid ''config.expression''])
        else (case dget0 expr ''or'' of
            JArr cs \<Rightarrow> if cs = [] then [node_error ''INVALID_CONDITION'' nid ''config.expression''] else validate_clauses nid cs
          | _ \<Rightarrow> [node_error ''INVALID_CONDITION'' nid ''config.expression''])
      else
        issue_if (dget0 expr ''left'' \<in> {JNull, JStr []}) (node_error ''INVALID_CONDITION'' nid ''config.expression.left'')
        @ issue_if (dget0 expr ''operator'' \<notin> set (map JStr CONDITION_OPERATORS))
            (node_error ''INVALID_CONDITION_OPERATOR'' nid ''config.expression.operator''))"
| "validate_expression nid _ = [node_error ''INVALID_CONDITION'' nid ''config.expression'']"
| "validate_clauses nid [] = []"
| "validate_clauses nid (c # cs) = validate_expression nid c @ validate_clauses nid cs"

definition branch_edges :: "graph_index \<Rightarrow> string \<Rightarrow> string \<Rightarrow> workflow_edge list" where
  "branch_edges idx nid handle = filter (\<lambda>e. e_source_handle e = Some handle) (outgoing_edges idx nid)"

definition validate_condition :: "graph_index \<Rightarrow> workflow_node \<Rightarrow> validation_issue list" where
  "validate_condition idx n =
     (case dget0 (n_config n) ''expression'' of
        JObj expr \<Rightarrow>
          validate_expression (n_id n) (JObj expr)
          @ map (\<lambda>e. edge_error ''INVALID_CONDITION_BRANCH'' (Some (n_id n)) (e_id e) ''edges[].source_handle'')
              (filter (\<lambda>e. e_source_handle e \<notin> {Some ''true'', Some ''false''}) (outgoing_edges idx (n_id n)))
          @ concat (map (\<lambda>handle. issue_if (length (branch_edges idx (n_id n) handle) \<noteq> 1)
              (node_error ''INVALID_CONDITION_BRANCH'' (n_id n) ''edges[]'')) [''true'', ''false''])
      | _ \<Rightarrow> [node_error ''INVALID_CONDITION'' (n_id n) ''config.expression''])"

text \<open>\<open>isinstance(duration, int) and duration > 0\<close>; a boolean is an integer.\<close>

definition positive_int :: "json \<Rightarrow> bool" where
  "positive_int v = (case v of JInt i \<Rightarrow> i > 0 | JBool b \<Rightarrow> b | _ \<Rightarrow> False)"

definition validate_logic :: "graph_index \<Rightarrow> workflow_node \<Rightarrow> validation_issue list" where
  "validate_logic idx n =
     (if n_subtype n = ''condition'' then validate_condition idx n
      else if n_subtype n = ''wait'' then
        issue_if (dget0 (n_config n) ''mode'' \<noteq> JStr ''duration'') (node_error ''UNSUPPORTED_WAIT_MODE'' (n_id n) ''config.mode'')
        @ issue_if (\<not> positive_int (dget0 (n_config n) ''duration_seconds''))
            (node_error ''INVALID_WAIT_CONFIG'' (n_id n) ''config.duration_seconds'')
      else if n_subtype n = ''router'' then [node_error ''UNSUPPORTED_NODE_EXECUTION'' (n_id n) ''type'']
      else [])"

text \<open>\<open>isinstance(v, dict) and v.get("type") == "object"\<close>\<close>

definition object_schema :: "json \<Rightarrow> bool" where
  "object_schema v = (case v of JObj d \<Rightarrow> dget0 d ''type'' = JStr ''object'' | _ \<Rightarrow> False)"

definition validate_human :: "workflow_node \<Rightarrow> validation_issue list" where
  "validate_human n =
     (if n_subtype n = ''approval'' then
        issue_if (\<not> truthy (dget0 (n_config n) ''title'')) (node_error ''MISSING_REQUIRED_CONFIG'' (n_id n) ''config.title'')
      else if n_subtype n = ''input'' then
        issue_if (\<not> object_schema (dget0 (n_config n) ''form_schema'')) (node_error ''INVALID_HUMAN_CONFIG'' (n_id n) ''config.form_schema'')
      else [])"

definition validate_data :: "workflow_node \<Rightarrow> validation_issue list" where
  "validate_data n =
     (if n_subtype n = ''input'' then
        issue_if (\<not> object_schema (dget0 (n_config n) ''schema'')) (node_error ''INVALID_DATA_INPUT'' (n_id n) ''config.schema'')
      else if n_subtype n = ''transform'' then
        issue_if (\<not> is_dict (dget0 (n_config n) ''mappings'')) (node_error ''INVALID_TRANSFORM_CONFIG'' (n_id n) ''config.mappings'')
      else if n_subtype n = ''output'' then
        issue_if (\<not> is_dict (dget0 (n_config n) ''output_mapping'')) (node_error ''INVALID_DATA_OUTPUT'' (n_id n) ''config.output_mapping'')
      else [])"

definition validate_tool :: "workflow_node \<Rightarrow> validation_issue list" where
  "validate_tool n =
     issue_if (\<not> truthy (dget0 (n_config n) ''command'')) (node_error ''MISSING_REQUIRED_CONFIG'' (n_id n) ''config.command'')"

definition validate_node :: "graph_index \<Rightarrow> workflow_node \<Rightarrow> validation_issue list" where
  "validate_node idx n =
     (case n_type n of AGENT \<Rightarrow> [] | SERVICE \<Rightarrow> [] | TOOL \<Rightarrow> validate_tool n | LOGIC \<Rightarrow> validate_logic idx n
      | HUMAN \<Rightarrow> validate_human n | DATA \<Rightarrow> validate_data n)"

definition validate_nodes :: "workflow_graph \<Rightarrow> graph_index \<Rightarrow> validation_issue list" where
  "validate_nodes g idx = concat (map (validate_node idx) (g_nodes g))"

section \<open>Pass 5: Context References\<close>

definition reference_bearing_values :: "workflow_node \<Rightarrow> json list" where
  "reference_bearing_values n =
     (case n_type n of
        AGENT \<Rightarrow> (let template = dget0 (n_config n) ''task_template'' in
          (if truthy template then [template] else []) @ [JObj (n_input_mapping n)])
      | SERVICE \<Rightarrow> [JObj (n_input_mapping n)] | TOOL \<Rightarrow> [JObj (n_input_mapping n)] | HUMAN \<Rightarrow> [JObj (n_input_mapping n)]
      | LOGIC \<Rightarrow>
          if n_subtype n = ''condition'' then
            (case dget0 (n_config n) ''expression'' of JObj expr \<Rightarrow> [dget0 expr ''left'', dget0 expr ''right''] | _ \<Rightarrow> [])
          else []
      | DATA \<Rightarrow>
          if n_subtype n = ''transform'' then [dget0 (n_config n) ''mappings'']
          else if n_subtype n = ''output'' then [dget0 (n_config n) ''output_mapping''] else [])"

definition reference_field :: "workflow_node \<Rightarrow> string" where
  "reference_field n =
     (if n_type n = DATA \<and> n_subtype n = ''output'' then ''config.output_mapping''
      else if n_type n = DATA \<and> n_subtype n = ''transform'' then ''config.mappings''
      else if n_type n = LOGIC \<and> n_subtype n = ''condition'' then ''config.expression''
      else ''input_mapping'')"

definition output_provider_kind :: "workflow_node \<Rightarrow> string option" where
  "output_provider_kind n =
     (if n_type n = AGENT \<or> n_type n = SERVICE then Some ''schema''
      else if n_type n = DATA \<and> n_subtype n = ''transform'' then Some ''transform''
      else None)"

definition closed_object_missing_field :: "dict \<Rightarrow> string \<Rightarrow> bool" where
  "closed_object_missing_field schema path \<longleftrightarrow>
     dget0 schema ''additionalProperties'' = JBool False
     \<and> (case dget0 schema ''properties'' of JObj props \<Rightarrow> \<not> dhas props (hd (split_on CHR ''.'' path)) | _ \<Rightarrow> False)"

definition node_output_schema :: "graph_index \<Rightarrow> validation_context \<Rightarrow> string \<Rightarrow> dict option" where
  "node_output_schema idx C nid =
     (case index_node idx nid of None \<Rightarrow> None
      | Some n \<Rightarrow>
          if n_type n = AGENT then map_option ra_output_schema (registry_get (vc_agents C) (dget0 (n_config n) ''agent_id''))
          else if n_type n = SERVICE
            then map_option rx_output_schema (registry_get (vc_service_actions C) (dget0 (n_config n) ''service_action_id''))
          else None)"

definition parallel_merge_descendants :: "graph_index \<Rightarrow> string \<Rightarrow> string list" where
  "parallel_merge_descendants idx i = filter (is_merge idx) (descendants idx i)"

definition is_parallel_sibling :: "graph_index \<Rightarrow> string \<Rightarrow> string \<Rightarrow> bool" where
  "is_parallel_sibling idx nid target \<longleftrightarrow>
     list_ex (\<lambda>a. (case index_node idx a of None \<Rightarrow> False | Some n \<Rightarrow> n_type n = LOGIC \<and> n_subtype n = ''parallel'')
       \<and> target \<in> set (descendants idx a)
       \<and> \<not> list_ex (\<lambda>m. target \<in> set (descendants idx m)) (parallel_merge_descendants idx a)) (ancestors idx nid)"

definition validate_workflow_input :: "graph_index \<Rightarrow> string \<Rightarrow> string \<Rightarrow> string \<Rightarrow> validation_issue list" where
  "validate_workflow_input idx nid path fld =
     (case entry_node_ids idx of
        [i] \<Rightarrow>
          (case index_node idx i of None \<Rightarrow> []
           | Some n \<Rightarrow>
             (case dget0 (n_config n) ''schema'' of
                JObj schema \<Rightarrow> issue_if (closed_object_missing_field schema path) (node_error ''UNKNOWN_WORKFLOW_INPUT'' nid fld)
              | _ \<Rightarrow> []))
      | _ \<Rightarrow> [])"

definition validate_output_field :: "graph_index \<Rightarrow> validation_context \<Rightarrow> string \<Rightarrow> workflow_node \<Rightarrow> string \<Rightarrow> string \<Rightarrow> validation_issue list" where
  "validate_output_field idx C nid target path fld =
     (if output_provider_kind target = Some ''transform'' then
        (case dget0 (n_config target) ''mappings'' of
           JObj mappings \<Rightarrow> issue_if (\<not> dhas mappings (hd (split_on CHR ''.'' path))) (node_error ''INVALID_OUTPUT_REFERENCE'' nid fld)
         | _ \<Rightarrow> [])
      else (case node_output_schema idx C (n_id target) of
          None \<Rightarrow> []
        | Some schema \<Rightarrow> issue_if (closed_object_missing_field schema path) (node_error ''INVALID_OUTPUT_REFERENCE'' nid fld)))"

definition validate_reference :: "workflow_graph \<Rightarrow> graph_index \<Rightarrow> validation_context \<Rightarrow> workflow_node \<Rightarrow> context_reference \<Rightarrow> validation_issue list" where
  "validate_reference g idx C node r =
     (let nid = n_id node;
          fld = (case index_node idx nid of None \<Rightarrow> [] | Some n \<Rightarrow> reference_field n) in
      if cr_scope r = ''workflow.variables''
        then issue_if (map_of (g_variables g) (cr_path r) = None) (node_error ''UNKNOWN_VARIABLE'' nid fld)
      else if cr_scope r = ''workflow.input'' then validate_workflow_input idx nid (cr_path r) fld
      else if cr_scope r = ''run'' then []
      else (case cr_node_id r of
          None \<Rightarrow> [node_error ''INVALID_CONTEXT_REFERENCE'' nid fld]
        | Some target_id \<Rightarrow>
            (case index_node idx target_id of
               None \<Rightarrow> [node_error ''UNKNOWN_CONTEXT_NODE'' nid fld]
             | Some target \<Rightarrow>
                 if target_id = nid then [node_error ''INVALID_CONTEXT_REFERENCE'' nid fld]
                 else if output_provider_kind target = None then [node_error ''INVALID_OUTPUT_REFERENCE'' nid fld]
                 else if \<not> has_cycle idx \<and> target_id \<notin> set (ancestors idx nid) then
                   [node_error (if is_parallel_sibling idx nid target_id then ''INVALID_PARALLEL_DATA_DEPENDENCY''
                      else ''INVALID_DATA_DEPENDENCY'') nid fld]
                 else validate_output_field idx C nid target (cr_path r) fld)))"

definition validate_value :: "workflow_graph \<Rightarrow> graph_index \<Rightarrow> validation_context \<Rightarrow> workflow_node \<Rightarrow> json \<Rightarrow> validation_issue list" where
  "validate_value g idx C n v =
     (case extract_context_references v of
        Inl _ \<Rightarrow> [node_error ''INVALID_CONTEXT_REFERENCE'' (n_id n) (reference_field n)]
      | Inr rs \<Rightarrow> concat (map (validate_reference g idx C n) rs))"

definition validate_context :: "workflow_graph \<Rightarrow> graph_index \<Rightarrow> validation_context \<Rightarrow> validation_issue list" where
  "validate_context g idx C =
     concat (map (\<lambda>n. concat (map (validate_value g idx C n) (reference_bearing_values n))) (g_nodes g))"

section \<open>Pass 6: input mappings\<close>

definition KNOWN_TYPES :: "string list" where
  "KNOWN_TYPES = [''string'', ''number'', ''integer'', ''boolean'', ''object'', ''array'', ''null'']"

text \<open>
  \<open>target_type not in KNOWN_TYPES\<close>: \<open>Inr None\<close> when it is not one of them; a list or a
  dictionary is not hashable and raises.
\<close>

definition known_type :: "json \<Rightarrow> exn + string option" where
  "known_type v =
     (case v of JStr s \<Rightarrow> Inr (if s \<in> set KNOWN_TYPES then Some s else None)
      | JArr _ \<Rightarrow> Inl (PyError ''TypeError'') | JObj _ \<Rightarrow> Inl (PyError ''TypeError'') | _ \<Rightarrow> Inr None)"

definition field_type :: "json \<Rightarrow> string \<Rightarrow> json" where
  "field_type schema path =
     (case schema of
        JObj s \<Rightarrow>
          (case dget0 s ''properties'' of
             JObj props \<Rightarrow> (case dget0 props (hd (split_on CHR ''.'' path)) of JObj child \<Rightarrow> dget0 child ''type'' | _ \<Rightarrow> JNull)
           | _ \<Rightarrow> JNull)
      | _ \<Rightarrow> JNull)"

text \<open>The type a reference has, \<open>JNull\<close> when it is not known.\<close>

definition reference_type :: "workflow_graph \<Rightarrow> graph_index \<Rightarrow> validation_context \<Rightarrow> context_reference \<Rightarrow> json" where
  "reference_type g idx C r =
     (if cr_scope r = ''workflow.variables'' then
        (case map_of (g_variables g) (cr_path r) of None \<Rightarrow> JNull | Some v \<Rightarrow> JStr (variable_type_value (v_type v)))
      else if cr_scope r = ''workflow.input'' then
        (case entry_node_ids idx of
           [i] \<Rightarrow> (case index_node idx i of None \<Rightarrow> JNull | Some n \<Rightarrow> field_type (dget0 (n_config n) ''schema'') (cr_path r))
         | _ \<Rightarrow> JNull)
      else if cr_scope r = ''run'' then JNull
      else (case cr_node_id r of None \<Rightarrow> JNull
        | Some i \<Rightarrow> (case node_output_schema idx C i of None \<Rightarrow> JNull | Some schema \<Rightarrow> field_type (JObj schema) (cr_path r))))"

definition single_reference :: "string \<Rightarrow> context_reference option" where
  "single_reference s =
     (if startswith ''{{'' s \<and> endswith ''}}'' s \<and> count_sub ''{{'' s = 1 \<and> count_sub ''}}'' s = 1
      then (case parse_context_reference s of Inl _ \<Rightarrow> None | Inr r \<Rightarrow> Some r) else None)"

definition mapping_source_type :: "workflow_graph \<Rightarrow> graph_index \<Rightarrow> validation_context \<Rightarrow> json \<Rightarrow> json" where
  "mapping_source_type g idx C v =
     (case v of JBool _ \<Rightarrow> JStr ''boolean'' | JInt _ \<Rightarrow> JStr ''integer'' | JFloat _ \<Rightarrow> JStr ''number''
      | JObj _ \<Rightarrow> JStr ''object'' | JArr _ \<Rightarrow> JStr ''array'' | JNull \<Rightarrow> JStr ''null''
      | JStr s \<Rightarrow> (case single_reference s of None \<Rightarrow> JStr ''string'' | Some r \<Rightarrow> reference_type g idx C r))"

text \<open>Whether the types are compatible, and whether the mapping narrows a number to an integer.\<close>

definition check_compatibility :: "json \<Rightarrow> string \<Rightarrow> bool \<times> bool" where
  "check_compatibility source target =
     (if source = JStr target then (True, False)
      else if source = JStr ''integer'' \<and> target = ''number'' then (True, False)
      else if source = JStr ''number'' \<and> target = ''integer'' then (True, True)
      else (False, False))"

text \<open>The meta-schema makes \<open>required\<close> a list of strings.\<close>

definition required_fields :: "dict \<Rightarrow> string list" where
  "required_fields schema = (case dget_or schema ''required'' (JArr []) of JArr xs \<Rightarrow> List.map_filter as_str xs | _ \<Rightarrow> [])"

definition validate_mapped_field ::
  "workflow_graph \<Rightarrow> graph_index \<Rightarrow> validation_context \<Rightarrow> string \<Rightarrow> dict \<Rightarrow> string \<Rightarrow> string \<times> json \<Rightarrow> exn + validation_issue list" where
  "validate_mapped_field g idx C nid properties prefix kv =
     (case dget0 properties (fst kv) of
        JObj target \<Rightarrow>
          ebind (known_type (dget0 target ''type'')) (\<lambda>target_type.
          case target_type of None \<Rightarrow> Inr []
          | Some ty \<Rightarrow>
              (let source = mapping_source_type g idx C (snd kv); fld = prefix @ ''.'' @ fst kv in
               if source = JNull then Inr []
               else (case check_compatibility source ty of
                   (False, _) \<Rightarrow> Inr [node_error ''SCHEMA_TYPE_MISMATCH'' nid fld]
                 | (True, narrow) \<Rightarrow> Inr (issue_if narrow (node_warning ''SCHEMA_TYPE_MISMATCH'' nid fld)))))
      | _ \<Rightarrow> Inr [])"

text \<open>Issues of a list of checks that may raise, in order.\<close>

definition collect :: "('a \<Rightarrow> exn + 'b list) \<Rightarrow> 'a list \<Rightarrow> exn + 'b list" where
  "collect f xs = foldM (\<lambda>acc x. ebind (f x) (\<lambda>ys. Inr (acc @ ys))) [] xs"

definition validate_mapping ::
  "workflow_graph \<Rightarrow> graph_index \<Rightarrow> validation_context \<Rightarrow> workflow_node \<Rightarrow> dict option \<Rightarrow> dict \<Rightarrow> string \<Rightarrow> exn + validation_issue list" where
  "validate_mapping g idx C n schema mapping prefix =
     (case schema of None \<Rightarrow> Inr []
      | Some s \<Rightarrow>
          if dget0 s ''type'' \<noteq> JStr ''object'' then Inr []
          else
            let properties = dict_or_empty (dget0 s ''properties'') in
            ebind (collect (validate_mapped_field g idx C (n_id n) properties prefix) mapping) (\<lambda>typed.
            Inr (map (\<lambda>r. node_error ''MISSING_REQUIRED_INPUT'' (n_id n) (prefix @ ''.'' @ r))
                   (filter (\<lambda>r. \<not> dhas mapping r) (required_fields s))
                 @ (if dget0 s ''additionalProperties'' = JBool False
                    then map (\<lambda>(k, _). node_error ''UNKNOWN_INPUT_FIELD'' (n_id n) (prefix @ ''.'' @ k))
                           (filter (\<lambda>(k, _). \<not> dhas properties k) mapping)
                    else [])
                 @ typed)))"

definition node_input_schema :: "graph_index \<Rightarrow> validation_context \<Rightarrow> string \<Rightarrow> dict option" where
  "node_input_schema idx C nid =
     (case index_node idx nid of None \<Rightarrow> None
      | Some n \<Rightarrow>
          if n_type n = AGENT then map_option ra_input_schema (registry_get (vc_agents C) (dget0 (n_config n) ''agent_id''))
          else if n_type n = SERVICE
            then map_option rx_input_schema (registry_get (vc_service_actions C) (dget0 (n_config n) ''service_action_id''))
          else None)"

text \<open>
  The part of a Service mapping for one request location: an explicit null falls back to the whole
  input mapping, any other value that is not a dictionary counts as empty.
\<close>

definition mapping_part :: "workflow_node \<Rightarrow> string \<Rightarrow> dict" where
  "mapping_part n key =
     (case dget_or (n_input_mapping n) key (JObj []) of JNull \<Rightarrow> n_input_mapping n | JObj d \<Rightarrow> d | _ \<Rightarrow> [])"

definition validate_service_mapping ::
  "workflow_graph \<Rightarrow> graph_index \<Rightarrow> validation_context \<Rightarrow> workflow_node \<Rightarrow> exn + validation_issue list" where
  "validate_service_mapping g idx C n =
     (case registry_get (vc_service_actions C) (dget0 (n_config n) ''service_action_id'') of None \<Rightarrow> Inr []
      | Some x \<Rightarrow>
          let m = n_input_mapping n in
          if dhas m ''path'' \<or> dhas m ''query'' \<or> dhas m ''body'' then
            collect (\<lambda>(schema, key). validate_mapping g idx C n (Some schema) (mapping_part n key) (''input_mapping.'' @ key))
              [(rx_path_schema x, ''path''), (rx_query_schema x, ''query''), (rx_input_schema x, ''body'')]
          else validate_mapping g idx C n (Some (rx_input_schema x)) m ''input_mapping'')"

definition validate_node_mapping ::
  "workflow_graph \<Rightarrow> graph_index \<Rightarrow> validation_context \<Rightarrow> workflow_node \<Rightarrow> exn + validation_issue list" where
  "validate_node_mapping g idx C n =
     (if n_type n = AGENT then validate_mapping g idx C n (node_input_schema idx C (n_id n)) (n_input_mapping n) ''input_mapping''
      else if n_type n = SERVICE then validate_service_mapping g idx C n
      else Inr [])"

definition validate_schema :: "workflow_graph \<Rightarrow> graph_index \<Rightarrow> validation_context \<Rightarrow> exn + validation_issue list" where
  "validate_schema g idx C = collect (validate_node_mapping g idx C) (g_nodes g)"

section \<open>The engine\<close>

text \<open>Position of the last element with an id, as in a dictionary built by enumeration.\<close>

fun position_from :: "int \<Rightarrow> string list \<Rightarrow> string \<Rightarrow> int option" where
  "position_from k [] i = None"
| "position_from k (x # xs) i =
     (case position_from (k + 1) xs i of Some p \<Rightarrow> Some p | None \<Rightarrow> if x = i then Some k else None)"

definition issue_rank :: "workflow_graph \<Rightarrow> validation_issue \<Rightarrow> int" where
  "issue_rank g i =
     (let place = (\<lambda>ids k. case k of None \<Rightarrow> None | Some s \<Rightarrow> if s = [] then None else position_from 0 ids s) in
      case place (node_ids g) (vi_node_id i) of Some p \<Rightarrow> p
      | None \<Rightarrow> (case place (edge_ids g) (vi_edge_id i) of Some p \<Rightarrow> p | None \<Rightarrow> -1))"

definition validate_graph :: "workflow_graph \<Rightarrow> validation_context \<Rightarrow> exn + validation_result" where
  "validate_graph g C =
     (let idx = build g in
      if g_nodes g = [] then Inr \<lparr> vr_valid = False, vr_errors = [graph_error ''GRAPH_EMPTY'' None], vr_warnings = [] \<rparr>
      else
        ebind (validate_schema g idx C) (\<lambda>mapped.
        let collected = map (Pair 0) (validate_identity g) @ map (Pair 1) (validate_topology g idx)
              @ map (Pair 2) (validate_references g C) @ map (Pair 3) (validate_nodes g idx)
              @ map (Pair 4) (validate_context g idx C) @ map (Pair (5 :: nat)) mapped;
            ordered = sort_key (\<lambda>(group, i). (group, issue_rank g i, vi_code i)) collected in
        Inr (from_issues (map snd ordered))))"

end
