(* ===== verification/Workflows.thy ===== *)
theory Workflows
  imports Validation Store
begin

text \<open>
  Workflow definitions (\<^verbatim>\<open>domain/workflows/service.py\<close>, \<^verbatim>\<open>validation_service.py\<close> and
  \<^verbatim>\<open>references.py\<close>): drafts, immutable Versions, validation against the registry, and the check
  that keeps a registry entry in use from being deleted. A Version is created under a lock on its
  Workflow. The name check compares lower-case names; \<open>updated_at\<close> moves exactly when a
  column of the row changes, as SQLAlchemy's \<open>onupdate\<close> does.
\<close>

section \<open>Validation against the registry\<close>

text \<open>The ids in a configuration; the graph contract admits strings only.\<close>

definition config_ids :: "node_type \<Rightarrow> string \<Rightarrow> workflow_graph \<Rightarrow> json list" where
  "config_ids ty key g =
     filter truthy (map (\<lambda>n. dget0 (n_config n) key) (filter (\<lambda>n. n_type n = ty) (g_nodes g)))"

definition referenced_ids :: "workflow_graph \<Rightarrow> json list \<times> json list \<times> json list" where
  "referenced_ids g = (config_ids AGENT ''agent_id'' g, config_ids SERVICE ''service_id'' g, config_ids SERVICE ''service_action_id'' g)"

text \<open>\<open>SELECT ... WHERE id IN (ids)\<close>, keyed by id.\<close>

definition rows_in :: "('r \<Rightarrow> string) \<Rightarrow> json list \<Rightarrow> 'r list \<Rightarrow> (string \<times> 'r) list" where
  "rows_in key ids rs = map (\<lambda>r. (key r, r)) (filter (\<lambda>r. JStr (key r) \<in> set ids) rs)"

definition to_registry_agent :: "agent \<Rightarrow> registry_agent" where
  "to_registry_agent a = \<lparr> ra_id = a_id a, ra_name = a_name a, ra_enabled = a_enabled a, ra_connector_type = a_connector_type a,
     ra_status = a_status a, ra_timeout_seconds = Some (a_timeout_seconds a), ra_input_schema = a_input_schema_json a,
     ra_output_schema = a_output_schema_json a \<rparr>"

definition to_registry_service :: "service \<Rightarrow> registry_service" where
  "to_registry_service s = \<lparr> rg_id = s_id s, rg_name = s_name s, rg_enabled = s_enabled s, rg_status = s_status s,
     rg_timeout_seconds = None \<rparr>"

text \<open>The engine's view of an action: the path and query schemas keep their default.\<close>

definition to_registry_action :: "service_action \<Rightarrow> registry_service_action" where
  "to_registry_action x = \<lparr> rx_id = sa_id x, rx_service_id = sa_service_id x, rx_name = sa_name x, rx_enabled = sa_enabled x,
     rx_timeout_seconds = Some (sa_timeout_seconds x), rx_query_schema = [], rx_path_schema = [],
     rx_input_schema = sa_input_schema_json x, rx_output_schema = sa_output_schema_json x \<rparr>"

definition build_validation_context :: "db \<Rightarrow> workflow_graph \<Rightarrow> validation_context" where
  "build_validation_context d g =
     (case referenced_ids g of (agent_ids, service_ids, action_ids) \<Rightarrow>
        \<lparr> vc_agents = map (apsnd to_registry_agent) (rows_in a_id agent_ids (agents d)),
          vc_services = map (apsnd to_registry_service) (rows_in s_id service_ids (services d)),
          vc_service_actions = map (apsnd to_registry_action) (rows_in sa_id action_ids (service_actions d)) \<rparr>)"

definition validate_graph_with_context :: "db \<Rightarrow> workflow_graph \<Rightarrow> exn + validation_result" where
  "validate_graph_with_context d g = validate_graph g (build_validation_context d g)"

definition WORKFLOW_NOT_FOUND :: exn where
  "WORKFLOW_NOT_FOUND = RelayviaError ''WORKFLOW_NOT_FOUND'' 404"

definition get_workflow_row :: "string \<Rightarrow> db \<Rightarrow> exn + workflow" where
  "get_workflow_row workflow_id d =
     (case row_get wf_id workflow_id (workflows d) of None \<Rightarrow> Inl WORKFLOW_NOT_FOUND | Some w \<Rightarrow> Inr w)"

definition validate_draft_graph :: "lib \<Rightarrow> string \<Rightarrow> json option \<Rightarrow> db \<Rightarrow> exn + validation_result" where
  "validate_draft_graph L workflow_id raw_graph d =
     ebind (case raw_graph of
              None \<Rightarrow> ebind (get_workflow_row workflow_id d) (\<lambda>w. parse_workflow_graph L (wf_draft_graph_json w))
            | Some raw \<Rightarrow> parse_workflow_graph L raw)
       (validate_graph_with_context d)"

section \<open>References from definitions to the registry\<close>

definition json_nodes :: "json \<Rightarrow> dict list" where
  "json_nodes graph =
     (case graph of
        JObj g \<Rightarrow> (case dget_or g ''nodes'' (JArr []) of JArr ns \<Rightarrow> List.map_filter as_dict ns | _ \<Rightarrow> [])
      | _ \<Rightarrow> [])"

definition node_references :: "dict \<Rightarrow> string \<Rightarrow> string \<Rightarrow> bool" where
  "node_references node resource_type resource_id =
     (case dget0 node ''config'' of
        JObj config \<Rightarrow>
          if resource_type = ''agent'' then dget0 node ''type'' = JStr ''agent'' \<and> dget0 config ''agent_id'' = JStr resource_id
          else if resource_type = ''service'' then dget0 node ''type'' = JStr ''service'' \<and> dget0 config ''service_id'' = JStr resource_id
          else if resource_type = ''service_action''
            then dget0 node ''type'' = JStr ''service'' \<and> dget0 config ''service_action_id'' = JStr resource_id
          else False
      | _ \<Rightarrow> False)"

definition is_resource_referenced :: "string \<Rightarrow> string \<Rightarrow> db \<Rightarrow> bool" where
  "is_resource_referenced resource_type resource_id d \<longleftrightarrow>
     list_ex (\<lambda>w. list_ex (\<lambda>n. node_references n resource_type resource_id) (json_nodes (wf_draft_graph_json w))) (workflows d)
     \<or> list_ex (\<lambda>v. list_ex (\<lambda>n. node_references n resource_type resource_id) (json_nodes (wv_graph_json v))) (workflow_versions d)"

definition ensure_resource_not_referenced :: "string \<Rightarrow> string \<Rightarrow> db \<Rightarrow> exn + unit" where
  "ensure_resource_not_referenced resource_type resource_id d =
     (if is_resource_referenced resource_type resource_id d then Inl (RelayviaError ''RESOURCE_IN_USE'' 409) else Inr ())"

section \<open>The workflow service\<close>

record graph_warning =
  gw_code :: string
  gw_details :: dict

record workflow_create =
  wc_name :: string
  wc_description :: "string option"
  wc_graph :: "dict option"

text \<open>A field of an update: \<open>None\<close> when it is unset.\<close>

record workflow_update =
  wu_name :: "string option"
  wu_description :: "string option option"
  wu_status :: "workflow_status option"

record workflow_read =
  wr_workflow :: workflow
  wr_draft_graph :: workflow_graph

record workflow_graph_read =
  wg_workflow_id :: string
  wg_schema_version :: string
  wg_graph :: workflow_graph
  wg_warnings :: "graph_warning list"
  wg_updated_at :: time

record workflow_version_read =
  vn_version :: workflow_version
  vn_graph :: workflow_graph

definition GRAPH_SCHEMA_VERSION :: string where
  "GRAPH_SCHEMA_VERSION = ''1.0''"

definition ensure_name_available :: "string \<Rightarrow> string option \<Rightarrow> db \<Rightarrow> exn + unit" where
  "ensure_name_available name current_id d =
     (if list_ex (\<lambda>w. lower (wf_name w) = lower name
           \<and> (case current_id of None \<Rightarrow> True | Some k \<Rightarrow> k = [] \<or> wf_id w \<noteq> k)) (workflows d)
      then Inl (RelayviaError ''DUPLICATE_NAME'' 400) else Inr ())"

text \<open>\<open>db.get(Model, id)\<close> with an id read from a configuration.\<close>

definition db_get :: "('r \<Rightarrow> string) \<Rightarrow> json \<Rightarrow> 'r list \<Rightarrow> 'r option" where
  "db_get key v rs = (case v of JStr k \<Rightarrow> row_get key k rs | _ \<Rightarrow> None)"

definition agent_reference :: "db \<Rightarrow> workflow_node \<Rightarrow> exn + graph_warning list" where
  "agent_reference d n =
     (let agent_id = dget0 (n_config n) ''agent_id'' in
      case db_get a_id agent_id (agents d) of
        None \<Rightarrow> Inl (RelayviaError ''INVALID_AGENT_REFERENCE'' 400)
      | Some a \<Rightarrow> Inr (issue_if (\<not> a_enabled a)
          \<lparr> gw_code = ''DISABLED_AGENT_REFERENCE'', gw_details = [(''node_id'', JStr (n_id n)), (''agent_id'', agent_id)] \<rparr>))"

definition service_reference :: "db \<Rightarrow> workflow_node \<Rightarrow> exn + graph_warning list" where
  "service_reference d n =
     (let service_id = dget0 (n_config n) ''service_id''; action_id = dget0 (n_config n) ''service_action_id'' in
      case db_get s_id service_id (services d) of
        None \<Rightarrow> Inl (RelayviaError ''INVALID_SERVICE_REFERENCE'' 400)
      | Some s \<Rightarrow>
        (case db_get sa_id action_id (service_actions d) of
           None \<Rightarrow> Inl (RelayviaError ''INVALID_SERVICE_ACTION_REFERENCE'' 400)
         | Some x \<Rightarrow>
             if JStr (sa_service_id x) \<noteq> service_id then Inl (RelayviaError ''INVALID_SERVICE_ACTION_REFERENCE'' 400)
             else Inr (issue_if (\<not> s_enabled s) \<lparr> gw_code = ''DISABLED_SERVICE_REFERENCE'',
                    gw_details = [(''node_id'', JStr (n_id n)), (''service_id'', service_id)] \<rparr>
                  @ issue_if (\<not> sa_enabled x) \<lparr> gw_code = ''DISABLED_SERVICE_ACTION_REFERENCE'',
                    gw_details = [(''node_id'', JStr (n_id n)), (''service_action_id'', action_id)] \<rparr>)))"

definition validate_registry_references :: "db \<Rightarrow> workflow_graph \<Rightarrow> exn + graph_warning list" where
  "validate_registry_references d g =
     collect (\<lambda>n. case n_type n of AGENT \<Rightarrow> agent_reference d n | SERVICE \<Rightarrow> service_reference d n | _ \<Rightarrow> Inr []) (g_nodes g)"

definition to_workflow_read :: "lib \<Rightarrow> workflow \<Rightarrow> exn + workflow_read" where
  "to_workflow_read L w =
     ebind (parse_workflow_graph L (wf_draft_graph_json w)) (\<lambda>g. Inr \<lparr> wr_workflow = w, wr_draft_graph = g \<rparr>)"

definition to_version_read :: "lib \<Rightarrow> workflow_version \<Rightarrow> exn + workflow_version_read" where
  "to_version_read L v =
     ebind (parse_workflow_graph L (wv_graph_json v)) (\<lambda>g. Inr \<lparr> vn_version = v, vn_graph = g \<rparr>)"

definition listed :: "bool \<Rightarrow> workflow \<Rightarrow> bool" where
  "listed include_archived w \<longleftrightarrow> include_archived \<or> wf_status w \<noteq> WF_ARCHIVED"

definition list_workflows :: "lib \<Rightarrow> bool \<Rightarrow> nat option \<Rightarrow> nat \<Rightarrow> db \<Rightarrow> exn + workflow_read list" where
  "list_workflows L include_archived limit offset d =
     (let rows = drop offset (sort_key (\<lambda>w. (- wf_updated_at w, wf_name w)) (filter (listed include_archived) (workflows d))) in
      collect (\<lambda>w. ebind (to_workflow_read L w) (\<lambda>r. Inr [r])) (case limit of None \<Rightarrow> rows | Some k \<Rightarrow> take k rows))"

definition count_workflows :: "bool \<Rightarrow> db \<Rightarrow> nat" where
  "count_workflows include_archived d = length (filter (listed include_archived) (workflows d))"

definition get_workflow :: "lib \<Rightarrow> string \<Rightarrow> db \<Rightarrow> exn + workflow_read" where
  "get_workflow L workflow_id d = ebind (get_workflow_row workflow_id d) (to_workflow_read L)"

text \<open>\<open>db.refresh\<close> and the conversion to the answer, after the commit.\<close>

definition after_commit :: "(exn + 'a) \<times> db \<Rightarrow> ('a \<Rightarrow> db \<Rightarrow> exn + 'b) \<Rightarrow> (exn + 'b) \<times> db" where
  "after_commit res f = (case res of (Inl e, d) \<Rightarrow> (Inl e, d) | (Inr x, d) \<Rightarrow> (f x d, d))"

definition touch :: "time \<Rightarrow> workflow \<Rightarrow> workflow \<Rightarrow> workflow" where
  "touch now old new = (if new = old then old else new\<lparr> wf_updated_at := now \<rparr>)"

definition upd_workflow :: "time \<Rightarrow> string \<Rightarrow> (workflow \<Rightarrow> workflow) \<Rightarrow> db \<Rightarrow> db" where
  "upd_workflow now k f d = d\<lparr> workflows := row_upd wf_id k (\<lambda>w. touch now w (f w)) (workflows d) \<rparr>"

definition new_workflow :: "lib \<Rightarrow> time \<Rightarrow> workflow_create \<Rightarrow> workflow_graph \<Rightarrow> string \<Rightarrow> workflow" where
  "new_workflow L now payload g k =
     \<lparr> wf_id = k, wf_name = wc_name payload, wf_description = wc_description payload,
       wf_status = WF_DRAFT, wf_draft_graph_json = lib_dump_graph L g, wf_graph_schema_version = GRAPH_SCHEMA_VERSION,
       wf_current_version = None, wf_created_at = now, wf_updated_at = now \<rparr>"

definition create_workflow :: "lib \<Rightarrow> time \<Rightarrow> workflow_create \<Rightarrow> db \<Rightarrow> (exn + workflow_read) \<times> db" where
  "create_workflow L now payload d =
     after_commit (transact d
       (ebind (ensure_name_available (wc_name payload) None d) (\<lambda>_.
        ebind (case wc_graph payload of None \<Rightarrow> Inr empty_workflow_graph | Some raw \<Rightarrow> parse_workflow_graph L (JObj raw)) (\<lambda>g.
        ebind (validate_registry_references d g) (\<lambda>_.
        let (k, d) = uuid4 L d in
        Inr (d\<lparr> workflows := workflows d @ [new_workflow L now payload g k] \<rparr>, k))))))
       (\<lambda>k d. get_workflow L k d)"

definition apply_update :: "workflow_update \<Rightarrow> workflow \<Rightarrow> workflow" where
  "apply_update u w =
     (let w = (case wu_name u of None \<Rightarrow> w | Some n \<Rightarrow> w\<lparr> wf_name := n \<rparr>);
          w = (case wu_description u of None \<Rightarrow> w | Some x \<Rightarrow> w\<lparr> wf_description := x \<rparr>) in
      case wu_status u of None \<Rightarrow> w | Some s \<Rightarrow> w\<lparr> wf_status := s \<rparr>)"

definition update_workflow :: "lib \<Rightarrow> time \<Rightarrow> string \<Rightarrow> workflow_update \<Rightarrow> db \<Rightarrow> (exn + workflow_read) \<times> db" where
  "update_workflow L now workflow_id payload d =
     after_commit (transact d
       (ebind (get_workflow_row workflow_id d) (\<lambda>w.
        ebind (case wu_name payload of None \<Rightarrow> Inr () | Some n \<Rightarrow> ensure_name_available n (Some (wf_id w)) d) (\<lambda>_.
        Inr (upd_workflow now workflow_id (apply_update payload) d, ())))))
       (\<lambda>_ d. get_workflow L workflow_id d)"

definition delete_workflow :: "time \<Rightarrow> string \<Rightarrow> db \<Rightarrow> (exn + unit) \<times> db" where
  "delete_workflow now workflow_id d =
     transact d
       (ebind (get_workflow_row workflow_id d) (\<lambda>w.
        if filter (\<lambda>v. wv_workflow_id v = wf_id w) (workflow_versions d) \<noteq> []
        then Inr (upd_workflow now workflow_id (\<lambda>w. w\<lparr> wf_status := WF_ARCHIVED \<rparr>) d, ())
        else Inr (d\<lparr> workflows := filter (\<lambda>w. wf_id w \<noteq> workflow_id) (workflows d) \<rparr>, ())))"

definition get_draft_graph :: "lib \<Rightarrow> string \<Rightarrow> db \<Rightarrow> exn + workflow_graph_read" where
  "get_draft_graph L workflow_id d =
     ebind (get_workflow_row workflow_id d) (\<lambda>w.
     ebind (parse_workflow_graph L (wf_draft_graph_json w)) (\<lambda>g.
     ebind (validate_registry_references d g) (\<lambda>warnings.
     Inr \<lparr> wg_workflow_id = wf_id w, wg_schema_version = GRAPH_SCHEMA_VERSION, wg_graph = g, wg_warnings = warnings,
            wg_updated_at = wf_updated_at w \<rparr>)))"

definition drafted :: "lib \<Rightarrow> workflow_graph \<Rightarrow> workflow \<Rightarrow> workflow" where
  "drafted L g w = w\<lparr> wf_draft_graph_json := lib_dump_graph L g, wf_graph_schema_version := GRAPH_SCHEMA_VERSION,
     wf_status := (if wf_status w = WF_ARCHIVED then WF_DRAFT else wf_status w) \<rparr>"

definition update_draft_graph :: "lib \<Rightarrow> time \<Rightarrow> string \<Rightarrow> json \<Rightarrow> db \<Rightarrow> (exn + workflow_graph_read) \<times> db" where
  "update_draft_graph L now workflow_id raw_graph d =
     transact d
       (ebind (get_workflow_row workflow_id d) (\<lambda>w.
        ebind (parse_workflow_graph L raw_graph) (\<lambda>g.
        ebind (validate_registry_references d g) (\<lambda>warnings.
        Inr (upd_workflow now workflow_id (drafted L g) d,
             \<lparr> wg_workflow_id = wf_id w, wg_schema_version = GRAPH_SCHEMA_VERSION, wg_graph = g, wg_warnings = warnings,
                wg_updated_at = wf_updated_at (touch now w (drafted L g w)) \<rparr>)))))"

text \<open>\<open>max(current_max, workflow.current_version or 0) + 1\<close>\<close>

definition versions_of :: "string \<Rightarrow> db \<Rightarrow> workflow_version list" where
  "versions_of workflow_id d = filter (\<lambda>v. wv_workflow_id v = workflow_id) (workflow_versions d)"

definition next_version :: "workflow \<Rightarrow> db \<Rightarrow> int" where
  "next_version w d =
     (let current_max = fold max (map wv_version (versions_of (wf_id w) d)) 0 in
      max current_max (case wf_current_version w of None \<Rightarrow> 0 | Some k \<Rightarrow> k) + 1)"

definition create_version :: "lib \<Rightarrow> time \<Rightarrow> string \<Rightarrow> string option \<Rightarrow> db \<Rightarrow> (exn + workflow_version_read) \<times> db" where
  "create_version L now workflow_id change_note d =
     after_commit (transact d
       (ebind (get_workflow_row workflow_id d) (\<lambda>w.
        ebind (parse_workflow_graph L (wf_draft_graph_json w)) (\<lambda>g.
        ebind (validate_registry_references d g) (\<lambda>_.
        ebind (validate_graph_with_context d g) (\<lambda>validation.
        if \<not> vr_valid validation then Inl (RelayviaError ''VALIDATION_FAILED'' 422)
        else
          let version_number = next_version w d; (k, d) = uuid4 L d;
              v = \<lparr> wv_id = k, wv_workflow_id = wf_id w, wv_version = version_number, wv_graph_schema_version = GRAPH_SCHEMA_VERSION,
                    wv_graph_json = lib_dump_graph L g, wv_change_note = change_note, wv_created_at = now \<rparr> in
          if list_ex (\<lambda>u. wv_version u = version_number) (versions_of (wf_id w) d) then Inl (RelayviaError ''VERSION_CONFLICT'' 409)
          else Inr (upd_workflow now workflow_id (\<lambda>w. w\<lparr> wf_current_version := Some version_number, wf_status := WF_ACTIVE \<rparr>)
                      (d\<lparr> workflow_versions := workflow_versions d @ [v] \<rparr>), v)))))))
       (\<lambda>v d. to_version_read L v)"

definition list_versions :: "lib \<Rightarrow> string \<Rightarrow> db \<Rightarrow> exn + workflow_version_read list" where
  "list_versions L workflow_id d =
     ebind (get_workflow_row workflow_id d) (\<lambda>_.
     collect (\<lambda>v. ebind (to_version_read L v) (\<lambda>r. Inr [r])) (sort_key (\<lambda>v. - wv_version v) (versions_of workflow_id d)))"

definition WORKFLOW_VERSION_NOT_FOUND :: exn where
  "WORKFLOW_VERSION_NOT_FOUND = RelayviaError ''WORKFLOW_VERSION_NOT_FOUND'' 404"

definition get_version :: "lib \<Rightarrow> string \<Rightarrow> int \<Rightarrow> db \<Rightarrow> exn + workflow_version_read" where
  "get_version L workflow_id version_number d =
     ebind (get_workflow_row workflow_id d) (\<lambda>_.
     case find (\<lambda>v. wv_version v = version_number) (versions_of workflow_id d) of
       None \<Rightarrow> Inl WORKFLOW_VERSION_NOT_FOUND | Some v \<Rightarrow> to_version_read L v)"

end
