(* ===== verification/CreateRun.thy ===== *)
theory CreateRun
  imports Workflows RunnersProps
begin

text \<open>
  Creation of a Workflow Run (\<^verbatim>\<open>create_run\<close> of \<^verbatim>\<open>domain/runs/service.py\<close> and its helpers,
  \<^verbatim>\<open>runtime/readiness/validator.py\<close>, \<^verbatim>\<open>runtime/snapshot/builder.py\<close>): the Version is resolved,
  the registry is checked again, every local execution needs an eligible Runner, the input has to
  match the Data Input schema, and the run starts from copies of the graph and of the invocation
  metadata, with one Node Run per graph node. Readiness messages are text for the client and left
  out; a Runner error keeps the id of its node.
\<close>

section \<open>Execution Snapshot\<close>

record SnapshotAgent =
  sg_id :: string
  sg_name :: string
  sg_connector_type :: string
  sg_endpoint :: "string option"
  sg_http_method :: string
  sg_headers :: dict
  sg_health_check_url :: "string option"
  sg_timeout_seconds :: int
  sg_input_schema :: dict
  sg_output_schema :: dict
  sg_credential_id :: "string option"
  sg_runner_id :: "string option"
  sg_executable :: "string option"

record SnapshotService =
  sv_id :: string
  sv_name :: string
  sv_base_url :: string
  sv_health_check_url :: "string option"
  sv_credential_id :: "string option"

record SnapshotServiceAction =
  sx_id :: string
  sx_service_id :: string
  sx_name :: string
  sx_method :: string
  sx_path :: string
  sx_headers :: dict
  sx_query_schema :: dict
  sx_path_schema :: dict
  sx_timeout_seconds :: int
  sx_retry_policy :: dict
  sx_input_schema :: dict
  sx_output_schema :: dict

definition agent_entry :: "SnapshotAgent \<Rightarrow> json" where
  "agent_entry a = JObj [(''name'', JStr (sg_name a)), (''connector_type'', JStr (sg_connector_type a)),
     (''endpoint'', json_opt (sg_endpoint a)), (''http_method'', JStr (sg_http_method a)), (''headers'', JObj (sg_headers a)),
     (''health_check_url'', json_opt (sg_health_check_url a)), (''timeout_seconds'', JInt (sg_timeout_seconds a)),
     (''input_schema'', JObj (sg_input_schema a)), (''output_schema'', JObj (sg_output_schema a)),
     (''credential_id'', json_opt (sg_credential_id a)), (''runner_id'', json_opt (sg_runner_id a)),
     (''executable'', json_opt (sg_executable a))]"

definition service_entry :: "SnapshotService \<Rightarrow> json" where
  "service_entry s = JObj [(''name'', JStr (sv_name s)), (''base_url'', JStr (sv_base_url s)),
     (''health_check_url'', json_opt (sv_health_check_url s)), (''credential_id'', json_opt (sv_credential_id s))]"

definition action_entry :: "SnapshotServiceAction \<Rightarrow> json" where
  "action_entry x = JObj [(''service_id'', JStr (sx_service_id x)), (''name'', JStr (sx_name x)), (''method'', JStr (sx_method x)),
     (''path'', JStr (sx_path x)), (''headers'', JObj (sx_headers x)), (''query_schema'', JObj (sx_query_schema x)),
     (''path_schema'', JObj (sx_path_schema x)), (''timeout_seconds'', JInt (sx_timeout_seconds x)),
     (''retry_policy'', JObj (sx_retry_policy x)), (''input_schema'', JObj (sx_input_schema x)),
     (''output_schema'', JObj (sx_output_schema x))]"

text \<open>A dictionary comprehension keyed by id.\<close>

definition keyed :: "('a \<Rightarrow> string) \<Rightarrow> ('a \<Rightarrow> json) \<Rightarrow> 'a list \<Rightarrow> json" where
  "keyed key entry xs = JObj (fold (\<lambda>x. dset (key x) (entry x)) xs [])"

definition build_execution_snapshot :: "SnapshotAgent list \<Rightarrow> SnapshotService list \<Rightarrow> SnapshotServiceAction list \<Rightarrow> dict" where
  "build_execution_snapshot ags svs acts =
     [(''schema_version'', JStr ''2''), (''agents'', keyed sg_id agent_entry ags),
      (''services'', keyed sv_id service_entry svs), (''service_actions'', keyed sx_id action_entry acts)]"

definition snapshot_agent :: "agent \<Rightarrow> SnapshotAgent" where
  "snapshot_agent a = \<lparr> sg_id = a_id a, sg_name = a_name a, sg_connector_type = a_connector_type a, sg_endpoint = a_endpoint a,
     sg_http_method = a_http_method a, sg_headers = a_headers_json a, sg_health_check_url = a_health_check_url a,
     sg_timeout_seconds = a_timeout_seconds a, sg_input_schema = a_input_schema_json a, sg_output_schema = a_output_schema_json a,
     sg_credential_id = a_credential_id a, sg_runner_id = a_runner_id a, sg_executable = a_executable a \<rparr>"

definition snapshot_service :: "service \<Rightarrow> SnapshotService" where
  "snapshot_service s = \<lparr> sv_id = s_id s, sv_name = s_name s, sv_base_url = s_base_url s,
     sv_health_check_url = s_health_check_url s, sv_credential_id = s_credential_id s \<rparr>"

definition snapshot_action :: "service_action \<Rightarrow> SnapshotServiceAction" where
  "snapshot_action x = \<lparr> sx_id = sa_id x, sx_service_id = sa_service_id x, sx_name = sa_name x, sx_method = sa_method x,
     sx_path = sa_path x, sx_headers = sa_headers_json x, sx_query_schema = sa_query_schema_json x,
     sx_path_schema = sa_path_schema_json x, sx_timeout_seconds = sa_timeout_seconds x, sx_retry_policy = sa_retry_policy_json x,
     sx_input_schema = sa_input_schema_json x, sx_output_schema = sa_output_schema_json x \<rparr>"

section \<open>Checks before a run is created\<close>

record workflow_run_create =
  rc_workflow_version_id :: "string option"
  rc_version :: "int option"
  rc_input :: dict

definition resolve_version :: "workflow \<Rightarrow> workflow_run_create \<Rightarrow> db \<Rightarrow> exn + workflow_version" where
  "resolve_version w payload d =
     (let by_number = (\<lambda>k. case find (\<lambda>v. wv_version v = k) (versions_of (wf_id w) d) of
          None \<Rightarrow> Inl WORKFLOW_VERSION_NOT_FOUND | Some v \<Rightarrow> Inr v) in
      case rc_workflow_version_id payload of
        Some (c # cs) \<Rightarrow>
          (case row_get wv_id (c # cs) (workflow_versions d) of
             None \<Rightarrow> Inl WORKFLOW_VERSION_NOT_FOUND
           | Some v \<Rightarrow> if wv_workflow_id v = wf_id w then Inr v else Inl WORKFLOW_VERSION_NOT_FOUND)
      | _ \<Rightarrow>
          (case rc_version payload of
             Some k \<Rightarrow> by_number k
           | None \<Rightarrow>
               (case wf_current_version w of
                  Some k \<Rightarrow> if k = 0 then Inl (RelayviaError ''WORKFLOW_HAS_NO_VERSION'' 409) else by_number k
                | None \<Rightarrow> Inl (RelayviaError ''WORKFLOW_HAS_NO_VERSION'' 409))))"

definition load_registry ::
  "db \<Rightarrow> workflow_graph \<Rightarrow> (string \<times> agent) list \<times> (string \<times> service) list \<times> (string \<times> service_action) list" where
  "load_registry d g =
     (case referenced_ids g of (agent_ids, service_ids, action_ids) \<Rightarrow>
        (rows_in a_id agent_ids (agents d), rows_in s_id service_ids (services d), rows_in sa_id action_ids (service_actions d)))"

definition registry_context ::
  "(string \<times> agent) list \<Rightarrow> (string \<times> service) list \<Rightarrow> (string \<times> service_action) list \<Rightarrow> validation_context" where
  "registry_context ags svs acts =
     \<lparr> vc_agents = map (apsnd to_registry_agent) ags, vc_services = map (apsnd to_registry_service) svs,
       vc_service_actions = map (apsnd (\<lambda>x. (to_registry_action x)\<lparr> rx_query_schema := sa_query_schema_json x,
          rx_path_schema := sa_path_schema_json x \<rparr>)) acts \<rparr>"

definition check_run_readiness :: "workflow_graph \<Rightarrow> validation_context \<Rightarrow> bool" where
  "check_run_readiness g C \<longleftrightarrow> \<not> list_ex (\<lambda>i. vi_severity i = SEV_ERROR) (validate_references g C)"

definition build_run_snapshot ::
  "(string \<times> agent) list \<Rightarrow> (string \<times> service) list \<Rightarrow> (string \<times> service_action) list \<Rightarrow> dict" where
  "build_run_snapshot ags svs acts =
     build_execution_snapshot (map (snapshot_agent \<circ> snd) ags) (map (snapshot_service \<circ> snd) svs) (map (snapshot_action \<circ> snd) acts)"

definition validate_run_input :: "lib \<Rightarrow> workflow_graph \<Rightarrow> dict \<Rightarrow> exn + unit" where
  "validate_run_input L g run_input =
     (case filter (\<lambda>n. n_type n = DATA \<and> n_subtype n = ''input'') (g_nodes g) of
        [] \<Rightarrow> Inr ()
      | n # _ \<Rightarrow>
          (let schema = dget0 (n_config n) ''schema'' in
           if \<not> object_schema schema \<or> \<not> lib_check_schema L schema then Inr ()
           else if lib_schema_errors L schema (JObj run_input) \<noteq> [] then Inl (RelayviaError ''INVALID_WORKFLOW_INPUT'' 422)
           else Inr ()))"

definition initialize_variables :: "workflow_graph \<Rightarrow> dict" where
  "initialize_variables g = map (\<lambda>(name, v). (name, v_default v)) (g_variables g)"

text \<open>The Runner and the capability a node needs for local execution.\<close>

definition runner_target :: "(string \<times> agent) list \<Rightarrow> workflow_node \<Rightarrow> (string option \<times> string) option" where
  "runner_target ags n =
     (if n_type n = TOOL then
        Some (case dget0 (n_config n) ''runner_id'' of JStr k \<Rightarrow> if k = [] then None else Some k | _ \<Rightarrow> None, ''shell'')
      else if n_type n = AGENT then
        (case dget0 (n_config n) ''agent_id'' of
           JStr k \<Rightarrow>
             (case map_of ags k of
                Some a \<Rightarrow> if a_connector_type a = ''codex'' then Some (a_runner_id a, ''codex'') else None
              | None \<Rightarrow> None)
         | _ \<Rightarrow> None)
      else None)"

definition runner_eligible :: "int \<Rightarrow> time \<Rightarrow> string \<Rightarrow> string \<Rightarrow> db \<Rightarrow> bool" where
  "runner_eligible offline now runner_id capability d =
     (case get_runner_row runner_id d of
        None \<Rightarrow> False
      | Some r \<Rightarrow> rn_status r \<noteq> RS_DISABLED \<and> runner_online offline now r \<and> capability \<in> set (rn_capabilities_json r))"

fun validate_runner_targets ::
  "int \<Rightarrow> time \<Rightarrow> (string \<times> agent) list \<Rightarrow> db \<Rightarrow> (string \<times> string \<times> string) list \<Rightarrow> workflow_node list \<Rightarrow> string list" where
  "validate_runner_targets offline now ags d checked [] = []"
| "validate_runner_targets offline now ags d checked (n # ns) =
     (case runner_target ags n of
        None \<Rightarrow> validate_runner_targets offline now ags d checked ns
      | Some (None, _) \<Rightarrow> n_id n # validate_runner_targets offline now ags d checked ns
      | Some (Some [], _) \<Rightarrow> n_id n # validate_runner_targets offline now ags d checked ns
      | Some (Some runner_id, capability) \<Rightarrow>
          if (n_id n, runner_id, capability) \<in> set checked then validate_runner_targets offline now ags d checked ns
          else (if runner_eligible offline now runner_id capability d then [] else [n_id n])
               @ validate_runner_targets offline now ags d ((n_id n, runner_id, capability) # checked) ns)"

section \<open>Creation\<close>

definition new_node_run :: "time \<Rightarrow> string \<Rightarrow> dict \<Rightarrow> workflow_node \<Rightarrow> string \<Rightarrow> node_run" where
  "new_node_run now run_id input n k =
     (let is_input = (n_type n = DATA \<and> n_subtype n = ''input'') in
      \<lparr> nr_id = k, nr_workflow_run_id = run_id, nr_node_id = n_id n, nr_node_type = node_type_value (n_type n),
        nr_node_subtype = n_subtype n, nr_node_name_snapshot = n_name n,
        nr_status = (if is_input then N_COMPLETED else N_PENDING), nr_input_json = [],
        nr_output_json = (if is_input then Some input else None), nr_error_json = None, nr_execution_metadata_json = [],
        nr_artifact_refs_json = [], nr_attempt = 0, nr_waiting_reason = None, nr_waiting_metadata_json = [],
        nr_started_at = None, nr_finished_at = None, nr_created_at = now \<rparr>)"

definition create_node_runs :: "lib \<Rightarrow> time \<Rightarrow> string \<Rightarrow> workflow_graph \<Rightarrow> dict \<Rightarrow> db \<Rightarrow> db" where
  "create_node_runs L now run_id g input d =
     fold (\<lambda>n d. let (k, d) = uuid4 L d in d\<lparr> node_runs := node_runs d @ [new_node_run now run_id input n k] \<rparr>) (g_nodes g) d"

definition new_run :: "time \<Rightarrow> workflow \<Rightarrow> workflow_version \<Rightarrow> workflow_graph \<Rightarrow> dict \<Rightarrow> dict \<Rightarrow> string \<Rightarrow> workflow_run" where
  "new_run now w v g snapshot input k =
     \<lparr> r_id = k, r_workflow_id = wf_id w, r_workflow_version_id = wv_id v, r_version_number = wv_version v,
       r_status = W_CREATED, r_graph_schema_version = wv_graph_schema_version v, r_graph_snapshot_json = wv_graph_json v,
       r_execution_snapshot_json = snapshot, r_input_json = input, r_variables_json = initialize_variables g,
       r_error_json = None, r_waiting_reason = None, r_waiting_metadata_json = [], r_started_at = None, r_finished_at = None,
       r_paused_at = None, r_cancelled_at = None, r_created_at = now \<rparr>"

definition create_run :: "lib \<Rightarrow> int \<Rightarrow> time \<Rightarrow> string \<Rightarrow> workflow_run_create \<Rightarrow> db \<Rightarrow> (exn + workflow_run_read) \<times> db" where
  "create_run L offline now workflow_id payload d =
     after_commit (transact d
       (ebind (get_workflow_row workflow_id d) (\<lambda>w.
        ebind (resolve_version w payload d) (\<lambda>v.
        ebind (parse_workflow_graph L (wv_graph_json v)) (\<lambda>g.
        case load_registry d g of (ags, svs, acts) \<Rightarrow>
        if \<not> check_run_readiness g (registry_context ags svs acts)
             \<or> validate_runner_targets offline now ags d [] (g_nodes g) \<noteq> []
        then Inl (RelayviaError ''RUN_READINESS_FAILED'' 409)
        else
          ebind (validate_run_input L g (rc_input payload)) (\<lambda>_.
          let (k, d) = uuid4 L d;
              d = d\<lparr> runs := runs d @ [new_run now w v g (build_run_snapshot ags svs acts) (rc_input payload) k] \<rparr> in
          Inr (create_node_runs L now k g (rc_input payload) d, k)))))))
       (\<lambda>k d. get_run_read L k d)"

section \<open>The rows of a new run\<close>

definition new_rows :: "lib \<Rightarrow> time \<Rightarrow> string \<Rightarrow> dict \<Rightarrow> nat \<Rightarrow> workflow_node list \<Rightarrow> node_run list" where
  "new_rows L now run_id input k ns = map (\<lambda>(i, n). new_node_run now run_id input n (lib_uuid4 L i)) (enumerate k ns)"

lemma create_node_runs_rows:
  "create_node_runs L now run_id g input d =
     d\<lparr> node_runs := node_runs d @ new_rows L now run_id input (uuids d) (g_nodes g), uuids := uuids d + length (g_nodes g) \<rparr>"
proof -
  have "fold (\<lambda>n d. let (k, d) = uuid4 L d in d\<lparr> node_runs := node_runs d @ [new_node_run now run_id input n k] \<rparr>) ns d
      = d\<lparr> node_runs := node_runs d @ new_rows L now run_id input (uuids d) ns, uuids := uuids d + length ns \<rparr>" for ns
    by (induction ns arbitrary: d) (simp_all add: new_rows_def uuid4_def)
  then show ?thesis by (simp add: create_node_runs_def)
qed

lemma new_rows_fields:
  "map nr_id (new_rows L now run_id input k ns) = map (lib_uuid4 L) [k..<k + length ns]"
  "map nr_node_id (new_rows L now run_id input k ns) = map n_id ns"
  "n \<in> set (new_rows L now run_id input k ns) \<Longrightarrow> nr_workflow_run_id n = run_id \<and> nr_status n \<in> {N_PENDING, N_COMPLETED}"
  by (induction ns arbitrary: k) (auto simp: new_rows_def new_node_run_def Let_def upt_rec)

lemma issued_fresh: "inj (lib_uuid4 L) \<Longrightarrow> uuids d \<le> k \<Longrightarrow> lib_uuid4 L k \<notin> issued L d"
  by (auto simp: issued_def dest: injD)

lemma issued_mono: "uuids d \<le> uuids d' \<Longrightarrow> issued L d \<subseteq> issued L d'"
  by (auto simp: issued_def)

lemma row_get_issued: "row_get key k rs = Some r \<Longrightarrow> key ` set rs \<subseteq> A \<Longrightarrow> k \<in> A"
  using row_get_in row_get_key by fastforce

lemma task_nodes_issued: "db_inv L d \<Longrightarrow> get_task_by_node_run k d = Some t \<Longrightarrow> k \<in> issued L d"
proof -
  assume inv: "db_inv L d" and t: "get_task_by_node_run k d = Some t"
  then have "get_task (t_id t) d = Some t" "t_node_run_id t = k" by (auto simp: db_inv_def dest: task_by_node_id)
  then obtain n where "get_node k d = Some n" using inv unfolding db_inv_def refs_ok_def by metis
  with inv show "k \<in> issued L d" by (auto simp: db_inv_def ids_issued_def get_node_def intro: row_get_issued)
qed

lemma node_runs_issued: "db_inv L d \<Longrightarrow> n \<in> set (node_runs d) \<Longrightarrow> nr_workflow_run_id n \<in> issued L d"
proof -
  assume inv: "db_inv L d" and n: "n \<in> set (node_runs d)"
  then obtain r where "get_run (nr_workflow_run_id n) d = Some r"
    unfolding db_inv_def refs_ok_def using get_node_in by blast
  with inv show ?thesis by (auto simp: db_inv_def ids_issued_def get_run_def intro: row_get_issued)
qed

text \<open>A run and its Node Runs under fresh ids, and the state with them.\<close>

definition add_run :: "workflow_run \<Rightarrow> node_run list \<Rightarrow> db \<Rightarrow> db" where
  "add_run r ns d = d\<lparr> runs := runs d @ [r], node_runs := node_runs d @ ns, uuids := Suc (uuids d) + length ns \<rparr>"

definition fresh_rows :: "lib \<Rightarrow> db \<Rightarrow> workflow_run \<Rightarrow> node_run list \<Rightarrow> bool" where
  "fresh_rows L d r ns \<longleftrightarrow>
     r_id r = lib_uuid4 L (uuids d) \<and> map nr_id ns = map (lib_uuid4 L) [Suc (uuids d)..<Suc (uuids d) + length ns]
     \<and> (\<forall>n\<in>set ns. nr_workflow_run_id n = r_id r \<and> link None (nr_status n)) \<and> distinct (map nr_node_id ns)"

lemma fresh_rows_ids:
  assumes "fresh_rows L d r ns" "inj (lib_uuid4 L)"
  shows "r_id r \<notin> issued L d" "n \<in> set ns \<Longrightarrow> nr_id n \<notin> issued L d" "distinct (map nr_id ns)"
proof -
  have ids: "map nr_id ns = map (lib_uuid4 L) [Suc (uuids d)..<Suc (uuids d) + length ns]"
    using assms(1) by (simp add: fresh_rows_def)
  show "r_id r \<notin> issued L d" using issued_fresh [OF assms(2)] assms(1) by (simp add: fresh_rows_def)
  show "nr_id n \<notin> issued L d" if "n \<in> set ns"
  proof -
    have "nr_id n \<in> set (map (lib_uuid4 L) [Suc (uuids d)..<Suc (uuids d) + length ns])" using that unfolding ids [symmetric] by simp
    then show ?thesis using issued_fresh [OF assms(2)] by auto
  qed
  show "distinct (map nr_id ns)" unfolding ids using assms(2) by (simp add: distinct_map inj_on_subset)
qed

lemma add_run_lookups:
  assumes "db_inv L d" "fresh_rows L d r ns" "inj (lib_uuid4 L)"
  shows "get_run k (add_run r ns d) = (if k = r_id r then Some r else get_run k d)" "get_run (r_id r) d = None"
    "get_node k (add_run r ns d) = (case get_node k d of Some n \<Rightarrow> Some n | None \<Rightarrow> row_get nr_id k ns)"
    "get_task k (add_run r ns d) = get_task k d" "get_task_by_node_run k (add_run r ns d) = get_task_by_node_run k d"
proof -
  show none: "get_run (r_id r) d = None"
    using fresh_rows_ids(1) [OF assms(2,3)] assms(1) by (auto simp: get_run_def row_get_None db_inv_def ids_issued_def)
  then show "get_run k (add_run r ns d) = (if k = r_id r then Some r else get_run k d)"
    by (auto simp: add_run_def get_run_def row_get_append row_get_Cons split: option.splits)
qed (auto simp: add_run_def get_node_def get_task_def get_task_by_node_run_def row_get_append split: option.splits)

lemma add_run_unique:
  assumes "db_inv L d" "fresh_rows L d r ns" "inj (lib_uuid4 L)"
  shows "unique_rows (add_run r ns d)"
proof -
  have ids: "r_id ` set (runs d) \<subseteq> issued L d" "nr_id ` set (node_runs d) \<subseteq> issued L d"
    using assms(1) by (auto simp: db_inv_def ids_issued_def)
  have "distinct (map (\<lambda>n. (nr_workflow_run_id n, nr_node_id n)) ns)"
    using assms(2) by (auto simp: fresh_rows_def distinct_map intro!: inj_onI dest: inj_onD)
  moreover have "nr_workflow_run_id n \<noteq> nr_workflow_run_id m" if "n \<in> set (node_runs d)" "m \<in> set ns" for n m
    using node_runs_issued [OF assms(1) that(1)] fresh_rows_ids(1) [OF assms(2,3)] assms(2) that(2) by (auto simp: fresh_rows_def)
  moreover have "r_id r \<notin> r_id ` set (runs d)" using ids(1) fresh_rows_ids(1) [OF assms(2,3)] by blast
  moreover have "nr_id ` set (node_runs d) \<inter> nr_id ` set ns = {}" using ids(2) fresh_rows_ids(2) [OF assms(2,3)] by auto
  ultimately show ?thesis
    using assms(1) fresh_rows_ids(3) [OF assms(2,3)] by (auto simp: db_inv_def unique_rows_def add_run_def)
qed

lemma add_run_refs:
  assumes "db_inv L d" "fresh_rows L d r ns" "inj (lib_uuid4 L)"
  shows "refs_ok (add_run r ns d)"
proof -
  have old: "refs_ok d" using assms(1) by (simp add: db_inv_def)
  have "nr_workflow_run_id n = r_id r" if "row_get nr_id k ns = Some n" for k n
    using row_get_in [OF that] assms(2) by (simp add: fresh_rows_def)
  then show ?thesis
    using old unfolding refs_ok_def add_run_lookups [OF assms] by (fastforce split: option.splits)
qed

lemma add_run_linked:
  assumes "db_inv L d" "fresh_rows L d r ns" "inj (lib_uuid4 L)"
  shows "linked (add_run r ns d)"
proof -
  have "link (map_option t_status (get_task_by_node_run k d)) (nr_status n)" if k: "row_get nr_id k ns = Some n" for k n
  proof -
    have n: "n \<in> set ns" "nr_id n = k" using row_get_in [OF k] row_get_key [OF k] by auto
    then have "get_task_by_node_run k d = None"
      using task_nodes_issued [OF assms(1), of k] fresh_rows_ids(2) [OF assms(2,3) n(1)] by fastforce
    then show ?thesis using n(1) assms(2) by (simp add: fresh_rows_def)
  qed
  then show ?thesis using assms(1) unfolding db_inv_def linked_def add_run_lookups [OF assms] by (auto split: option.splits)
qed

lemma add_run_issued:
  assumes "db_inv L d" "fresh_rows L d r ns"
  shows "ids_issued L (add_run r ns d)"
proof -
  have sub: "issued L d \<subseteq> issued L (add_run r ns d)" by (rule issued_mono) (simp add: add_run_def)
  have ids: "map nr_id ns = map (lib_uuid4 L) [Suc (uuids d)..<Suc (uuids d) + length ns]" "r_id r = lib_uuid4 L (uuids d)"
    using assms(2) by (simp_all add: fresh_rows_def)
  have "nr_id ` set ns \<subseteq> issued L (add_run r ns d)"
    unfolding set_map [symmetric] ids(1) by (auto simp: issued_def add_run_def)
  moreover have "r_id r \<in> issued L (add_run r ns d)" unfolding ids(2) by (auto simp: issued_def add_run_def)
  ultimately show ?thesis using assms(1) sub by (auto simp: db_inv_def ids_issued_def add_run_def)
qed

lemma add_run_new_tasks: "new_tasks (add_run r ns d) = new_tasks d"
  by (simp add: add_run_def)

lemma advance_add_run:
  assumes "db_inv L d" "fresh_rows L d r ns" "inj (lib_uuid4 L)"
  shows "advance L d (add_run r ns d)"
proof -
  have "db_inv L (add_run r ns d)"
    using assms(1) add_run_unique [OF assms] add_run_refs [OF assms] add_run_linked [OF assms] add_run_issued [OF assms(1,2)]
    by (auto simp: db_inv_def leases_ok_def add_run_lookups [OF assms] add_run_new_tasks)
  moreover have "progress d (add_run r ns d)"
    unfolding progress_def add_run_lookups [OF assms] using add_run_lookups(2) [OF assms]
    by (auto simp: add_run_def split: option.splits)
  ultimately show ?thesis by (simp add: advance_def)
qed

end
