(* ===== verification/ValidationProps.thy ===== *)
theory ValidationProps
  imports Validation Resolver
begin

text \<open>
  What a graph that passes validation guarantees: the shape the scheduler relies on, the registry
  entries behind Agent and Service nodes, Context References that point upstream, and one edge per
  branch of a Condition.
\<close>

named_theorems error_free "when a list of issues has no error"

definition no_errors :: "validation_issue list \<Rightarrow> bool" where
  "no_errors is \<longleftrightarrow> (\<forall>i\<in>set is. vi_severity i \<noteq> SEV_ERROR)"

lemma no_errors_append [error_free]: "no_errors (xs @ ys) \<longleftrightarrow> no_errors xs \<and> no_errors ys"
  by (auto simp: no_errors_def)

lemma no_errors_concat [error_free]: "no_errors (concat xss) \<longleftrightarrow> (\<forall>xs\<in>set xss. no_errors xs)"
  by (auto simp: no_errors_def)

lemma no_errors_Nil [error_free]: "no_errors []"
  by (simp add: no_errors_def)

lemma no_errors_single [error_free]:
  "\<not> no_errors [node_error c n f]" "\<not> no_errors [graph_error c f']" "\<not> no_errors [edge_error c n' e f]" "no_errors [node_warning c n f]"
  by (simp_all add: no_errors_def node_error_def graph_error_def edge_error_def node_warning_def)

lemma no_errors_issue_if [error_free]: "no_errors (issue_if b i) \<longleftrightarrow> b \<longrightarrow> no_errors [i]"
  by (simp add: issue_if_def no_errors_def)

lemma no_errors_map [error_free]:
  "no_errors (map (\<lambda>x. node_error (c x) (n x) (f x)) xs) \<longleftrightarrow> xs = []"
  "no_errors (map (\<lambda>x. edge_error (c x) (m x) (e x) (f x)) xs) \<longleftrightarrow> xs = []"
  by (cases xs; simp add: no_errors_def node_error_def edge_error_def)+

lemma valid_no_errors:
  assumes "validate_graph g C = Inr r" "vr_valid r"
  shows "g_nodes g \<noteq> []" "no_errors (validate_identity g)" "no_errors (validate_topology g (build g))"
    "no_errors (validate_references g C)" "no_errors (validate_nodes g (build g))" "no_errors (validate_context g (build g) C)"
    "\<exists>is. validate_schema g (build g) C = Inr is \<and> no_errors is"
proof -
  show "g_nodes g \<noteq> []" using assms by (auto simp: validate_graph_def)
  with assms obtain mapped where m: "validate_schema g (build g) C = Inr mapped"
    and r: "no_errors (map snd (sort_key (\<lambda>(group, i). (group, issue_rank g i, vi_code i))
      (map (Pair 0) (validate_identity g) @ map (Pair 1) (validate_topology g (build g))
              @ map (Pair 2) (validate_references g C) @ map (Pair 3) (validate_nodes g (build g))
              @ map (Pair 4) (validate_context g (build g) C) @ map (Pair (5 :: nat)) mapped)))"
    by (auto simp: validate_graph_def Let_def outcome from_issues_def no_errors_def list_ex_iff split: if_splits)
  from r have "no_errors (validate_identity g @ validate_topology g (build g) @ validate_references g C
      @ validate_nodes g (build g) @ validate_context g (build g) C @ mapped)"
    by (auto simp: no_errors_def image_Un image_image)
  then show "no_errors (validate_identity g)" "no_errors (validate_topology g (build g))"
    "no_errors (validate_references g C)" "no_errors (validate_nodes g (build g))" "no_errors (validate_context g (build g) C)"
    "\<exists>is. validate_schema g (build g) C = Inr is \<and> no_errors is"
    using m by (auto simp: error_free)
qed

section \<open>Identity and topology\<close>

lemma duplicated_Nil: "duplicated xs = [] \<longleftrightarrow> distinct xs"
proof -
  have "duplicated xs = [] \<longleftrightarrow> (\<forall>x\<in>set xs. count_list xs x \<le> 1)"
    by (auto simp: duplicated_def filter_empty_conv not_less)
  also have "\<dots> \<longleftrightarrow> distinct xs"
    by (induction xs) (auto simp: count_notin count_list_0_iff le_Suc_eq)
  finally show ?thesis .
qed

lemma edge_identities_endpoints:
  "no_errors (edge_identities ids seen es) \<Longrightarrow> e \<in> set es \<Longrightarrow> e_source e \<in> set ids \<and> e_target e \<in> set ids \<and> e_source e \<noteq> e_target e"
  by (induction ids seen es rule: edge_identities.induct) (auto simp: edge_identity_def error_free)

lemma identity_well_formed: "no_errors (validate_identity g) \<Longrightarrow> well_formed_graph g"
  using edge_identities_endpoints [of "node_ids g" "[]" "g_edges g"]
  by (auto simp: validate_identity_def error_free duplicated_Nil well_formed_graph_def)

definition ordinary :: "workflow_node \<Rightarrow> bool" where
  "ordinary n \<longleftrightarrow> \<not> is_data n \<and> \<not> (n_type n = LOGIC \<and> n_subtype n \<in> {''condition'', ''parallel'', ''merge''})"

lemma topology_parts:
  assumes "no_errors (validate_topology g idx)"
  shows "no_errors (validate_entry idx)" "no_errors (validate_outputs idx)" "\<not> has_cycle idx"
    "no_errors (validate_reachable g idx)" "no_errors (validate_dead_ends g idx)" "no_errors (validate_parallel_merge g idx)"
  using assms by (auto simp: validate_topology_def error_free)

lemma single_entry:
  "no_errors (validate_entry idx) \<Longrightarrow> \<exists>i. entry_node_ids idx = [i] \<and> incoming_edges idx i = []"
  by (auto simp: validate_entry_def error_free split: list.splits)

lemma reaches_output:
  assumes "no_errors (validate_dead_ends g idx)" "output_node_ids idx \<noteq> []" "\<not> has_cycle idx" "entry_node_ids idx = [i]"
    "n \<in> set (g_nodes g)" "n_id n \<in> set (reachable_from idx [i])" "ordinary n"
  shows "\<exists>out\<in>set (output_node_ids idx). n_id n = out \<or> n_id n \<in> set (ancestors idx out)"
  using assms by (auto simp: validate_dead_ends_def dead_end_def error_free filter_empty_conv ordinary_def)

lemma valid_topology:
  assumes "no_errors (validate_identity g)" "no_errors (validate_topology g (build g))"
  shows "well_formed_graph g \<and> acyclic (edge_rel g)
    \<and> (\<exists>i. entry_node_ids (build g) = [i] \<and> (\<forall>u. (u, i) \<notin> edge_rel g)
          \<and> (\<forall>n\<in>set (g_nodes g). (i, n_id n) \<in> (edge_rel g)\<^sup>*))
    \<and> (\<forall>n\<in>set (g_nodes g). ordinary n \<longrightarrow> (\<exists>out\<in>set (output_node_ids (build g)). (n_id n, out) \<in> (edge_rel g)\<^sup>*))"
proof -
  note wf = identity_well_formed [OF assms(1)]
  note parts = topology_parts [OF assms(2)]
  have ac: "acyclic (edge_rel g)" using parts(3) wf by (simp add: has_cycle_iff)
  obtain i where i: "entry_node_ids (build g) = [i]" "incoming_edges (build g) i = []" using single_entry [OF parts(1)] by blast
  have root: "(u, i) \<notin> edge_rel g" for u
    using i(2) by (auto simp: incoming_edges_build filter_empty_conv edge_rel_iff)
  have reach: "n_id n \<in> set (reachable_from (build g) [i])" if "n \<in> set (g_nodes g)" for n
    using parts(3,4) i(1) that by (auto simp: validate_reachable_def error_free filter_empty_conv)
  have out: "output_node_ids (build g) \<noteq> []" using parts(2) by (auto simp: validate_outputs_def error_free)
  have "\<exists>out\<in>set (output_node_ids (build g)). (n_id n, out) \<in> (edge_rel g)\<^sup>*" if "n \<in> set (g_nodes g)" "ordinary n" for n
    using reaches_output [OF parts(5) out parts(3) i(1) that(1) reach [OF that(1)] that(2)]
    by (auto simp: set_ancestors dest: trancl_into_rtrancl)
  with wf ac i(1) root reach show ?thesis by (auto simp: set_reachable_from)
qed

section \<open>References to the registry and to other nodes\<close>

text \<open>The Agent, or the Service and the action, that a node is configured with.\<close>

definition registered :: "validation_context \<Rightarrow> workflow_node \<Rightarrow> bool" where
  "registered C n \<longleftrightarrow>
     (case n_type n of
        AGENT \<Rightarrow> \<exists>k a. dget0 (n_config n) ''agent_id'' = JStr k \<and> map_of (vc_agents C) k = Some a
                  \<and> ra_enabled a \<and> ra_connector_type a \<in> {''http'', ''codex''}
      | SERVICE \<Rightarrow> \<exists>k s j x. dget0 (n_config n) ''service_id'' = JStr k \<and> map_of (vc_services C) k = Some s \<and> rg_enabled s
                  \<and> dget0 (n_config n) ''service_action_id'' = JStr j \<and> map_of (vc_service_actions C) j = Some x
                  \<and> rx_enabled x \<and> rx_service_id x = k
      | _ \<Rightarrow> True)"

lemma registry_get_Some: "registry_get d v = Some a \<longleftrightarrow> (\<exists>k. v = JStr k \<and> map_of d k = Some a)"
  by (auto simp: registry_get_def split: json.splits)

lemma agent_registered: "no_errors (validate_agent C n) \<Longrightarrow> n_type n = AGENT \<Longrightarrow> registered C n"
  by (auto simp: validate_agent_def Let_def error_free registered_def registry_get_Some split: if_splits option.splits)

lemma service_registered:
  assumes "no_errors (validate_service_ref C n)" "no_errors (validate_action_ref C n)" "n_type n = SERVICE"
  shows "registered C n"
proof -
  obtain s where s: "registry_get (vc_services C) (dget0 (n_config n) ''service_id'') = Some s" "rg_enabled s"
    and t: "truthy (dget0 (n_config n) ''service_id'')"
    using assms(1) by (auto simp: validate_service_ref_def Let_def error_free split: if_splits option.splits)
  obtain x where "registry_get (vc_service_actions C) (dget0 (n_config n) ''service_action_id'') = Some x" "rx_enabled x"
    "JStr (rx_service_id x) = dget0 (n_config n) ''service_id''"
    using assms(2) t by (auto simp: validate_action_ref_def Let_def error_free split: if_splits option.splits)
  with s assms(3) show ?thesis by (auto simp: registered_def registry_get_Some)
qed

lemma references_registered:
  assumes "no_errors (validate_references g C)" "n \<in> set (g_nodes g)"
  shows "registered C n"
  using assms agent_registered [of C n] service_registered [of C n]
  by (cases "n_type n") (auto simp: validate_references_def error_free registered_def)

lemma foldM_parsed:
  assumes "foldM (\<lambda>rs m. ebind (parse_context_reference m) (\<lambda>r. Inr (rs @ [r]))) acc ms = Inr rs"
    and "\<And>r. r \<in> set acc \<Longrightarrow> \<exists>s. parse_context_reference s = Inr r"
  shows "r \<in> set rs \<Longrightarrow> \<exists>s. parse_context_reference s = Inr r"
  using assms(1) foldM_invariant [OF assms(1), of "\<lambda>xs. \<forall>r\<in>set xs. \<exists>s. parse_context_reference s = Inr r"] assms(2)
  by (fastforce simp: outcome split: sum.splits)

lemma parse_context_references_parsed:
  "parse_context_references s = Inr rs \<Longrightarrow> r \<in> set rs \<Longrightarrow> \<exists>m. parse_context_reference m = Inr r"
  by (auto simp: parse_context_references_def outcome split: if_splits sum.splits dest!: foldM_parsed [where r = r])

lemma extracted_parsed:
  "extract_context_references v = Inr rs \<Longrightarrow> r \<in> set rs \<Longrightarrow> \<exists>m. parse_context_reference m = Inr r"
  "extract_from_list xs = Inr rs \<Longrightarrow> r \<in> set rs \<Longrightarrow> \<exists>m. parse_context_reference m = Inr r"
  "extract_from_fields d = Inr rs \<Longrightarrow> r \<in> set rs \<Longrightarrow> \<exists>m. parse_context_reference m = Inr r"
  by (induction v and xs and d arbitrary: rs and rs and rs
        rule: extract_context_references_extract_from_list_extract_from_fields.induct)
    (auto simp: outcome dest: parse_context_references_parsed split: sum.splits)

lemma parsed_node_scope:
  "parse_context_reference m = Inr r \<Longrightarrow> cr_node_id r = Some i \<Longrightarrow> cr_scope r \<notin> {''workflow.input'', ''workflow.variables'', ''run''}"
  using reference_scopes(1) [of i] reference_parts_node_id
  by (fastforce simp: parse_context_reference_def split: if_splits option.splits)

lemma reference_upstream:
  assumes "no_errors (validate_reference g (build g) C n r)" "parse_context_reference m = Inr r" "cr_node_id r = Some t"
    "\<not> has_cycle (build g)"
  shows "\<exists>target. index_node (build g) t = Some target \<and> output_provider_kind target \<noteq> None \<and> (t, n_id n) \<in> (edge_rel g)\<^sup>+"
  using assms(1,3,4) parsed_node_scope [OF assms(2,3)]
  by (auto simp: validate_reference_def Let_def error_free set_ancestors split: option.splits if_splits)

lemma variable_declared:
  "no_errors (validate_reference g idx C n r) \<Longrightarrow> cr_scope r = ''workflow.variables'' \<Longrightarrow> map_of (g_variables g) (cr_path r) \<noteq> None"
  by (auto simp: validate_reference_def Let_def error_free)

lemma value_references:
  assumes "no_errors (validate_context g idx C)" "n \<in> set (g_nodes g)" "v \<in> set (reference_bearing_values n)"
  shows "\<exists>rs. extract_context_references v = Inr rs \<and> (\<forall>r\<in>set rs. no_errors (validate_reference g idx C n r))"
proof -
  from assms have "no_errors (validate_value g idx C n v)"
    by (auto simp: validate_context_def error_free)
  then show ?thesis by (auto simp: validate_value_def error_free split: sum.splits)
qed

lemma valid_references:
  assumes "no_errors (validate_context g (build g) C)" "\<not> has_cycle (build g)"
    "n \<in> set (g_nodes g)" "v \<in> set (reference_bearing_values n)"
  shows "\<exists>rs. extract_context_references v = Inr rs
    \<and> (\<forall>r\<in>set rs. (cr_scope r = ''workflow.variables'' \<longrightarrow> map_of (g_variables g) (cr_path r) \<noteq> None)
        \<and> (\<forall>t. cr_node_id r = Some t \<longrightarrow> (t, n_id n) \<in> (edge_rel g)\<^sup>+
              \<and> (\<exists>target\<in>set (g_nodes g). n_id target = t \<and> output_provider_kind target \<noteq> None)))"
proof -
  obtain rs where rs: "extract_context_references v = Inr rs" "\<forall>r\<in>set rs. no_errors (validate_reference g (build g) C n r)"
    using value_references [OF assms(1,3,4)] by blast
  have up: "(t, n_id n) \<in> (edge_rel g)\<^sup>+ \<and> (\<exists>target\<in>set (g_nodes g). n_id target = t \<and> output_provider_kind target \<noteq> None)"
    if r: "r \<in> set rs" and t: "cr_node_id r = Some t" for r t
  proof -
    obtain m where m: "parse_context_reference m = Inr r" using extracted_parsed(1) [OF rs(1) r] by blast
    have ok: "no_errors (validate_reference g (build g) C n r)" using rs(2) r by blast
    show ?thesis using reference_upstream [OF ok m t assms(2)] by (auto dest!: index_node_Some)
  qed
  with rs show ?thesis using variable_declared by blast
qed

section \<open>Branches\<close>

lemma condition_branches:
  assumes "no_errors (validate_condition (build g) n)"
  shows "(\<forall>e\<in>set (g_edges g). e_source e = n_id n \<longrightarrow> e_source_handle e \<in> {Some ''true'', Some ''false''})
    \<and> (\<forall>h\<in>{''true'', ''false''}. length (filter (\<lambda>e. e_source e = n_id n \<and> e_source_handle e = Some h) (g_edges g)) = 1)"
  using assms by (auto simp: validate_condition_def branch_edges_def outgoing_edges_build error_free filter_empty_conv conj_commute
      split: json.splits)

lemma logic_nodes_valid:
  "no_errors (validate_nodes g idx) \<Longrightarrow> n \<in> set (g_nodes g) \<Longrightarrow> n_type n = LOGIC \<Longrightarrow> n_subtype n = ''condition''
     \<Longrightarrow> no_errors (validate_condition idx n)"
  by (force simp: validate_nodes_def validate_node_def validate_logic_def error_free)

section \<open>A valid graph\<close>

text \<open>Input, an Agent, a Condition on the Agent's output, and one Output per branch.\<close>

definition demo_flow :: workflow_graph where
  "demo_flow = \<lparr> g_nodes =
       [(demo_gnode ''i'')\<lparr> n_type := DATA, n_subtype := ''input'', n_config := [(''schema'', JObj [(''type'', JStr ''object'')])] \<rparr>,
        (demo_gnode ''a'')\<lparr> n_subtype := ''agent'', n_config := [(''agent_id'', JStr ''A'')], n_input_mapping := [(''q'', JStr ''{{workflow.input.q}}'')] \<rparr>,
        (demo_gnode ''c'')\<lparr> n_type := LOGIC, n_subtype := ''condition'',
           n_config := [(''expression'', JObj [(''left'', JStr ''{{nodes.a.output.x}}''), (''operator'', JStr ''==''), (''right'', JInt 1)])] \<rparr>,
        (demo_gnode ''o'')\<lparr> n_type := DATA, n_subtype := ''output'', n_config := [(''output_mapping'', JObj [])] \<rparr>,
        (demo_gnode ''p'')\<lparr> n_type := DATA, n_subtype := ''output'', n_config := [(''output_mapping'', JObj [])] \<rparr>],
     g_edges = [demo_gedge ''e1'' ''i'' ''a'', demo_gedge ''e2'' ''a'' ''c'',
       (demo_gedge ''e3'' ''c'' ''o'')\<lparr> e_source_handle := Some ''true'' \<rparr>,
       (demo_gedge ''e4'' ''c'' ''p'')\<lparr> e_source_handle := Some ''false'' \<rparr>],
     g_variables = [], g_metadata = [] \<rparr>"

definition demo_registry :: validation_context where
  "demo_registry = \<lparr> vc_agents = [(''A'', \<lparr> ra_id = ''A'', ra_name = ''A'', ra_enabled = True, ra_connector_type = ''http'',
       ra_status = ''healthy'', ra_timeout_seconds = None, ra_input_schema = [], ra_output_schema = [] \<rparr>)],
     vc_services = [], vc_service_actions = [] \<rparr>"

lemma demo_flow_valid:
  "validate_graph demo_flow demo_registry = Inr \<lparr> vr_valid = True, vr_errors = [], vr_warnings = [] \<rparr>"
  by code_simp

section \<open>What validity gives\<close>



text \<open>
  C15. In a graph that passes validation every Agent node names an enabled Agent with a supported
  connector, and every Service node an enabled Service and an enabled action of that Service.
\<close>

theorem valid_graph_registered:
  assumes "validate_graph g C = Inr r" "vr_valid r" "n \<in> set (g_nodes g)"
  shows "registered C n"
  using references_registered [OF valid_no_errors(4) [OF assms(1,2)] assms(3)] .

theorem valid_graph_registered_witness:
  "registered demo_registry ((demo_gnode ''a'')\<lparr> n_subtype := ''agent'', n_config := [(''agent_id'', JStr ''A'')], n_input_mapping := [(''q'', JStr ''{{workflow.input.q}}'')] \<rparr>)"
proof -
  have "vr_valid \<lparr> vr_valid = True, vr_errors = [], vr_warnings = [] \<rparr>" by simp
  from valid_graph_registered [OF demo_flow_valid this] show ?thesis by (simp add: demo_flow_def)
qed



text \<open>
  In a graph that passes validation a Condition node has exactly one edge for each branch and no
  other: whichever way it evaluates, exactly one edge is taken.
\<close>

lemma valid_condition_branches:
  assumes "validate_graph g C = Inr r" "vr_valid r"
    "n \<in> set (g_nodes g)" "n_type n = LOGIC" "n_subtype n = ''condition''"
  shows "(\<forall>e\<in>set (g_edges g). e_source e = n_id n \<longrightarrow> e_source_handle e \<in> {Some ''true'', Some ''false''})
    \<and> (\<forall>h\<in>{''true'', ''false''}. length (filter (\<lambda>e. e_source e = n_id n \<and> e_source_handle e = Some h) (g_edges g)) = 1)"
  using condition_branches [OF logic_nodes_valid [OF valid_no_errors(5) [OF assms(1,2)] assms(3,4,5)]] .

theorem valid_condition_branches_witness:
  "length (filter (\<lambda>e. e_source e = ''c'' \<and> e_source_handle e = Some ''false'') (g_edges demo_flow)) = 1"
proof -
  have "vr_valid \<lparr> vr_valid = True, vr_errors = [], vr_warnings = [] \<rparr>" by simp
  from valid_condition_branches [OF demo_flow_valid this, of "g_nodes demo_flow ! 2"] show ?thesis
    by (simp add: demo_flow_def demo_gnode_def demo_gedge_def)
qed

text \<open>
  An input schema whose mapped property has a union type, which the JSON Schema meta-schema
  allows: the engine raises instead of answering.
\<close>

definition demo_union :: validation_context where
  "demo_union = demo_registry\<lparr> vc_agents := map (\<lambda>(k, a). (k, a\<lparr> ra_input_schema :=
     [(''type'', JStr ''object''),
      (''properties'', JObj [(''q'', JObj [(''type'', JArr [JStr ''string'', JStr ''null''])])])] \<rparr>)) (vc_agents demo_registry) \<rparr>"

lemma union_type_raises: "validate_graph demo_flow demo_union = Inl (PyError ''TypeError'')"
  by code_simp

end
