(* ===== verification/CreateRunProps.thy ===== *)
theory CreateRunProps
  imports CreateRun Executor ValidationProps
begin

text \<open>
  What creating a run guarantees: it is refused without a trace or it adds exactly one run with one
  Node Run per graph node, and its snapshot has an entry for every capability a node calls.
\<close>

section \<open>Outcomes of creation\<close>

text \<open>Everything the checks established when a run was created.\<close>

definition run_admitted :: "lib \<Rightarrow> int \<Rightarrow> time \<Rightarrow> workflow_run_create \<Rightarrow> workflow \<Rightarrow> workflow_version \<Rightarrow> workflow_graph \<Rightarrow> db \<Rightarrow> bool" where
  "run_admitted L offline now payload w v g d \<longleftrightarrow>
     resolve_version w payload d = Inr v \<and> parse_workflow_graph L (wv_graph_json v) = Inr g
     \<and> (case load_registry d g of (ags, svs, acts) \<Rightarrow>
          check_run_readiness g (registry_context ags svs acts) \<and> validate_runner_targets offline now ags d [] (g_nodes g) = [])
     \<and> validate_run_input L g (rc_input payload) = Inr ()"

definition created_run :: "lib \<Rightarrow> time \<Rightarrow> workflow_run_create \<Rightarrow> workflow \<Rightarrow> workflow_version \<Rightarrow> workflow_graph \<Rightarrow> db \<Rightarrow> workflow_run" where
  "created_run L now payload w v g d =
     (case load_registry d g of (ags, svs, acts) \<Rightarrow>
        new_run now w v g (build_run_snapshot ags svs acts) (rc_input payload) (lib_uuid4 L (uuids d)))"

abbreviation created_rows :: "lib \<Rightarrow> time \<Rightarrow> workflow_run_create \<Rightarrow> workflow_graph \<Rightarrow> db \<Rightarrow> node_run list" where
  "created_rows L now payload g d \<equiv>
     new_rows L now (lib_uuid4 L (uuids d)) (rc_input payload) (Suc (uuids d)) (g_nodes g)"

lemma length_new_rows: "length (new_rows L now run_id input k ns) = length ns"
  by (simp add: new_rows_def)

lemma fresh_created_rows:
  assumes "parse_workflow_graph L (wv_graph_json v) = Inr g"
  shows "fresh_rows L d (created_run L now payload w v g d) (created_rows L now payload g d)"
proof -
  have "distinct (map n_id (g_nodes g))"
    using parse_workflow_graph_Inr(3) [OF assms] by (simp add: well_formed_graph_def node_ids_def)
  then show ?thesis
    using new_rows_fields(3) [of _ L now "lib_uuid4 L (uuids d)"]
    by (fastforce simp: fresh_rows_def created_run_def new_run_def new_rows_fields length_new_rows split: prod.splits)
qed

lemma create_run_refused:
  assumes "\<And>w v g. get_workflow_row wid d = Inr w \<Longrightarrow> \<not> run_admitted L offline now payload w v g d"
  shows "\<exists>e. create_run L offline now wid payload d = (Inl e, d)"
proof (cases "get_workflow_row wid d")
  case Inl
  then show ?thesis by (simp add: create_run_def transact_Inl after_commit_def)
next
  case w: (Inr w)
  show ?thesis
  proof (cases "ebind (resolve_version w payload d) (\<lambda>v. parse_workflow_graph L (wv_graph_json v))")
    case Inl
    then show ?thesis by (cases "resolve_version w payload d") (simp_all add: create_run_def w transact_Inl after_commit_def)
  next
    case (Inr g)
    then obtain v where v: "resolve_version w payload d = Inr v" "parse_workflow_graph L (wv_graph_json v) = Inr g"
      by (auto simp: outcome)
    then show ?thesis
      using assms [OF w, of v g] by (cases "validate_run_input L g (rc_input payload)")
        (auto simp: create_run_def run_admitted_def w v transact_Inl after_commit_def split: prod.splits)
  qed
qed

lemma create_run_admitted:
  assumes "db_inv L d" "inj (lib_uuid4 L)" and w: "get_workflow_row wid d = Inr w" and ok: "run_admitted L offline now payload w v g d"
  shows "\<exists>read. create_run L offline now wid payload d
    = (Inr read, add_run (created_run L now payload w v g d) (created_rows L now payload g d) d)"
proof -
  let ?r = "created_run L now payload w v g d"
  let ?ns = "created_rows L now payload g d"
  have parse: "parse_workflow_graph L (wv_graph_json v) = Inr g" using ok by (simp add: run_admitted_def)
  have "new_tasks (add_run ?r ?ns d) = []" using assms(1) by (simp add: add_run_def db_inv_def)
  then have "create_run L offline now wid payload d = (get_run_read L (r_id ?r) (add_run ?r ?ns d), add_run ?r ?ns d)"
    using w ok by (auto simp: create_run_def run_admitted_def created_run_def new_run_def uuid4_def create_node_runs_rows add_run_def
        length_new_rows after_commit_def transact_no_new split: prod.splits)
  moreover have "get_run (r_id ?r) (add_run ?r ?ns d) = Some ?r"
    by (simp add: add_run_lookups [OF assms(1) fresh_created_rows [OF parse] assms(2)])
  moreover have "r_graph_snapshot_json ?r = wv_graph_json v" by (simp add: created_run_def new_run_def split: prod.splits)
  ultimately show ?thesis using parse by (simp add: get_run_read_def to_read_def)
qed

lemma advance_create_run:
  assumes "db_inv L d" "inj (lib_uuid4 L)"
  shows "advance L d (snd (create_run L offline now wid payload d))"
proof (cases "\<exists>w v g. get_workflow_row wid d = Inr w \<and> run_admitted L offline now payload w v g d")
  case False
  then show ?thesis using create_run_refused [of wid d L offline now payload] assms(1) by (fastforce simp: advance_def)
next
  case True
  then obtain w v g where "get_workflow_row wid d = Inr w" "run_admitted L offline now payload w v g d" by blast
  then show ?thesis
    using create_run_admitted [OF assms] advance_add_run [OF assms(1) fresh_created_rows assms(2)] by (fastforce simp: run_admitted_def)
qed

lemma created_run_fields:
  "r_id (created_run L now payload w v g d) = lib_uuid4 L (uuids d)"
  "r_status (created_run L now payload w v g d) = W_CREATED"
  "r_graph_snapshot_json (created_run L now payload w v g d) = wv_graph_json v"
  "r_workflow_version_id (created_run L now payload w v g d) = wv_id v"
  "r_input_json (created_run L now payload w v g d) = rc_input payload"
  by (simp_all add: created_run_def new_run_def split: prod.splits)

lemma created_node_runs:
  assumes "db_inv L d" "inj (lib_uuid4 L)"
  shows "list_node_runs (lib_uuid4 L (uuids d)) (add_run r (created_rows L now payload g d) d) = created_rows L now payload g d"
proof -
  have "nr_workflow_run_id n \<noteq> lib_uuid4 L (uuids d)" if "n \<in> set (node_runs d)" for n
    using node_runs_issued [OF assms(1) that] issued_fresh [OF assms(2), of d "uuids d"] by auto
  then have "filter (\<lambda>n. nr_workflow_run_id n = lib_uuid4 L (uuids d)) (node_runs d) = []" by (simp add: filter_empty_conv)
  moreover have "filter (\<lambda>n. nr_workflow_run_id n = lib_uuid4 L (uuids d)) (created_rows L now payload g d) = created_rows L now payload g d"
    using new_rows_fields(3) by (intro filter_True) blast
  ultimately show ?thesis by (simp add: list_node_runs_def add_run_def)
qed

lemma new_rows_status:
  "n \<in> set (new_rows L now rid input k ns) \<Longrightarrow>
     nr_status n = N_PENDING \<and> nr_output_json n = None \<or> nr_status n = N_COMPLETED \<and> nr_output_json n = Some input"
  by (auto simp: new_rows_def new_node_run_def Let_def)

section \<open>Registry entries and Runners behind a new run\<close>

lemma keyed_entry:
  assumes "x \<in> set xs" "\<And>y. is_dict (entry y)"
  shows "\<exists>d e. keyed key entry xs = JObj d \<and> dget0 d (key x) = JObj e"
proof -
  obtain y where "find (\<lambda>y. key y = key x) (rev xs) = Some y" 
    using assms(1) by (cases "find (\<lambda>y. key y = key x) (rev xs)") (auto simp: find_None_iff)
  then have "map_of (fold (\<lambda>x. dset (key x) (entry x)) xs []) (key x) = Some (entry y)" by (simp add: map_of_fold_dset)
  moreover obtain e where "entry y = JObj e" using assms(2) [of y] by (cases "entry y") auto
  ultimately show ?thesis by (simp add: keyed_def dget_or_def dget_def)
qed

lemma snapshot_parts:
  "dget_or (build_execution_snapshot ags svs acts) ''agents'' v = keyed sg_id agent_entry ags"
  "dget_or (build_execution_snapshot ags svs acts) ''services'' v = keyed sv_id service_entry svs"
  "dget_or (build_execution_snapshot ags svs acts) ''service_actions'' v = keyed sx_id action_entry acts"
  by (simp_all add: build_execution_snapshot_def dget_or_def dget_def)

lemma entry_dicts: "is_dict (agent_entry a)" "is_dict (service_entry s)" "is_dict (action_entry x)"
  by (simp_all add: agent_entry_def service_entry_def action_entry_def)

lemma run_snapshot_agent:
  assumes "a \<in> snd ` set ags"
  shows "\<exists>e. snapshot_entry (build_run_snapshot ags svs acts) ''agents'' (JStr (a_id a)) = Some e"
proof -
  have "snapshot_agent a \<in> set (map (snapshot_agent \<circ> snd) ags)" using assms by auto
  from keyed_entry [of _ _ agent_entry sg_id, OF this entry_dicts(1)] show ?thesis
    by (auto simp: build_run_snapshot_def snapshot_parts snapshot_agent_def snapshot_entry_def)
qed

lemma run_snapshot_service:
  assumes "s \<in> snd ` set svs"
  shows "\<exists>e. snapshot_entry (build_run_snapshot ags svs acts) ''services'' (JStr (s_id s)) = Some e"
proof -
  have "snapshot_service s \<in> set (map (snapshot_service \<circ> snd) svs)" using assms by auto
  from keyed_entry [of _ _ service_entry sv_id, OF this entry_dicts(2)] show ?thesis
    by (auto simp: build_run_snapshot_def snapshot_parts snapshot_service_def snapshot_entry_def)
qed

lemma run_snapshot_action:
  assumes "x \<in> snd ` set acts"
  shows "\<exists>e. snapshot_entry (build_run_snapshot ags svs acts) ''service_actions'' (JStr (sa_id x)) = Some e"
proof -
  have "snapshot_action x \<in> set (map (snapshot_action \<circ> snd) acts)" using assms by auto
  from keyed_entry [of _ _ action_entry sx_id, OF this entry_dicts(3)] show ?thesis
    by (auto simp: build_run_snapshot_def snapshot_parts snapshot_action_def snapshot_entry_def)
qed

lemma rows_in_lookup: "map_of (map (apsnd f) (rows_in key ids rs)) k = Some y \<Longrightarrow> \<exists>r\<in>snd ` set (rows_in key ids rs). key r = k"
  by (force dest!: map_of_SomeD simp: rows_in_def)

lemma readiness_no_errors: "check_run_readiness g C \<longleftrightarrow> no_errors (validate_references g C)"
  by (auto simp: check_run_readiness_def no_errors_def list_ex_iff)

text \<open>What the execution units look up in the snapshot for a node.\<close>

definition callable :: "dict \<Rightarrow> workflow_node \<Rightarrow> bool" where
  "callable snapshot n \<longleftrightarrow>
     (case n_type n of
        AGENT \<Rightarrow> snapshot_entry snapshot ''agents'' (dget0 (n_config n) ''agent_id'') \<noteq> None
      | SERVICE \<Rightarrow> snapshot_entry snapshot ''services'' (dget0 (n_config n) ''service_id'') \<noteq> None
                  \<and> snapshot_entry snapshot ''service_actions'' (dget0 (n_config n) ''service_action_id'') \<noteq> None
      | _ \<Rightarrow> True)"

lemma ready_callable:
  assumes "load_registry d g = (ags, svs, acts)" "check_run_readiness g (registry_context ags svs acts)" "n \<in> set (g_nodes g)"
  shows "callable (build_run_snapshot ags svs acts) n"
proof -
  obtain ia "is" ix where rows: "ags = rows_in a_id ia (agents d)" "svs = rows_in s_id is (services d)" "acts = rows_in sa_id ix (service_actions d)"
    using assms(1) by (auto simp: load_registry_def split: prod.splits)
  have reg: "registered (registry_context ags svs acts) n"
    using references_registered [OF _ assms(3)] assms(2) by (simp add: readiness_no_errors)
  show ?thesis
  proof (cases "n_type n")
    case AGENT
    then obtain k a where k: "dget0 (n_config n) ''agent_id'' = JStr k" "map_of (map (apsnd to_registry_agent) ags) k = Some a"
      using reg by (auto simp: registered_def registry_context_def)
    obtain b where "b \<in> snd ` set ags" "a_id b = k"
      using rows_in_lookup [OF k(2) [unfolded rows(1)]] rows(1) by auto
    then show ?thesis using run_snapshot_agent [of b ags svs acts] k(1) AGENT by (auto simp: callable_def)
  next
    case SERVICE
    then obtain k v j x where k: "dget0 (n_config n) ''service_id'' = JStr k" "map_of (map (apsnd to_registry_service) svs) k = Some v"
      "dget0 (n_config n) ''service_action_id'' = JStr j" "map_of (vc_service_actions (registry_context ags svs acts)) j = Some x"
      using reg by (auto simp: registered_def registry_context_def)
    obtain b where "b \<in> snd ` set svs" "s_id b = k"
      using rows_in_lookup [OF k(2) [unfolded rows(2)]] rows(2) by auto
    moreover have "\<exists>c\<in>snd ` set acts. sa_id c = j"
      using k(4) unfolding rows(3) registry_context_def validation_context.simps by (rule rows_in_lookup)
    then obtain c where "c \<in> snd ` set acts" "sa_id c = j" by blast
    ultimately show ?thesis
      using run_snapshot_service [of b svs ags acts] run_snapshot_action [of c acts ags svs] k SERVICE by (auto simp: callable_def)
  qed (simp_all add: callable_def)
qed

lemma targets_cons:
  assumes "validate_runner_targets off now ags d checked (m # ns) = []"
    "\<forall>(i, k, c)\<in>set checked. runner_eligible off now k c d"
  shows "\<exists>checked'. validate_runner_targets off now ags d checked' ns = [] \<and> (\<forall>(i, k, c)\<in>set checked'. runner_eligible off now k c d)
    \<and> (\<forall>rid cap. runner_target ags m = Some (rid, cap) \<longrightarrow> (\<exists>k. rid = Some k \<and> runner_eligible off now k cap d))"
proof (cases "runner_target ags m")
  case None
  with assms show ?thesis by (intro exI [of _ checked]) auto
next
  case (Some t)
  then obtain c cs cap where t: "runner_target ags m = Some (Some (c # cs), cap)"
    using assms(1) by (cases t; cases "fst t"; cases "the (fst t)") (auto split: list.splits)
  show ?thesis
  proof (cases "(n_id m, c # cs, cap) \<in> set checked")
    case True
    with assms t show ?thesis by (intro exI [of _ checked]) auto
  next
    case False
    with assms t show ?thesis by (intro exI [of _ "(n_id m, c # cs, cap) # checked"]) (auto split: if_splits)
  qed
qed

lemma targets_eligible:
  assumes "validate_runner_targets off now ags d checked ns = []"
    "\<forall>(i, k, c)\<in>set checked. runner_eligible off now k c d"
    "n \<in> set ns" "runner_target ags n = Some (rid, cap)"
  shows "\<exists>k. rid = Some k \<and> runner_eligible off now k cap d"
  using assms
proof (induction ns arbitrary: checked)
  case (Cons m ns)
  from targets_cons [OF Cons.prems(1,2)] obtain checked' where
    c: "validate_runner_targets off now ags d checked' ns = []" "\<forall>(i, k, c)\<in>set checked'. runner_eligible off now k c d"
    and m: "\<forall>rid cap. runner_target ags m = Some (rid, cap) \<longrightarrow> (\<exists>k. rid = Some k \<and> runner_eligible off now k cap d)" by blast
  show ?case
  proof (cases "n = m")
    case True
    with m Cons.prems(4) show ?thesis by blast
  next
    case False
    with Cons.IH [OF c] Cons.prems(3,4) show ?thesis by simp
  qed
qed simp

section \<open>A published workflow\<close>

definition demo_flow_lib :: lib where
  "demo_flow_lib = demo_lib\<lparr> lib_decode_graph := \<lambda>_. Some demo_flow, lib_dump_graph := \<lambda>_. JObj [(''schema_version'', JStr ''1.0'')] \<rparr>"

definition demo_agent :: agent where
  "demo_agent = \<lparr> a_id = ''A'', a_name = ''A'', a_connector_type = ''http'', a_endpoint = Some ''http://a.example'', a_http_method = ''POST'',
     a_health_check_url = None, a_headers_json = [], a_runner_id = None, a_executable = None, a_input_schema_json = [],
     a_output_schema_json = [], a_credential_id = None, a_timeout_seconds = 30, a_status = ''healthy'', a_enabled = True,
     a_description = None, a_capabilities_json = [], a_metadata_json = [], a_last_checked_at = None, a_last_latency_ms = None,
     a_last_error = None \<rparr>"

definition demo_workflow :: workflow where
  "demo_workflow = \<lparr> wf_id = ''wf'', wf_name = ''Flow'', wf_description = None, wf_status = WF_ACTIVE,
     wf_draft_graph_json = JObj [(''schema_version'', JStr ''1.0'')], wf_graph_schema_version = ''1.0'', wf_current_version = Some 1,
     wf_created_at = 0, wf_updated_at = 0 \<rparr>"

definition demo_version :: workflow_version where
  "demo_version = \<lparr> wv_id = ''wv'', wv_workflow_id = ''wf'', wv_version = 1, wv_graph_schema_version = ''1.0'',
     wv_graph_json = JObj [(''schema_version'', JStr ''1.0'')], wv_change_note = None, wv_created_at = 0 \<rparr>"

definition demo_flow_db :: db where
  "demo_flow_db = empty_db\<lparr> agents := [demo_agent], workflows := [demo_workflow], workflow_versions := [demo_version] \<rparr>"

definition demo_start :: workflow_run_create where
  "demo_start = \<lparr> rc_workflow_version_id = None, rc_version = None, rc_input = [(''q'', JStr ''x'')] \<rparr>"

lemma demo_flow_parse: "parse_workflow_graph demo_flow_lib (JObj [(''schema_version'', JStr ''1.0'')]) = Inr demo_flow"
  by code_simp

lemma demo_flow_admitted: "run_admitted demo_flow_lib 60 5 demo_start demo_workflow demo_version demo_flow demo_flow_db"
proof -
  have reg: "load_registry demo_flow_db demo_flow = ([(''A'', demo_agent)], [], [])" by code_simp
  have "resolve_version demo_workflow demo_start demo_flow_db = Inr demo_version" by code_simp
  moreover have "check_run_readiness demo_flow (registry_context [(''A'', demo_agent)] [] [])" by code_simp
  moreover have "validate_runner_targets 60 5 [(''A'', demo_agent)] demo_flow_db [] (g_nodes demo_flow) = []" by code_simp
  moreover have "validate_run_input demo_flow_lib demo_flow (rc_input demo_start) = Inr ()" by code_simp
  ultimately show ?thesis
    using demo_flow_parse by (simp add: run_admitted_def reg demo_version_def)
qed

lemma demo_flow_row: "get_workflow_row ''wf'' demo_flow_db = Inr demo_workflow"
  by code_simp

lemma demo_flow_inv: "db_inv demo_flow_lib demo_flow_db"
  by (simp add: db_inv_def demo_flow_db_def empty_db_def unique_rows_def refs_ok_def linked_def leases_ok_def ids_issued_def
      get_task_def get_node_def)

lemma demo_flow_inj: "inj (lib_uuid4 demo_flow_lib)"
  using demo_inj by (simp add: demo_flow_lib_def)

section \<open>Run creation\<close>



text \<open>
  C12. When a run is created, its snapshot has the entries the execution units look up for every
  Agent and Service node, and every node that executes locally is pinned to a Runner that is
  enabled, online and has the capability.
\<close>

theorem created_run_is_executable:
  assumes "db_inv L d" "inj (lib_uuid4 L)" "create_run L offline now wid payload d = (Inr read, d')"
  shows "\<exists>w v g. get_workflow_row wid d = Inr w \<and> resolve_version w payload d = Inr v \<and> parse_workflow_graph L (wv_graph_json v) = Inr g
    \<and> (\<forall>n\<in>set (g_nodes g). callable (r_execution_snapshot_json (last (runs d'))) n
         \<and> (\<forall>rid cap. runner_target (fst (load_registry d g)) n = Some (rid, cap) \<longrightarrow>
               (\<exists>k. rid = Some k \<and> runner_eligible offline now k cap d)))"
proof -
  obtain w v g where wv: "get_workflow_row wid d = Inr w" and ok: "run_admitted L offline now payload w v g d"
    using create_run_refused [of wid d L offline now payload] assms(3) by fastforce
  obtain ags svs acts where reg: "load_registry d g = (ags, svs, acts)" by (cases "load_registry d g") auto
  obtain read' where "create_run L offline now wid payload d
      = (Inr read', add_run (created_run L now payload w v g d) (created_rows L now payload g d) d)"
    using create_run_admitted [OF assms(1,2) wv ok] by blast
  then have "last (runs d') = created_run L now payload w v g d" using assms(3) by (auto simp: add_run_def)
  then have snap: "r_execution_snapshot_json (last (runs d')) = build_run_snapshot ags svs acts"
    by (simp add: created_run_def reg new_run_def)
  have ready: "check_run_readiness g (registry_context ags svs acts)" "validate_runner_targets offline now ags d [] (g_nodes g) = []"
    using ok by (simp_all add: run_admitted_def reg)
  have "callable (build_run_snapshot ags svs acts) n" if "n \<in> set (g_nodes g)" for n
    by (rule ready_callable [OF reg ready(1) that])
  moreover have "\<exists>k. rid = Some k \<and> runner_eligible offline now k cap d"
    if "n \<in> set (g_nodes g)" "runner_target ags n = Some (rid, cap)" for n rid cap
    using targets_eligible [OF ready(2) _ that] by simp
  ultimately show ?thesis using wv ok by (auto simp: run_admitted_def snap reg)
qed

theorem created_run_is_executable_witness:
  "\<exists>read d'. create_run demo_flow_lib 60 5 ''wf'' demo_start demo_flow_db = (Inr read, d')
     \<and> snapshot_entry (r_execution_snapshot_json (last (runs d'))) ''agents'' (JStr ''A'') \<noteq> None"
proof -
  obtain read d' where c: "create_run demo_flow_lib 60 5 ''wf'' demo_start demo_flow_db = (Inr read, d')"
    using create_run_admitted [OF demo_flow_inv demo_flow_inj demo_flow_row demo_flow_admitted] by blast
  have "resolve_version demo_workflow demo_start demo_flow_db = Inr demo_version" by code_simp
  moreover have "parse_workflow_graph demo_flow_lib (wv_graph_json demo_version) = Inr demo_flow"
    using demo_flow_parse by (simp add: demo_version_def)
  ultimately have all: "\<forall>n\<in>set (g_nodes demo_flow). callable (r_execution_snapshot_json (last (runs d'))) n"
    using created_run_is_executable [OF demo_flow_inv demo_flow_inj c] demo_flow_row by auto
  have "g_nodes demo_flow ! 1 \<in> set (g_nodes demo_flow)" "n_type (g_nodes demo_flow ! 1) = AGENT"
    "dget0 (n_config (g_nodes demo_flow ! 1)) ''agent_id'' = JStr ''A''"
    by (simp_all add: demo_flow_def demo_gnode_def dget_or_def dget_def)
  with all c show ?thesis by (auto simp: callable_def)
qed

end
