(* ===== verification/WorkflowsProps.thy ===== *)
theory WorkflowsProps
  imports CreateRunProps
begin

text \<open>
  Publication of Versions: a Version is created only from a draft that passes validation, under a
  number larger than every earlier one, and no operation of the workflow service ever changes or
  removes an existing Version or the Workflow it belongs to.
\<close>

section \<open>Rows of the workflow table\<close>

lemma row_get_map_keep: "(\<And>r. key (f r) = key r) \<Longrightarrow> row_get key k (map f rs) = map_option f (row_get key k rs)"
  by (induction rs) (auto simp: rows)

lemma touch_fields [simp]:
  "wf_name (touch now w w') = wf_name w'" "wf_current_version (touch now w w') = wf_current_version w'"
  "wf_status (touch now w w') = wf_status w'"
  by (simp_all add: touch_def)

lemma touch_wf_id [simp]: "wf_id (touch now w w') = wf_id w'"
  by (simp add: touch_def)

lemma apply_update_keeps [simp]:
  "wf_id (apply_update u w) = wf_id w" "wf_current_version (apply_update u w) = wf_current_version w"
  "wf_name (apply_update u w) = (case wu_name u of None \<Rightarrow> wf_name w | Some n \<Rightarrow> n)"
  by (simp_all add: apply_update_def Let_def split: option.splits)

lemma upd_workflow_versions [simp]:
  "workflow_versions (upd_workflow now k f d) = workflow_versions d" "uuids (upd_workflow now k f d) = uuids d"
  "new_tasks (upd_workflow now k f d) = new_tasks d"
  by (simp_all add: upd_workflow_def)

lemma row_upd_workflow:
  assumes "\<And>w. wf_id (f w) = wf_id w"
  shows "map wf_id (workflows (upd_workflow now k f d)) = map wf_id (workflows d)"
    "row_get wf_id j (workflows (upd_workflow now k f d))
       = (if j = k then map_option (\<lambda>w. touch now w (f w)) (row_get wf_id j (workflows d)) else row_get wf_id j (workflows d))"
  using assms by (auto simp: upd_workflow_def map_row_upd row_get_upd row_get_upd_other)

section \<open>Version numbers\<close>

lemma fold_max_ge: "(x :: int) \<in> set xs \<Longrightarrow> x \<le> fold max xs a" "a \<le> fold max xs a"
proof -
  show ge: "a \<le> fold max xs a" for xs and a :: int
    by (induction xs arbitrary: a) (simp, metis fold_simps(2) max.bounded_iff max.cobounded2 order.trans)
  show "x \<in> set xs \<Longrightarrow> x \<le> fold max xs a"
  proof (induction xs arbitrary: a)
    case (Cons y ys)
    then show ?case using ge [of "max y a" ys] by (cases "x = y") auto
  qed simp
qed

lemma next_version_larger:
  "v \<in> set (versions_of (wf_id w) d) \<Longrightarrow> wv_version v < next_version w d"
  "wf_current_version w = Some k \<Longrightarrow> k < next_version w d" "0 < next_version w d"
  using fold_max_ge(1) [of "wv_version v" "map wv_version (versions_of (wf_id w) d)" 0]
    fold_max_ge(2) [of 0 "map wv_version (versions_of (wf_id w) d)"]
  by (auto simp: next_version_def Let_def)

lemma create_version_outcome:
  assumes "new_tasks d = []"
  shows "(\<exists>e. create_version L now wid remark d = (Inl e, d))
    \<or> (\<exists>w g res v. get_workflow_row wid d = Inr w \<and> parse_workflow_graph L (wf_draft_graph_json w) = Inr g
        \<and> validate_graph g (build_validation_context d g) = Inr res \<and> vr_valid res
        \<and> wv_workflow_id v = wf_id w \<and> wv_version v = next_version w d \<and> wv_graph_json v = lib_dump_graph L g
        \<and> create_version L now wid remark d = (to_version_read L v,
             upd_workflow now wid (\<lambda>w'. w'\<lparr> wf_current_version := Some (next_version w d), wf_status := WF_ACTIVE \<rparr>)
               (d\<lparr> uuids := Suc (uuids d), workflow_versions := workflow_versions d @ [v] \<rparr>)))"
proof -
  have fresh: "\<not> list_ex (\<lambda>u. wv_version u = next_version w d) (versions_of (wf_id w) (d\<lparr> uuids := k \<rparr>))" for w k
    using next_version_larger(1) [of _ w d] by (fastforce simp: list_ex_iff versions_of_def)
  show ?thesis
  proof (cases "ebind (get_workflow_row wid d) (\<lambda>w. ebind (parse_workflow_graph L (wf_draft_graph_json w)) (\<lambda>g.
      ebind (validate_registry_references d g) (\<lambda>_. ebind (validate_graph_with_context d g) (\<lambda>res. Inr (w, g, res)))))")
    case (Inl e)
    then show ?thesis
      by (auto simp: create_version_def ebind_eq_Inl transact_Inl after_commit_def)
  next
    case (Inr t)
    then obtain w g res ws where t: "get_workflow_row wid d = Inr w" "parse_workflow_graph L (wf_draft_graph_json w) = Inr g"
      "validate_registry_references d g = Inr ws" "validate_graph_with_context d g = Inr res"
      by (auto simp: ebind_eq_Inr)
    show ?thesis
    proof (cases "vr_valid res")
      case False
      then show ?thesis by (simp add: create_version_def t transact_Inl after_commit_def)
    next
      case True
      let ?v = "\<lparr> wv_id = lib_uuid4 L (uuids d), wv_workflow_id = wf_id w, wv_version = next_version w d,
               wv_graph_schema_version = GRAPH_SCHEMA_VERSION, wv_graph_json = lib_dump_graph L g, wv_change_note = remark, wv_created_at = now \<rparr>"
      have "create_version L now wid remark d = (to_version_read L ?v,
             upd_workflow now wid (\<lambda>w'. w'\<lparr> wf_current_version := Some (next_version w d), wf_status := WF_ACTIVE \<rparr>)
               (d\<lparr> uuids := Suc (uuids d), workflow_versions := workflow_versions d @ [?v] \<rparr>))"
        using True fresh assms by (simp add: create_version_def t uuid4_def Let_def transact_no_new after_commit_def)
      then show ?thesis using True t(1,2,4)
        by (intro disjI2 exI [of _ w] exI [of _ g] exI [of _ res] exI [of _ ?v]) (simp add: validate_graph_with_context_def)
    qed
  qed
qed

section \<open>Every operation of the workflow service\<close>

lemma snd_after_commit [simp]: "snd (after_commit res f) = snd res"
  by (simp add: after_commit_def split: prod.splits sum.splits)

lemma snd_transact_cases:
  assumes "new_tasks d = []" "\<And>d' x. body = Inr (d', x) \<Longrightarrow> new_tasks d' = []"
  shows "snd (transact d body) = d \<or> (\<exists>d' x. body = Inr (d', x) \<and> snd (transact d body) = d')"
  using assms by (cases body) (auto simp: transact_Inl transact_no_new)

lemma create_workflow_outcome:
  assumes "new_tasks d = []"
  shows "snd (create_workflow L now payload d) = d
    \<or> (\<exists>g. snd (create_workflow L now payload d)
            = d\<lparr> uuids := Suc (uuids d), workflows := workflows d @ [new_workflow L now payload g (lib_uuid4 L (uuids d))] \<rparr>
          \<and> (\<forall>u\<in>set (workflows d). lower (wf_name u) \<noteq> lower (wc_name payload)))"
  unfolding create_workflow_def snd_after_commit
  by (rule disj_forward [OF snd_transact_cases [OF assms]])
    (auto simp: assms outcome uuid4_def ensure_name_available_def list_ex_iff transact_no_new split: if_splits, blast)

lemma update_workflow_outcome:
  assumes "new_tasks d = []"
  shows "snd (update_workflow L now wid u d) = d
    \<or> snd (update_workflow L now wid u d) = upd_workflow now wid (apply_update u) d
      \<and> (\<forall>n. wu_name u = Some n \<longrightarrow> (\<forall>w\<in>set (workflows d). wf_id w \<noteq> wid \<longrightarrow> lower (wf_name w) \<noteq> lower n))"
  unfolding update_workflow_def snd_after_commit
  by (rule disj_forward [OF snd_transact_cases [OF assms]])
    (auto simp: assms outcome ensure_name_available_def get_workflow_row_def list_ex_iff dest: row_get_key split: if_splits option.splits)

lemma delete_workflow_outcome:
  assumes "new_tasks d = []"
  shows "snd (delete_workflow now wid d) = d
    \<or> snd (delete_workflow now wid d) = upd_workflow now wid (\<lambda>w. w\<lparr> wf_status := WF_ARCHIVED \<rparr>) d
    \<or> (\<forall>v\<in>set (workflow_versions d). wv_workflow_id v \<noteq> wid)
      \<and> snd (delete_workflow now wid d) = d\<lparr> workflows := filter (\<lambda>w. wf_id w \<noteq> wid) (workflows d) \<rparr>"
proof (cases "row_get wf_id wid (workflows d)")
  case None
  then show ?thesis by (simp add: delete_workflow_def get_workflow_row_def transact_Inl)
next
  case (Some w)
  then show ?thesis
    using row_get_key [OF Some] assms
    by (auto simp: delete_workflow_def get_workflow_row_def transact_no_new filter_empty_conv)
qed

lemma update_draft_graph_outcome:
  assumes "new_tasks d = []"
  shows "snd (update_draft_graph L now wid raw d) = d \<or> (\<exists>g. snd (update_draft_graph L now wid raw d) = upd_workflow now wid (drafted L g) d)"
  unfolding update_draft_graph_def
  by (rule disj_forward [OF snd_transact_cases [OF assms]]) (auto simp: assms outcome transact_no_new, blast)

text \<open>The rows of definitions that are always kept.\<close>

definition definitions_ok :: "lib \<Rightarrow> db \<Rightarrow> bool" where
  "definitions_ok L d \<longleftrightarrow>
     new_tasks d = [] \<and> distinct (map wf_id (workflows d)) \<and> wf_id ` set (workflows d) \<subseteq> issued L d
     \<and> distinct (map (\<lambda>w. lower (wf_name w)) (workflows d))
     \<and> distinct (map (\<lambda>v. (wv_workflow_id v, wv_version v)) (workflow_versions d))
     \<and> (\<forall>v\<in>set (workflow_versions d). \<exists>w k. row_get wf_id (wv_workflow_id v) (workflows d) = Some w
           \<and> wf_current_version w = Some k \<and> 1 \<le> wv_version v \<and> wv_version v \<le> k)"

inductive definition_step :: "lib \<Rightarrow> db \<Rightarrow> db \<Rightarrow> bool" for L where
  create: "definition_step L d (snd (create_workflow L now payload d))"
| update: "definition_step L d (snd (update_workflow L now wid u d))"
| delete: "definition_step L d (snd (delete_workflow now wid d))"
| draft: "definition_step L d (snd (update_draft_graph L now wid raw d))"
| publish: "definition_step L d (snd (create_version L now wid note d))"

lemma lower_names_upd:
  assumes "distinct (map (\<lambda>w. lower (wf_name w)) ws)" "distinct (map wf_id ws)"
    "\<And>w u. w \<in> set ws \<Longrightarrow> wf_id w = k \<Longrightarrow> u \<in> set ws \<Longrightarrow> wf_id u \<noteq> k \<Longrightarrow> lower (wf_name u) \<noteq> lower (wf_name (f w))"
  shows "distinct (map (\<lambda>w. lower (wf_name w)) (row_upd wf_id k f ws))"
  using assms
proof (induction ws)
  case (Cons w ws)
  then show ?case
    by (cases "wf_id w = k")
      (auto simp: row_upd_def image_iff map_idI cong: map_cong, metis+)
qed (simp add: row_upd_def)


text \<open>An update of one Workflow that keeps its id and does not lower its current Version.\<close>

lemma definitions_ok_upd:
  assumes ok: "definitions_ok L d" and id: "\<And>w. wf_id (f w) = wf_id w"
    and cur: "\<And>w k. wf_current_version w = Some k \<Longrightarrow> \<exists>k'. wf_current_version (f w) = Some k' \<and> k \<le> k'"
    and name: "\<And>w u. w \<in> set (workflows d) \<Longrightarrow> wf_id w = wid \<Longrightarrow> u \<in> set (workflows d) \<Longrightarrow> wf_id u \<noteq> wid
      \<Longrightarrow> lower (wf_name u) \<noteq> lower (wf_name (f w))"
  shows "definitions_ok L (upd_workflow now wid f d)"
proof -
  have ids: "map wf_id (workflows (upd_workflow now wid f d)) = map wf_id (workflows d)" by (rule row_upd_workflow(1) [OF id])
  then have "wf_id ` set (workflows (upd_workflow now wid f d)) = wf_id ` set (workflows d)" by (metis set_map)
  moreover have "distinct (map (\<lambda>w. lower (wf_name w)) (workflows (upd_workflow now wid f d)))"
    unfolding upd_workflow_def using ok name by (auto simp: definitions_ok_def intro!: lower_names_upd)
  moreover have "\<exists>w k. row_get wf_id (wv_workflow_id v) (workflows (upd_workflow now wid f d)) = Some w
           \<and> wf_current_version w = Some k \<and> 1 \<le> wv_version v \<and> wv_version v \<le> k" if "v \<in> set (workflow_versions d)" for v
  proof -
    obtain w k where w: "row_get wf_id (wv_workflow_id v) (workflows d) = Some w" "wf_current_version w = Some k"
      "1 \<le> wv_version v" "wv_version v \<le> k" using ok \<open>v \<in> _\<close> unfolding definitions_ok_def by blast
    from cur [OF w(2)] w show ?thesis by (fastforce simp: row_upd_workflow(2) [OF id])
  qed
  moreover have "issued L (upd_workflow now wid f d) = issued L d" by (simp add: issued_def)
  ultimately show ?thesis using ok ids by (simp add: definitions_ok_def)
qed

lemma definitions_ok_new:
  assumes ok: "definitions_ok L d" and inj: "inj (lib_uuid4 L)" and k: "k = lib_uuid4 L (uuids d)"
    and name: "\<forall>u\<in>set (workflows d). lower (wf_name u) \<noteq> lower (wc_name payload)"
  shows "definitions_ok L (d\<lparr> uuids := Suc (uuids d), workflows := workflows d @ [new_workflow L now payload g k] \<rparr>)"
proof -
  have "k \<notin> wf_id ` set (workflows d)" using ok issued_fresh [OF inj, of d "uuids d"] k by (auto simp: definitions_ok_def)
  moreover have "issued L (d\<lparr> uuids := Suc (uuids d), workflows := ws \<rparr>) = insert k (issued L d)" for ws
    unfolding k by (simp add: issued_def lessThan_Suc)
  moreover have "row_get wf_id j (workflows d @ [w]) = Some v" if "row_get wf_id j (workflows d) = Some v" for j v w
    using that by (simp add: row_get_append)
  ultimately show ?thesis
    using ok name by (auto simp: definitions_ok_def new_workflow_def)
qed

lemma definitions_ok_delete:
  assumes "definitions_ok L d" "\<forall>v\<in>set (workflow_versions d). wv_workflow_id v \<noteq> wid"
  shows "definitions_ok L (d\<lparr> workflows := filter (\<lambda>w. wf_id w \<noteq> wid) (workflows d) \<rparr>)"
proof -
  have "row_get wf_id k (filter (\<lambda>w. wf_id w \<noteq> wid) ws) = row_get wf_id k ws" if "k \<noteq> wid" for k ws
    using that by (induction ws) (auto simp: rows)
  then have "row_get wf_id (wv_workflow_id v) (filter (\<lambda>w. wf_id w \<noteq> wid) (workflows d)) = row_get wf_id (wv_workflow_id v) (workflows d)"
    if "v \<in> set (workflow_versions d)" for v
    using assms(2) that by blast
  then show ?thesis using assms(1) by (auto simp: definitions_ok_def distinct_map_filter issued_def)
qed

lemma names_upd_same:
  "(\<And>w. wf_name (f w) = wf_name w) \<Longrightarrow> map (\<lambda>w. lower (wf_name w)) (workflows (upd_workflow now k f d)) = map (\<lambda>w. lower (wf_name w)) (workflows d)"
  by (auto simp: upd_workflow_def row_upd_def)

lemma definitions_ok_publish:
  assumes ok: "definitions_ok L d" and w: "get_workflow_row wid d = Inr w"
    and v: "wv_workflow_id v = wf_id w" "wv_version v = next_version w d"
  shows "definitions_ok L (upd_workflow now wid (\<lambda>w'. w'\<lparr> wf_current_version := Some (next_version w d), wf_status := WF_ACTIVE \<rparr>)
           (d\<lparr> uuids := Suc (uuids d), workflow_versions := workflow_versions d @ [v] \<rparr>))" (is "definitions_ok L (upd_workflow now wid ?f ?d)")
proof -
  have row: "row_get wf_id wid (workflows d) = Some w" "wf_id w = wid"
    using w by (auto simp: get_workflow_row_def split: option.splits dest: row_get_key)
  have old: "(wv_workflow_id v, wv_version v) \<notin> (\<lambda>v. (wv_workflow_id v, wv_version v)) ` set (workflow_versions d)"
    using next_version_larger(1) [of _ w d] v by (fastforce simp: versions_of_def)
  have kept: "\<exists>w' k. row_get wf_id (wv_workflow_id u) (workflows (upd_workflow now wid ?f ?d)) = Some w'
           \<and> wf_current_version w' = Some k \<and> 1 \<le> wv_version u \<and> wv_version u \<le> k" if u: "u \<in> set (workflow_versions d)" for u
  proof -
    obtain w' k where w': "row_get wf_id (wv_workflow_id u) (workflows d) = Some w'" "wf_current_version w' = Some k"
      "1 \<le> wv_version u" "wv_version u \<le> k" using ok u unfolding definitions_ok_def by blast
    then show ?thesis
      using row next_version_larger(2) [of w k d] by (cases "wv_workflow_id u = wid") (auto simp: row_upd_workflow(2))
  qed
  have "\<exists>w' k. row_get wf_id (wv_workflow_id v) (workflows (upd_workflow now wid ?f ?d)) = Some w'
           \<and> wf_current_version w' = Some k \<and> 1 \<le> wv_version v \<and> wv_version v \<le> k"
    using row v next_version_larger(3) [of w d] by (auto simp: row_upd_workflow(2))
  moreover have "distinct (map (\<lambda>w. lower (wf_name w)) (workflows (upd_workflow now wid ?f ?d)))"
    "map wf_id (workflows (upd_workflow now wid ?f ?d)) = map wf_id (workflows d)"
    using ok names_upd_same [of ?f now wid ?d] row_upd_workflow(1) [of ?f now wid ?d] by (simp_all add: definitions_ok_def)
  moreover from this(2) have "wf_id ` set (workflows (upd_workflow now wid ?f ?d)) = wf_id ` set (workflows d)" by (metis set_map)
  moreover have "issued L d \<subseteq> issued L (upd_workflow now wid ?f ?d)" by (rule issued_mono) simp
  ultimately show ?thesis using ok old kept by (auto simp: definitions_ok_def)
qed

lemma definition_step_ok:
  assumes "definition_step L d d'" "definitions_ok L d" "inj (lib_uuid4 L)"
  shows "definitions_ok L d' \<and> prefix (workflow_versions d) (workflow_versions d')"
proof -
  have nt: "new_tasks d = []" using assms(2) by (simp add: definitions_ok_def)
  from assms(1) show ?thesis
  proof cases
    case (create now payload)
    then show ?thesis
      using create_workflow_outcome [OF nt, of L now payload] assms(2) definitions_ok_new [OF assms(2,3) refl, of payload now] by auto
  next
    case (update now wid u)
    have "definitions_ok L (upd_workflow now wid (apply_update u) d)"
      if "\<forall>n. wu_name u = Some n \<longrightarrow> (\<forall>w\<in>set (workflows d). wf_id w \<noteq> wid \<longrightarrow> lower (wf_name w) \<noteq> lower n)"
    proof (rule definitions_ok_upd [OF assms(2)])
      show "lower (wf_name v) \<noteq> lower (wf_name (apply_update u w))"
        if "w \<in> set (workflows d)" "wf_id w = wid" "v \<in> set (workflows d)" "wf_id v \<noteq> wid" for w v
        using that \<open>\<forall>n. _ n\<close> assms(2) by (cases "wu_name u") (auto simp: definitions_ok_def distinct_map dest: inj_onD)
    qed auto
    then show ?thesis using update_workflow_outcome [OF nt, of L now wid u] assms(2) update by auto
  next
    case (delete now wid)
    have "definitions_ok L (upd_workflow now wid (\<lambda>w. w\<lparr> wf_status := WF_ARCHIVED \<rparr>) d)"
      using assms(2) by (intro definitions_ok_upd [OF assms(2)]) (auto simp: definitions_ok_def distinct_map dest: inj_onD)
    then show ?thesis
      using delete_workflow_outcome [OF nt, of now wid] assms(2) delete definitions_ok_delete [OF assms(2), of wid] by auto
  next
    case (draft now wid raw)
    have "definitions_ok L (upd_workflow now wid (drafted L g) d)" for g
      using assms(2) by (intro definitions_ok_upd [OF assms(2)]) (auto simp: definitions_ok_def distinct_map drafted_def dest: inj_onD)
    then show ?thesis using update_draft_graph_outcome [OF nt, of L now wid raw] assms(2) draft by auto
  next
    case (publish now wid remark)
    then show ?thesis
      using create_version_outcome [OF nt, of L now wid remark] assms(2) definitions_ok_publish [OF assms(2), of wid] by fastforce
  qed
qed

section \<open>Published Versions\<close>

text \<open>
  C13. A Version is published only when the Workflow's draft parses and passes validation against the
  registry. The new row holds the dump of that graph under a number above every earlier Version of
  the Workflow, the Workflow becomes active with that number as current Version, and the earlier
  Versions stay as they are.
\<close>

theorem version_publication:
  assumes "new_tasks d = []" "create_version L now wid remark d = (Inr r, d')"
  shows "\<exists>w w' g res. get_workflow_row wid d = Inr w \<and> parse_workflow_graph L (wf_draft_graph_json w) = Inr g
    \<and> validate_graph g (build_validation_context d g) = Inr res \<and> vr_valid res
    \<and> workflow_versions d' = workflow_versions d @ [vn_version r]
    \<and> wv_workflow_id (vn_version r) = wid \<and> wv_graph_json (vn_version r) = lib_dump_graph L g
    \<and> (\<forall>v\<in>set (workflow_versions d). wv_workflow_id v = wid \<longrightarrow> wv_version v < wv_version (vn_version r))
    \<and> get_workflow_row wid d' = Inr w' \<and> wf_status w' = WF_ACTIVE \<and> wf_current_version w' = Some (wv_version (vn_version r))"
proof -
  obtain w g res v where w: "get_workflow_row wid d = Inr w" and p: "parse_workflow_graph L (wf_draft_graph_json w) = Inr g"
    "validate_graph g (build_validation_context d g) = Inr res" "vr_valid res"
    and v: "wv_workflow_id v = wf_id w" "wv_version v = next_version w d" "wv_graph_json v = lib_dump_graph L g"
    and d': "d' = upd_workflow now wid (\<lambda>w'. w'\<lparr> wf_current_version := Some (next_version w d), wf_status := WF_ACTIVE \<rparr>)
               (d\<lparr> uuids := Suc (uuids d), workflow_versions := workflow_versions d @ [v] \<rparr>)"
    and r: "to_version_read L v = Inr r"
    using create_version_outcome [OF assms(1), of L now wid remark] assms(2) by auto
  have "vn_version r = v" using r by (auto simp: to_version_read_def outcome)
  moreover have row: "row_get wf_id wid (workflows d) = Some w" "wf_id w = wid"
    using w by (auto simp: get_workflow_row_def split: option.splits dest: row_get_key)
  moreover have "wv_version u < next_version w d" if "u \<in> set (workflow_versions d)" "wv_workflow_id u = wid" for u
    using that row(2) by (intro next_version_larger(1)) (simp add: versions_of_def)
  ultimately show ?thesis using w p v by (auto simp: d' get_workflow_row_def row_upd_workflow(2))
qed

theorem version_publication_witness:
  "\<exists>r d'. create_version demo_flow_lib 9 ''wf'' None demo_flow_db = (Inr r, d') \<and> workflow_versions d' = [demo_version, vn_version r]
     \<and> 1 < wv_version (vn_version r)"
proof -
  have "validate_registry_references demo_flow_db demo_flow = Inr []" by code_simp
  moreover have "validate_graph_with_context demo_flow_db demo_flow = Inr \<lparr> vr_valid = True, vr_errors = [], vr_warnings = [] \<rparr>" by code_simp
  moreover have "parse_workflow_graph demo_flow_lib (wf_draft_graph_json demo_workflow) = Inr demo_flow"
    using demo_flow_parse by (simp add: demo_workflow_def)
  moreover have "next_version demo_workflow demo_flow_db = 2" "lib_dump_graph demo_flow_lib demo_flow = JObj [(''schema_version'', JStr ''1.0'')]" by code_simp+
  moreover have nt: "new_tasks demo_flow_db = []" "workflow_versions demo_flow_db = [demo_version]" by (simp_all add: demo_flow_db_def empty_db_def)
  moreover have "versions_of (wf_id demo_workflow) (demo_flow_db\<lparr> uuids := k \<rparr>) = [demo_version]" "wv_version demo_version = 1"
    "wv_workflow_id demo_version = ''wf''" for k
    by (simp_all add: versions_of_def demo_flow_db_def demo_version_def demo_workflow_def)
  ultimately obtain r d' where "create_version demo_flow_lib 9 ''wf'' None demo_flow_db = (Inr r, d')"
    using demo_flow_parse
    by (auto simp: create_version_def demo_flow_row uuid4_def Let_def transact_no_new after_commit_def to_version_read_def)
  from version_publication [OF nt(1) this] this nt(2) show ?thesis by (auto simp: demo_version_def)
qed

section \<open>Schemas the published context leaves out\<close>

text \<open>
  The validation behind publication never sees the path and query schema of an action, so a Service
  node's path and query mapping passes whatever the action requires.
\<close>

lemma published_paths_unchecked:
  assumes "x \<in> snd ` set (vc_service_actions (build_validation_context d g))"
  shows "validate_mapping g idx C n (Some (rx_path_schema x)) m p = Inr [] \<and> validate_mapping g idx C n (Some (rx_query_schema x)) m p = Inr []"
proof -
  have "rx_path_schema x = [] \<and> rx_query_schema x = []"
    using assms by (auto simp: build_validation_context_def to_registry_action_def split: prod.splits)
  then show ?thesis by (simp add: validate_mapping_def dget_or_def dget_def)
qed

end
