(* ===== verification/Registry.thy ===== *)
theory Registry
  imports Workflows Runners Executor
begin

text \<open>
  The registry: Agents (\<^verbatim>\<open>domain/agents/service.py\<close>), Services and their actions
  (\<^verbatim>\<open>domain/services/service.py\<close>) and Credentials (\<^verbatim>\<open>domain/credentials/service.py\<close>). The payloads are
  the pydantic models of the \<^verbatim>\<open>schemas.py\<close> files after their own checks; a field of an update is \<open>Unset\<close> or
  \<open>Given\<close> a value or null. \<open>allow\<close> is the setting \<^verbatim>\<open>allow_private_network_urls\<close>, \<open>encrypt\<close> the Fernet
  encryption of a secret. Creation and update times are left out.
\<close>

section \<open>Enumerations and payloads\<close>

datatype agent_connector_type = AC_HTTP | AC_LOCAL | AC_CUSTOM | AC_CODEX | AC_OPENCODE | AC_CURSOR

primrec connector_value :: "agent_connector_type \<Rightarrow> string" where
  "connector_value AC_HTTP = ''http''"
| "connector_value AC_LOCAL = ''local''"
| "connector_value AC_CUSTOM = ''custom''"
| "connector_value AC_CODEX = ''codex''"
| "connector_value AC_OPENCODE = ''opencode''"
| "connector_value AC_CURSOR = ''cursor''"

datatype http_method = HM_GET | HM_POST | HM_PUT | HM_PATCH | HM_DELETE

primrec method_value :: "http_method \<Rightarrow> string" where
  "method_value HM_GET = ''GET''"
| "method_value HM_POST = ''POST''"
| "method_value HM_PUT = ''PUT''"
| "method_value HM_PATCH = ''PATCH''"
| "method_value HM_DELETE = ''DELETE''"

datatype health_status = HS_UNKNOWN | HS_HEALTHY | HS_UNHEALTHY

primrec health_value :: "health_status \<Rightarrow> string" where
  "health_value HS_UNKNOWN = ''unknown''"
| "health_value HS_HEALTHY = ''healthy''"
| "health_value HS_UNHEALTHY = ''unhealthy''"

datatype credential_type = CT_API_KEY | CT_BEARER_TOKEN | CT_BASIC_AUTH

primrec credential_type_value :: "credential_type \<Rightarrow> string" where
  "credential_type_value CT_API_KEY = ''api_key''"
| "credential_type_value CT_BEARER_TOKEN = ''bearer_token''"
| "credential_type_value CT_BASIC_AUTH = ''basic_auth''"

datatype service_type = ST_HTTP

primrec service_type_value :: "service_type \<Rightarrow> string" where
  "service_type_value ST_HTTP = ''http''"

text \<open>\<open>Enum(value)\<close>: the member with that value, or a \<open>ValueError\<close>.\<close>

definition enum_of :: "('e \<Rightarrow> string) \<Rightarrow> 'e list \<Rightarrow> string \<Rightarrow> exn + 'e" where
  "enum_of val members v = (case find (\<lambda>m. val m = v) members of None \<Rightarrow> Inl (PyError ''ValueError'') | Some m \<Rightarrow> Inr m)"

definition connector_of :: "string \<Rightarrow> exn + agent_connector_type" where
  "connector_of = enum_of connector_value [AC_HTTP, AC_LOCAL, AC_CUSTOM, AC_CODEX, AC_OPENCODE, AC_CURSOR]"

definition method_of :: "string \<Rightarrow> exn + http_method" where
  "method_of = enum_of method_value [HM_GET, HM_POST, HM_PUT, HM_PATCH, HM_DELETE]"

definition health_of :: "string \<Rightarrow> exn + health_status" where
  "health_of = enum_of health_value [HS_UNKNOWN, HS_HEALTHY, HS_UNHEALTHY]"

definition credential_type_of :: "string \<Rightarrow> exn + credential_type" where
  "credential_type_of = enum_of credential_type_value [CT_API_KEY, CT_BEARER_TOKEN, CT_BASIC_AUTH]"

definition service_type_of :: "string \<Rightarrow> exn + service_type" where
  "service_type_of = enum_of service_type_value [ST_HTTP]"

datatype 'a field = Unset | Given "'a option"

text \<open>\<open>payload.x\<close> and \<open>"x" in payload.model_dump(exclude_unset=True)\<close>.\<close>

primrec field_value :: "'a field \<Rightarrow> 'a option" where
  "field_value Unset = None"
| "field_value (Given v) = v"

primrec in_changes :: "'a field \<Rightarrow> bool" where
  "in_changes Unset = False"
| "in_changes (Given v) = True"

definition assign :: "'a field \<Rightarrow> ('a option \<Rightarrow> 'r \<Rightarrow> 'r) \<Rightarrow> 'r \<Rightarrow> 'r" where
  "assign f setter r = (if in_changes f then setter (field_value f) r else r)"

definition assign_some :: "'a field \<Rightarrow> ('a \<Rightarrow> 'r \<Rightarrow> 'r) \<Rightarrow> 'r \<Rightarrow> 'r" where
  "assign_some f setter r = (case field_value f of None \<Rightarrow> r | Some v \<Rightarrow> setter v r)"

record capability =
  cap_name :: string
  cap_description :: "string option"

record agent_create =
  ac_name :: string
  ac_description :: "string option"
  ac_connector_type :: agent_connector_type
  ac_endpoint :: "string option"
  ac_http_method :: http_method
  ac_health_check_url :: "string option"
  ac_headers :: "(string \<times> string) list"
  ac_runner_id :: "string option"
  ac_executable :: "string option"
  ac_capabilities :: "capability list"
  ac_input_schema :: dict
  ac_output_schema :: dict
  ac_credential_id :: "string option"
  ac_timeout_seconds :: int
  ac_enabled :: bool
  ac_metadata :: dict

record agent_update =
  au_name :: "string field"
  au_description :: "string field"
  au_connector_type :: "agent_connector_type field"
  au_endpoint :: "string field"
  au_http_method :: "http_method field"
  au_health_check_url :: "string field"
  au_headers :: "(string \<times> string) list field"
  au_runner_id :: "string field"
  au_executable :: "string field"
  au_capabilities :: "capability list field"
  au_input_schema :: "dict field"
  au_output_schema :: "dict field"
  au_credential_id :: "string field"
  au_timeout_seconds :: "int field"
  au_enabled :: "bool field"
  au_metadata :: "dict field"

section \<open>Shared helpers\<close>

definition text_headers :: "(string \<times> string) list \<Rightarrow> dict" where
  "text_headers hs = map (apsnd JStr) hs"

text \<open>\<open>not value\<close> for an optional text.\<close>

definition blank :: "string option \<Rightarrow> bool" where
  "blank v \<longleftrightarrow> v = None \<or> v = Some []"

definition stripped_url :: "string option \<Rightarrow> string option" where
  "stripped_url v = (if blank v then None else map_option (rstrip_char CHR ''/'') v)"

definition stripped_text :: "string option \<Rightarrow> string option" where
  "stripped_text v = (if blank v then None else map_option strip v)"

text \<open>A name is taken when another row has it up to case.\<close>

definition name_free :: "('r \<Rightarrow> string) \<Rightarrow> ('r \<Rightarrow> string) \<Rightarrow> string \<Rightarrow> string option \<Rightarrow> 'r list \<Rightarrow> exn + unit" where
  "name_free key name_of name current_id rs =
     (if list_ex (\<lambda>r. lower (name_of r) = lower name \<and> (blank current_id \<or> Some (key r) \<noteq> current_id)) rs
      then Inl (RelayviaError ''DUPLICATE_NAME'' 400) else Inr ())"

text \<open>SQL's \<open>LIKE\<close> on lower-case text, with the escape character of the database.\<close>

fun like :: "string \<Rightarrow> string \<Rightarrow> bool" where
  "like [] s = (s = [])"
| "like (c # p) [] = (c = CHR ''%'' \<and> like p [])"
| "like (c # p) (x # s) =
     (if c = CHR ''%'' then like p (x # s) \<or> like (c # p) s
      else if c = CHR ''_'' then like p s
      else if c = CHR 0x5C \<and> p \<noteq> [] then hd p = x \<and> like (tl p) s
      else c = x \<and> like p s)"

definition ilike_contains :: "string \<Rightarrow> string \<Rightarrow> bool" where
  "ilike_contains search name = like (lower (''%'' @ search @ ''%'')) (lower name)"

definition matches_search :: "string option \<Rightarrow> string \<Rightarrow> bool" where
  "matches_search search name \<longleftrightarrow> blank search \<or> (case search of None \<Rightarrow> True | Some q \<Rightarrow> ilike_contains q name)"

definition matches_filter :: "'a option \<Rightarrow> 'a \<Rightarrow> bool" where
  "matches_filter want v \<longleftrightarrow> (case want of None \<Rightarrow> True | Some w \<Rightarrow> v = w)"

section \<open>Credentials\<close>

definition get_credential_row :: "string \<Rightarrow> db \<Rightarrow> exn + credential_row" where
  "get_credential_row credential_id d =
     (case row_get cd_id credential_id (credentials d) of
        None \<Rightarrow> Inl (RelayviaError ''CREDENTIAL_NOT_FOUND'' 404) | Some c \<Rightarrow> Inr c)"

definition get_credential_or_none :: "string option \<Rightarrow> db \<Rightarrow> exn + credential_row option" where
  "get_credential_or_none credential_id d =
     (case credential_id of None \<Rightarrow> Inr None | Some k \<Rightarrow> ebind (get_credential_row k d) (\<lambda>c. Inr (Some c)))"

definition ensure_credential_name :: "string \<Rightarrow> string option \<Rightarrow> db \<Rightarrow> exn + unit" where
  "ensure_credential_name name current_id d = name_free cd_id cd_name name current_id (credentials d)"

record credential_read =
  cdr_id :: string
  cdr_name :: string
  cdr_type :: credential_type

definition to_credential_read :: "credential_row \<Rightarrow> exn + credential_read" where
  "to_credential_read c = ebind (credential_type_of (cd_type c)) (\<lambda>ty. Inr \<lparr> cdr_id = cd_id c, cdr_name = cd_name c, cdr_type = ty \<rparr>)"

definition list_credentials :: "db \<Rightarrow> exn + credential_read list" where
  "list_credentials d = collect (\<lambda>c. ebind (to_credential_read c) (\<lambda>r. Inr [r])) (sort_key cd_name (credentials d))"

record credential_create =
  cc_name :: string
  cc_type :: credential_type
  cc_value :: "string option"
  cc_username :: "string option"
  cc_password :: "string option"

text \<open>The model's own check, and the secret it stands for.\<close>

definition validate_secret :: "credential_create \<Rightarrow> bool" where
  "validate_secret p \<longleftrightarrow>
     (cc_type p \<in> {CT_API_KEY, CT_BEARER_TOKEN} \<longrightarrow> \<not> blank (cc_value p))
     \<and> (cc_type p = CT_BASIC_AUTH \<longrightarrow> \<not> blank (cc_username p) \<and> \<not> blank (cc_password p))"

definition secret_payload :: "credential_create \<Rightarrow> dict" where
  "secret_payload p =
     (if cc_type p = CT_BASIC_AUTH then [(''username'', json_opt (cc_username p)), (''password'', json_opt (cc_password p))]
      else [(''value'', json_opt (cc_value p))])"

definition create_credential :: "lib \<Rightarrow> (dict \<Rightarrow> exn + string) \<Rightarrow> credential_create \<Rightarrow> db \<Rightarrow> (exn + credential_read) \<times> db" where
  "create_credential L encrypt p d =
     after_commit (transact d
       (ebind (ensure_credential_name (cc_name p) None d) (\<lambda>_.
        ebind (encrypt (secret_payload p)) (\<lambda>cipher.
        let (k, d) = uuid4 L d;
            c = \<lparr> cd_id = k, cd_name = cc_name p, cd_type = credential_type_value (cc_type p), cd_encrypted_payload = cipher \<rparr> in
        Inr (d\<lparr> credentials := credentials d @ [c] \<rparr>, k)))))
       (\<lambda>k d. ebind (get_credential_row k d) to_credential_read)"

record credential_update =
  cu_name :: "string field"
  cu_value :: "string field"
  cu_username :: "string field"
  cu_password :: "string field"

definition validate_secret_pair :: "credential_update \<Rightarrow> bool" where
  "validate_secret_pair p \<longleftrightarrow> (field_value (cu_username p) = None) = (field_value (cu_password p) = None)"

text \<open>The secret an update replaces the stored one with, if any.\<close>

definition replacement_secret :: "credential_update \<Rightarrow> credential_row \<Rightarrow> exn + dict option" where
  "replacement_secret p c =
     (let v = field_value (cu_value p); user = field_value (cu_username p); pw = field_value (cu_password p) in
      if v \<noteq> None \<or> user \<noteq> None \<or> pw \<noteq> None then
        ebind (credential_type_of (cd_type c)) (\<lambda>ty.
        if ty = CT_BASIC_AUTH then
          if user = None \<or> pw = None then Inl (RelayviaError ''INVALID_CREDENTIAL'' 400)
          else Inr (Some [(''username'', json_opt user), (''password'', json_opt pw)])
        else if v = None \<or> user \<noteq> None \<or> pw \<noteq> None then Inl (RelayviaError ''INVALID_CREDENTIAL'' 400)
        else Inr (Some [(''value'', json_opt v)]))
      else if in_changes (cu_value p) \<or> in_changes (cu_username p) \<or> in_changes (cu_password p)
      then Inl (RelayviaError ''INVALID_CREDENTIAL'' 400)
      else Inr None)"

definition update_credential ::
  "(dict \<Rightarrow> exn + string) \<Rightarrow> string \<Rightarrow> credential_update \<Rightarrow> db \<Rightarrow> (exn + credential_read) \<times> db" where
  "update_credential encrypt credential_id p d =
     after_commit (transact d
       (ebind (get_credential_row credential_id d) (\<lambda>c.
        ebind (case field_value (cu_name p) of None \<Rightarrow> Inr c
               | Some n \<Rightarrow> ebind (ensure_credential_name n (Some (cd_id c)) d) (\<lambda>_. Inr (c\<lparr> cd_name := n \<rparr>))) (\<lambda>c.
        ebind (replacement_secret p c) (\<lambda>secret.
        ebind (case secret of None \<Rightarrow> Inr c | Some s \<Rightarrow> ebind (encrypt s) (\<lambda>cipher. Inr (c\<lparr> cd_encrypted_payload := cipher \<rparr>))) (\<lambda>c.
        Inr (d\<lparr> credentials := row_upd cd_id credential_id (\<lambda>_. c) (credentials d) \<rparr>, ())))))))
       (\<lambda>_ d. ebind (get_credential_row credential_id d) to_credential_read)"

definition credential_in_use :: "string \<Rightarrow> db \<Rightarrow> bool" where
  "credential_in_use credential_id d \<longleftrightarrow>
     list_ex (\<lambda>a. a_credential_id a = Some credential_id) (agents d) \<or> list_ex (\<lambda>s. s_credential_id s = Some credential_id) (services d)"

definition delete_credential :: "string \<Rightarrow> db \<Rightarrow> (exn + unit) \<times> db" where
  "delete_credential credential_id d =
     transact d
       (ebind (get_credential_row credential_id d) (\<lambda>c.
        if credential_in_use credential_id d then Inl (RelayviaError ''CREDENTIAL_IN_USE'' 409)
        else Inr (d\<lparr> credentials := filter (\<lambda>c. cd_id c \<noteq> credential_id) (credentials d) \<rparr>, ())))"

section \<open>Agents\<close>

definition get_agent :: "string \<Rightarrow> db \<Rightarrow> exn + agent" where
  "get_agent agent_id d =
     (case row_get a_id agent_id (agents d) of None \<Rightarrow> Inl (RelayviaError ''AGENT_NOT_FOUND'' 404) | Some a \<Rightarrow> Inr a)"

definition ensure_agent_name :: "string \<Rightarrow> string option \<Rightarrow> db \<Rightarrow> exn + unit" where
  "ensure_agent_name name current_id d = name_free a_id a_name name current_id (agents d)"

definition INVALID_AGENT_CONFIG :: exn where
  "INVALID_AGENT_CONFIG = RelayviaError ''INVALID_AGENT_CONFIG'' 400"

definition check_url :: "lib \<Rightarrow> bool \<Rightarrow> string option \<Rightarrow> exn + unit" where
  "check_url L allow u = (case u of None \<Rightarrow> Inr () | Some v \<Rightarrow> if v = [] then Inr () else ebind (validate_http_url L allow v) (\<lambda>_. Inr ()))"

definition bad_executable :: "string option \<Rightarrow> bool" where
  "bad_executable v = (case v of None \<Rightarrow> False | Some e \<Rightarrow> strip e = [] \<or> CHR 0x0A \<in> set e \<or> CHR 0x0D \<in> set e)"

definition validate_agent_config ::
  "lib \<Rightarrow> bool \<Rightarrow> agent_connector_type \<Rightarrow> string option \<Rightarrow> string option \<Rightarrow> dict \<Rightarrow> string option \<Rightarrow> string option
     \<Rightarrow> dict \<Rightarrow> dict \<Rightarrow> dict \<Rightarrow> exn + unit" where
  "validate_agent_config L allow connector endpoint health_check_url headers runner_id executable input_schema output_schema metadata =
     ebind (if connector = AC_HTTP
            then if blank endpoint then Inl INVALID_AGENT_CONFIG
                 else ebind (check_url L allow endpoint) (\<lambda>_. check_url L allow health_check_url)
            else if \<not> blank health_check_url then Inl INVALID_AGENT_CONFIG else Inr ()) (\<lambda>_.
     if connector = AC_CODEX \<and> blank runner_id then Inl INVALID_AGENT_CONFIG
     else if bad_executable executable then Inl INVALID_AGENT_CONFIG
     else
       ebind (validate_headers headers) (\<lambda>_.
       ebind (validate_json_schema L (JObj input_schema)) (\<lambda>_.
       ebind (validate_json_schema L (JObj output_schema)) (\<lambda>_.
       ebind (validate_metadata metadata) (\<lambda>_. Inr ())))))"

definition capability_dump :: "capability \<Rightarrow> json" where
  "capability_dump c = JObj [(''name'', JStr (cap_name c)), (''description'', json_opt (cap_description c))]"

definition capability_of :: "json \<Rightarrow> exn + capability" where
  "capability_of v =
     (case v of
        JObj c \<Rightarrow>
          (case (dget c ''name'', dget_or c ''description'' JNull) of
             (Some (JStr n), JStr t) \<Rightarrow> if 1 \<le> length n \<and> length n \<le> 120 then Inr \<lparr> cap_name = n, cap_description = Some t \<rparr>
                                      else Inl (PyError ''ValidationError'')
           | (Some (JStr n), JNull) \<Rightarrow> if 1 \<le> length n \<and> length n \<le> 120 then Inr \<lparr> cap_name = n, cap_description = None \<rparr>
                                      else Inl (PyError ''ValidationError'')
           | _ \<Rightarrow> Inl (PyError ''ValidationError''))
      | _ \<Rightarrow> Inl (PyError ''ValidationError''))"

text \<open>The answer of the API: the row with its enumerations decoded and the name of its credential.\<close>

record agent_read =
  agr_agent :: agent
  agr_connector_type :: agent_connector_type
  agr_http_method :: http_method
  agr_capabilities :: "capability list"
  agr_status :: health_status
  agr_credential_name :: "string option"

definition credential_name_of :: "string option \<Rightarrow> db \<Rightarrow> string option" where
  "credential_name_of k d = (case k of None \<Rightarrow> None | Some k \<Rightarrow> map_option cd_name (row_get cd_id k (credentials d)))"

definition to_agent_read :: "db \<Rightarrow> agent \<Rightarrow> exn + agent_read" where
  "to_agent_read d a =
     ebind (connector_of (a_connector_type a)) (\<lambda>connector.
     ebind (collect (\<lambda>v. ebind (capability_of v) (\<lambda>c. Inr [c])) (a_capabilities_json a)) (\<lambda>caps.
     ebind (health_of (a_status a)) (\<lambda>status.
     ebind (method_of (a_http_method a)) (\<lambda>hm.
     Inr \<lparr> agr_agent = a, agr_connector_type = connector, agr_http_method = hm, agr_capabilities = caps, agr_status = status,
            agr_credential_name = credential_name_of (a_credential_id a) d \<rparr>))))"

definition list_agents :: "string option \<Rightarrow> health_status option \<Rightarrow> bool option \<Rightarrow> db \<Rightarrow> exn + agent_read list" where
  "list_agents search status enabled d =
     collect (\<lambda>a. ebind (to_agent_read d a) (\<lambda>r. Inr [r]))
       (filter (\<lambda>a. matches_search search (a_name a) \<and> matches_filter (map_option health_value status) (a_status a)
            \<and> matches_filter enabled (a_enabled a)) (sort_key a_name (agents d)))"

text \<open>The foreign key on \<open>runners\<close>, which the database checks at the flush.\<close>

definition agent_row_ok :: "db \<Rightarrow> agent \<Rightarrow> exn + unit" where
  "agent_row_ok d a =
     (case a_runner_id a of None \<Rightarrow> Inr ()
      | Some k \<Rightarrow> if get_runner_row k d = None then Inl (PyError ''IntegrityError'') else Inr ())"

definition runner_exists :: "string option \<Rightarrow> db \<Rightarrow> exn + unit" where
  "runner_exists runner_id d =
     (case runner_id of None \<Rightarrow> Inr ()
      | Some k \<Rightarrow> if k \<noteq> [] \<and> get_runner_row k d = None then Inl (RelayviaError ''RUNNER_NOT_FOUND'' 404) else Inr ())"

definition new_agent :: "agent_create \<Rightarrow> credential_row option \<Rightarrow> string \<Rightarrow> agent" where
  "new_agent p cred k =
     \<lparr> a_id = k, a_name = ac_name p, a_connector_type = connector_value (ac_connector_type p), a_endpoint = stripped_url (ac_endpoint p),
       a_http_method = method_value (ac_http_method p), a_health_check_url = stripped_url (ac_health_check_url p),
       a_headers_json = text_headers (ac_headers p), a_runner_id = ac_runner_id p, a_executable = stripped_text (ac_executable p),
       a_input_schema_json = ac_input_schema p, a_output_schema_json = ac_output_schema p, a_credential_id = map_option cd_id cred,
       a_timeout_seconds = ac_timeout_seconds p, a_status = health_value HS_UNKNOWN, a_enabled = ac_enabled p,
       a_description = ac_description p, a_capabilities_json = map capability_dump (ac_capabilities p), a_metadata_json = ac_metadata p,
       a_last_checked_at = None, a_last_latency_ms = None, a_last_error = None \<rparr>"

definition create_agent :: "lib \<Rightarrow> bool \<Rightarrow> agent_create \<Rightarrow> db \<Rightarrow> (exn + agent_read) \<times> db" where
  "create_agent L allow p d =
     after_commit (transact d
       (ebind (ensure_agent_name (ac_name p) None d) (\<lambda>_.
        ebind (validate_agent_config L allow (ac_connector_type p) (ac_endpoint p) (ac_health_check_url p) (text_headers (ac_headers p))
                 (ac_runner_id p) (ac_executable p) (ac_input_schema p) (ac_output_schema p) (ac_metadata p)) (\<lambda>_.
        ebind (get_credential_or_none (ac_credential_id p) d) (\<lambda>cred.
        ebind (runner_exists (ac_runner_id p) d) (\<lambda>_.
        let (k, d) = uuid4 L d; a = new_agent p cred k in
        ebind (agent_row_ok d a) (\<lambda>_. Inr (d\<lparr> agents := agents d @ [a] \<rparr>, k))))))))
       (\<lambda>k d. ebind (get_agent k d) (to_agent_read d))"

text \<open>A change of the connector clears what only HTTP agents have.\<close>

definition set_connector :: "agent_connector_type \<Rightarrow> agent \<Rightarrow> agent" where
  "set_connector connector a =
     (let a = a\<lparr> a_connector_type := connector_value connector \<rparr> in
      if connector \<noteq> AC_HTTP then a\<lparr> a_endpoint := None, a_health_check_url := None, a_headers_json := [] \<rparr> else a)"

definition edit_before_runner :: "agent_update \<Rightarrow> agent \<Rightarrow> agent" where
  "edit_before_runner u a =
     (let a = assign (au_description u) (\<lambda>v a. a\<lparr> a_description := v \<rparr>) a;
          a = assign_some (au_connector_type u) set_connector a;
          a = assign (au_endpoint u) (\<lambda>v a. a\<lparr> a_endpoint := stripped_url v \<rparr>) a;
          a = assign_some (au_http_method u) (\<lambda>v a. a\<lparr> a_http_method := method_value v \<rparr>) a;
          a = assign (au_health_check_url u) (\<lambda>v a. a\<lparr> a_health_check_url := stripped_url v \<rparr>) a in
      assign_some (au_headers u) (\<lambda>v a. a\<lparr> a_headers_json := text_headers v \<rparr>) a)"

definition edit_after_runner :: "agent_update \<Rightarrow> agent \<Rightarrow> agent" where
  "edit_after_runner u a =
     (let a = assign (au_executable u) (\<lambda>v a. a\<lparr> a_executable := stripped_text v \<rparr>) a;
          a = assign_some (au_capabilities u) (\<lambda>v a. a\<lparr> a_capabilities_json := map capability_dump v \<rparr>) a;
          a = assign_some (au_input_schema u) (\<lambda>v a. a\<lparr> a_input_schema_json := v \<rparr>) a in
      assign_some (au_output_schema u) (\<lambda>v a. a\<lparr> a_output_schema_json := v \<rparr>) a)"

definition edit_after_credential :: "agent_update \<Rightarrow> agent \<Rightarrow> agent" where
  "edit_after_credential u a =
     (let a = assign_some (au_timeout_seconds u) (\<lambda>v a. a\<lparr> a_timeout_seconds := v \<rparr>) a;
          a = assign_some (au_enabled u) (\<lambda>v a. a\<lparr> a_enabled := v \<rparr>) a in
      assign_some (au_metadata u) (\<lambda>v a. a\<lparr> a_metadata_json := v \<rparr>) a)"

text \<open>A change of what the health check depends on makes the stored health unknown.\<close>

definition reset_agent_health :: "agent_update \<Rightarrow> agent \<Rightarrow> agent" where
  "reset_agent_health u a =
     (if in_changes (au_connector_type u) \<or> in_changes (au_endpoint u) \<or> in_changes (au_health_check_url u)
         \<or> in_changes (au_credential_id u) \<or> in_changes (au_runner_id u) \<or> in_changes (au_executable u)
      then a\<lparr> a_status := health_value HS_UNKNOWN, a_last_error := None \<rparr> else a)"

definition edited_agent :: "lib \<Rightarrow> bool \<Rightarrow> agent_update \<Rightarrow> agent \<Rightarrow> db \<Rightarrow> exn + agent" where
  "edited_agent L allow u a d =
     ebind (case field_value (au_name u) of None \<Rightarrow> Inr a
            | Some n \<Rightarrow> ebind (ensure_agent_name n (Some (a_id a)) d) (\<lambda>_. Inr (a\<lparr> a_name := n \<rparr>))) (\<lambda>a.
     let a = edit_before_runner u a in
     ebind (if in_changes (au_runner_id u)
            then ebind (runner_exists (field_value (au_runner_id u)) d) (\<lambda>_. Inr (a\<lparr> a_runner_id := field_value (au_runner_id u) \<rparr>))
            else Inr a) (\<lambda>a.
     let a = edit_after_runner u a in
     ebind (if in_changes (au_credential_id u)
            then ebind (get_credential_or_none (field_value (au_credential_id u)) d) (\<lambda>c. Inr (a\<lparr> a_credential_id := map_option cd_id c \<rparr>))
            else Inr a) (\<lambda>a.
     let a = edit_after_credential u a in
     ebind (connector_of (a_connector_type a)) (\<lambda>connector.
     ebind (validate_agent_config L allow connector (a_endpoint a) (a_health_check_url a) (a_headers_json a) (a_runner_id a)
              (a_executable a) (a_input_schema_json a) (a_output_schema_json a) (a_metadata_json a)) (\<lambda>_.
     Inr (reset_agent_health u a))))))"

definition update_agent :: "lib \<Rightarrow> bool \<Rightarrow> string \<Rightarrow> agent_update \<Rightarrow> db \<Rightarrow> (exn + agent_read) \<times> db" where
  "update_agent L allow agent_id u d =
     after_commit (transact d
       (ebind (get_agent agent_id d) (\<lambda>a.
        ebind (edited_agent L allow u a d) (\<lambda>a.
        ebind (agent_row_ok d a) (\<lambda>_.
        Inr (d\<lparr> agents := row_upd a_id agent_id (\<lambda>_. a) (agents d) \<rparr>, ()))))))
       (\<lambda>_ d. ebind (get_agent agent_id d) (to_agent_read d))"

definition delete_agent :: "string \<Rightarrow> db \<Rightarrow> (exn + unit) \<times> db" where
  "delete_agent agent_id d =
     transact d
       (ebind (get_agent agent_id d) (\<lambda>a.
        ebind (ensure_resource_not_referenced ''agent'' (a_id a) d) (\<lambda>_.
        Inr (d\<lparr> agents := filter (\<lambda>a. a_id a \<noteq> agent_id) (agents d) \<rparr>, ()))))"

section \<open>Services\<close>

definition get_service :: "string \<Rightarrow> db \<Rightarrow> exn + service" where
  "get_service service_id d =
     (case row_get s_id service_id (services d) of
        None \<Rightarrow> Inl (RelayviaError ''SERVICE_NOT_FOUND'' 404) | Some s \<Rightarrow> Inr s)"

definition get_action :: "string \<Rightarrow> string \<Rightarrow> db \<Rightarrow> exn + service_action" where
  "get_action service_id action_id d =
     (case find (\<lambda>x. sa_id x = action_id \<and> sa_service_id x = service_id) (service_actions d) of
        None \<Rightarrow> Inl (RelayviaError ''SERVICE_ACTION_NOT_FOUND'' 404) | Some x \<Rightarrow> Inr x)"

definition actions_of :: "string \<Rightarrow> db \<Rightarrow> service_action list" where
  "actions_of service_id d = filter (\<lambda>x. sa_service_id x = service_id) (service_actions d)"

definition ensure_service_name :: "string \<Rightarrow> string option \<Rightarrow> db \<Rightarrow> exn + unit" where
  "ensure_service_name name current_id d = name_free s_id s_name name current_id (services d)"

definition ensure_action_name :: "string \<Rightarrow> string \<Rightarrow> string option \<Rightarrow> db \<Rightarrow> exn + unit" where
  "ensure_action_name service_id name current_id d = name_free sa_id sa_name name current_id (actions_of service_id d)"

record service_read =
  svr_service :: service
  svr_service_type :: service_type
  svr_status :: health_status
  svr_credential_name :: "string option"
  svr_actions_count :: nat

definition to_service_read :: "db \<Rightarrow> service \<Rightarrow> exn + service_read" where
  "to_service_read d s =
     ebind (service_type_of (s_service_type s)) (\<lambda>ty.
     ebind (health_of (s_status s)) (\<lambda>status.
     Inr \<lparr> svr_service = s, svr_service_type = ty, svr_status = status, svr_credential_name = credential_name_of (s_credential_id s) d,
            svr_actions_count = length (actions_of (s_id s) d) \<rparr>))"

definition list_services :: "string option \<Rightarrow> health_status option \<Rightarrow> bool option \<Rightarrow> db \<Rightarrow> exn + service_read list" where
  "list_services search status enabled d =
     collect (\<lambda>s. ebind (to_service_read d s) (\<lambda>r. Inr [r]))
       (filter (\<lambda>s. matches_search search (s_name s) \<and> matches_filter (map_option health_value status) (s_status s)
            \<and> matches_filter enabled (s_enabled s)) (sort_key s_name (services d)))"

record service_create =
  sc_name :: string
  sc_description :: "string option"
  sc_service_type :: service_type
  sc_base_url :: string
  sc_credential_id :: "string option"
  sc_health_check_url :: "string option"
  sc_enabled :: bool
  sc_metadata :: dict

record service_update =
  su_name :: "string field"
  su_description :: "string field"
  su_service_type :: "service_type field"
  su_base_url :: "string field"
  su_credential_id :: "string field"
  su_health_check_url :: "string field"
  su_enabled :: "bool field"
  su_metadata :: "dict field"

definition optional_url :: "lib \<Rightarrow> bool \<Rightarrow> string option \<Rightarrow> exn + string option" where
  "optional_url L allow u =
     (case u of None \<Rightarrow> Inr None
      | Some v \<Rightarrow> if v = [] then Inr None else ebind (validate_http_url L allow v) (\<lambda>w. Inr (Some w)))"

definition new_service :: "service_create \<Rightarrow> string \<Rightarrow> string option \<Rightarrow> credential_row option \<Rightarrow> string \<Rightarrow> service" where
  "new_service p base_url health_check_url cred k =
     \<lparr> s_id = k, s_name = sc_name p, s_base_url = base_url, s_credential_id = map_option cd_id cred,
       s_health_check_url = health_check_url, s_status = health_value HS_UNKNOWN, s_enabled = sc_enabled p,
       s_description = sc_description p, s_service_type = service_type_value (sc_service_type p),
       s_metadata_json = sc_metadata p, s_last_checked_at = None, s_last_latency_ms = None, s_last_error = None \<rparr>"

definition create_service :: "lib \<Rightarrow> bool \<Rightarrow> service_create \<Rightarrow> db \<Rightarrow> (exn + service_read) \<times> db" where
  "create_service L allow p d =
     after_commit (transact d
       (ebind (ensure_service_name (sc_name p) None d) (\<lambda>_.
        if sc_service_type p \<noteq> ST_HTTP then Inl (RelayviaError ''UNSUPPORTED_SERVICE_TYPE'' 400)
        else
          ebind (validate_http_url L allow (sc_base_url p)) (\<lambda>base_url.
          ebind (optional_url L allow (sc_health_check_url p)) (\<lambda>health_check_url.
          ebind (validate_metadata (sc_metadata p)) (\<lambda>_.
          ebind (get_credential_or_none (sc_credential_id p) d) (\<lambda>cred.
          let (k, d) = uuid4 L d in
          Inr (d\<lparr> services := services d @ [new_service p base_url health_check_url cred k] \<rparr>, k))))))))
       (\<lambda>k d. ebind (get_service k d) (to_service_read d))"

definition reset_service_health :: "service_update \<Rightarrow> service \<Rightarrow> service" where
  "reset_service_health u s =
     (if in_changes (su_base_url u) \<or> in_changes (su_health_check_url u) \<or> in_changes (su_credential_id u)
      then s\<lparr> s_status := health_value HS_UNKNOWN, s_last_error := None \<rparr> else s)"

definition edited_service :: "lib \<Rightarrow> bool \<Rightarrow> service_update \<Rightarrow> service \<Rightarrow> db \<Rightarrow> exn + service" where
  "edited_service L allow u s d =
     ebind (case field_value (su_name u) of None \<Rightarrow> Inr s
            | Some n \<Rightarrow> ebind (ensure_service_name n (Some (s_id s)) d) (\<lambda>_. Inr (s\<lparr> s_name := n \<rparr>))) (\<lambda>s.
     let s = assign (su_description u) (\<lambda>v s. s\<lparr> s_description := v \<rparr>) s in
     ebind (case field_value (su_service_type u) of None \<Rightarrow> Inr s
            | Some ty \<Rightarrow> if ty \<noteq> ST_HTTP then Inl (RelayviaError ''UNSUPPORTED_SERVICE_TYPE'' 400)
                         else Inr (s\<lparr> s_service_type := service_type_value ty \<rparr>)) (\<lambda>s.
     ebind (if in_changes (su_base_url u)
            then (case field_value (su_base_url u) of None \<Rightarrow> Inl INVALID_URL
                  | Some v \<Rightarrow> ebind (validate_http_url L allow v) (\<lambda>w. Inr (s\<lparr> s_base_url := w \<rparr>)))
            else Inr s) (\<lambda>s.
     ebind (if in_changes (su_credential_id u)
            then ebind (get_credential_or_none (field_value (su_credential_id u)) d) (\<lambda>c. Inr (s\<lparr> s_credential_id := map_option cd_id c \<rparr>))
            else Inr s) (\<lambda>s.
     ebind (if in_changes (su_health_check_url u)
            then ebind (optional_url L allow (field_value (su_health_check_url u))) (\<lambda>w. Inr (s\<lparr> s_health_check_url := w \<rparr>))
            else Inr s) (\<lambda>s.
     let s = assign_some (su_enabled u) (\<lambda>v s. s\<lparr> s_enabled := v \<rparr>) s in
     ebind (case field_value (su_metadata u) of None \<Rightarrow> Inr s
            | Some m \<Rightarrow> ebind (validate_metadata m) (\<lambda>_. Inr (s\<lparr> s_metadata_json := m \<rparr>))) (\<lambda>s.
     Inr (reset_service_health u s)))))))"

definition update_service :: "lib \<Rightarrow> bool \<Rightarrow> string \<Rightarrow> service_update \<Rightarrow> db \<Rightarrow> (exn + service_read) \<times> db" where
  "update_service L allow service_id u d =
     after_commit (transact d
       (ebind (get_service service_id d) (\<lambda>s.
        ebind (edited_service L allow u s d) (\<lambda>s.
        Inr (d\<lparr> services := row_upd s_id service_id (\<lambda>_. s) (services d) \<rparr>, ())))))
       (\<lambda>_ d. ebind (get_service service_id d) (to_service_read d))"

text \<open>The actions of a deleted Service go with it.\<close>

definition delete_service :: "string \<Rightarrow> db \<Rightarrow> (exn + unit) \<times> db" where
  "delete_service service_id d =
     transact d
       (ebind (get_service service_id d) (\<lambda>s.
        ebind (ensure_resource_not_referenced ''service'' (s_id s) d) (\<lambda>_.
        Inr (d\<lparr> services := filter (\<lambda>s. s_id s \<noteq> service_id) (services d),
                service_actions := filter (\<lambda>x. sa_service_id x \<noteq> service_id) (service_actions d) \<rparr>, ()))))"

section \<open>Service actions\<close>

record retry_policy =
  rp_max_retries :: int
  rp_backoff_seconds :: int
  rp_retry_on_status :: "int list"

definition retry_policy_dump :: "retry_policy \<Rightarrow> dict" where
  "retry_policy_dump p = [(''max_retries'', JInt (rp_max_retries p)), (''backoff_seconds'', JInt (rp_backoff_seconds p)),
     (''retry_on_status'', JArr (map JInt (rp_retry_on_status p)))]"

definition int_in :: "lib \<Rightarrow> dict \<Rightarrow> string \<Rightarrow> int \<Rightarrow> int \<Rightarrow> exn + int" where
  "int_in L d k lo hi =
     (case dget d k of None \<Rightarrow> Inr 0
      | Some v \<Rightarrow>
          (case lib_int L v of
             None \<Rightarrow> Inl (PyError ''ValidationError'')
           | Some i \<Rightarrow> if lo \<le> i \<and> i \<le> hi then Inr i else Inl (PyError ''ValidationError'')))"

definition retry_policy_of :: "lib \<Rightarrow> dict \<Rightarrow> exn + retry_policy" where
  "retry_policy_of L d =
     ebind (int_in L d ''max_retries'' 0 10) (\<lambda>m.
     ebind (int_in L d ''backoff_seconds'' 0 86400) (\<lambda>b.
     ebind (case dget d ''retry_on_status'' of
              None \<Rightarrow> Inr [429, 500, 502, 503, 504]
            | Some (JArr vs) \<Rightarrow> collect (\<lambda>v. case lib_int L v of None \<Rightarrow> Inl (PyError ''ValidationError'') | Some i \<Rightarrow> Inr [i]) vs
            | _ \<Rightarrow> Inl (PyError ''ValidationError'')) (\<lambda>codes.
     Inr \<lparr> rp_max_retries = m, rp_backoff_seconds = b, rp_retry_on_status = codes \<rparr>)))"

definition retry_policy_ok :: "retry_policy \<Rightarrow> bool" where
  "retry_policy_ok p \<longleftrightarrow> 0 \<le> rp_max_retries p \<and> rp_max_retries p \<le> 10 \<and> 0 \<le> rp_backoff_seconds p \<and> rp_backoff_seconds p \<le> 86400"

record service_action_read =
  sar_action :: service_action
  sar_method :: http_method
  sar_retry_policy :: retry_policy

definition to_action_read :: "lib \<Rightarrow> service_action \<Rightarrow> exn + service_action_read" where
  "to_action_read L x =
     ebind (method_of (sa_method x)) (\<lambda>hm.
     ebind (retry_policy_of L (sa_retry_policy_json x)) (\<lambda>rp.
     Inr \<lparr> sar_action = x, sar_method = hm, sar_retry_policy = rp \<rparr>))"

definition list_actions :: "lib \<Rightarrow> string \<Rightarrow> db \<Rightarrow> exn + service_action_read list" where
  "list_actions L service_id d =
     ebind (get_service service_id d) (\<lambda>_.
     collect (\<lambda>x. ebind (to_action_read L x) (\<lambda>r. Inr [r])) (sort_key sa_name (actions_of service_id d)))"

record action_create =
  xc_name :: string
  xc_description :: "string option"
  xc_method :: http_method
  xc_path :: string
  xc_headers :: "(string \<times> string) list"
  xc_query_schema :: dict
  xc_path_schema :: dict
  xc_input_schema :: dict
  xc_output_schema :: dict
  xc_timeout_seconds :: int
  xc_retry_policy :: retry_policy
  xc_enabled :: bool
  xc_metadata :: dict

record action_update =
  xu_name :: "string field"
  xu_description :: "string field"
  xu_method :: "http_method field"
  xu_path :: "string field"
  xu_headers :: "(string \<times> string) list field"
  xu_query_schema :: "dict field"
  xu_path_schema :: "dict field"
  xu_input_schema :: "dict field"
  xu_output_schema :: "dict field"
  xu_timeout_seconds :: "int field"
  xu_retry_policy :: "retry_policy field"
  xu_enabled :: "bool field"
  xu_metadata :: "dict field"

definition validate_action_config ::
  "lib \<Rightarrow> string \<Rightarrow> dict \<Rightarrow> dict \<Rightarrow> dict \<Rightarrow> dict \<Rightarrow> dict \<Rightarrow> dict \<Rightarrow> exn + string" where
  "validate_action_config L path headers query_schema path_schema input_schema output_schema metadata =
     ebind (normalize_action_path L path) (\<lambda>normalized_path.
     ebind (validate_headers headers) (\<lambda>_.
     ebind (validate_json_schema L (JObj query_schema)) (\<lambda>_.
     ebind (validate_json_schema L (JObj path_schema)) (\<lambda>_.
     ebind (validate_json_schema L (JObj input_schema)) (\<lambda>_.
     ebind (validate_json_schema L (JObj output_schema)) (\<lambda>_.
     ebind (validate_metadata metadata) (\<lambda>_. Inr normalized_path)))))))"

definition new_action :: "string \<Rightarrow> action_create \<Rightarrow> string \<Rightarrow> string \<Rightarrow> service_action" where
  "new_action service_id p normalized_path k =
     \<lparr> sa_id = k, sa_service_id = service_id, sa_name = xc_name p, sa_method = method_value (xc_method p),
       sa_path = normalized_path, sa_headers_json = text_headers (xc_headers p), sa_query_schema_json = xc_query_schema p,
       sa_path_schema_json = xc_path_schema p, sa_input_schema_json = xc_input_schema p,
       sa_output_schema_json = xc_output_schema p, sa_timeout_seconds = xc_timeout_seconds p,
       sa_retry_policy_json = retry_policy_dump (xc_retry_policy p), sa_enabled = xc_enabled p,
       sa_description = xc_description p, sa_metadata_json = xc_metadata p \<rparr>"

definition create_action :: "lib \<Rightarrow> string \<Rightarrow> action_create \<Rightarrow> db \<Rightarrow> (exn + service_action_read) \<times> db" where
  "create_action L service_id p d =
     after_commit (transact d
       (ebind (get_service service_id d) (\<lambda>_.
        ebind (ensure_action_name service_id (xc_name p) None d) (\<lambda>_.
        ebind (validate_action_config L (xc_path p) (text_headers (xc_headers p)) (xc_query_schema p) (xc_path_schema p)
                 (xc_input_schema p) (xc_output_schema p) (xc_metadata p)) (\<lambda>normalized_path.
        let (k, d) = uuid4 L d in
        Inr (d\<lparr> service_actions := service_actions d @ [new_action service_id p normalized_path k] \<rparr>, k))))))
       (\<lambda>k d. ebind (get_action service_id k d) (to_action_read L))"

definition edit_action_fields :: "action_update \<Rightarrow> service_action \<Rightarrow> service_action" where
  "edit_action_fields u x =
     (let x = assign_some (xu_headers u) (\<lambda>v x. x\<lparr> sa_headers_json := text_headers v \<rparr>) x;
          x = assign_some (xu_query_schema u) (\<lambda>v x. x\<lparr> sa_query_schema_json := v \<rparr>) x;
          x = assign_some (xu_path_schema u) (\<lambda>v x. x\<lparr> sa_path_schema_json := v \<rparr>) x;
          x = assign_some (xu_input_schema u) (\<lambda>v x. x\<lparr> sa_input_schema_json := v \<rparr>) x;
          x = assign_some (xu_output_schema u) (\<lambda>v x. x\<lparr> sa_output_schema_json := v \<rparr>) x;
          x = assign_some (xu_timeout_seconds u) (\<lambda>v x. x\<lparr> sa_timeout_seconds := v \<rparr>) x;
          x = assign_some (xu_retry_policy u) (\<lambda>v x. x\<lparr> sa_retry_policy_json := retry_policy_dump v \<rparr>) x;
          x = assign_some (xu_enabled u) (\<lambda>v x. x\<lparr> sa_enabled := v \<rparr>) x in
      assign_some (xu_metadata u) (\<lambda>v x. x\<lparr> sa_metadata_json := v \<rparr>) x)"

definition edited_action :: "lib \<Rightarrow> string \<Rightarrow> action_update \<Rightarrow> service_action \<Rightarrow> db \<Rightarrow> exn + service_action" where
  "edited_action L service_id u x d =
     ebind (case field_value (xu_name u) of None \<Rightarrow> Inr x
            | Some n \<Rightarrow> ebind (ensure_action_name service_id n (Some (sa_id x)) d) (\<lambda>_. Inr (x\<lparr> sa_name := n \<rparr>))) (\<lambda>x.
     let x = assign (xu_description u) (\<lambda>v x. x\<lparr> sa_description := v \<rparr>) x;
         x = assign_some (xu_method u) (\<lambda>v x. x\<lparr> sa_method := method_value v \<rparr>) x in
     ebind (if in_changes (xu_path u)
            then (case field_value (xu_path u) of None \<Rightarrow> Inl (RelayviaError ''INVALID_PATH'' 400)
                  | Some v \<Rightarrow> ebind (normalize_action_path L v) (\<lambda>w. Inr (x\<lparr> sa_path := w \<rparr>)))
            else Inr x) (\<lambda>x.
     let x = edit_action_fields u x in
     ebind (validate_action_config L (sa_path x) (sa_headers_json x) (sa_query_schema_json x) (sa_path_schema_json x)
              (sa_input_schema_json x) (sa_output_schema_json x) (sa_metadata_json x)) (\<lambda>_. Inr x)))"

definition update_action ::
  "lib \<Rightarrow> string \<Rightarrow> string \<Rightarrow> action_update \<Rightarrow> db \<Rightarrow> (exn + service_action_read) \<times> db" where
  "update_action L service_id action_id u d =
     after_commit (transact d
       (ebind (get_action service_id action_id d) (\<lambda>x.
        ebind (edited_action L service_id u x d) (\<lambda>x.
        Inr (d\<lparr> service_actions := row_upd sa_id action_id (\<lambda>_. x) (service_actions d) \<rparr>, ())))))
       (\<lambda>_ d. ebind (get_action service_id action_id d) (to_action_read L))"

definition delete_action :: "string \<Rightarrow> string \<Rightarrow> db \<Rightarrow> (exn + unit) \<times> db" where
  "delete_action service_id action_id d =
     transact d
       (ebind (get_action service_id action_id d) (\<lambda>x.
        ebind (ensure_resource_not_referenced ''service_action'' (sa_id x) d) (\<lambda>_.
        Inr (d\<lparr> service_actions := filter (\<lambda>x. sa_id x \<noteq> action_id) (service_actions d) \<rparr>, ()))))"

section \<open>Connection tests\<close>

datatype test_status = TS_HEALTHY | TS_UNHEALTHY | TS_UNSUPPORTED

record connection_test_result =
  tr_status :: test_status
  tr_latency_ms :: "int option"
  tr_checked_at :: time
  tr_error_code :: "string option"
  tr_message :: "string option"

text \<open>The health check request: its outcome, the reason phrase of the reply and the time it took.\<close>

datatype probe_outcome = Probe_timeout int | Probe_error int | Probe_reply int string int

type_synonym prober = "string \<Rightarrow> int \<Rightarrow> (string \<times> string) list \<Rightarrow> (string \<times> string) option \<Rightarrow> probe_outcome"

definition test_result :: "test_status \<Rightarrow> int option \<Rightarrow> time \<Rightarrow> string option \<Rightarrow> string \<Rightarrow> connection_test_result" where
  "test_result status latency now code message =
     \<lparr> tr_status = status, tr_latency_ms = latency, tr_checked_at = now, tr_error_code = code, tr_message = Some message \<rparr>"

definition test_http_connection ::
  "lib \<Rightarrow> exec_env \<Rightarrow> prober \<Rightarrow> time \<Rightarrow> string option \<Rightarrow> int \<Rightarrow> (string \<times> string) list \<Rightarrow> credential option \<Rightarrow> exn + connection_test_result" where
  "test_http_connection L X probe now url timeout_seconds headers cred =
     (case url of
        None \<Rightarrow> Inr (test_result TS_UNSUPPORTED None now (Some ''HEALTH_CHECK_NOT_CONFIGURED'') ''A health check URL is not configured'')
      | Some u \<Rightarrow>
        if u = [] then Inr (test_result TS_UNSUPPORTED None now (Some ''HEALTH_CHECK_NOT_CONFIGURED'') ''A health check URL is not configured'')
        else (case validate_http_url L (xe_allow_private X) u of
            Inl (RelayviaError code status) \<Rightarrow>
              Inr (test_result TS_UNHEALTHY None now (Some code) ''Configured health check URL is blocked by the URL policy'')
          | Inl e \<Rightarrow> Inl e
          | Inr _ \<Rightarrow>
              ebind (authentication L X headers cred) (\<lambda>(headers, basic_auth).
              Inr (case probe u timeout_seconds headers basic_auth of
                  Probe_timeout ms \<Rightarrow> test_result TS_UNHEALTHY (Some ms) now (Some ''CONNECTION_TIMEOUT'') ''Connection timed out''
                | Probe_error ms \<Rightarrow> test_result TS_UNHEALTHY (Some ms) now (Some ''CONNECTION_TEST_FAILED'') ''Unable to reach the configured health check URL''
                | Probe_reply code reason ms \<Rightarrow>
                    if 200 \<le> code \<and> code < 400 then test_result TS_HEALTHY (Some ms) now None ''Connection successful''
                    else test_result TS_UNHEALTHY (Some ms) now (Some (''HTTP_'' @ str_int code)) (''HTTP '' @ str_int code @ '' '' @ reason)))))"

definition stored_credential :: "string option \<Rightarrow> db \<Rightarrow> credential option" where
  "stored_credential k d =
     (case k of None \<Rightarrow> None
      | Some k \<Rightarrow> map_option (\<lambda>c. \<lparr> cred_type = cd_type c, cred_encrypted_payload = cd_encrypted_payload c \<rparr>) (row_get cd_id k (credentials d)))"

definition test_codex_runner :: "int \<Rightarrow> time \<Rightarrow> string option \<Rightarrow> db \<Rightarrow> connection_test_result" where
  "test_codex_runner offline now runner_id d =
     (case (if blank runner_id then None else get_runner_row (the runner_id) d) of
        Some r \<Rightarrow>
          if runner_online offline now r \<and> ''codex'' \<in> set (rn_capabilities_json r)
          then test_result TS_HEALTHY None now None (''Runner '' @ rn_name r @ '' is online with Codex capability'')
          else test_result TS_UNHEALTHY None now (Some ''RUNNER_CAPABILITY_UNAVAILABLE'') ''Assigned Runner is offline or lacks Codex capability''
      | None \<Rightarrow> test_result TS_UNHEALTHY None now (Some ''RUNNER_CAPABILITY_UNAVAILABLE'') ''Assigned Runner is offline or lacks Codex capability'')"

text \<open>What the test of an Agent, of a Service finds out; the row is written after it, see below.\<close>

definition probe_agent :: "lib \<Rightarrow> exec_env \<Rightarrow> prober \<Rightarrow> int \<Rightarrow> time \<Rightarrow> agent \<Rightarrow> db \<Rightarrow> exn + connection_test_result" where
  "probe_agent L X probe offline now a d =
     ebind (connector_of (a_connector_type a)) (\<lambda>connector.
     if connector = AC_CODEX then Inr (test_codex_runner offline now (a_runner_id a) d)
     else if connector \<noteq> AC_HTTP
     then Inr (test_result TS_UNSUPPORTED None now (Some ''CONNECTOR_NOT_IMPLEMENTED'') ''Connection testing is only implemented for HTTP agents'')
     else test_http_connection L X probe now (a_health_check_url a) (a_timeout_seconds a) (string_dict L (JObj (a_headers_json a)))
            (stored_credential (a_credential_id a) d))"

definition probe_service :: "lib \<Rightarrow> exec_env \<Rightarrow> prober \<Rightarrow> time \<Rightarrow> service \<Rightarrow> db \<Rightarrow> exn + connection_test_result" where
  "probe_service L X probe now s d =
     ebind (service_type_of (s_service_type s)) (\<lambda>ty.
     if ty \<noteq> ST_HTTP
     then Inr (test_result TS_UNSUPPORTED None now (Some ''CONNECTOR_NOT_IMPLEMENTED'') ''Connection testing is only implemented for HTTP services'')
     else test_http_connection L X probe now (s_health_check_url s) 30 [] (stored_credential (s_credential_id s) d))"

definition status_after :: "connection_test_result \<Rightarrow> health_status" where
  "status_after r = (case tr_status r of TS_HEALTHY \<Rightarrow> HS_HEALTHY | TS_UNHEALTHY \<Rightarrow> HS_UNHEALTHY | TS_UNSUPPORTED \<Rightarrow> HS_UNKNOWN)"

definition error_after :: "connection_test_result \<Rightarrow> string option" where
  "error_after r = (if tr_status r = TS_HEALTHY then None else tr_message r)"

text \<open>
  The request runs between reading the row and writing it, so other transactions may come in
  between. SQLAlchemy writes the attributes whose value differs from the one that was loaded: \<open>changed\<close>
  of the loaded value, the new value and the stored value.
\<close>

definition changed :: "'a \<Rightarrow> 'a \<Rightarrow> 'a \<Rightarrow> 'a" where
  "changed loaded new stored = (if new = loaded then stored else new)"

definition record_agent_test :: "agent \<Rightarrow> connection_test_result \<Rightarrow> db \<Rightarrow> (exn + connection_test_result) \<times> db" where
  "record_agent_test loaded r d =
     transact d
       (case row_get a_id (a_id loaded) (agents d) of
          None \<Rightarrow> Inl (PyError ''StaleDataError'')
        | Some _ \<Rightarrow>
            Inr (d\<lparr> agents := row_upd a_id (a_id loaded) (\<lambda>a. a\<lparr>
                   a_status := changed (a_status loaded) (health_value (status_after r)) (a_status a),
                   a_last_error := changed (a_last_error loaded) (error_after r) (a_last_error a),
                   a_last_checked_at := changed (a_last_checked_at loaded) (Some (tr_checked_at r)) (a_last_checked_at a),
                   a_last_latency_ms := changed (a_last_latency_ms loaded) (tr_latency_ms r) (a_last_latency_ms a) \<rparr>) (agents d) \<rparr>, r))"

definition record_service_test :: "service \<Rightarrow> connection_test_result \<Rightarrow> db \<Rightarrow> (exn + connection_test_result) \<times> db" where
  "record_service_test loaded r d =
     transact d
       (case row_get s_id (s_id loaded) (services d) of
          None \<Rightarrow> Inl (PyError ''StaleDataError'')
        | Some _ \<Rightarrow>
            Inr (d\<lparr> services := row_upd s_id (s_id loaded) (\<lambda>s. s\<lparr>
                   s_status := changed (s_status loaded) (health_value (status_after r)) (s_status s),
                   s_last_error := changed (s_last_error loaded) (error_after r) (s_last_error s),
                   s_last_checked_at := changed (s_last_checked_at loaded) (Some (tr_checked_at r)) (s_last_checked_at s),
                   s_last_latency_ms := changed (s_last_latency_ms loaded) (tr_latency_ms r) (s_last_latency_ms s) \<rparr>) (services d) \<rparr>, r))"

text \<open>
  The two handlers. \<open>meanwhile\<close> is what other transactions do to the database while the request
  runs; the Runner's row is read with the Agent's.
\<close>

definition test_agent_connection ::
  "lib \<Rightarrow> exec_env \<Rightarrow> prober \<Rightarrow> int \<Rightarrow> time \<Rightarrow> (db \<Rightarrow> db) \<Rightarrow> string \<Rightarrow> db \<Rightarrow> (exn + connection_test_result) \<times> db" where
  "test_agent_connection L X probe offline now meanwhile agent_id d =
     (case get_agent agent_id d of
        Inl e \<Rightarrow> (Inl e, d)
      | Inr a \<Rightarrow>
          (case probe_agent L X probe offline now a d of
             Inl e \<Rightarrow> (Inl e, meanwhile d)
           | Inr r \<Rightarrow> record_agent_test a r (meanwhile d)))"

definition test_service_connection ::
  "lib \<Rightarrow> exec_env \<Rightarrow> prober \<Rightarrow> time \<Rightarrow> (db \<Rightarrow> db) \<Rightarrow> string \<Rightarrow> db \<Rightarrow> (exn + connection_test_result) \<times> db" where
  "test_service_connection L X probe now meanwhile service_id d =
     (case get_service service_id d of
        Inl e \<Rightarrow> (Inl e, d)
      | Inr s \<Rightarrow>
          (case probe_service L X probe now s d of
             Inl e \<Rightarrow> (Inl e, meanwhile d)
           | Inr r \<Rightarrow> record_service_test s r (meanwhile d)))"

end
