(* ===== verification/RegistryProps.thy ===== *)
theory RegistryProps
  imports Registry WorkflowsProps RunnersProps
begin

text \<open>
  What the registry keeps: rows are unique, names are unique up to case, the references between the
  rows hold, and every stored configuration is one the validation admits. The deletion guards keep
  every resource a stored graph names.
\<close>

section \<open>Tables with unique names\<close>

definition named_ok :: "('r \<Rightarrow> 'k) \<Rightarrow> ('r \<Rightarrow> 'n) \<Rightarrow> 'r list \<Rightarrow> bool" where
  "named_ok key nm rs \<longleftrightarrow> distinct (map key rs) \<and> distinct (map nm rs)"

lemma distinct_row_upd:
  assumes "distinct (map nm rs)" "distinct (map key rs)"
    and "\<And>u. u \<in> set rs \<Longrightarrow> key u \<noteq> k \<Longrightarrow> nm u \<noteq> nm r"
  shows "distinct (map nm (row_upd key k (\<lambda>_. r) rs))"
  using assms
proof (induction rs)
  case (Cons x rs)
  show ?case
  proof (cases "key x = k")
    case True
    then have absent: "k \<notin> key ` set rs" using Cons.prems(2) by auto
    then have "nm u \<noteq> nm r" if "u \<in> set rs" for u using Cons.prems(3) [of u] that by auto
    then have "nm r \<notin> nm ` set rs" by force
    then show ?thesis using True Cons.prems(1) row_upd_absent [OF absent] by (simp add: row_upd_def)
  next
    case False
    have "nm x \<noteq> nm (if key u = k then r else u)" if "u \<in> set rs" for u
      using Cons.prems(1) Cons.prems(3) [of x] False that by auto
    then have "nm x \<notin> set (map nm (row_upd key k (\<lambda>_. r) rs))" by (auto simp: row_upd_def)
    moreover have "distinct (map nm (row_upd key k (\<lambda>_. r) rs))"
      using Cons.prems by (intro Cons.IH) auto
    ultimately show ?thesis using False by (simp add: row_upd_def)
  qed
qed (simp add: row_upd_def)

text \<open>
  A table of registry rows: ids and names are unique, the ids are among those issued, every row is
  valid.
\<close>

definition table_ok :: "string set \<Rightarrow> ('r \<Rightarrow> string) \<Rightarrow> ('r \<Rightarrow> 'n) \<Rightarrow> ('r \<Rightarrow> bool) \<Rightarrow> 'r list \<Rightarrow> bool" where
  "table_ok A key nm P rs \<longleftrightarrow> named_ok key nm rs \<and> key ` set rs \<subseteq> A \<and> (\<forall>r\<in>set rs. P r)"

lemma table_insert:
  assumes "table_ok A key nm P rs" "key r \<notin> A" "\<forall>u\<in>set rs. nm u \<noteq> nm r" "P r"
  shows "table_ok (insert (key r) A) key nm P (rs @ [r])"
proof -
  have "nm r \<notin> nm ` set rs" using assms(3) by force
  moreover have "key r \<notin> key ` set rs" using assms(1,2) by (auto simp: table_ok_def)
  ultimately show ?thesis using assms(1,4) by (auto simp: table_ok_def named_ok_def)
qed

lemma table_mono: "table_ok A key nm P rs \<Longrightarrow> A \<subseteq> B \<Longrightarrow> (\<And>r. r \<in> set rs \<Longrightarrow> P r \<Longrightarrow> Q r) \<Longrightarrow> table_ok B key nm Q rs"
  by (auto simp: table_ok_def)

lemma table_grow: "table_ok A key nm P rs \<Longrightarrow> (\<And>r. P r \<Longrightarrow> Q r) \<Longrightarrow> table_ok (insert k A) key nm Q rs"
  by (auto simp: table_ok_def)

lemma table_filter: "table_ok A key nm P rs \<Longrightarrow> table_ok A key nm P (filter F rs)"
  by (auto simp: table_ok_def named_ok_def distinct_map_filter)

lemma table_replace:
  assumes "table_ok A key nm P rs" "key r = k" "\<And>u. u \<in> set rs \<Longrightarrow> key u \<noteq> k \<Longrightarrow> nm u \<noteq> nm r" "P r"
  shows "table_ok A key nm P (row_upd key k (\<lambda>_. r) rs)"
proof -
  have "map key (row_upd key k (\<lambda>_. r) rs) = map key rs" using assms(2) by (simp add: row_upd_def)
  moreover from this have "key ` set (row_upd key k (\<lambda>_. r) rs) = key ` set rs" by (metis set_map)
  moreover have "\<forall>u\<in>set (row_upd key k (\<lambda>_. r) rs). P u" using assms(1,4) by (auto simp: table_ok_def row_upd_def)
  ultimately show ?thesis
    using assms(1,3) distinct_row_upd [of nm rs key k r] by (simp add: table_ok_def named_ok_def)
qed

lemma table_touch:
  assumes "table_ok A key nm P rs" "\<And>r. key (f r) = key r" "\<And>r. nm (f r) = nm r" "\<And>r. P r \<Longrightarrow> P (f r)"
  shows "table_ok A key nm P (row_upd key k f rs)"
proof -
  have "key ` set (row_upd key k f rs) = key ` set rs" by (rule image_row_upd) (rule assms(2))
  with assms show ?thesis by (auto simp: table_ok_def named_ok_def map_row_upd) (auto simp: row_upd_def)
qed

lemma row_upd_keys: "key r' = k \<Longrightarrow> key ` set (row_upd key k (\<lambda>_. r') rs) = key ` set rs"
proof -
  assume "key r' = k"
  then have "map key (row_upd key k (\<lambda>_. r') rs) = map key rs" by (simp add: row_upd_def)
  then show ?thesis by (metis set_map)
qed

lemma name_free_Inr:
  "name_free key name_of name cur rs = Inr u \<longleftrightarrow>
     (\<forall>r\<in>set rs. lower (name_of r) = lower name \<longrightarrow> \<not> blank cur \<and> Some (key r) = cur)"
  by (auto simp: name_free_def list_ex_iff)

section \<open>Valid configurations\<close>

definition url_fixed :: "string option \<Rightarrow> bool" where
  "url_fixed u \<longleftrightarrow> (\<forall>e. u = Some e \<longrightarrow> rstrip_char CHR ''/'' e = e)"

text \<open>The URL is one the policy accepted, without its trailing slashes.\<close>

definition url_accepted :: "lib \<Rightarrow> bool \<Rightarrow> string \<Rightarrow> bool" where
  "url_accepted L allow u \<longleftrightarrow> (\<exists>v. validate_http_url L allow v = Inr u)"

definition optional_url_ok :: "lib \<Rightarrow> bool \<Rightarrow> string option \<Rightarrow> bool" where
  "optional_url_ok L allow u \<longleftrightarrow> blank u \<or> (\<exists>e. u = Some e \<and> url_accepted L allow e)"

definition no_secrets :: "dict \<Rightarrow> dict \<Rightarrow> bool" where
  "no_secrets headers metadata \<longleftrightarrow>
     (\<forall>k\<in>set (map fst headers). lower k \<notin> set SENSITIVE_HEADER_NAMES) \<and> metadata_clean (JObj metadata)"

definition agent_config_ok :: "lib \<Rightarrow> bool \<Rightarrow> agent \<Rightarrow> bool" where
  "agent_config_ok L allow a \<longleftrightarrow>
     (\<exists>c. connector_of (a_connector_type a) = Inr c
        \<and> (c = AC_HTTP \<longrightarrow> (\<exists>e. a_endpoint a = Some e \<and> url_accepted L allow e) \<and> optional_url_ok L allow (a_health_check_url a))
        \<and> (c \<noteq> AC_HTTP \<longrightarrow> blank (a_health_check_url a))
        \<and> (c = AC_CODEX \<longrightarrow> \<not> blank (a_runner_id a)))
     \<and> no_secrets (a_headers_json a) (a_metadata_json a)
     \<and> lib_check_schema L (JObj (a_input_schema_json a)) \<and> lib_check_schema L (JObj (a_output_schema_json a))
     \<and> url_fixed (a_endpoint a) \<and> url_fixed (a_health_check_url a)"

definition service_config_ok :: "lib \<Rightarrow> bool \<Rightarrow> service \<Rightarrow> bool" where
  "service_config_ok L allow s \<longleftrightarrow>
     url_accepted L allow (s_base_url s) \<and> optional_url_ok L allow (s_health_check_url s) \<and> metadata_clean (JObj (s_metadata_json s))"

definition action_config_ok :: "lib \<Rightarrow> service_action \<Rightarrow> bool" where
  "action_config_ok L x \<longleftrightarrow>
     (\<exists>v. normalize_action_path L v = Inr (sa_path x))
     \<and> no_secrets (sa_headers_json x) (sa_metadata_json x)
     \<and> lib_check_schema L (JObj (sa_query_schema_json x)) \<and> lib_check_schema L (JObj (sa_path_schema_json x))
     \<and> lib_check_schema L (JObj (sa_input_schema_json x)) \<and> lib_check_schema L (JObj (sa_output_schema_json x))"

lemma rstrip_idem: "rstrip_char c (rstrip_char c s) = rstrip_char c s"
  by (simp add: rstrip_char_def dropWhile_idem)

lemma validate_http_url_value: "validate_http_url L allow v = Inr u \<Longrightarrow> u = rstrip_char CHR ''/'' v"
  by (auto simp: validate_http_url_def outcome split: if_splits sum.splits prod.splits)

lemma stripped_url_fixed: "url_fixed (stripped_url u)"
  by (auto simp: url_fixed_def stripped_url_def rstrip_idem)

lemma check_url_accepted:
  "check_url L allow u = Inr () \<longleftrightarrow> blank u \<or> (\<exists>v. u = Some v \<and> validate_http_url L allow v = Inr (rstrip_char CHR ''/'' v))"
  by (auto simp: check_url_def blank_def outcome dest: validate_http_url_value split: option.splits)

lemma no_secrets_iff:
  "no_secrets h m \<longleftrightarrow> validate_headers h = Inr h \<and> validate_metadata m = Inr m"
  by (auto simp: no_secrets_def validate_headers_def validate_metadata_def)

lemmas config_checks = validate_headers_def validate_metadata_def validate_json_schema_def no_secrets_def

lemma agent_config_created:
  assumes "validate_agent_config L allow c e h hs r x i out m = Inr ()"
    "connector_of (a_connector_type a) = Inr c" "a_endpoint a = stripped_url e" "a_health_check_url a = stripped_url h"
    "a_headers_json a = hs" "a_runner_id a = r" "a_input_schema_json a = i" "a_output_schema_json a = out" "a_metadata_json a = m"
  shows "agent_config_ok L allow a"
  using assms
  by (auto simp: agent_config_ok_def validate_agent_config_def outcome check_url_accepted config_checks
      stripped_url_def optional_url_ok_def url_accepted_def blank_def url_fixed_def rstrip_idem split: if_splits)

lemma agent_config_edited:
  assumes "validate_agent_config L allow c (a_endpoint a) (a_health_check_url a) (a_headers_json a) (a_runner_id a)
      (a_executable a) (a_input_schema_json a) (a_output_schema_json a) (a_metadata_json a) = Inr ()"
    "connector_of (a_connector_type a) = Inr c" "url_fixed (a_endpoint a)" "url_fixed (a_health_check_url a)"
  shows "agent_config_ok L allow a"
proof -
  have "stripped_url u = u" if "url_fixed u" "u \<noteq> Some []" for u
    using that by (cases u) (auto simp: stripped_url_def url_fixed_def blank_def)
  with assms show ?thesis
    by (auto simp: agent_config_ok_def validate_agent_config_def outcome check_url_accepted config_checks
        optional_url_ok_def url_accepted_def blank_def url_fixed_def split: if_splits)
qed

section \<open>The invariant of the registry\<close>

definition agent_valid :: "lib \<Rightarrow> bool \<Rightarrow> string set \<Rightarrow> agent \<Rightarrow> bool" where
  "agent_valid L allow creds a \<longleftrightarrow> agent_config_ok L allow a \<and> set_option (a_credential_id a) \<subseteq> creds"

definition service_valid :: "lib \<Rightarrow> bool \<Rightarrow> string set \<Rightarrow> service \<Rightarrow> bool" where
  "service_valid L allow creds s \<longleftrightarrow> service_config_ok L allow s \<and> set_option (s_credential_id s) \<subseteq> creds"

definition action_valid :: "lib \<Rightarrow> string set \<Rightarrow> service_action \<Rightarrow> bool" where
  "action_valid L svs x \<longleftrightarrow> action_config_ok L x \<and> sa_service_id x \<in> svs"

definition registry_ok :: "lib \<Rightarrow> bool \<Rightarrow> db \<Rightarrow> bool" where
  "registry_ok L allow d \<longleftrightarrow>
     table_ok (issued L d) a_id (\<lambda>a. lower (a_name a)) (agent_valid L allow (cd_id ` set (credentials d))) (agents d)
     \<and> table_ok (issued L d) s_id (\<lambda>s. lower (s_name s)) (service_valid L allow (cd_id ` set (credentials d))) (services d)
     \<and> table_ok (issued L d) sa_id (\<lambda>x. (sa_service_id x, lower (sa_name x))) (action_valid L (s_id ` set (services d))) (service_actions d)
     \<and> table_ok (issued L d) cd_id (\<lambda>c. lower (cd_name c)) (\<lambda>_. True) (credentials d)"

lemma valid_mono:
  "agent_valid L allow C a \<Longrightarrow> C \<subseteq> C' \<Longrightarrow> agent_valid L allow C' a"
  "service_valid L allow C s \<Longrightarrow> C \<subseteq> C' \<Longrightarrow> service_valid L allow C' s"
  "action_valid L C x \<Longrightarrow> C \<subseteq> C' \<Longrightarrow> action_valid L C' x"
  by (auto simp: agent_valid_def service_valid_def action_valid_def)

text \<open>Nothing but the registry and the supply of identifiers changes.\<close>

definition registry_frame :: "db \<Rightarrow> db \<Rightarrow> bool" where
  "registry_frame d d' \<longleftrightarrow>
     same_exec d d' \<and> workflows d' = workflows d \<and> workflow_versions d' = workflow_versions d \<and> runners d' = runners d"

text \<open>
  Every Agent, Service and action a stored graph names is registered, and the action belongs to the
  Service the same node names.
\<close>

definition node_registered :: "db \<Rightarrow> dict \<Rightarrow> bool" where
  "node_registered d n \<longleftrightarrow>
     (\<forall>k. node_references n ''agent'' k \<longrightarrow> k \<in> a_id ` set (agents d))
     \<and> (\<forall>k. node_references n ''service'' k \<longrightarrow> k \<in> s_id ` set (services d))
     \<and> (\<forall>k. node_references n ''service_action'' k \<longrightarrow>
           (\<exists>j. (k, j) \<in> (\<lambda>x. (sa_id x, sa_service_id x)) ` set (service_actions d) \<and> node_references n ''service'' j))"

definition stored_graphs :: "db \<Rightarrow> json set" where
  "stored_graphs d = wf_draft_graph_json ` set (workflows d) \<union> wv_graph_json ` set (workflow_versions d)"

definition references_closed :: "db \<Rightarrow> bool" where
  "references_closed d \<longleftrightarrow> (\<forall>graph\<in>stored_graphs d. \<forall>n\<in>set (json_nodes graph). node_registered d n)"

definition ids_grow :: "db \<Rightarrow> db \<Rightarrow> bool" where
  "ids_grow d d' \<longleftrightarrow> a_id ` set (agents d) \<subseteq> a_id ` set (agents d') \<and> s_id ` set (services d) \<subseteq> s_id ` set (services d')
     \<and> (\<lambda>x. (sa_id x, sa_service_id x)) ` set (service_actions d) \<subseteq> (\<lambda>x. (sa_id x, sa_service_id x)) ` set (service_actions d')"

lemma node_registered_grow: "node_registered d n \<Longrightarrow> ids_grow d d' \<Longrightarrow> node_registered d' n"
  unfolding node_registered_def ids_grow_def by (elim conjE, intro conjI allI impI) (meson subsetD)+

lemma frame_graphs: "registry_frame d d' \<Longrightarrow> stored_graphs d' = stored_graphs d"
  by (simp add: registry_frame_def stored_graphs_def)

lemma closed_grow:
  assumes "references_closed d" "registry_frame d d'" "ids_grow d d'"
  shows "references_closed d'"
  unfolding references_closed_def frame_graphs [OF assms(2)]
proof (intro ballI)
  fix graph n assume "graph \<in> stored_graphs d" "n \<in> set (json_nodes graph)"
  with assms(1) have "node_registered d n" unfolding references_closed_def by (elim ballE) auto
  then show "node_registered d' n" by (rule node_registered_grow [OF _ assms(3)])
qed

definition registry_keeps :: "lib \<Rightarrow> bool \<Rightarrow> db \<Rightarrow> db \<Rightarrow> bool" where
  "registry_keeps L allow d d' \<longleftrightarrow> registry_frame d d'
     \<and> (registry_ok L allow d \<longrightarrow> registry_ok L allow d' \<and> (references_closed d \<longrightarrow> references_closed d'))"

lemma keeps_refl [simp]: "registry_keeps L allow d d"
  by (simp add: registry_keeps_def registry_frame_def same_exec_def)

lemma keeps_commit:
  assumes "new_tasks d = []" "\<And>d' x. body = Inr (d', x) \<Longrightarrow> registry_keeps L allow d d'"
  shows "registry_keeps L allow d (snd (transact d body))"
proof (cases body)
  case (Inr y)
  obtain d' x where y: "y = (d', x)" by (cases y)
  with assms(2) [of d' x] Inr have "registry_keeps L allow d d'" by simp
  moreover from this assms(1) have "new_tasks d' = []" by (simp add: registry_keeps_def registry_frame_def same_exec_def)
  ultimately show ?thesis using Inr y by (simp add: transact_no_new)
qed (simp add: transact_Inl)

lemma keepsI:
  assumes "registry_frame d d'" "registry_ok L allow d \<Longrightarrow> registry_ok L allow d'" "registry_ok L allow d \<Longrightarrow> ids_grow d d'"
  shows "registry_keeps L allow d d'"
  using assms closed_grow by (simp add: registry_keeps_def)

lemma keeps_deleteI:
  assumes "registry_frame d d'" "registry_ok L allow d \<Longrightarrow> registry_ok L allow d'" "references_closed d \<Longrightarrow> references_closed d'"
  shows "registry_keeps L allow d d'"
  using assms by (simp add: registry_keeps_def)

lemma keeps_under_ok:
  assumes "registry_frame d d'" "registry_ok L allow d \<Longrightarrow> registry_keeps L allow d d'"
  shows "registry_keeps L allow d d'"
  using assms by (simp add: registry_keeps_def)

lemmas frame_defs = registry_frame_def same_exec_def

lemma row_get_member: "row_get key k rs = Some r \<Longrightarrow> r \<in> set rs \<and> key r = k"
  using row_get_in row_get_key by fast

text \<open>Inserting a row with a fresh id.\<close>

lemma issued_next: "issued L (d\<lparr> uuids := Suc (uuids d), agents := as, services := ss, service_actions := xs, credentials := cs \<rparr>)
   = insert (lib_uuid4 L (uuids d)) (issued L d)"
  by (simp add: issued_def lessThan_Suc)

lemma keeps_insert:
  assumes "inj (lib_uuid4 L)"
    and "d' = d\<lparr> uuids := Suc (uuids d), agents := agents d @ as, services := services d @ ss, service_actions := service_actions d @ xs,
            credentials := credentials d @ cs \<rparr>"
    and "(\<exists>a. (as, ss, xs, cs) = ([a], [], [], []) \<and> a_id a = lib_uuid4 L (uuids d) \<and> (\<forall>u\<in>set (agents d). lower (a_name u) \<noteq> lower (a_name a))
             \<and> agent_valid L allow (cd_id ` set (credentials d)) a)
       \<or> (\<exists>s. (as, ss, xs, cs) = ([], [s], [], []) \<and> s_id s = lib_uuid4 L (uuids d) \<and> (\<forall>u\<in>set (services d). lower (s_name u) \<noteq> lower (s_name s))
             \<and> service_valid L allow (cd_id ` set (credentials d)) s)
       \<or> (\<exists>x. (as, ss, xs, cs) = ([], [], [x], []) \<and> sa_id x = lib_uuid4 L (uuids d)
             \<and> (\<forall>u\<in>set (service_actions d). (sa_service_id u, lower (sa_name u)) \<noteq> (sa_service_id x, lower (sa_name x)))
             \<and> action_valid L (s_id ` set (services d)) x)
       \<or> (\<exists>c. (as, ss, xs, cs) = ([], [], [], [c]) \<and> cd_id c = lib_uuid4 L (uuids d) \<and> (\<forall>u\<in>set (credentials d). lower (cd_name u) \<noteq> lower (cd_name c)))"
  shows "registry_keeps L allow d d'"
proof (rule keepsI)
  show "registry_frame d d'" using assms(2) by (simp add: frame_defs)
  show "ids_grow d d'" using assms(2) by (auto simp: ids_grow_def)
  assume ok: "registry_ok L allow d"
  let ?k = "lib_uuid4 L (uuids d)"
  have new: "?k \<notin> issued L d" by (rule issued_fresh [OF assms(1) order_refl])
  have ids: "issued L d' = insert ?k (issued L d)" unfolding assms(2) by (rule issued_next)
  from assms(3) show "registry_ok L allow d'"
  proof (elim disjE exE conjE)
    fix a assume "(as, ss, xs, cs) = ([a], [], [], [])" "a_id a = ?k" "\<forall>u\<in>set (agents d). lower (a_name u) \<noteq> lower (a_name a)"
      "agent_valid L allow (cd_id ` set (credentials d)) a"
    with ok new ids show ?thesis
      using table_insert [of "issued L d" a_id "\<lambda>a. lower (a_name a)" _ "agents d" a]
      by (auto simp: registry_ok_def assms(2) intro: table_grow)
  next
    fix s assume "(as, ss, xs, cs) = ([], [s], [], [])" "s_id s = ?k" "\<forall>u\<in>set (services d). lower (s_name u) \<noteq> lower (s_name s)"
      "service_valid L allow (cd_id ` set (credentials d)) s"
    with ok new ids show ?thesis
      using table_insert [of "issued L d" s_id "\<lambda>s. lower (s_name s)" _ "services d" s]
      by (auto simp: registry_ok_def assms(2) intro: table_grow valid_mono)
  next
    fix x assume "(as, ss, xs, cs) = ([], [], [x], [])" "sa_id x = ?k"
      "\<forall>u\<in>set (service_actions d). (sa_service_id u, lower (sa_name u)) \<noteq> (sa_service_id x, lower (sa_name x))"
      "action_valid L (s_id ` set (services d)) x"
    with ok new ids show ?thesis
      using table_insert [of "issued L d" sa_id "\<lambda>x. (sa_service_id x, lower (sa_name x))" _ "service_actions d" x]
      by (auto simp: registry_ok_def assms(2) intro: table_grow)
  next
    fix c assume "(as, ss, xs, cs) = ([], [], [], [c])" "cd_id c = ?k" "\<forall>u\<in>set (credentials d). lower (cd_name u) \<noteq> lower (cd_name c)"
    with ok new ids show ?thesis
      using table_insert [of "issued L d" cd_id "\<lambda>c. lower (cd_name c)" "\<lambda>_. True" "credentials d" c]
      by (auto simp: registry_ok_def assms(2) intro: table_grow valid_mono)
  qed
qed

text \<open>Replacing a row by one with the same id.\<close>

lemma keeps_replace_agent:
  assumes "a_id a = k" "\<forall>u\<in>set (agents d). a_id u \<noteq> k \<longrightarrow> lower (a_name u) \<noteq> lower (a_name a)"
    "registry_ok L allow d \<Longrightarrow> agent_valid L allow (cd_id ` set (credentials d)) a"
  shows "registry_keeps L allow d (d\<lparr> agents := row_upd a_id k (\<lambda>_. a) (agents d) \<rparr>)"
proof (rule keepsI)
  assume ok: "registry_ok L allow d"
  have "table_ok (issued L d) a_id (\<lambda>a. lower (a_name a)) (agent_valid L allow (cd_id ` set (credentials d))) (row_upd a_id k (\<lambda>_. a) (agents d))"
    by (rule table_replace) (use ok assms in \<open>auto simp: registry_ok_def\<close>)
  with ok show "registry_ok L allow (d\<lparr> agents := row_upd a_id k (\<lambda>_. a) (agents d) \<rparr>)" by (simp add: registry_ok_def issued_def)
qed (use assms(1) in \<open>simp_all add: frame_defs ids_grow_def row_upd_keys\<close>)

lemma keeps_replace_service:
  assumes "s_id s = k" "\<forall>u\<in>set (services d). s_id u \<noteq> k \<longrightarrow> lower (s_name u) \<noteq> lower (s_name s)"
    "registry_ok L allow d \<Longrightarrow> service_valid L allow (cd_id ` set (credentials d)) s"
  shows "registry_keeps L allow d (d\<lparr> services := row_upd s_id k (\<lambda>_. s) (services d) \<rparr>)"
proof (rule keepsI)
  assume ok: "registry_ok L allow d"
  have "table_ok (issued L d) s_id (\<lambda>s. lower (s_name s)) (service_valid L allow (cd_id ` set (credentials d))) (row_upd s_id k (\<lambda>_. s) (services d))"
    by (rule table_replace) (use ok assms in \<open>auto simp: registry_ok_def\<close>)
  with ok show "registry_ok L allow (d\<lparr> services := row_upd s_id k (\<lambda>_. s) (services d) \<rparr>)"
    using assms(1) by (simp add: registry_ok_def issued_def row_upd_keys)
qed (use assms(1) in \<open>simp_all add: frame_defs ids_grow_def row_upd_keys\<close>)

lemma keeps_replace_action:
  assumes "sa_id x = k" "\<forall>u\<in>set (service_actions d). sa_id u = k \<longrightarrow> sa_service_id u = sa_service_id x"
    "\<forall>u\<in>set (service_actions d). sa_id u \<noteq> k \<longrightarrow> (sa_service_id u, lower (sa_name u)) \<noteq> (sa_service_id x, lower (sa_name x))"
    "registry_ok L allow d \<Longrightarrow> action_valid L (s_id ` set (services d)) x"
  shows "registry_keeps L allow d (d\<lparr> service_actions := row_upd sa_id k (\<lambda>_. x) (service_actions d) \<rparr>)"
proof (rule keepsI)
  assume ok: "registry_ok L allow d"
  have "table_ok (issued L d) sa_id (\<lambda>x. (sa_service_id x, lower (sa_name x))) (action_valid L (s_id ` set (services d)))
      (row_upd sa_id k (\<lambda>_. x) (service_actions d))"
    by (rule table_replace) (use ok assms in \<open>auto simp: registry_ok_def\<close>)
  with ok show "registry_ok L allow (d\<lparr> service_actions := row_upd sa_id k (\<lambda>_. x) (service_actions d) \<rparr>)"
    by (simp add: registry_ok_def issued_def)
next
  have "map (\<lambda>x. (sa_id x, sa_service_id x)) (row_upd sa_id k (\<lambda>_. x) (service_actions d)) = map (\<lambda>x. (sa_id x, sa_service_id x)) (service_actions d)"
    using assms(1,2) by (simp add: row_upd_def)
  then have "(\<lambda>x. (sa_id x, sa_service_id x)) ` set (row_upd sa_id k (\<lambda>_. x) (service_actions d)) = (\<lambda>x. (sa_id x, sa_service_id x)) ` set (service_actions d)"
    by (simp only: set_map [symmetric])
  then show "ids_grow d (d\<lparr> service_actions := row_upd sa_id k (\<lambda>_. x) (service_actions d) \<rparr>)" by (simp add: ids_grow_def)
qed (simp add: frame_defs)

lemma keeps_replace_credential:
  assumes "cd_id c = k" "\<forall>u\<in>set (credentials d). cd_id u \<noteq> k \<longrightarrow> lower (cd_name u) \<noteq> lower (cd_name c)"
  shows "registry_keeps L allow d (d\<lparr> credentials := row_upd cd_id k (\<lambda>_. c) (credentials d) \<rparr>)"
proof (rule keepsI)
  assume ok: "registry_ok L allow d"
  have "table_ok (issued L d) cd_id (\<lambda>c. lower (cd_name c)) (\<lambda>_. True) (row_upd cd_id k (\<lambda>_. c) (credentials d))"
    by (rule table_replace) (use ok assms in \<open>auto simp: registry_ok_def\<close>)
  with ok show "registry_ok L allow (d\<lparr> credentials := row_upd cd_id k (\<lambda>_. c) (credentials d) \<rparr>)"
    using assms(1) by (simp add: registry_ok_def issued_def row_upd_keys)
qed (simp_all add: frame_defs ids_grow_def)

section \<open>Every operation keeps the invariant\<close>

lemma credential_found:
  assumes "get_credential_or_none k d = Inr c"
  shows "set_option (map_option cd_id c) \<subseteq> cd_id ` set (credentials d)"
  using assms by (auto simp: get_credential_or_none_def get_credential_row_def outcome dest!: row_get_member split: option.splits)

lemma service_name_Inr: "ensure_service_name n cur d = Inr u \<longleftrightarrow>
    (\<forall>s\<in>set (services d). lower (s_name s) = lower n \<longrightarrow> \<not> blank cur \<and> Some (s_id s) = cur)"
  by (simp add: ensure_service_name_def name_free_Inr)

lemma agent_name_Inr: "ensure_agent_name n cur d = Inr u \<longleftrightarrow>
    (\<forall>a\<in>set (agents d). lower (a_name a) = lower n \<longrightarrow> \<not> blank cur \<and> Some (a_id a) = cur)"
  by (simp add: ensure_agent_name_def name_free_Inr)

lemma credential_name_Inr: "ensure_credential_name n cur d = Inr u \<longleftrightarrow>
    (\<forall>c\<in>set (credentials d). lower (cd_name c) = lower n \<longrightarrow> \<not> blank cur \<and> Some (cd_id c) = cur)"
  by (simp add: ensure_credential_name_def name_free_Inr)

lemma action_name_Inr: "ensure_action_name sid n cur d = Inr u \<longleftrightarrow>
    (\<forall>x\<in>set (service_actions d). sa_service_id x = sid \<longrightarrow> lower (sa_name x) = lower n \<longrightarrow> \<not> blank cur \<and> Some (sa_id x) = cur)"
  by (auto simp: ensure_action_name_def name_free_Inr actions_of_def)

lemmas names_Inr = service_name_Inr agent_name_Inr credential_name_Inr action_name_Inr

text \<open>Credentials.\<close>

lemma keeps_create_credential:
  assumes "inj (lib_uuid4 L)" "new_tasks d = []"
  shows "registry_keeps L allow d (snd (create_credential L encrypt p d))"
  unfolding create_credential_def snd_after_commit
proof (rule keeps_commit [OF assms(2)])
  fix d' x assume "ebind (ensure_credential_name (cc_name p) None d) (\<lambda>_. ebind (encrypt (secret_payload p)) (\<lambda>cipher.
      let (k, d) = uuid4 L d; c = \<lparr>cd_id = k, cd_name = cc_name p, cd_type = credential_type_value (cc_type p), cd_encrypted_payload = cipher\<rparr>
      in Inr (d\<lparr>credentials := credentials d @ [c]\<rparr>, k))) = Inr (d', x)"
  then obtain c where "d' = d\<lparr> uuids := Suc (uuids d), credentials := credentials d @ [c] \<rparr>" "cd_id c = lib_uuid4 L (uuids d)"
    "\<forall>u\<in>set (credentials d). lower (cd_name u) \<noteq> lower (cd_name c)"
    by (auto simp: outcome uuid4_def names_Inr blank_def)
  then show "registry_keeps L allow d d'"
    by (intro keeps_insert [OF assms(1), where as = "[]" and ss = "[]" and xs = "[]" and cs = "[c]"]) auto
qed

lemma replaced_secret_keeps:
  assumes "(case secret of None \<Rightarrow> Inr c | Some s \<Rightarrow> ebind (encrypt s) (\<lambda>cipher. Inr (c\<lparr> cd_encrypted_payload := cipher \<rparr>))) = Inr c'"
  shows "cd_id c' = cd_id c" "cd_name c' = cd_name c" "cd_type c' = cd_type c"
  using assms by (auto simp: outcome split: option.splits)

lemma keeps_update_credential:
  assumes "new_tasks d = []"
  shows "registry_keeps L allow d (snd (update_credential encrypt k p d))"
  unfolding update_credential_def snd_after_commit
proof (rule keeps_commit [OF assms], goal_cases)
  case (1 d' x)
  then obtain c c1 c2 secret where c: "get_credential_row k d = Inr c"
    and c1: "(case field_value (cu_name p) of None \<Rightarrow> Inr c
        | Some n \<Rightarrow> ebind (ensure_credential_name n (Some (cd_id c)) d) (\<lambda>_. Inr (c\<lparr> cd_name := n \<rparr>))) = Inr c1"
    and c2: "(case secret of None \<Rightarrow> Inr c1 | Some s \<Rightarrow> ebind (encrypt s) (\<lambda>cipher. Inr (c1\<lparr> cd_encrypted_payload := cipher \<rparr>))) = Inr c2"
    and d': "d' = d\<lparr> credentials := row_upd cd_id k (\<lambda>_. c2) (credentials d) \<rparr>"
    unfolding ebind_eq_Inr by fastforce
  from c have row: "c \<in> set (credentials d)" "cd_id c = k"
    by (auto simp: get_credential_row_def dest: row_get_member split: option.splits)
  have id: "cd_id c2 = k" using c1 row replaced_secret_keeps [OF c2] by (auto simp: outcome split: option.splits)
  have "registry_keeps L allow d (d\<lparr> credentials := row_upd cd_id k (\<lambda>_. c2) (credentials d) \<rparr>)"
    if "named_ok cd_id (\<lambda>c. lower (cd_name c)) (credentials d)"
  proof (rule keeps_replace_credential [OF id], intro ballI impI)
    fix u assume u: "u \<in> set (credentials d)" "cd_id u \<noteq> k"
    then have "lower (cd_name u) \<noteq> lower (cd_name c)"
      using that row by (auto simp: named_ok_def distinct_map dest: inj_onD)
    then show "lower (cd_name u) \<noteq> lower (cd_name c2)"
      using c1 u row replaced_secret_keeps [OF c2] by (auto simp: outcome names_Inr split: option.splits)
  qed
  moreover have "named_ok cd_id (\<lambda>c. lower (cd_name c)) (credentials d)" if "registry_ok L allow d"
    using that by (simp add: registry_ok_def table_ok_def)
  ultimately show ?case
    unfolding d' by (rule_tac keeps_under_ok) (simp_all add: frame_defs)
qed

lemma keeps_delete_credential:
  assumes "new_tasks d = []"
  shows "registry_keeps L allow d (snd (delete_credential k d))"
  unfolding delete_credential_def
proof (rule keeps_commit [OF assms])
  fix d' x assume "ebind (get_credential_row k d) (\<lambda>c. if credential_in_use k d then Inl (RelayviaError ''CREDENTIAL_IN_USE'' 409)
      else Inr (d\<lparr> credentials := filter (\<lambda>c. cd_id c \<noteq> k) (credentials d) \<rparr>, ())) = Inr (d', x)"
  then have free: "\<not> credential_in_use k d" and d': "d' = d\<lparr> credentials := filter (\<lambda>c. cd_id c \<noteq> k) (credentials d) \<rparr>"
    by (auto simp: outcome split: if_splits)
  show "registry_keeps L allow d d'"
  proof (rule keepsI)
    assume ok: "registry_ok L allow d"
    have "agent_valid L allow (cd_id ` set (credentials d')) a" if "a \<in> set (agents d)" "agent_valid L allow (cd_id ` set (credentials d)) a" for a
      using that free by (cases "a_credential_id a") (auto simp: agent_valid_def d' credential_in_use_def list_ex_iff)
    moreover have "service_valid L allow (cd_id ` set (credentials d')) s" if "s \<in> set (services d)" "service_valid L allow (cd_id ` set (credentials d)) s" for s
      using that free by (cases "s_credential_id s") (auto simp: service_valid_def d' credential_in_use_def list_ex_iff)
    ultimately show "registry_ok L allow d'"
      using ok unfolding registry_ok_def by (auto simp: d' issued_def intro: table_mono table_filter)
  qed (simp_all add: d' frame_defs ids_grow_def)
qed

text \<open>A resource no stored graph names may go.\<close>

lemma unreferenced_nodes:
  "is_resource_referenced ty k d \<longleftrightarrow> (\<exists>graph\<in>stored_graphs d. \<exists>n\<in>set (json_nodes graph). node_references n ty k)"
  by (auto simp: is_resource_referenced_def list_ex_iff stored_graphs_def)

lemma closed_delete:
  assumes "references_closed d" "registry_frame d d'"
    and "\<And>graph n. graph \<in> stored_graphs d \<Longrightarrow> n \<in> set (json_nodes graph) \<Longrightarrow> node_registered d n \<Longrightarrow> node_registered d' n"
  shows "references_closed d'"
  unfolding references_closed_def frame_graphs [OF assms(2)]
proof (intro ballI)
  fix graph n assume g: "graph \<in> stored_graphs d" "n \<in> set (json_nodes graph)"
  with assms(1) have "node_registered d n" unfolding references_closed_def by (elim ballE) auto
  with g show "node_registered d' n" by (rule assms(3))
qed

text \<open>Agents.\<close>

lemma keeps_create_agent:
  assumes "inj (lib_uuid4 L)" "new_tasks d = []"
  shows "registry_keeps L allow d (snd (create_agent L allow p d))"
  unfolding create_agent_def snd_after_commit
proof (rule keeps_commit [OF assms(2)], goal_cases)
  case (1 d' x)
  then obtain cred where name: "ensure_agent_name (ac_name p) None d = Inr ()"
    and conf: "validate_agent_config L allow (ac_connector_type p) (ac_endpoint p) (ac_health_check_url p) (text_headers (ac_headers p))
           (ac_runner_id p) (ac_executable p) (ac_input_schema p) (ac_output_schema p) (ac_metadata p) = Inr ()"
    and cred: "get_credential_or_none (ac_credential_id p) d = Inr cred"
    and d': "d' = d\<lparr> uuids := Suc (uuids d), agents := agents d @ [new_agent p cred (lib_uuid4 L (uuids d))] \<rparr>"
    by (auto simp: outcome uuid4_def Let_def)
  let ?a = "new_agent p cred (lib_uuid4 L (uuids d))"
  have "connector_of (connector_value c) = Inr c" for c by (cases c) (simp_all add: connector_of_def enum_of_def)
  then have "agent_config_ok L allow ?a" by (intro agent_config_created [OF conf]) (simp_all add: new_agent_def)
  then have "agent_valid L allow (cd_id ` set (credentials d)) ?a"
    using credential_found [OF cred] by (simp add: agent_valid_def new_agent_def)
  moreover have "\<forall>u\<in>set (agents d). lower (a_name u) \<noteq> lower (a_name ?a)"
    using name by (auto simp: names_Inr blank_def new_agent_def)
  moreover have "a_id ?a = lib_uuid4 L (uuids d)" by (simp add: new_agent_def)
  ultimately show ?case
    unfolding d' by (intro keeps_insert [OF assms(1), where as = "[?a]" and ss = "[]" and xs = "[]" and cs = "[]"]) auto
qed

text \<open>What the edits of an update leave alone.\<close>

lemmas edit_defs = edit_before_runner_def edit_after_runner_def edit_after_credential_def reset_agent_health_def set_connector_def
  assign_def assign_some_def Let_def

lemma edits_keep:
  "a_id (edit_before_runner u a) = a_id a" "a_name (edit_before_runner u a) = a_name a"
  "a_id (edit_after_runner u a) = a_id a" "a_name (edit_after_runner u a) = a_name a"
  "a_id (edit_after_credential u a) = a_id a" "a_name (edit_after_credential u a) = a_name a"
  "a_id (reset_agent_health u a) = a_id a" "a_name (reset_agent_health u a) = a_name a"
  "a_credential_id (edit_before_runner u a) = a_credential_id a" "a_credential_id (edit_after_runner u a) = a_credential_id a"
  "a_credential_id (edit_after_credential u a) = a_credential_id a" "a_credential_id (reset_agent_health u a) = a_credential_id a"
  "a_endpoint (edit_after_runner u a) = a_endpoint a" "a_health_check_url (edit_after_runner u a) = a_health_check_url a"
  "a_endpoint (edit_after_credential u a) = a_endpoint a" "a_health_check_url (edit_after_credential u a) = a_health_check_url a"
  by (auto simp: edit_defs split: option.splits)

lemma edit_urls:
  assumes "url_fixed (a_endpoint a)" "url_fixed (a_health_check_url a)"
  shows "url_fixed (a_endpoint (edit_before_runner u a))" "url_fixed (a_health_check_url (edit_before_runner u a))"
  using assms stripped_url_fixed by (auto simp: edit_defs url_fixed_def [of None] split: option.splits)

lemma reset_config: "agent_config_ok L allow (reset_agent_health u a) = agent_config_ok L allow a"
  by (simp add: reset_agent_health_def agent_config_ok_def)

lemma edited_agentE:
  assumes "edited_agent L allow u a d = Inr a'"
  obtains a1 a2 a3 a4 a5 c where
    "(case field_value (au_name u) of None \<Rightarrow> Inr a
        | Some n \<Rightarrow> ebind (ensure_agent_name n (Some (a_id a)) d) (\<lambda>_. Inr (a\<lparr> a_name := n \<rparr>))) = Inr a1"
    "(if in_changes (au_runner_id u)
        then ebind (runner_exists (field_value (au_runner_id u)) d) (\<lambda>_. Inr ((edit_before_runner u a1)\<lparr> a_runner_id := field_value (au_runner_id u) \<rparr>))
        else Inr (edit_before_runner u a1)) = Inr a2"
    "a3 = edit_after_runner u a2"
    "(if in_changes (au_credential_id u)
        then ebind (get_credential_or_none (field_value (au_credential_id u)) d) (\<lambda>c. Inr (a3\<lparr> a_credential_id := map_option cd_id c \<rparr>))
        else Inr a3) = Inr a4"
    "a5 = edit_after_credential u a4" "connector_of (a_connector_type a5) = Inr c"
    "validate_agent_config L allow c (a_endpoint a5) (a_health_check_url a5) (a_headers_json a5) (a_runner_id a5)
        (a_executable a5) (a_input_schema_json a5) (a_output_schema_json a5) (a_metadata_json a5) = Inr ()"
    "a' = reset_agent_health u a5"
  using assms unfolding edited_agent_def Let_def ebind_eq_Inr
  by (elim exE conjE) (rule that, (assumption | rule refl | (drule Inr_inject, erule sym) | (rule trans, assumption, simp))+)

lemma edited_agent_valid:
  assumes e: "edited_agent L allow u a d = Inr a'" and ok: "agent_valid L allow (cd_id ` set (credentials d)) a"
  shows "agent_valid L allow (cd_id ` set (credentials d)) a'"
  using e
proof (rule edited_agentE)
  fix a1 a2 a3 a4 a5 c
  assume a1: "(case field_value (au_name u) of None \<Rightarrow> Inr a
        | Some n \<Rightarrow> ebind (ensure_agent_name n (Some (a_id a)) d) (\<lambda>_. Inr (a\<lparr> a_name := n \<rparr>))) = Inr a1"
    and a2: "(if in_changes (au_runner_id u)
        then ebind (runner_exists (field_value (au_runner_id u)) d) (\<lambda>_. Inr ((edit_before_runner u a1)\<lparr> a_runner_id := field_value (au_runner_id u) \<rparr>))
        else Inr (edit_before_runner u a1)) = Inr a2"
    and a3: "a3 = edit_after_runner u a2"
    and a4: "(if in_changes (au_credential_id u)
        then ebind (get_credential_or_none (field_value (au_credential_id u)) d) (\<lambda>c. Inr (a3\<lparr> a_credential_id := map_option cd_id c \<rparr>))
        else Inr a3) = Inr a4"
    and a5: "a5 = edit_after_credential u a4"
    and c: "connector_of (a_connector_type a5) = Inr c"
    and conf: "validate_agent_config L allow c (a_endpoint a5) (a_health_check_url a5) (a_headers_json a5) (a_runner_id a5)
        (a_executable a5) (a_input_schema_json a5) (a_output_schema_json a5) (a_metadata_json a5) = Inr ()"
    and a': "a' = reset_agent_health u a5"
  have fixed: "url_fixed (a_endpoint a)" "url_fixed (a_health_check_url a)" using ok by (simp_all add: agent_valid_def agent_config_ok_def)
  have "url_fixed (a_endpoint a1)" "url_fixed (a_health_check_url a1)" "a_credential_id a1 = a_credential_id a"
    using a1 fixed by (auto simp: outcome split: option.splits)
  then have "url_fixed (a_endpoint a2)" "url_fixed (a_health_check_url a2)" "a_credential_id a2 = a_credential_id a"
    using a2 edit_urls [of a1 u] by (auto simp: outcome edits_keep split: if_splits)
  then have "url_fixed (a_endpoint a4)" "url_fixed (a_health_check_url a4)" "set_option (a_credential_id a4) \<subseteq> cd_id ` set (credentials d)"
    using a4 credential_found [of "field_value (au_credential_id u)" d] ok
    by (auto simp: a3 outcome edits_keep agent_valid_def split: if_splits)
  then show ?thesis
    using agent_config_edited [OF conf c] by (simp add: a' a5 agent_valid_def edits_keep reset_config)
qed

lemma edited_agent_named:
  assumes "edited_agent L allow u a d = Inr a'"
  shows "a_id a' = a_id a
    \<and> (a_name a' = a_name a \<or> (\<forall>v\<in>set (agents d). lower (a_name v) = lower (a_name a') \<longrightarrow> a_id v = a_id a))"
  using assms
proof (rule edited_agentE)
  fix a1 a2 a3 a4 a5
  assume a1: "(case field_value (au_name u) of None \<Rightarrow> Inr a
        | Some n \<Rightarrow> ebind (ensure_agent_name n (Some (a_id a)) d) (\<lambda>_. Inr (a\<lparr> a_name := n \<rparr>))) = Inr a1"
    and a2: "(if in_changes (au_runner_id u)
        then ebind (runner_exists (field_value (au_runner_id u)) d) (\<lambda>_. Inr ((edit_before_runner u a1)\<lparr> a_runner_id := field_value (au_runner_id u) \<rparr>))
        else Inr (edit_before_runner u a1)) = Inr a2"
    and a3: "a3 = edit_after_runner u a2"
    and a4: "(if in_changes (au_credential_id u)
        then ebind (get_credential_or_none (field_value (au_credential_id u)) d) (\<lambda>c. Inr (a3\<lparr> a_credential_id := map_option cd_id c \<rparr>))
        else Inr a3) = Inr a4"
    and a5: "a5 = edit_after_credential u a4" and a': "a' = reset_agent_health u a5"
  have "a_id a2 = a_id a1" "a_name a2 = a_name a1" using a2 by (auto simp: outcome edits_keep split: if_splits)
  moreover from this have "a_id a4 = a_id a1" "a_name a4 = a_name a1" using a4 by (auto simp: a3 outcome edits_keep split: if_splits)
  ultimately have same: "a_id a' = a_id a1" "a_name a' = a_name a1" by (simp_all add: a' a5 edits_keep)
  show ?thesis
  proof (cases "field_value (au_name u)")
    case (Some n)
    with a1 have "ensure_agent_name n (Some (a_id a)) d = Inr ()" "a1 = a\<lparr> a_name := n \<rparr>" by (auto simp: outcome)
    then show ?thesis by (simp add: same names_Inr)
  qed (use a1 same in simp)
qed

lemma unique_name:
  assumes "table_ok A key nm P rs" "r \<in> set rs" "u \<in> set rs" "key u \<noteq> key r"
  shows "nm u \<noteq> nm r"
  using assms by (auto simp: table_ok_def named_ok_def distinct_map dest: inj_onD)

lemma keeps_update_agent:
  assumes "new_tasks d = []"
  shows "registry_keeps L allow d (snd (update_agent L allow k u d))"
  unfolding update_agent_def snd_after_commit
proof (rule keeps_commit [OF assms], goal_cases)
  case (1 d' x)
  then obtain a a' where a: "get_agent k d = Inr a" and a': "edited_agent L allow u a d = Inr a'"
    and d': "d' = d\<lparr> agents := row_upd a_id k (\<lambda>_. a') (agents d) \<rparr>" by (auto simp: outcome)
  from a have row: "a \<in> set (agents d)" "a_id a = k" by (auto simp: get_agent_def dest: row_get_member split: option.splits)
  show ?case
  proof (rule keeps_under_ok)
    assume ok: "registry_ok L allow d"
    show "registry_keeps L allow d d'" unfolding d'
    proof (rule keeps_replace_agent)
      show "a_id a' = k" using edited_agent_named [OF a'] row by simp
      show "\<forall>v\<in>set (agents d). a_id v \<noteq> k \<longrightarrow> lower (a_name v) \<noteq> lower (a_name a')"
        using edited_agent_named [OF a'] row ok unique_name [of _ a_id "\<lambda>a. lower (a_name a)" _ "agents d" a]
        unfolding registry_ok_def by fastforce
      show "agent_valid L allow (cd_id ` set (credentials d)) a'"
        using edited_agent_valid [OF a'] ok row by (auto simp: registry_ok_def table_ok_def)
    qed
  qed (simp add: d' frame_defs)
qed

lemma keeps_delete_agent:
  assumes "new_tasks d = []"
  shows "registry_keeps L allow d (snd (delete_agent k d))"
  unfolding delete_agent_def
proof (rule keeps_commit [OF assms], goal_cases)
  case (1 d' x)
  then have d': "d' = d\<lparr> agents := filter (\<lambda>a. a_id a \<noteq> k) (agents d) \<rparr>" and free: "\<not> is_resource_referenced ''agent'' k d"
    by (auto simp: outcome ensure_resource_not_referenced_def get_agent_def dest: row_get_key split: if_splits option.splits)
  show ?case
  proof (rule keeps_deleteI)
    assume "references_closed d"
    then show "references_closed d'"
    proof (rule closed_delete)
      fix graph n assume "graph \<in> stored_graphs d" "n \<in> set (json_nodes graph)" and n: "node_registered d n"
      with free have "\<not> node_references n ''agent'' k" by (auto simp: unreferenced_nodes)
      with n show "node_registered d' n"
        unfolding node_registered_def d' by (simp add: image_iff Bex_def) metis
    qed (simp add: d' frame_defs)
  qed (auto simp: d' frame_defs registry_ok_def issued_def intro: table_filter)
qed

text \<open>Services.\<close>

lemma optional_url_Inr: "optional_url L allow u = Inr w \<Longrightarrow> optional_url_ok L allow w"
  by (auto simp: optional_url_def optional_url_ok_def url_accepted_def blank_def outcome split: option.splits if_splits)

lemma keeps_create_service:
  assumes "inj (lib_uuid4 L)" "new_tasks d = []"
  shows "registry_keeps L allow d (snd (create_service L allow p d))"
  unfolding create_service_def snd_after_commit
proof (rule keeps_commit [OF assms(2)], goal_cases)
  case (1 d' x)
  then obtain cred url h where name: "ensure_service_name (sc_name p) None d = Inr ()"
    and url: "validate_http_url L allow (sc_base_url p) = Inr url" and h: "optional_url L allow (sc_health_check_url p) = Inr h"
    and m: "metadata_clean (JObj (sc_metadata p))" and cred: "get_credential_or_none (sc_credential_id p) d = Inr cred"
    and d': "d' = d\<lparr> uuids := Suc (uuids d), services := services d @ [new_service p url h cred (lib_uuid4 L (uuids d))] \<rparr>"
    by (auto simp: outcome uuid4_def Let_def validate_metadata_def split: if_splits)
  let ?s = "new_service p url h cred (lib_uuid4 L (uuids d))"
  have "service_config_ok L allow ?s"
    using url m optional_url_Inr [OF h] by (auto simp: service_config_ok_def url_accepted_def new_service_def)
  then have "service_valid L allow (cd_id ` set (credentials d)) ?s"
    using credential_found [OF cred] by (simp add: service_valid_def new_service_def)
  moreover have "\<forall>u\<in>set (services d). lower (s_name u) \<noteq> lower (s_name ?s)" using name by (auto simp: names_Inr blank_def new_service_def)
  moreover have "s_id ?s = lib_uuid4 L (uuids d)" by (simp add: new_service_def)
  ultimately show ?case
    unfolding d' by (intro keeps_insert [OF assms(1), where as = "[]" and ss = "[?s]" and xs = "[]" and cs = "[]"]) auto
qed

lemma edited_service_facts:
  assumes "edited_service L allow u s d = Inr s'"
  shows "s_id s' = s_id s \<and> (s_name s' = s_name s \<or> (\<forall>v\<in>set (services d). lower (s_name v) = lower (s_name s') \<longrightarrow> s_id v = s_id s))"
    and "service_valid L allow (cd_id ` set (credentials d)) s \<Longrightarrow> service_valid L allow (cd_id ` set (credentials d)) s'"
proof -
  obtain s1 s2 s3 s4 s5 s6 where
    s1: "(case field_value (su_name u) of None \<Rightarrow> Inr s
        | Some n \<Rightarrow> ebind (ensure_service_name n (Some (s_id s)) d) (\<lambda>_. Inr (s\<lparr> s_name := n \<rparr>))) = Inr s1"
    and s2: "(case field_value (su_service_type u) of None \<Rightarrow> Inr (assign (su_description u) (\<lambda>v s. s\<lparr> s_description := v \<rparr>) s1)
        | Some ty \<Rightarrow> if ty \<noteq> ST_HTTP then Inl (RelayviaError ''UNSUPPORTED_SERVICE_TYPE'' 400)
                     else Inr ((assign (su_description u) (\<lambda>v s. s\<lparr> s_description := v \<rparr>) s1)\<lparr> s_service_type := service_type_value ty \<rparr>)) = Inr s2"
    and s3: "(if in_changes (su_base_url u)
        then (case field_value (su_base_url u) of None \<Rightarrow> Inl INVALID_URL
              | Some v \<Rightarrow> ebind (validate_http_url L allow v) (\<lambda>w. Inr (s2\<lparr> s_base_url := w \<rparr>)))
        else Inr s2) = Inr s3"
    and s4: "(if in_changes (su_credential_id u)
        then ebind (get_credential_or_none (field_value (su_credential_id u)) d) (\<lambda>c. Inr (s3\<lparr> s_credential_id := map_option cd_id c \<rparr>))
        else Inr s3) = Inr s4"
    and s5: "(if in_changes (su_health_check_url u)
        then ebind (optional_url L allow (field_value (su_health_check_url u))) (\<lambda>w. Inr (s4\<lparr> s_health_check_url := w \<rparr>))
        else Inr s4) = Inr s5"
    and s6: "(case field_value (su_metadata u) of None \<Rightarrow> Inr (assign_some (su_enabled u) (\<lambda>v s. s\<lparr> s_enabled := v \<rparr>) s5)
        | Some m \<Rightarrow> ebind (validate_metadata m) (\<lambda>_. Inr ((assign_some (su_enabled u) (\<lambda>v s. s\<lparr> s_enabled := v \<rparr>) s5)\<lparr> s_metadata_json := m \<rparr>))) = Inr s6"
    and s': "s' = reset_service_health u s6"
    using assms unfolding edited_service_def Let_def ebind_eq_Inr by (elim exE conjE) (drule Inr_inject, rule that, (assumption | erule sym)+)
  have e2: "s_id s2 = s_id s1 \<and> s_name s2 = s_name s1 \<and> s_base_url s2 = s_base_url s1 \<and> s_credential_id s2 = s_credential_id s1
      \<and> s_health_check_url s2 = s_health_check_url s1 \<and> s_metadata_json s2 = s_metadata_json s1"
    using s2 by (auto simp: assign_def split: option.splits if_splits)
  have e3: "s_id s3 = s_id s2 \<and> s_name s3 = s_name s2 \<and> s_credential_id s3 = s_credential_id s2 \<and> s_health_check_url s3 = s_health_check_url s2
      \<and> s_metadata_json s3 = s_metadata_json s2 \<and> (s_base_url s3 = s_base_url s2 \<or> url_accepted L allow (s_base_url s3))"
    using s3 by (auto simp: outcome url_accepted_def split: option.splits if_splits)
  have e4: "s_id s4 = s_id s3 \<and> s_name s4 = s_name s3 \<and> s_base_url s4 = s_base_url s3 \<and> s_health_check_url s4 = s_health_check_url s3
      \<and> s_metadata_json s4 = s_metadata_json s3 \<and> (s_credential_id s4 = s_credential_id s3 \<or> set_option (s_credential_id s4) \<subseteq> cd_id ` set (credentials d))"
    using s4 credential_found [of "field_value (su_credential_id u)" d] by (auto simp: outcome split: if_splits)
  have e5: "s_id s5 = s_id s4 \<and> s_name s5 = s_name s4 \<and> s_base_url s5 = s_base_url s4 \<and> s_credential_id s5 = s_credential_id s4
      \<and> s_metadata_json s5 = s_metadata_json s4 \<and> (s_health_check_url s5 = s_health_check_url s4 \<or> optional_url_ok L allow (s_health_check_url s5))"
    using s5 optional_url_Inr [of L allow] by (auto simp: outcome split: if_splits)
  have e6: "s_id s6 = s_id s5 \<and> s_name s6 = s_name s5 \<and> s_base_url s6 = s_base_url s5 \<and> s_credential_id s6 = s_credential_id s5
      \<and> s_health_check_url s6 = s_health_check_url s5 \<and> (s_metadata_json s6 = s_metadata_json s5 \<or> metadata_clean (JObj (s_metadata_json s6)))"
    using s6 by (auto simp: outcome validate_metadata_def assign_some_def split: option.splits if_splits)
  have e7: "s_id s' = s_id s6 \<and> s_name s' = s_name s6 \<and> s_base_url s' = s_base_url s6 \<and> s_credential_id s' = s_credential_id s6
      \<and> s_health_check_url s' = s_health_check_url s6 \<and> s_metadata_json s' = s_metadata_json s6"
    by (simp add: s' reset_service_health_def)
  have e1: "s_base_url s1 = s_base_url s \<and> s_credential_id s1 = s_credential_id s \<and> s_health_check_url s1 = s_health_check_url s
      \<and> s_metadata_json s1 = s_metadata_json s \<and> s_id s1 = s_id s
      \<and> (s_name s1 = s_name s \<or> (\<forall>v\<in>set (services d). lower (s_name v) = lower (s_name s1) \<longrightarrow> s_id v = s_id s))"
    using s1 by (auto simp: outcome names_Inr split: option.splits)
  show "s_id s' = s_id s \<and> (s_name s' = s_name s \<or> (\<forall>v\<in>set (services d). lower (s_name v) = lower (s_name s') \<longrightarrow> s_id v = s_id s))"
    using e1 e2 e3 e4 e5 e6 e7 by simp
  let ?V = "service_valid L allow (cd_id ` set (credentials d))"
  note valid = service_valid_def service_config_ok_def
  assume "?V s"
  then have "?V s2" using e1 e2 by (simp add: valid)
  then have "?V s3" using e3 by (auto simp: valid)
  then have "?V s4" using e4 by (auto simp: valid)
  then have "?V s5" using e5 by (auto simp: valid)
  then have "?V s6" using e6 by (auto simp: valid)
  then show "?V s'" using e7 by (simp add: valid)
qed

lemma keeps_update_service:
  assumes "new_tasks d = []"
  shows "registry_keeps L allow d (snd (update_service L allow k u d))"
  unfolding update_service_def snd_after_commit
proof (rule keeps_commit [OF assms], goal_cases)
  case (1 d' x)
  then obtain s s' where s: "get_service k d = Inr s" and s': "edited_service L allow u s d = Inr s'"
    and d': "d' = d\<lparr> services := row_upd s_id k (\<lambda>_. s') (services d) \<rparr>" by (auto simp: outcome)
  from s have row: "s \<in> set (services d)" "s_id s = k" by (auto simp: get_service_def dest: row_get_member split: option.splits)
  show ?case
  proof (rule keeps_under_ok)
    assume ok: "registry_ok L allow d"
    show "registry_keeps L allow d d'" unfolding d'
    proof (rule keeps_replace_service)
      show "s_id s' = k" using edited_service_facts(1) [OF s'] row by simp
      show "\<forall>v\<in>set (services d). s_id v \<noteq> k \<longrightarrow> lower (s_name v) \<noteq> lower (s_name s')"
        using edited_service_facts(1) [OF s'] row ok unique_name [of _ s_id "\<lambda>s. lower (s_name s)" _ "services d" s]
        unfolding registry_ok_def by fastforce
      show "service_valid L allow (cd_id ` set (credentials d)) s'"
        using edited_service_facts(2) [OF s'] ok row by (auto simp: registry_ok_def table_ok_def)
    qed
  qed (simp add: d' frame_defs)
qed

lemma keeps_delete_service:
  assumes "new_tasks d = []"
  shows "registry_keeps L allow d (snd (delete_service k d))"
  unfolding delete_service_def
proof (rule keeps_commit [OF assms], goal_cases)
  case (1 d' x)
  then have d': "d' = d\<lparr> services := filter (\<lambda>s. s_id s \<noteq> k) (services d),
      service_actions := filter (\<lambda>x. sa_service_id x \<noteq> k) (service_actions d) \<rparr>" and free: "\<not> is_resource_referenced ''service'' k d"
    by (auto simp: outcome ensure_resource_not_referenced_def get_service_def dest: row_get_key split: if_splits option.splits)
  show ?case
  proof (rule keeps_deleteI)
    assume "references_closed d"
    then show "references_closed d'"
    proof (rule closed_delete)
      fix graph n assume "graph \<in> stored_graphs d" "n \<in> set (json_nodes graph)" and n: "node_registered d n"
      with free have "\<not> node_references n ''service'' k" by (auto simp: unreferenced_nodes)
      with n show "node_registered d' n"
        unfolding node_registered_def d' by (simp add: image_iff Bex_def) metis
    qed (simp add: d' frame_defs)
  next
    assume ok: "registry_ok L allow d"
    have "table_ok (issued L d) sa_id (\<lambda>x. (sa_service_id x, lower (sa_name x))) (action_valid L (s_id ` set (services d')))
        (filter (\<lambda>x. sa_service_id x \<noteq> k) (service_actions d))"
      using ok by (auto simp: registry_ok_def table_ok_def named_ok_def distinct_map_filter action_valid_def d')
    then show "registry_ok L allow d'" using ok unfolding registry_ok_def by (simp add: d' issued_def table_filter)
  qed (simp add: d' frame_defs)
qed

text \<open>Service actions.\<close>

lemma action_config_checked:
  assumes "validate_action_config L v hs q pa i out m = Inr w" "\<exists>v. normalize_action_path L v = Inr (sa_path x)"
    "sa_headers_json x = hs" "sa_query_schema_json x = q" "sa_path_schema_json x = pa" "sa_input_schema_json x = i"
    "sa_output_schema_json x = out" "sa_metadata_json x = m"
  shows "action_config_ok L x"
  using assms by (auto simp: action_config_ok_def validate_action_config_def outcome config_checks split: if_splits)

lemma keeps_create_action:
  assumes "inj (lib_uuid4 L)" "new_tasks d = []"
  shows "registry_keeps L allow d (snd (create_action L sid p d))"
  unfolding create_action_def snd_after_commit
proof (rule keeps_commit [OF assms(2)], goal_cases)
  case (1 d' x)
  then obtain s w where s: "get_service sid d = Inr s" and name: "ensure_action_name sid (xc_name p) None d = Inr ()"
    and conf: "validate_action_config L (xc_path p) (text_headers (xc_headers p)) (xc_query_schema p) (xc_path_schema p)
                 (xc_input_schema p) (xc_output_schema p) (xc_metadata p) = Inr w"
    and d': "d' = d\<lparr> uuids := Suc (uuids d), service_actions := service_actions d @ [new_action sid p w (lib_uuid4 L (uuids d))] \<rparr>"
    by (auto simp: outcome uuid4_def Let_def)
  let ?x = "new_action sid p w (lib_uuid4 L (uuids d))"
  have "normalize_action_path L (xc_path p) = Inr w" using conf by (auto simp: validate_action_config_def outcome)
  then have "action_config_ok L ?x" by (intro action_config_checked [OF conf]) (auto simp: new_action_def)
  moreover have "sid \<in> s_id ` set (services d)" using s by (auto simp: get_service_def dest!: row_get_member split: option.splits)
  ultimately have "action_valid L (s_id ` set (services d)) ?x" by (simp add: action_valid_def new_action_def)
  moreover have "\<forall>u\<in>set (service_actions d). (sa_service_id u, lower (sa_name u)) \<noteq> (sa_service_id ?x, lower (sa_name ?x))"
    using name by (auto simp: names_Inr blank_def new_action_def)
  moreover have "sa_id ?x = lib_uuid4 L (uuids d)" by (simp add: new_action_def)
  ultimately show ?case
    unfolding d' by (intro keeps_insert [OF assms(1), where as = "[]" and ss = "[]" and xs = "[?x]" and cs = "[]"]) auto
qed

lemma edit_action_keeps:
  "sa_id (edit_action_fields u x) = sa_id x" "sa_name (edit_action_fields u x) = sa_name x" "sa_path (edit_action_fields u x) = sa_path x"
  "sa_service_id (edit_action_fields u x) = sa_service_id x"
  by (auto simp: edit_action_fields_def Let_def assign_some_def split: option.splits)

lemma edited_action_facts:
  assumes "edited_action L sid u x d = Inr x'" "sa_service_id x = sid"
  shows "sa_id x' = sa_id x \<and> sa_service_id x' = sid
      \<and> (sa_name x' = sa_name x \<or> (\<forall>v\<in>set (service_actions d). sa_service_id v = sid \<longrightarrow> lower (sa_name v) = lower (sa_name x') \<longrightarrow> sa_id v = sa_id x))"
    and "action_config_ok L x \<Longrightarrow> action_config_ok L x'"
proof -
  obtain x1 x2 x3 w where
    x1: "(case field_value (xu_name u) of None \<Rightarrow> Inr x
        | Some n \<Rightarrow> ebind (ensure_action_name sid n (Some (sa_id x)) d) (\<lambda>_. Inr (x\<lparr> sa_name := n \<rparr>))) = Inr x1"
    and x2: "x2 = assign_some (xu_method u) (\<lambda>v x. x\<lparr> sa_method := method_value v \<rparr>) (assign (xu_description u) (\<lambda>v x. x\<lparr> sa_description := v \<rparr>) x1)"
    and x3: "(if in_changes (xu_path u)
        then (case field_value (xu_path u) of None \<Rightarrow> Inl (RelayviaError ''INVALID_PATH'' 400)
              | Some v \<Rightarrow> ebind (normalize_action_path L v) (\<lambda>w. Inr (x2\<lparr> sa_path := w \<rparr>)))
        else Inr x2) = Inr x3"
    and conf: "validate_action_config L (sa_path (edit_action_fields u x3)) (sa_headers_json (edit_action_fields u x3))
        (sa_query_schema_json (edit_action_fields u x3)) (sa_path_schema_json (edit_action_fields u x3))
        (sa_input_schema_json (edit_action_fields u x3)) (sa_output_schema_json (edit_action_fields u x3))
        (sa_metadata_json (edit_action_fields u x3)) = Inr w"
    and x': "x' = edit_action_fields u x3"
    using assms(1) unfolding edited_action_def Let_def ebind_eq_Inr
    by (elim exE conjE) (drule Inr_inject, rule that, (assumption | rule refl | erule sym)+)
  have e1: "sa_id x1 = sa_id x \<and> sa_service_id x1 = sid \<and> sa_path x1 = sa_path x
      \<and> (sa_name x1 = sa_name x \<or> (\<forall>v\<in>set (service_actions d). sa_service_id v = sid \<longrightarrow> lower (sa_name v) = lower (sa_name x1) \<longrightarrow> sa_id v = sa_id x))"
    using x1 assms(2) by (auto simp: outcome names_Inr split: option.splits)
  have e2: "sa_id x2 = sa_id x1 \<and> sa_service_id x2 = sa_service_id x1 \<and> sa_name x2 = sa_name x1 \<and> sa_path x2 = sa_path x1"
    by (auto simp: x2 assign_def assign_some_def split: option.splits)
  have e3: "sa_id x3 = sa_id x2 \<and> sa_service_id x3 = sa_service_id x2 \<and> sa_name x3 = sa_name x2
      \<and> (sa_path x3 = sa_path x2 \<or> (\<exists>v. normalize_action_path L v = Inr (sa_path x3)))"
    using x3 by (auto simp: outcome split: option.splits if_splits)
  show "sa_id x' = sa_id x \<and> sa_service_id x' = sid
      \<and> (sa_name x' = sa_name x \<or> (\<forall>v\<in>set (service_actions d). sa_service_id v = sid \<longrightarrow> lower (sa_name v) = lower (sa_name x') \<longrightarrow> sa_id v = sa_id x))"
    using e1 e2 e3 by (simp add: x' edit_action_keeps)
  assume "action_config_ok L x"
  then have "\<exists>v. normalize_action_path L v = Inr (sa_path x')"
    using e1 e2 e3 by (auto simp: action_config_ok_def x' edit_action_keeps)
  then show "action_config_ok L x'" unfolding x' by (intro action_config_checked [OF conf]) auto
qed

lemma get_action_row: "get_action sid k d = Inr x \<Longrightarrow> x \<in> set (service_actions d) \<and> sa_id x = k \<and> sa_service_id x = sid"
  by (auto simp: get_action_def find_Some_iff split: option.splits)

lemma keeps_update_action:
  assumes "new_tasks d = []"
  shows "registry_keeps L allow d (snd (update_action L sid k u d))"
  unfolding update_action_def snd_after_commit
proof (rule keeps_commit [OF assms], goal_cases)
  case (1 d' y)
  then obtain x x' where x: "get_action sid k d = Inr x" and x': "edited_action L sid u x d = Inr x'"
    and d': "d' = d\<lparr> service_actions := row_upd sa_id k (\<lambda>_. x') (service_actions d) \<rparr>" by (auto simp: outcome)
  note row = get_action_row [OF x]
  have facts: "sa_id x' = k" "sa_service_id x' = sid"
    "sa_name x' = sa_name x \<or> (\<forall>v\<in>set (service_actions d). sa_service_id v = sid \<longrightarrow> lower (sa_name v) = lower (sa_name x') \<longrightarrow> sa_id v = sa_id x)"
    using edited_action_facts(1) [OF x'] row by auto
  show ?case
  proof (rule keeps_under_ok)
    assume ok: "registry_ok L allow d"
    show "registry_keeps L allow d d'" unfolding d'
    proof (rule keeps_replace_action [OF facts(1)]; (intro ballI impI)?)
      fix v assume "v \<in> set (service_actions d)" "sa_id v = k"
      then have "v = x" using ok row by (auto simp: registry_ok_def table_ok_def named_ok_def distinct_map dest: inj_onD)
      then show "sa_service_id v = sa_service_id x'" using row facts(2) by simp
    next
      fix v assume v: "v \<in> set (service_actions d)" "sa_id v \<noteq> k"
      have "(sa_service_id v, lower (sa_name v)) \<noteq> (sa_service_id x, lower (sa_name x))"
        using ok row v by (intro unique_name [of _ sa_id "\<lambda>x. (sa_service_id x, lower (sa_name x))"]) (auto simp: registry_ok_def)
      then show "(sa_service_id v, lower (sa_name v)) \<noteq> (sa_service_id x', lower (sa_name x'))"
        using facts(2,3) row v by auto
    next
      have "action_valid L (s_id ` set (services d)) x" using ok row by (auto simp: registry_ok_def table_ok_def)
      then show "action_valid L (s_id ` set (services d)) x'"
        using edited_action_facts(2) [OF x'] row facts(2) by (simp add: action_valid_def)
    qed
  qed (simp add: d' frame_defs)
qed

lemma keeps_delete_action:
  assumes "new_tasks d = []"
  shows "registry_keeps L allow d (snd (delete_action sid k d))"
  unfolding delete_action_def
proof (rule keeps_commit [OF assms], goal_cases)
  case (1 d' x)
  then have d': "d' = d\<lparr> service_actions := filter (\<lambda>x. sa_id x \<noteq> k) (service_actions d) \<rparr>" and free: "\<not> is_resource_referenced ''service_action'' k d"
    by (auto simp: outcome ensure_resource_not_referenced_def dest: get_action_row split: if_splits)
  show ?case
  proof (rule keeps_deleteI)
    assume "references_closed d"
    then show "references_closed d'"
    proof (rule closed_delete)
      fix graph n assume "graph \<in> stored_graphs d" "n \<in> set (json_nodes graph)" and n: "node_registered d n"
      with free have "\<not> node_references n ''service_action'' k" by (auto simp: unreferenced_nodes)
      with n show "node_registered d' n"
        unfolding node_registered_def d' by (simp add: image_iff Bex_def) metis
    qed (simp add: d' frame_defs)
  qed (auto simp: d' frame_defs registry_ok_def issued_def intro: table_filter)
qed

text \<open>Connection tests write the health of the row, nothing else.\<close>

lemma keeps_record_tests:
  assumes "new_tasks d = []"
  shows "registry_keeps L allow d (snd (record_agent_test a r d))" "registry_keeps L allow d (snd (record_service_test s r d))"
proof -
  have ag: "registry_keeps L allow d (d\<lparr> agents := row_upd a_id k f (agents d) \<rparr>)"
    if "\<And>b. a_id (f b) = a_id b" "\<And>b. a_name (f b) = a_name b" "\<And>b. agent_valid L allow (cd_id ` set (credentials d)) (f b)
        = agent_valid L allow (cd_id ` set (credentials d)) b" for k f
    by (rule keepsI) (use that in \<open>auto simp: frame_defs ids_grow_def image_row_upd registry_ok_def issued_def intro: table_touch\<close>)
  have sv: "registry_keeps L allow d (d\<lparr> services := row_upd s_id k f (services d) \<rparr>)"
    if "\<And>b. s_id (f b) = s_id b" "\<And>b. s_name (f b) = s_name b" "\<And>b. service_valid L allow (cd_id ` set (credentials d)) (f b)
        = service_valid L allow (cd_id ` set (credentials d)) b" for k f
    by (rule keepsI) (use that in \<open>auto simp: frame_defs ids_grow_def registry_ok_def issued_def image_row_upd intro: table_touch\<close>)
  show "registry_keeps L allow d (snd (record_agent_test a r d))"
    unfolding record_agent_test_def
    by (rule keeps_commit [OF assms]) (auto intro!: ag simp: agent_valid_def agent_config_ok_def split: option.splits)
  show "registry_keeps L allow d (snd (record_service_test s r d))"
    unfolding record_service_test_def
    by (rule keeps_commit [OF assms]) (auto intro!: sv simp: service_valid_def service_config_ok_def split: option.splits)
qed

section \<open>Registry steps\<close>

text \<open>
  One operation of the registry. A connection test is the step that records its result; the row
  may have been read in any earlier state.
\<close>

inductive registry_step :: "lib \<Rightarrow> bool \<Rightarrow> db \<Rightarrow> db \<Rightarrow> bool" for L allow where
  create_credential: "registry_step L allow d (snd (create_credential L encrypt cp d))"
| update_credential: "registry_step L allow d (snd (update_credential encrypt k cu d))"
| delete_credential: "registry_step L allow d (snd (delete_credential k d))"
| create_agent: "registry_step L allow d (snd (create_agent L allow ap d))"
| update_agent: "registry_step L allow d (snd (update_agent L allow k au d))"
| delete_agent: "registry_step L allow d (snd (delete_agent k d))"
| create_service: "registry_step L allow d (snd (create_service L allow sp d))"
| update_service: "registry_step L allow d (snd (update_service L allow k su d))"
| delete_service: "registry_step L allow d (snd (delete_service k d))"
| create_action: "registry_step L allow d (snd (create_action L k xp d))"
| update_action: "registry_step L allow d (snd (update_action L k j xu d))"
| delete_action: "registry_step L allow d (snd (delete_action k j d))"
| record_agent_test: "registry_step L allow d (snd (record_agent_test a r d))"
| record_service_test: "registry_step L allow d (snd (record_service_test s r d))"

lemma registry_step_keeps:
  assumes "registry_step L allow d d'" "inj (lib_uuid4 L)" "new_tasks d = []"
  shows "registry_keeps L allow d d'"
  using assms(1)
  by cases
    (simp_all only: keeps_create_credential [OF assms(2,3)] keeps_update_credential [OF assms(3)] keeps_delete_credential [OF assms(3)]
      keeps_create_agent [OF assms(2,3)] keeps_update_agent [OF assms(3)] keeps_delete_agent [OF assms(3)]
      keeps_create_service [OF assms(2,3)] keeps_update_service [OF assms(3)] keeps_delete_service [OF assms(3)]
      keeps_create_action [OF assms(2,3)] keeps_update_action [OF assms(3)] keeps_delete_action [OF assms(3)]
      keeps_record_tests [OF assms(3)])

section \<open>Definitions refer to registered resources\<close>

text \<open>
  What \<open>model_dump\<close> of a graph does to its nodes: the type and the configuration are written as they
  are.
\<close>

definition dumps_nodes :: "lib \<Rightarrow> bool" where
  "dumps_nodes L \<longleftrightarrow> (\<forall>g. map (\<lambda>n. (dget0 n ''type'', dget0 n ''config'')) (json_nodes (lib_dump_graph L g))
     = map (\<lambda>n. (JStr (node_type_value (n_type n)), JObj (n_config n))) (g_nodes g))"

lemma foldM_collect:
  "foldM (\<lambda>acc x. ebind (f x) (\<lambda>ys. Inr (acc @ ys))) acc xs = Inr zs \<Longrightarrow> x \<in> set xs \<Longrightarrow> \<exists>ys. f x = Inr ys"
  by (induction xs arbitrary: acc) (auto simp: outcome)

lemma collect_member: "collect f xs = Inr zs \<Longrightarrow> x \<in> set xs \<Longrightarrow> \<exists>ys. f x = Inr ys"
  unfolding collect_def by (rule foldM_collect)

lemma db_get_member: "db_get key v rs = Some r \<Longrightarrow> r \<in> set rs \<and> v = JStr (key r)"
  by (auto simp: db_get_def dest: row_get_member split: json.splits)

lemma checked_node_registered:
  assumes "dget0 m ''type'' = JStr (node_type_value (n_type n))" "dget0 m ''config'' = JObj (n_config n)"
    and "\<exists>ws. (case n_type n of AGENT \<Rightarrow> agent_reference d n | SERVICE \<Rightarrow> service_reference d n | _ \<Rightarrow> Inr []) = Inr ws"
  shows "node_registered d m"
proof (cases "n_type n")
  case AGENT
  with assms(3) obtain a where "db_get a_id (dget0 (n_config n) ''agent_id'') (agents d) = Some a"
    by (auto simp: agent_reference_def Let_def split: option.splits)
  from db_get_member [OF this] AGENT assms(1,2) show ?thesis by (auto simp: node_registered_def node_references_def)
next
  case SERVICE
  with assms(3) obtain s x where "db_get s_id (dget0 (n_config n) ''service_id'') (services d) = Some s"
    "db_get sa_id (dget0 (n_config n) ''service_action_id'') (service_actions d) = Some x"
    "JStr (sa_service_id x) = dget0 (n_config n) ''service_id''"
    by (auto simp: service_reference_def Let_def split: option.splits if_splits)
  with db_get_member [OF this(1)] db_get_member [OF this(2)] SERVICE assms(1,2) show ?thesis
    by (auto simp: node_registered_def node_references_def image_iff)
qed (use assms(1,2) in \<open>auto simp: node_registered_def node_references_def\<close>)

lemma checked_graph_registered:
  assumes "validate_registry_references d g = Inr ws" "dumps_nodes L" "m \<in> set (json_nodes (lib_dump_graph L g))"
  shows "node_registered d m"
proof -
  from assms(2) have eq: "map (\<lambda>n. (dget0 n ''type'', dget0 n ''config'')) (json_nodes (lib_dump_graph L g))
      = map (\<lambda>n. (JStr (node_type_value (n_type n)), JObj (n_config n))) (g_nodes g)" by (simp only: dumps_nodes_def)
  have "(dget0 m ''type'', dget0 m ''config'') \<in> set (map (\<lambda>n. (dget0 n ''type'', dget0 n ''config'')) (json_nodes (lib_dump_graph L g)))"
    using assms(3) by force
  then obtain n where n: "n \<in> set (g_nodes g)" "dget0 m ''type'' = JStr (node_type_value (n_type n))" "dget0 m ''config'' = JObj (n_config n)"
    unfolding eq by auto
  show ?thesis
    by (rule checked_node_registered [OF n(2,3)]) (use assms(1) n(1) collect_member in \<open>unfold validate_registry_references_def, fast\<close>)
qed

definition same_registry :: "db \<Rightarrow> db \<Rightarrow> bool" where
  "same_registry d d' \<longleftrightarrow> agents d' = agents d \<and> services d' = services d \<and> service_actions d' = service_actions d
     \<and> credentials d' = credentials d \<and> uuids d \<le> uuids d'"

definition graphs_checked :: "lib \<Rightarrow> db \<Rightarrow> db \<Rightarrow> bool" where
  "graphs_checked L d d' \<longleftrightarrow> (\<forall>graph\<in>stored_graphs d'. graph \<in> stored_graphs d
     \<or> (\<exists>g ws. graph = lib_dump_graph L g \<and> validate_registry_references d g = Inr ws))"

lemma checked_refl [simp]: "graphs_checked L d d" "same_registry d d"
  by (simp_all add: graphs_checked_def same_registry_def)

lemma upd_workflow_graphs:
  assumes "graph \<in> stored_graphs (upd_workflow now k f d)"
  shows "graph \<in> stored_graphs d \<or> (\<exists>w\<in>set (workflows d). graph = wf_draft_graph_json (f w))"
  using assms by (auto simp: stored_graphs_def upd_workflow_def row_upd_def touch_def split: if_splits)

lemma upd_workflow_checked:
  assumes "\<And>w. wf_draft_graph_json (f w) = wf_draft_graph_json w"
  shows "graphs_checked L d (upd_workflow now k f d)"
  unfolding graphs_checked_def
proof
  fix graph assume "graph \<in> stored_graphs (upd_workflow now k f d)"
  from upd_workflow_graphs [OF this] have "graph \<in> stored_graphs d" by (auto simp: assms stored_graphs_def)
  then show "graph \<in> stored_graphs d \<or> (\<exists>g ws. graph = lib_dump_graph L g \<and> validate_registry_references d g = Inr ws)" ..
qed

lemma upd_workflow_registry [simp]: "same_registry d (upd_workflow now k f d') = same_registry d d'"
  by (simp add: same_registry_def upd_workflow_def)

lemma added_registry [simp]: "same_registry d (d\<lparr> uuids := Suc (uuids d), workflow_versions := vs \<rparr>)"
  by (simp add: same_registry_def)

lemma commit_checked:
  assumes "new_tasks d = []"
    and "\<And>d' x. body = Inr (d', x) \<Longrightarrow> new_tasks d' = [] \<and> same_registry d d' \<and> graphs_checked L d d'"
  shows "same_registry d (snd (transact d body)) \<and> graphs_checked L d (snd (transact d body))"
  using snd_transact_cases [of d body] assms checked_refl by metis

lemma definition_step_checked:
  assumes "definition_step L d d'" "new_tasks d = []"
  shows "same_registry d d' \<and> graphs_checked L d d'"
  using assms(1)
proof cases
  case (create now payload)
  show ?thesis
    unfolding create create_workflow_def snd_after_commit
    by (rule commit_checked [OF assms(2)])
      (auto simp: outcome uuid4_def assms(2) same_registry_def graphs_checked_def stored_graphs_def new_workflow_def)
next
  case (update now wid u)
  have "wf_draft_graph_json (apply_update u w) = wf_draft_graph_json w" for w by (simp add: apply_update_def Let_def split: option.splits)
  then have "graphs_checked L d (upd_workflow now wid (apply_update u) d)" by (rule upd_workflow_checked)
  then show ?thesis
    unfolding update update_workflow_def snd_after_commit
    by (intro commit_checked [OF assms(2)]) (auto simp: outcome assms(2))
next
  case (delete now wid)
  have "graphs_checked L d (upd_workflow now wid (\<lambda>w. w\<lparr> wf_status := WF_ARCHIVED \<rparr>) d)" by (rule upd_workflow_checked) simp
  then show ?thesis
    unfolding delete delete_workflow_def
    by (intro commit_checked [OF assms(2)])
      (auto simp: outcome assms(2) same_registry_def [of d "d\<lparr> workflows := _ \<rparr>"] graphs_checked_def stored_graphs_def split: if_splits)
next
  case (draft now wid raw)
  have "graphs_checked L d (upd_workflow now wid (drafted L g) d)" if "validate_registry_references d g = Inr ws" for g ws
    unfolding graphs_checked_def
  proof
    fix graph assume "graph \<in> stored_graphs (upd_workflow now wid (drafted L g) d)"
    from upd_workflow_graphs [OF this] have "graph \<in> stored_graphs d \<or> graph = lib_dump_graph L g" by (auto simp: drafted_def)
    with that show "graph \<in> stored_graphs d \<or> (\<exists>g ws. graph = lib_dump_graph L g \<and> validate_registry_references d g = Inr ws)" by blast
  qed
  then show ?thesis
    unfolding draft update_draft_graph_def
    by (intro commit_checked [OF assms(2)]) (auto simp: outcome assms(2))
next
  case (publish now wid remark)
  have "graphs_checked L d (upd_workflow now wid (\<lambda>w. w\<lparr> wf_current_version := vn, wf_status := WF_ACTIVE \<rparr>)
      (d\<lparr> uuids := k, workflow_versions := workflow_versions d @ [v] \<rparr>))"
    if "validate_registry_references d g = Inr ws" "wv_graph_json v = lib_dump_graph L g" for g ws vn k v
    unfolding graphs_checked_def
  proof
    let ?d = "d\<lparr> uuids := k, workflow_versions := workflow_versions d @ [v] \<rparr>"
    fix graph assume "graph \<in> stored_graphs (upd_workflow now wid (\<lambda>w. w\<lparr> wf_current_version := vn, wf_status := WF_ACTIVE \<rparr>) ?d)"
    from upd_workflow_graphs [OF this] have "graph \<in> stored_graphs d \<or> graph = wv_graph_json v" by (auto simp: stored_graphs_def)
    with that show "graph \<in> stored_graphs d \<or> (\<exists>g ws. graph = lib_dump_graph L g \<and> validate_registry_references d g = Inr ws)" by auto
  qed
  then show ?thesis
    unfolding publish create_version_def snd_after_commit
    by (intro commit_checked [OF assms(2)]) (auto simp: outcome assms(2) uuid4_def Let_def split: if_splits)
qed

lemma checked_closed:
  assumes "references_closed d" "same_registry d d'" "graphs_checked L d d'" "dumps_nodes L"
  shows "references_closed d'"
  unfolding references_closed_def
proof (intro ballI)
  fix graph n assume g: "graph \<in> stored_graphs d'" "n \<in> set (json_nodes graph)"
  have "node_registered d n"
    using assms(3) g checked_graph_registered [OF _ assms(4)] assms(1) unfolding graphs_checked_def references_closed_def by blast
  moreover have "ids_grow d d'" using assms(2) by (simp add: same_registry_def ids_grow_def)
  ultimately show "node_registered d' n" by (rule node_registered_grow)
qed

lemma table_ids: "table_ok A key nm P rs \<Longrightarrow> A \<subseteq> B \<Longrightarrow> table_ok B key nm P rs"
  by (auto simp: table_ok_def)

lemma same_registry_ok: "same_registry d d' \<Longrightarrow> registry_ok L allow d \<Longrightarrow> registry_ok L allow d'"
proof -
  assume same: "same_registry d d'" and ok: "registry_ok L allow d"
  have "issued L d \<subseteq> issued L d'" using same by (intro issued_mono) (simp add: same_registry_def)
  with same ok show ?thesis unfolding registry_ok_def same_registry_def by (auto elim: table_ids)
qed

end
