(* ===== verification/System.thy ===== *)
theory System
  imports Leases WorkflowsProps RegistryProps
begin

text \<open>
  The system as one transition system. A step is one operation of some process: a worker, the
  recovery loop, a Runner's request, a user's request about a run, or a change of a definition.
  Processes interleave in any order, so a history is any sequence of steps; the stored rows are the
  only state they share. What is proved of single operations is lifted here to whole histories: the
  invariant of the rows, a refinement of the three transition tables, the append-only event log and
  Versions, and the fencing of superseded lease tokens for ever after.
\<close>

section \<open>Steps\<close>

inductive execution_step :: "lib \<Rightarrow> db \<Rightarrow> db \<Rightarrow> bool" for L where
  claim: "execution_step L d (snd (claim L secs now w caps auto d))"
| start: "execution_step L d (snd (start now tid w k d))"
| complete: "execution_step L d (snd (complete now tid w k out md refs d))"
| fail: "execution_step L d (snd (fail now tid w k err md refs d))"
| wait_node: "execution_step L d (snd (wait_node now tid w k reason md d))"
| schedule_retry: "execution_step L d (snd (schedule_retry now tid w k bsecs d))"
| renew_lease: "execution_step L d (snd (renew_lease secs now tid w k d))"
| cancel: "execution_step L d (snd (cancel now tid d))"
| build_context: "execution_step L d (snd (build_execution_context L task d))"
| register_artifacts: "execution_step L d (snd (transact d (register_artifact_candidates L save mx now rid nid items d)))"
| reconcile: "execution_step L d (snd (reconcile_after L S now rid d))"
| recover_expired: "execution_step L d (snd (recover_expired now d))"
| promote_due_retries: "execution_step L d (snd (promote_due_retries now d))"
| reconcile_active: "execution_step L d (snd (reconcile_active L S now d))"
| create_run: "execution_step L d (snd (create_run L offline now wid payload d))"
| start_run: "execution_step L d (snd (start_run L now rid d))"
| pause_run: "execution_step L d (snd (pause_run L now rid d))"
| resume_run: "execution_step L d (snd (resume_run L now rid d))"
| cancel_run: "execution_step L d (snd (cancel_run L now rid d))"
| approve_node_run: "execution_step L d (snd (approve_node_run L now nid d))"
| reject_node_run: "execution_step L d (snd (reject_node_run L now nid d))"
| submit_node_run: "execution_step L d (snd (submit_node_run L now nid input d))"
| register_runner: "execution_step L d (snd (register_runner L now name h p capl md rrid tok d))"
| heartbeat_runner: "execution_step L d (snd (heartbeat_runner now k h p capl md d))"
| set_runner_enabled: "execution_step L d (snd (set_runner_enabled L now k b d))"
| rotate_runner_token: "execution_step L d (snd (rotate_runner_token L now k d))"
| revoke_runner: "execution_step L d (snd (revoke_runner L now k d))"
| runner_claim: "execution_step L d (snd (runner_claim L secs now r d))"
| runner_task_heartbeat: "execution_step L d (snd (runner_task_heartbeat secs now w tid k d))"
| runner_submit: "execution_step L d (snd (runner_submit L save mx now w tid k res d))"
| finalize_workspace: "execution_step L d (snd (finalize_workspace now wid path branch status d))"
| release_workspace: "execution_step L d (snd (release_workspace L now wid d))"
| claim_workspace_cleanup: "execution_step L d (snd (claim_workspace_cleanup L now rid secs d))"
| complete_workspace_cleanup: "execution_step L d (snd (complete_workspace_cleanup L now rid wid ok werr d))"
| create_upload: "execution_step L d (snd (create_runner_artifact_upload L now w tid k name ty ct md key d))"
| finalize_upload: "execution_step L d (snd (finalize_runner_artifact_upload aid n d))"
| fail_upload: "execution_step L d (snd (fail_runner_artifact_upload aid aerr d))"

inductive system_step :: "lib \<Rightarrow> bool \<Rightarrow> db \<Rightarrow> db \<Rightarrow> bool" for L allow where
  execution: "execution_step L d d' \<Longrightarrow> system_step L allow d d'"
| defining: "definition_step L d d' \<Longrightarrow> system_step L allow d d'"
| registering: "registry_step L allow d d' \<Longrightarrow> system_step L allow d d'"

definition system_inv :: "lib \<Rightarrow> bool \<Rightarrow> db \<Rightarrow> bool" where
  "system_inv L allow d \<longleftrightarrow> db_inv L d \<and> definitions_ok L d \<and> registry_ok L allow d"

section \<open>Every step advances\<close>

lemma advance_workspace_ops:
  assumes "db_inv L d"
  shows "advance L d (snd (finalize_workspace now wid path branch status d))"
    and "advance L d (snd (release_workspace L2 now wid d))"
    and "advance L d (snd (claim_workspace_cleanup L2 now rid secs d))"
    and "advance L d (snd (complete_workspace_cleanup L2 now rid wid ok err d))"
proof -
  have nt: "new_tasks d = []" and core: "same_core d d' \<Longrightarrow> same_exec d d'" for d'
    using assms by (auto simp: db_inv_def same_core_def same_exec_def)
  note ops = workspace_ops_core [OF nt, THEN core, THEN advance_same_exec [OF assms]]
  show "advance L d (snd (finalize_workspace now wid path branch status d))"
    "advance L d (snd (release_workspace L2 now wid d))"
    "advance L d (snd (claim_workspace_cleanup L2 now rid secs d))"
    "advance L d (snd (complete_workspace_cleanup L2 now rid wid ok err d))"
    by (rule ops)+
qed

lemma advance_artifact_ops:
  assumes inv: "db_inv L d"
  shows "advance L d (snd (create_runner_artifact_upload L now w tid k name ty ct md key d))"
    and "advance L d (snd (finalize_runner_artifact_upload aid n d))"
    and "advance L d (snd (fail_runner_artifact_upload aid err d))"
    and "advance L d (snd (transact d (register_artifact_candidates L save mx now rid nid items d)))"
proof -
  have nt: "new_tasks d = []" using inv by (simp add: db_inv_def)
  have ins: "insert_artifact a (d\<lparr> uuids := Suc (uuids d) \<rparr>) = Inr e \<Longrightarrow> same_exec d e" for a e
    using insert_after_uuid(1) [of a L d e] nt by (auto simp: uuid4_def intro: same_exec_adds)
  show "advance L d (snd (create_runner_artifact_upload L now w tid k name ty ct md key d))"
    unfolding create_runner_artifact_upload_def
    by (rule advance_commit_same [OF inv]) (auto simp: outcome Let_def uuid4_def split: option.splits if_splits dest: ins)
  show "advance L d (snd (finalize_runner_artifact_upload aid n d))" "advance L d (snd (fail_runner_artifact_upload aid err d))"
    unfolding finalize_runner_artifact_upload_def fail_runner_artifact_upload_def
    by (rule advance_commit_same [OF inv]; auto simp: same_exec_def upd_artifact_def)+
  show "advance L d (snd (transact d (register_artifact_candidates L save mx now rid nid items d)))"
    by (rule advance_commit_same [OF inv]) (auto dest!: register_candidates_result(1) [OF _ nt] intro: same_exec_adds)
qed

lemma definition_step_same_exec:
  assumes "definition_step L d d'" "new_tasks d = []"
  shows "same_exec d d'"
  using assms(1)
proof cases
  case (create now payload)
  then show ?thesis using create_workflow_outcome [OF assms(2), of L now payload] by (auto simp: same_exec_def)
next
  case (update now wid u)
  then show ?thesis using update_workflow_outcome [OF assms(2), of L now wid u] by (auto simp: same_exec_def upd_workflow_def)
next
  case (delete now wid)
  then show ?thesis using delete_workflow_outcome [OF assms(2), of now wid] by (auto simp: same_exec_def upd_workflow_def)
next
  case (draft now wid raw)
  then show ?thesis using update_draft_graph_outcome [OF assms(2), of L now wid raw] by (auto simp: same_exec_def upd_workflow_def)
next
  case (publish now wid remark)
  then show ?thesis using create_version_outcome [OF assms(2), of L now wid remark] by (auto simp: same_exec_def upd_workflow_def)
qed

lemma execution_step_advance:
  assumes "execution_step L d d'" and inv: "db_inv L d" and inj: "inj (lib_uuid4 L)"
  shows "advance L d d'"
  using assms(1)
  by cases
    (simp_all only: advance_queue [OF inv] advance_build_execution_context [OF inv] advance_artifact_ops [OF inv]
      advance_reconcile_after [OF inv inj] advance_reconcile_active [OF inv inj] advance_create_run [OF inv inj]
      advance_start_run [OF inv inj] advance_pause_run [OF inv] advance_resume_run [OF inv inj] advance_cancel_run [OF inv]
      advance_approve [OF inv inj] advance_reject [OF inv inj] advance_submit [OF inv inj] advance_runner_rows [OF inv]
      advance_runner_claim [OF inv] advance_runner_task_heartbeat [OF inv] advance_runner_submit [OF inv inj]
      advance_workspace_ops [OF inv])

lemma quiet_create_run:
  assumes "db_inv L d" "inj (lib_uuid4 L)"
  shows "quiet_step L d (snd (create_run L offline now wid payload d))"
proof (cases "\<exists>w v g. get_workflow_row wid d = Inr w \<and> run_admitted L offline now payload w v g d")
  case True
  then obtain w v g where "get_workflow_row wid d = Inr w" "run_admitted L offline now payload w v g d" by blast
  then obtain read where "create_run L offline now wid payload d = (Inr read,
      add_run (created_run L now payload w v g d) (created_rows L now payload g d) d)" using create_run_admitted [OF assms] by blast
  then show ?thesis by (simp add: add_run_def quiet_step_def same_definitions_def tokens_def)
next
  case False
  then show ?thesis using create_run_refused [of wid d L offline now payload] by (metis quiet_refl snd_conv)
qed

lemma execution_step_quiet:
  assumes "execution_step L d d'" and inv: "db_inv L d" and inj: "inj (lib_uuid4 L)"
  shows "quiet_step L d d'"
proof -
  have nt: "new_tasks d = []" using inv by (simp add: db_inv_def)
  from assms(1) show ?thesis
    by cases
      (simp_all only: quiet_claim quiet_start quiet_complete quiet_fail quiet_wait_node quiet_schedule_retry quiet_renew_lease
        quiet_cancel quiet_build_execution_context quiet_register_candidates [OF nt] quiet_reconcile_after quiet_recover_expired
        quiet_promote_due_retries quiet_reconcile_active quiet_create_run [OF inv inj] quiet_start_run quiet_pause_run
        quiet_resume_run quiet_cancel_run quiet_approve quiet_reject quiet_submit quiet_register_runner quiet_heartbeat_runner
        quiet_set_runner_enabled quiet_rotate_runner_token quiet_revoke_runner quiet_runner_claim quiet_runner_task_heartbeat
        quiet_runner_submit [OF nt] quiet_workspace_ops quiet_artifact_ops [OF nt])
qed

text \<open>What one step of the system does.\<close>

definition keeps_tokens :: "lib \<Rightarrow> db \<Rightarrow> db \<Rightarrow> bool" where
  "keeps_tokens L d d' \<longleftrightarrow> uuids d \<le> uuids d' \<and> tokens d' \<subseteq> tokens d \<union> UNIV \<times> lib_uuid4 L ` {uuids d..}"

definition evolves :: "lib \<Rightarrow> bool \<Rightarrow> db \<Rightarrow> db \<Rightarrow> bool" where
  "evolves L allow d d' \<longleftrightarrow> system_inv L allow d' \<and> progress d d' \<and> keeps_tokens L d d'
     \<and> prefix (workflow_versions d) (workflow_versions d')"

lemma definitions_ok_quiet: "quiet_step L d d' \<Longrightarrow> new_tasks d' = [] \<Longrightarrow> definitions_ok L d \<Longrightarrow> definitions_ok L d'"
  using issued_mono [of d d' L] by (auto simp: quiet_step_def same_definitions_def definitions_ok_def)

lemma quiet_registry:
  assumes "quiet_step L d d'"
  shows "same_registry d d'" "stored_graphs d' = stored_graphs d"
  using assms by (simp_all add: quiet_step_def same_definitions_def same_registry_def stored_graphs_def)

lemma definitions_ok_frame: "registry_frame d d' \<Longrightarrow> new_tasks d = [] \<Longrightarrow> definitions_ok L d \<Longrightarrow> definitions_ok L d'"
  using issued_mono [of d d' L] by (auto simp: registry_frame_def same_exec_def definitions_ok_def)

lemma system_step_evolves:
  assumes "system_step L allow d d'" "system_inv L allow d" and inj: "inj (lib_uuid4 L)"
  shows "evolves L allow d d'"
proof -
  have inv: "db_inv L d" "definitions_ok L d" "registry_ok L allow d" "new_tasks d = []"
    using assms(2) by (simp_all add: system_inv_def db_inv_def)
  from assms(1) show ?thesis
  proof cases
    case execution
    have adv: "db_inv L d'" "progress d d'" using execution_step_advance [OF execution inv(1) inj] by (simp_all add: advance_def)
    moreover have quiet: "quiet_step L d d'" by (rule execution_step_quiet [OF execution inv(1) inj])
    moreover have "definitions_ok L d'" using definitions_ok_quiet [OF quiet _ inv(2)] adv(1) by (simp add: db_inv_def)
    moreover have "registry_ok L allow d'" by (rule same_registry_ok [OF quiet_registry(1) [OF quiet] inv(3)])
    ultimately show ?thesis by (simp add: evolves_def system_inv_def keeps_tokens_def quiet_step_def same_definitions_def)
  next
    case defining
    have same: "same_exec d d'" by (rule definition_step_same_exec [OF defining inv(4)])
    then have "db_inv L d'" "progress d d'" using advance_same_exec [OF inv(1)] by (simp_all add: advance_def)
    moreover have "keeps_tokens L d d'" using same by (auto simp: keeps_tokens_def same_exec_def tokens_def)
    moreover have "registry_ok L allow d'"
      using definition_step_checked [OF defining inv(4)] inv(3) by (blast intro: same_registry_ok)
    ultimately show ?thesis using definition_step_ok [OF defining inv(2) inj] by (simp add: evolves_def system_inv_def)
  next
    case registering
    from registry_step_keeps [OF registering inj inv(4)] inv(3) have frame: "registry_frame d d'" and ok: "registry_ok L allow d'"
      by (simp_all add: registry_keeps_def)
    then have same: "same_exec d d'" "workflow_versions d' = workflow_versions d" by (simp_all add: registry_frame_def)
    then have "db_inv L d'" "progress d d'" using advance_same_exec [OF inv(1)] by (simp_all add: advance_def)
    moreover have "keeps_tokens L d d'" using same by (auto simp: keeps_tokens_def same_exec_def tokens_def)
    ultimately show ?thesis using ok same(2) definitions_ok_frame [OF frame inv(4,2)] by (simp add: evolves_def system_inv_def)
  qed
qed

lemma system_step_closed:
  assumes "system_step L allow d d'" "system_inv L allow d" "inj (lib_uuid4 L)" "dumps_nodes L" "references_closed d"
  shows "references_closed d'"
proof -
  have inv: "db_inv L d" "registry_ok L allow d" "new_tasks d = []" using assms(2) by (simp_all add: system_inv_def db_inv_def)
  from assms(1) show ?thesis
  proof cases
    case execution
    have quiet: "quiet_step L d d'" by (rule execution_step_quiet [OF execution inv(1) assms(3)])
    have "graphs_checked L d d'" using quiet_registry(2) [OF quiet] by (simp add: graphs_checked_def)
    then show ?thesis using checked_closed [OF assms(5) quiet_registry(1) [OF quiet] _ assms(4)] by blast
  next
    case defining
    then show ?thesis using definition_step_checked [OF defining inv(3)] checked_closed [OF assms(5) _ _ assms(4)] by blast
  next
    case registering
    then show ?thesis using registry_step_keeps [OF registering assms(3) inv(3)] inv(2) assms(5) by (simp add: registry_keeps_def)
  qed
qed

lemma keeps_tokens_trans: "keeps_tokens L a b \<Longrightarrow> keeps_tokens L b c \<Longrightarrow> keeps_tokens L a c"
  unfolding keeps_tokens_def by fastforce

lemma history_evolves:
  assumes "(system_step L allow)\<^sup>*\<^sup>* d d'" "system_inv L allow d" "inj (lib_uuid4 L)"
  shows "evolves L allow d d'"
  using assms(1)
proof (induction rule: rtranclp_induct)
  case base
  then show ?case using assms(2) by (simp add: evolves_def keeps_tokens_def)
next
  case (step e e')
  have "evolves L allow e e'" using system_step_evolves [OF step(2) _ assms(3)] step(3) by (simp add: evolves_def)
  with step(3) show ?case
    unfolding evolves_def using progress_trans keeps_tokens_trans prefix_order.trans by blast
qed

section \<open>The transition tables as an abstract machine\<close>

text \<open>
  The abstract machine keeps one status for every id. A step gives a new id the initial status or
  moves one id along its transition table.
\<close>

context lifecycle
begin

inductive moves :: "'s \<Rightarrow> ('k \<rightharpoonup> 's) \<Rightarrow> ('k \<rightharpoonup> 's) \<Rightarrow> bool" for init where
  new: "m k = None \<Longrightarrow> moves init m (m(k \<mapsto> init))"
| move: "m k = Some s \<Longrightarrow> check s s' = Inr () \<Longrightarrow> moves init m (m(k \<mapsto> s'))"

lemma moves_along:
  assumes "history s s'" "m k = Some s"
  shows "(moves init)\<^sup>*\<^sup>* m (m(k \<mapsto> s'))"
  using assms
proof (induction rule: history.induct)
  case (refl s)
  then show ?case by (simp add: fun_upd_idem)
next
  case (step s t u)
  have "moves init (m(k \<mapsto> t)) ((m(k \<mapsto> t))(k \<mapsto> u))" using step(2) by (intro move) auto
  then have "moves init (m(k \<mapsto> t)) (m(k \<mapsto> u))" by (simp only: fun_upd_upd)
  then show ?case using step.IH [OF step.prems] by (meson r_into_rtranclp rtranclp_trans)
qed

lemma moves_one:
  assumes "case m k of None \<Rightarrow> history init s' | Some s \<Rightarrow> history s s'"
  shows "(moves init)\<^sup>*\<^sup>* m (m(k \<mapsto> s'))"
proof (cases "m k")
  case None
  have "(moves init)\<^sup>*\<^sup>* (m(k \<mapsto> init)) (m(k \<mapsto> s'))"
    using moves_along [of init s' "m(k \<mapsto> init)" k init] assms None by simp
  with new [of m k init] None show ?thesis by (simp add: converse_rtranclp_into_rtranclp)
qed (use assms moves_along in auto)

lemma moves_all:
  assumes "finite (dom m')" "\<And>k. k \<in> dom m' \<Longrightarrow> case m k of None \<Rightarrow> history init (the (m' k)) | Some s \<Rightarrow> history s (the (m' k))"
    and "dom m \<subseteq> dom m'"
  shows "(moves init)\<^sup>*\<^sup>* m m'"
proof -
  have "(moves init)\<^sup>*\<^sup>* m (m ++ m' |` A)" if "finite A" "A \<subseteq> dom m'" for A
    using that
  proof (induction A)
    case (insert k A)
    then obtain s' where s': "m' k = Some s'" by auto
    have "(m ++ m' |` A) k = m k" using insert by (simp add: map_add_def)
    then have "(moves init)\<^sup>*\<^sup>* (m ++ m' |` A) ((m ++ m' |` A)(k \<mapsto> s'))"
      using assms(2) [OF domI, OF s'] s' by (intro moves_one) (simp split: option.splits)
    moreover have "(m ++ m' |` A)(k \<mapsto> s') = m ++ m' |` (insert k A)"
      using s' by (auto simp: fun_eq_iff map_add_def restrict_map_def)
    ultimately show ?case using insert by simp
  qed simp
  moreover have "m ++ m' |` dom m' = m'"
    using assms(3) by (auto simp: fun_eq_iff map_add_def restrict_map_def split: option.splits)
  ultimately show ?thesis using assms(1) by (metis order_refl)
qed

end

type_synonym statuses = "(string \<rightharpoonup> workflow_run_status) \<times> (string \<rightharpoonup> node_run_status) \<times> (string \<rightharpoonup> execution_task_status)"

inductive spec_step :: "statuses \<Rightarrow> statuses \<Rightarrow> bool" where
  run: "run_fsm.moves W_CREATED rs rs' \<Longrightarrow> spec_step (rs, ns, ts) (rs', ns, ts)"
| node: "node_fsm.moves N_PENDING ns ns' \<Longrightarrow> spec_step (rs, ns, ts) (rs, ns', ts)"
| task: "task_fsm.moves T_PENDING ts ts' \<Longrightarrow> spec_step (rs, ns, ts) (rs, ns, ts')"

definition statuses_of :: "db \<Rightarrow> statuses" where
  "statuses_of d = (\<lambda>k. map_option r_status (get_run k d), \<lambda>k. map_option nr_status (get_node k d),
     \<lambda>k. map_option t_status (get_task k d))"

lemma spec_runs: "(run_fsm.moves W_CREATED)\<^sup>*\<^sup>* rs rs' \<Longrightarrow> spec_step\<^sup>*\<^sup>* (rs, ns, ts) (rs', ns, ts)"
  by (induction rule: rtranclp_induct) (auto intro: rtranclp.rtrancl_into_rtrancl spec_step.intros)

lemma spec_nodes: "(node_fsm.moves N_PENDING)\<^sup>*\<^sup>* ns ns' \<Longrightarrow> spec_step\<^sup>*\<^sup>* (rs, ns, ts) (rs, ns', ts)"
  by (induction rule: rtranclp_induct) (auto intro: rtranclp.rtrancl_into_rtrancl spec_step.intros)

lemma spec_tasks: "(task_fsm.moves T_PENDING)\<^sup>*\<^sup>* ts ts' \<Longrightarrow> spec_step\<^sup>*\<^sup>* (rs, ns, ts) (rs, ns, ts')"
  by (induction rule: rtranclp_induct) (auto intro: rtranclp.rtrancl_into_rtrancl spec_step.intros)

text \<open>Every status lies on a path from the initial one.\<close>

lemma run_reachable: "run_fsm.history W_CREATED s"
proof -
  have r: "run_fsm.history W_CREATED W_RUNNING" by (rule run_fsm.history.step [OF run_fsm.history.refl]) (simp add: status_simps)
  show ?thesis
    by (cases s) (use r run_fsm.history.refl run_fsm.history.step [OF r] in \<open>auto simp: status_simps\<close>)
qed

lemma node_reachable: "node_fsm.history N_PENDING s"
proof -
  have q: "node_fsm.history N_PENDING N_QUEUED" by (rule node_fsm.history.step [OF node_fsm.history.refl]) (simp add: status_simps)
  have r: "node_fsm.history N_PENDING N_RUNNING" by (rule node_fsm.history.step [OF q]) (simp add: status_simps)
  show ?thesis
    by (cases s) (use q r node_fsm.history.refl node_fsm.history.step [OF r] node_fsm.history.step [OF node_fsm.history.refl, of N_PENDING]
      in \<open>auto simp: status_simps\<close>)
qed

lemma task_reachable: "task_fsm.history T_PENDING s"
proof -
  have q: "task_fsm.history T_PENDING T_CLAIMED" by (rule task_fsm.history.step [OF task_fsm.history.refl]) (simp add: status_simps)
  have r: "task_fsm.history T_PENDING T_RUNNING" by (rule task_fsm.history.step [OF q]) (simp add: status_simps)
  show ?thesis
    by (cases s) (use q r task_fsm.history.refl task_fsm.history.step [OF r] in \<open>auto simp: status_simps\<close>)
qed

lemma finite_row_map: "finite (dom (\<lambda>k. map_option f (row_get key k rs)))"
proof (rule finite_subset)
  show "dom (\<lambda>k. map_option f (row_get key k rs)) \<subseteq> key ` set rs" using row_get_in row_get_key by fastforce
qed simp

lemma progress_refines:
  assumes "progress d d'"
  shows "spec_step\<^sup>*\<^sup>* (statuses_of d) (statuses_of d')"
proof -
  have r: "(run_fsm.moves W_CREATED)\<^sup>*\<^sup>* (\<lambda>k. map_option r_status (get_run k d)) (\<lambda>k. map_option r_status (get_run k d'))"
    using assms
    by (intro run_fsm.moves_all; fastforce simp: progress_def run_step_def run_reachable finite_row_map get_run_def split: option.splits)
  have n: "(node_fsm.moves N_PENDING)\<^sup>*\<^sup>* (\<lambda>k. map_option nr_status (get_node k d)) (\<lambda>k. map_option nr_status (get_node k d'))"
    using assms
    by (intro node_fsm.moves_all; fastforce simp: progress_def node_step_def node_reachable finite_row_map get_node_def split: option.splits)
  have t: "(task_fsm.moves T_PENDING)\<^sup>*\<^sup>* (\<lambda>k. map_option t_status (get_task k d)) (\<lambda>k. map_option t_status (get_task k d'))"
    using assms
    by (intro task_fsm.moves_all; fastforce simp: progress_def task_step_def task_reachable finite_row_map get_task_def split: option.splits)
  show ?thesis
    unfolding statuses_of_def using spec_runs [OF r] spec_nodes [OF n] spec_tasks [OF t] by (meson rtranclp_trans)
qed

section \<open>A lost lease\<close>

lemma token_not_regained:
  assumes "keeps_tokens L d d'" "inj (lib_uuid4 L)" "k \<in> issued L d" "(tid, k) \<notin> tokens d"
  shows "(tid, k) \<notin> tokens d'"
proof
  assume "(tid, k) \<in> tokens d'"
  with assms(1,4) obtain m where "uuids d \<le> m" "k = lib_uuid4 L m" by (auto simp: keeps_tokens_def)
  with assms(3) issued_fresh [OF assms(2)] show False by auto
qed

lemma no_token_stale:
  assumes "(tid, k) \<notin> tokens d"
  shows "stale now tid w k d" "get_task tid d = Some t \<Longrightarrow> t_lease_token t \<noteq> Some k"
proof -
  have no: "t_lease_token t \<noteq> Some k" if "get_task tid d = Some t" for t
    using assms get_task_key [OF that] row_get_in [of t_id tid "tasks d" t] that by (auto simp: tokens_def get_task_def)
  then show "get_task tid d = Some t \<Longrightarrow> t_lease_token t \<noteq> Some k" .
  show "stale now tid w k d" using no by (auto simp: stale_def owns_def split: option.splits)
qed

lemma runner_calls_stale:
  assumes "(tid, k) \<notin> tokens d" "new_tasks d = []"
  shows "runner_submit L save mx now w tid k res d = (Inr False, d)"
    and "runner_task_heartbeat secs now w tid k d = (Inl RUNNER_TASK_STALE, d)"
proof -
  have "submit_commit L save mx now w tid k res d = (Inr None, d)"
    using no_token_stale [OF assms(1)] assms(2)
    by (auto simp: submit_commit_def stale_def transact_no_new split: option.splits)
  then show "runner_submit L save mx now w tid k res d = (Inr False, d)"
    using assms(2) by (simp add: runner_submit_def then_transact_def after_submit_def transact_no_new)
  show "runner_task_heartbeat secs now w tid k d = (Inl RUNNER_TASK_STALE, d)"
    using no_token_stale(2) [OF assms(1)] by (auto simp: runner_task_heartbeat_def transact_Inl split: option.splits)
qed

section \<open>Properties of histories\<close>

lemma empty_system_inv: "system_inv L allow empty_db"
  by (simp add: system_inv_def db_inv_def unique_rows_def refs_ok_def linked_def leases_ok_def ids_issued_def definitions_ok_def
      registry_ok_def table_ok_def named_ok_def empty_db_def get_node_def get_task_def get_run_def row_get_Nil)

lemma demo_system_inv: "system_inv demo_lib False demo_db" "system_inv demo_lib False demo_queue"
  using demo_inv demo_queue_inv by (simp_all add: system_inv_def definitions_ok_def registry_ok_def table_ok_def named_ok_def demo_db_def demo_queue_def empty_db_def)

text \<open>
  C1. Whatever interleaving of workers, Runners, recovery, run commands, definition and registry changes led
  from the empty database to a state, that state is consistent: ids are unique, every task belongs
  to a Node Run of its run and every Node Run to a run, the status of a Node Run agrees with the
  status of its task, a task carries a lease exactly while it is claimed or running, every Version
  has its Workflow and a number of its own, no two Workflows, Agents, Services or Credentials and no two
  actions of one Service share a name up to case, every Credential and Service another row names
  exists, and every stored configuration passes the checks of the registry.
\<close>

theorem reachable_states_are_consistent:
  assumes "(system_step L allow)\<^sup>*\<^sup>* empty_db d" "inj (lib_uuid4 L)"
  shows "db_inv L d \<and> definitions_ok L d \<and> registry_ok L allow d"
  using history_evolves [OF assms(1) empty_system_inv assms(2)] by (simp add: evolves_def system_inv_def)

theorem reachable_states_are_consistent_witness:
  "db_inv demo_lib (snd (create_workflow demo_lib 1 \<lparr> wc_name = ''a'', wc_description = None, wc_graph = None \<rparr> empty_db))"
  using reachable_states_are_consistent
    [OF r_into_rtranclp [of "system_step demo_lib False", OF system_step.defining [OF definition_step.create]] demo_inj] by blast

text \<open>
  C5. What a stored graph names exists. In every reachable state each Agent node of a draft or a Version
  names a registered Agent whose configuration passes the checks, each Service node a registered
  Service and an action of that same Service, and every Credential they carry is stored: no
  interleaving of edits, publications and deletions leaves a dangling reference.
\<close>

lemma history_closed:
  assumes "(system_step L allow)\<^sup>*\<^sup>* empty_db d" "inj (lib_uuid4 L)" "dumps_nodes L"
  shows "references_closed d"
  using assms(1)
proof (induction rule: rtranclp_induct)
  case base
  show ?case by (simp add: references_closed_def stored_graphs_def empty_db_def)
next
  case (step e e')
  have "system_inv L allow e" using history_evolves [OF step(1) empty_system_inv assms(2)] by (simp add: evolves_def)
  then show ?case using system_step_closed [OF step(2) _ assms(2,3) step(3)] by blast
qed


text \<open>The concrete history: an Agent is registered, then a Workflow whose draft refers to it.\<close>

definition demo_agent_graph :: workflow_graph where
  "demo_agent_graph = \<lparr> g_nodes = [\<lparr> n_id = ''a'', n_type = AGENT, n_subtype = ''agent'', n_name = ''a'', n_position = (0, 0),
     n_config = [(''agent_id'', JStr ''u0'')], n_input_mapping = [], n_metadata = [] \<rparr>],
     g_edges = [], g_variables = [], g_metadata = [] \<rparr>"

definition dump_nodes :: "workflow_graph \<Rightarrow> json" where
  "dump_nodes g = JObj [(''schema_version'', JStr ''1.0''),
     (''nodes'', JArr (map (\<lambda>n. JObj [(''type'', JStr (node_type_value (n_type n))), (''config'', JObj (n_config n))]) (g_nodes g)))]"

definition demo_registry_lib :: lib where
  "demo_registry_lib = demo_lib\<lparr> lib_decode_graph := \<lambda>_. Some demo_agent_graph, lib_dump_graph := dump_nodes \<rparr>"

definition demo_agent_create :: agent_create where
  "demo_agent_create = \<lparr> ac_name = ''A'', ac_description = None, ac_connector_type = AC_LOCAL, ac_endpoint = None,
     ac_http_method = HM_POST, ac_health_check_url = None, ac_headers = [], ac_runner_id = None, ac_executable = None,
     ac_capabilities = [], ac_input_schema = [], ac_output_schema = [], ac_credential_id = None, ac_timeout_seconds = 30,
     ac_enabled = True, ac_metadata = [] \<rparr>"

definition demo_workflow_create :: workflow_create where
  "demo_workflow_create = \<lparr> wc_name = ''F'', wc_description = None, wc_graph = Some [(''schema_version'', JStr ''1.0'')] \<rparr>"

definition demo_registry_db :: db where
  "demo_registry_db = snd (create_workflow demo_registry_lib 2 demo_workflow_create
     (snd (create_agent demo_registry_lib False demo_agent_create empty_db)))"

lemma dump_nodes_dumps: "lib_dump_graph L = dump_nodes \<Longrightarrow> dumps_nodes L"
  by (simp add: dumps_nodes_def dump_nodes_def json_nodes_def dget_or_def dget_def map_filter_def comp_def)

lemma demo_registry_history: "(system_step demo_registry_lib False)\<^sup>*\<^sup>* empty_db demo_registry_db"
  unfolding demo_registry_db_def
  by (rule converse_rtranclp_into_rtranclp, rule system_step.registering, rule registry_step.create_agent)
    (rule r_into_rtranclp, rule system_step.defining, rule definition_step.create)

lemma demo_registry_graph: "map wf_draft_graph_json (workflows demo_registry_db) = [dump_nodes demo_agent_graph]"
  by code_simp


text \<open>
  C3. Every operation of the system refines the three transition tables: seen through the statuses
  of the runs, Node Runs and tasks, it is a sequence of steps of the abstract machine, each of which
  enters a new row in its initial status or takes one row along an edge of its table. No operation
  loses a row or moves one against its table, even those that write a status without checking it.
\<close>

theorem operations_refine_lifecycles:
  assumes "system_step L allow d d'" "system_inv L allow d" "inj (lib_uuid4 L)"
  shows "spec_step\<^sup>*\<^sup>* (statuses_of d) (statuses_of d')"
  using system_step_evolves [OF assms] progress_refines by (simp add: evolves_def)

theorem operations_refine_lifecycles_witness:
  "spec_step\<^sup>*\<^sup>* (statuses_of demo_queue) (statuses_of (snd (claim demo_lib 60 5 ''v'' None False demo_queue)))"
  by (rule operations_refine_lifecycles [OF system_step.execution [OF execution_step.claim] demo_system_inv(2) demo_inj])

text \<open>
  C4. History is append-only. In every later state the events and the Versions so far are still
  there, first and unchanged; a finished Node Run has kept its result and a finished task its row;
  and a run has kept its Version, its graph and execution snapshots, its input and its variables.
\<close>

theorem history_is_append_only:
  assumes "(system_step L allow)\<^sup>*\<^sup>* d d'" "system_inv L allow d" "inj (lib_uuid4 L)"
  shows "prefix (events d) (events d') \<and> prefix (workflow_versions d) (workflow_versions d')
    \<and> (\<forall>k n. get_node k d = Some n \<and> is_node_run_terminal (nr_status n) \<longrightarrow>
          (\<exists>n'. get_node k d' = Some n' \<and> node_result n' = node_result n))
    \<and> (\<forall>k t. get_task k d = Some t \<and> is_execution_task_terminal (t_status t) \<longrightarrow> get_task k d' = Some t)
    \<and> (\<forall>k r. get_run k d = Some r \<longrightarrow> (\<exists>r'. get_run k d' = Some r' \<and> r_workflow_version_id r' = r_workflow_version_id r
          \<and> r_graph_snapshot_json r' = r_graph_snapshot_json r \<and> r_execution_snapshot_json r' = r_execution_snapshot_json r
          \<and> r_input_json r' = r_input_json r \<and> r_variables_json r' = r_variables_json r))"
proof -
  have ev: "progress d d'" "prefix (workflow_versions d) (workflow_versions d')"
    using history_evolves [OF assms] by (simp_all add: evolves_def)
  have "\<exists>n'. get_node k d' = Some n' \<and> node_result n' = node_result n"
    if "get_node k d = Some n" "is_node_run_terminal (nr_status n)" for k n
    using ev(1) that unfolding progress_def node_step_def by meson
  moreover have "get_task k d' = Some t" if "get_task k d = Some t" "is_execution_task_terminal (t_status t)" for k t
    using ev(1) that unfolding progress_def task_step_def by metis
  moreover have "\<exists>r'. get_run k d' = Some r' \<and> run_step r r'" if "get_run k d = Some r" for k r
    using ev(1) that unfolding progress_def by blast
  ultimately show ?thesis using ev unfolding progress_def run_step_def by blast
qed

theorem history_is_append_only_witness:
  "\<exists>r'. get_run ''u0'' (snd (cancel_run demo_lib 7 ''u0'' demo_db)) = Some r' \<and> r_input_json r' = []"
proof -
  have "(system_step demo_lib False)\<^sup>*\<^sup>* demo_db (snd (cancel_run demo_lib 7 ''u0'' demo_db))"
    by (rule r_into_rtranclp) (rule system_step.execution [OF execution_step.cancel_run])
  moreover have "get_run ''u0'' demo_db = Some (demo_run W_RUNNING)" "r_input_json (demo_run W_RUNNING) = []"
    by (simp_all add: demo_lookups) (simp add: demo_run_def)
  ultimately show ?thesis using history_is_append_only [OF _ demo_system_inv(1) demo_inj] by metis
qed

text \<open>
  C2. A lease that is lost is lost for good. Once a task no longer carries a lease token that was
  issued (its lease expired and was recovered, the task was claimed again, retried or finished),
  no later operation by anyone puts that token back, so in every later state every report under it,
  by a worker or by a Runner, is refused and writes nothing.
\<close>

theorem lost_lease_stays_lost:
  assumes "system_inv L allow d" "inj (lib_uuid4 L)" "k \<in> issued L d"
    and "\<And>t. get_task tid d = Some t \<Longrightarrow> t_lease_token t \<noteq> Some k"
    and "(system_step L allow)\<^sup>*\<^sup>* d d'"
  shows "start now tid w k d' = (Inr False, d') \<and> complete now tid w k out md refs d' = (Inr False, d')
    \<and> fail now tid w k err md refs d' = (Inr False, d') \<and> wait_node now tid w k reason md d' = (Inr False, d')
    \<and> schedule_retry now tid w k bsecs d' = (Inr False, d') \<and> renew_lease secs now tid w k d' = (Inr False, d')
    \<and> runner_submit L save mx now w tid k res d' = (Inr False, d')
    \<and> runner_task_heartbeat secs now w tid k d' = (Inl RUNNER_TASK_STALE, d')"
proof -
  have ev: "keeps_tokens L d d'" "new_tasks d' = []"
    using history_evolves [OF assms(5,1,2)] by (simp_all add: evolves_def system_inv_def db_inv_def)
  have "distinct (map t_id (tasks d))" "new_tasks d = []" using assms(1) by (simp_all add: system_inv_def db_inv_def unique_rows_def)
  then have "(tid, k) \<notin> tokens d" using assms(4) by (auto simp: tokens_def get_task_def dest: row_get_distinct)
  then have no: "(tid, k) \<notin> tokens d'" by (rule token_not_regained [OF ev(1) assms(2,3)])
  note fences = start.fence complete.fence fail.fence wait_node.fence schedule_retry.fence renew_lease.fence runner_calls_stale [OF no ev(2)]
  show ?thesis by (intro conjI fences no_token_stale(1) [OF no] ev(2))
qed

theorem lost_lease_stays_lost_witness:
  "let d1 = snd (recover_expired 101 demo_db); d2 = snd (claim demo_lib 60 102 ''v'' None False d1) in
     complete 103 ''u2'' ''w'' ''u3'' [] [] [] d2 = (Inr False, d2)"
proof -
  define d1 where "d1 = snd (recover_expired 101 demo_db)"
  have step: "system_step demo_lib False demo_db d1"
    unfolding d1_def by (rule system_step.execution [OF execution_step.recover_expired])
  then have ev: "system_inv demo_lib False d1" "keeps_tokens demo_lib demo_db d1"
    using system_step_evolves [OF _ demo_system_inv(1) demo_inj] by (simp_all add: evolves_def)
  have "''u3'' \<in> issued demo_lib demo_db"
    using demo_inv demo_owner(1) by (auto simp: db_inv_def ids_issued_def get_task_def demo_task_def dest!: row_get_in)
  then have "''u3'' \<in> issued demo_lib d1" using issued_mono [of demo_db d1] ev(2) by (auto simp: keeps_tokens_def)
  moreover have "t_lease_token t \<noteq> Some ''u3''" if "get_task ''u2'' d1 = Some t" for t
    using recover_expired_result [OF demo_inv, of 101] demo_owner(1) that
    by (auto simp: d1_def lease_expired_def demo_task_def recovered_def)
  moreover have "(system_step demo_lib False)\<^sup>*\<^sup>* d1 (snd (claim demo_lib 60 102 ''v'' None False d1))"
    by (rule r_into_rtranclp) (rule system_step.execution [OF execution_step.claim])
  ultimately show ?thesis
    unfolding Let_def d1_def [symmetric] using lost_lease_stays_lost [OF ev(1) demo_inj] by blast
qed

end
