(* ===== verification/RunnerAgent.thy ===== *)
theory RunnerAgent
  imports Runners
begin

text \<open>
  The Runner process (\<^verbatim>\<open>runners/runner.py\<close>): preparing and cleaning up workspaces, building the
  command line, executing a claimed task, bounding its output, uploading artifacts and submitting the
  result with retries.

  The machine it runs on is the record \<open>host\<close>. The state is the list of actions taken so far (git
  commands, started processes, killed processes, requests), and the host answers as a function of that list, so that any
  behaviour of git, of the command and of the control plane is an instance, and the file system
  changes only by actions. The monitor that polls the task heartbeat is the choice of the
  host to end a process by \<open>Proc_cancelled\<close>.
\<close>

section \<open>The host\<close>

type_synonym path = "string list"

datatype act =
    Git "string list"
  | Spawn "string list" path
  | Killed
  | Request string json
  | Upload string string

datatype host_error =
    WorkspaceError string
  | OSError string
  | RuntimeError string
  | PythonError string
  | HTTPStatusError int
  | TransportError

datatype proc_outcome =
    Proc_oserror string
  | Proc_done int string string
  | Proc_cancelled
  | Proc_timeout

datatype reply = No_reply | Reply int json

record host =
  ho_runner_root :: "string option"
  ho_allow_unsandboxed_execution :: bool
  ho_sandbox_command :: "string option"
  ho_enrollment_token :: "string option"
  ho_capabilities :: "string list"
  ho_resolve :: "act list \<Rightarrow> string \<Rightarrow> path option"
  ho_expanduser :: "string \<Rightarrow> string"
  ho_executable_file :: "act list \<Rightarrow> path \<Rightarrow> bool"
  ho_exists :: "act list \<Rightarrow> path \<Rightarrow> bool"
  ho_git :: "act list \<Rightarrow> string list \<Rightarrow> (int \<times> string) option"
  ho_run :: "act list \<Rightarrow> string list \<Rightarrow> path \<Rightarrow> proc_outcome"
  ho_decode_utf8 :: "string \<Rightarrow> string"
  ho_reply :: "act list \<Rightarrow> act \<Rightarrow> reply"

text \<open>Computations on the host: they may raise, and they extend the list of actions.\<close>

type_synonym 'a on_host = "act list \<Rightarrow> (host_error + 'a) \<times> act list"

definition hret :: "'a \<Rightarrow> 'a on_host" where
  "hret x tr = (Inr x, tr)"

definition hraise :: "host_error \<Rightarrow> 'a on_host" where
  "hraise e tr = (Inl e, tr)"

definition hbind :: "'a on_host \<Rightarrow> ('a \<Rightarrow> 'b on_host) \<Rightarrow> 'b on_host" where
  "hbind m f tr = (case m tr of (Inl e, tr) \<Rightarrow> (Inl e, tr) | (Inr x, tr) \<Rightarrow> f x tr)"

definition lift_opt :: "host_error \<Rightarrow> 'a option \<Rightarrow> 'a on_host" where
  "lift_opt e v = (case v of None \<Rightarrow> hraise e | Some x \<Rightarrow> hret x)"

definition path_str :: "path \<Rightarrow> string" where
  "path_str p = CHR ''/'' # join ''/'' p"

definition is_relative_to :: "path \<Rightarrow> path \<Rightarrow> bool" where
  "is_relative_to p rootp \<longleftrightarrow> take (length rootp) p = rootp"

text \<open>\<open>p / name\<close> for a name without a slash: the empty name and the dot add nothing.\<close>

definition child :: "path \<Rightarrow> string \<Rightarrow> path" where
  "child p name = (if name = [] \<or> name = ''.'' then p else p @ [name])"

definition resolve_path :: "host \<Rightarrow> string \<Rightarrow> path on_host" where
  "resolve_path H s tr = lift_opt (OSError ''resolve'') (ho_resolve H tr s) tr"

definition run_git :: "host \<Rightarrow> string list \<Rightarrow> (int \<times> string) on_host" where
  "run_git H argv tr = (case ho_git H tr argv of
       None \<Rightarrow> (Inl (OSError ''git''), tr) | Some out \<Rightarrow> (Inr out, tr @ [Git argv]))"

definition git_ok :: "host \<Rightarrow> path \<Rightarrow> bool on_host" where
  "git_ok H repository =
     hbind (run_git H [''git'', ''-C'', path_str repository, ''rev-parse'', ''--is-inside-work-tree''])
       (\<lambda>(rc, _). hret (rc = 0))"

definition runner_root :: "host \<Rightarrow> path option on_host" where
  "runner_root H =
     (case ho_runner_root H of None \<Rightarrow> hret None
      | Some rootp \<Rightarrow> if rootp = [] then hret None else hbind (resolve_path H rootp) (\<lambda>p. hret (Some p)))"

definition runner_execution_enabled :: "host \<Rightarrow> bool" where
  "runner_execution_enabled H \<longleftrightarrow>
     ho_allow_unsandboxed_execution H \<or> (case ho_sandbox_command H of None \<Rightarrow> False | Some c \<Rightarrow> c \<noteq> [])"

definition command_argv :: "host \<Rightarrow> string \<Rightarrow> path \<Rightarrow> path \<Rightarrow> string list option on_host" where
  "command_argv H command rootp cwd =
     (if ho_allow_unsandboxed_execution H then hret (Some [''/bin/sh'', ''-lc'', command])
      else (case ho_sandbox_command H of None \<Rightarrow> hret None
        | Some wrapper \<Rightarrow>
          if wrapper = [] then hret None
          else hbind (resolve_path H (ho_expanduser H wrapper)) (\<lambda>wrapper_path tr.
            if \<not> ho_executable_file H tr wrapper_path then hret None tr
            else hret (Some [path_str wrapper_path, ''--root'', path_str rootp, ''--cwd'', path_str cwd, ''--'',
                   ''/bin/sh'', ''-lc'', command]) tr)))"

section \<open>Workspaces\<close>

definition str_arg :: "json \<Rightarrow> string on_host" where
  "str_arg v = (case v of JStr s \<Rightarrow> hret s | _ \<Rightarrow> hraise (PythonError ''TypeError''))"

definition or_else :: "json \<Rightarrow> json \<Rightarrow> json" where
  "or_else v w = (if truthy v then v else w)"

definition worktree_path :: "lib \<Rightarrow> path \<Rightarrow> json \<Rightarrow> path" where
  "worktree_path L rootp branch =
     child (rootp @ [''worktrees'']) (if truthy branch then replace_all ''/'' ''_'' (py_str L branch) else ''ws'')"

definition add_worktree :: "host \<Rightarrow> path \<Rightarrow> path \<Rightarrow> json \<Rightarrow> json \<Rightarrow> unit on_host" where
  "add_worktree H repository p branch base_branch =
     hbind (str_arg branch) (\<lambda>b.
     hbind (str_arg (or_else base_branch (JStr ''HEAD''))) (\<lambda>base.
     hbind (run_git H [''git'', ''-C'', path_str repository, ''worktree'', ''add'', ''-b'', b, path_str p, base]) (\<lambda>(rc, _).
     if rc = 0 then hret ()
     else hbind (run_git H [''git'', ''-C'', path_str repository, ''worktree'', ''add'', path_str p, b]) (\<lambda>(rc, _).
       if rc \<noteq> 0 then hraise (WorkspaceError ''failed to create Git worktree'') else hret ()))))"

definition prepare_workspace :: "lib \<Rightarrow> host \<Rightarrow> dict \<Rightarrow> path \<Rightarrow> (string \<times> json \<times> bool) on_host" where
  "prepare_workspace L H workspace rootp =
     hbind (resolve_path H (py_str L (dget0 workspace ''repository''))) (\<lambda>repository.
     if \<not> is_relative_to repository rootp then hraise (WorkspaceError ''repository escapes the Runner root'')
     else
       hbind (git_ok H repository) (\<lambda>ok.
       if \<not> ok then hraise (WorkspaceError ''repository is not a valid Git repository'')
       else
         let branch = dget0 workspace ''branch''; p = worktree_path L rootp branch in
         if or_else (dget0 workspace ''strategy'') (JStr ''worktree'') = JStr ''local''
         then hret (path_str repository, branch, False)
         else
           hbind (\<lambda>tr. if ho_exists H tr p then git_ok H p tr else hret False tr) (\<lambda>there.
           if there then hret (path_str p, branch, True)
           else hbind (add_worktree H repository p branch (dget0 workspace ''base_branch''))
                  (\<lambda>_. hret (path_str p, branch, True)))))"

definition cleanup_workspace :: "lib \<Rightarrow> host \<Rightarrow> dict \<Rightarrow> path \<Rightarrow> unit on_host" where
  "cleanup_workspace L H workspace rootp =
     (if dget0 workspace ''strategy'' \<in> {JStr ''local'', JStr ''local_repository''} then hret ()
      else
        hbind (resolve_path H (py_str L (dget0 workspace ''repository''))) (\<lambda>repository.
        hbind (resolve_path H (py_str L (dget0 workspace ''path''))) (\<lambda>p.
        hbind (resolve_path H (path_str (rootp @ [''worktrees'']))) (\<lambda>managed_root.
        if \<not> is_relative_to repository rootp \<or> \<not> is_relative_to p managed_root \<or> p = managed_root
        then hraise (WorkspaceError ''workspace cleanup target escapes the Runner-managed worktree root'')
        else
          hbind (git_ok H repository) (\<lambda>ok.
          if \<not> ok then hraise (WorkspaceError ''repository is not a valid Git repository'')
          else
            hbind (\<lambda>tr. if ho_exists H tr p
                then hbind (run_git H [''git'', ''-C'', path_str repository, ''worktree'', ''remove'', ''--force'', path_str p])
                       (\<lambda>(rc, _). if rc \<noteq> 0 then hraise (WorkspaceError ''failed to remove Git worktree'') else hret ()) tr
                else hret () tr) (\<lambda>_.
            hbind (run_git H [''git'', ''-C'', path_str repository, ''worktree'', ''prune'']) (\<lambda>_. hret ())))))))"

definition git_diff :: "host \<Rightarrow> string \<Rightarrow> string on_host" where
  "git_diff H repository =
     hbind (run_git H [''git'', ''-C'', repository, ''add'', ''-N'', ''.'']) (\<lambda>_.
     hbind (run_git H [''git'', ''-C'', repository, ''diff'', ''HEAD'']) (\<lambda>(rc, out).
     hret (if rc = 0 then out else [])))"

section \<open>Execution of a claimed task\<close>

definition MAX_COMMAND_OUTPUT_BYTES :: nat where
  "MAX_COMMAND_OUTPUT_BYTES = 32000"

text \<open>The pattern of \<open>_SENSITIVE_OUTPUT\<close> is the one of the trace sanitiser.\<close>

definition safe_output :: "host \<Rightarrow> string \<Rightarrow> string" where
  "safe_output H value =
     (let clipped = take MAX_COMMAND_OUTPUT_BYTES value;
          text = redact_inline False (ho_decode_utf8 H clipped) in
      if length value > MAX_COMMAND_OUTPUT_BYTES then text @ [CHR 0x0A] @ ''***TRUNCATED***'' else text)"

definition task_error :: "string \<Rightarrow> string \<Rightarrow> bool \<Rightarrow> dict \<Rightarrow> json" where
  "task_error code message retryable details =
     JObj [(''code'', JStr code), (''message'', JStr message), (''retryable'', JBool retryable), (''details'', JObj details)]"

definition failed :: "string \<Rightarrow> string \<Rightarrow> dict" where
  "failed code message = [(''ok'', JBool False), (''error'', task_error code message False [])]"

definition dict_or_raise :: "json \<Rightarrow> dict on_host" where
  "dict_or_raise v = (if \<not> truthy v then hret [] else (case v of JObj d \<Rightarrow> hret d | _ \<Rightarrow> hraise (PythonError ''AttributeError'')))"

text \<open>The working directory, its metadata and whether it is a worktree, or the result that ends the task.\<close>

definition enter_workspace :: "lib \<Rightarrow> host \<Rightarrow> dict \<Rightarrow> json \<Rightarrow> path \<Rightarrow> (dict + json \<times> dict \<times> bool) on_host" where
  "enter_workspace L H workspace cwd rootp tr =
     (if \<not> truthy (dget0 workspace ''repository'') then hret (Inr (cwd, [], False)) tr
      else (case prepare_workspace L H workspace rootp tr of
          (Inl (WorkspaceError msg), tr) \<Rightarrow> hret (Inl (failed ''WORKSPACE_PREPARATION_FAILED'' msg)) tr
        | (Inl e, tr) \<Rightarrow> (Inl e, tr)
        | (Inr (p, branch, is_worktree), tr) \<Rightarrow>
            hret (Inr (JStr p, [(''workspace_path'', JStr p), (''workspace_branch'', branch)], is_worktree)) tr))"

definition patch_artifacts :: "host \<Rightarrow> int \<Rightarrow> bool \<Rightarrow> string \<Rightarrow> dict list on_host" where
  "patch_artifacts H returncode is_worktree cwd =
     (if returncode \<noteq> 0 \<or> \<not> is_worktree then hret []
      else hbind (git_diff H cwd) (\<lambda>patch.
        hret (if patch = [] then []
              else [[(''name'', JStr ''patch.diff''), (''type'', JStr ''patch''), (''content_type'', JStr ''text/plain''),
                     (''content'', JStr (b64_encode patch)), (''output_key'', JStr ''patch'')]])))"

definition finished_result :: "int \<Rightarrow> string \<Rightarrow> string \<Rightarrow> dict \<Rightarrow> dict list \<Rightarrow> dict" where
  "finished_result returncode stdout stderr metadata produced =
     (if returncode \<noteq> 0 then
        [(''ok'', JBool False),
         (''error'', task_error ''RUNNER_EXIT_NONZERO'' (''Command exited with status '' @ str_int returncode) True
            [(''exit_code'', JInt returncode), (''stderr'', JStr (drop (length stderr - 2000) stderr))]),
         (''metadata'', JObj metadata), (''artifacts'', JArr (map JObj produced))]
      else
        [(''ok'', JBool True), (''output'', JObj [(''stdout'', JStr stdout), (''exit_code'', JInt returncode)]),
         (''metadata'', JObj metadata), (''artifacts'', JArr (map JObj produced))])"

definition run_process :: "host \<Rightarrow> string list \<Rightarrow> path \<Rightarrow> string \<Rightarrow> int \<Rightarrow> dict \<Rightarrow> bool \<Rightarrow> dict on_host" where
  "run_process H argv cwd_path cwd timeout_seconds workspace_meta is_worktree tr =
     (case ho_run H tr argv cwd_path of
        Proc_oserror msg \<Rightarrow> hret (failed ''RUNNER_SPAWN_FAILED'' msg @ [(''metadata'', JObj workspace_meta)]) tr
      | Proc_cancelled \<Rightarrow>
          hret (failed ''RUNNER_CANCELLED'' ''Runner task was cancelled by the control plane''
            @ [(''metadata'', JObj ((''cancelled'', JBool True) # workspace_meta)), (''artifacts'', JArr [])]) (tr @ [Spawn argv cwd_path, Killed])
      | Proc_timeout \<Rightarrow>
          hret (failed ''RUNNER_TIMEOUT'' (''Command timed out after '' @ str_int timeout_seconds @ ''s'')
            @ [(''metadata'', JObj workspace_meta)]) (tr @ [Spawn argv cwd_path, Killed])
      | Proc_done returncode stdout_bytes stderr_bytes \<Rightarrow>
          let stdout = safe_output H stdout_bytes; stderr = safe_output H stderr_bytes;
              metadata = [(''exit_code'', JInt returncode), (''stderr'', JStr stderr)] @ workspace_meta in
          hbind (patch_artifacts H returncode is_worktree cwd) (\<lambda>produced.
          hret (finished_result returncode stdout stderr metadata produced)) (tr @ [Spawn argv cwd_path]))"

definition run_in :: "host \<Rightarrow> string \<Rightarrow> int \<Rightarrow> path \<Rightarrow> json \<Rightarrow> dict \<Rightarrow> bool \<Rightarrow> dict on_host" where
  "run_in H command timeout_seconds rootp cwd workspace_meta is_worktree =
     hbind (str_arg (or_else cwd (JStr (path_str rootp)))) (\<lambda>cwd tr.
     case (ho_resolve H tr cwd, ho_resolve H tr (path_str rootp)) of
       (Some cwd_path, Some root_path) \<Rightarrow>
         if \<not> is_relative_to cwd_path root_path then
           hret [(''ok'', JBool False),
             (''error'', task_error ''INVALID_WORKING_DIRECTORY'' ''Working directory escapes the Runner root'' False [(''cwd'', JStr cwd)]),
             (''metadata'', JObj workspace_meta)] tr
         else
           hbind (command_argv H command rootp cwd_path) (\<lambda>argv.
           case argv of
             None \<Rightarrow> hret (failed ''RUNNER_SANDBOX_REQUIRED''
               ''Runner command execution requires an executable sandbox wrapper; trusted local development may explicitly set RELAYVIA_RUNNER_ALLOW_UNSANDBOXED_EXECUTION=true''
               @ [(''metadata'', JObj workspace_meta)])
           | Some argv \<Rightarrow> run_process H argv cwd_path cwd timeout_seconds workspace_meta is_worktree) tr
     | _ \<Rightarrow> hret (failed ''INVALID_WORKING_DIRECTORY'' ''Working directory is invalid'' @ [(''metadata'', JObj workspace_meta)]) tr)"

definition execute_task :: "lib \<Rightarrow> host \<Rightarrow> dict \<Rightarrow> dict on_host" where
  "execute_task L H task =
     hbind (dict_or_raise (dget0 task ''config'')) (\<lambda>config.
     hbind (lift_opt (PythonError ''ValueError'') (py_int (or_else (dget0 config ''timeout_seconds'') (JInt 60)))) (\<lambda>timeout_seconds.
     case dget0 config ''command'' of
       JStr command \<Rightarrow>
         if strip command = [] then hret (failed ''RUNNER_EMPTY_COMMAND'' ''Tool command is empty'')
         else hbind (runner_root H) (\<lambda>rootp.
           case rootp of
             None \<Rightarrow> hret (failed ''RUNNER_ROOT_REQUIRED'' ''RELAYVIA_RUNNER_ROOT must be configured'')
           | Some rootp \<Rightarrow>
             hbind (dict_or_raise (dget0 task ''workspace'')) (\<lambda>workspace.
             hbind (enter_workspace L H workspace (dget0 config ''working_directory'') rootp) (\<lambda>entered.
             case entered of
               Inl result \<Rightarrow> hret result
             | Inr (cwd, workspace_meta, is_worktree) \<Rightarrow>
                 run_in H command timeout_seconds rootp cwd workspace_meta is_worktree)))
     | _ \<Rightarrow> hret (failed ''RUNNER_EMPTY_COMMAND'' ''Tool command is empty'')))"

section \<open>The client of the control plane\<close>

record runner_client =
  rc_id :: "string option"
  rc_token :: "string option"

text \<open>A request that needs the Runner token; its reply, or the error of a client that is not enrolled.\<close>

definition send :: "host \<Rightarrow> runner_client \<Rightarrow> act \<Rightarrow> reply on_host" where
  "send H C a tr =
     (case rc_token C of None \<Rightarrow> hraise (RuntimeError ''Runner is not enrolled'') tr
      | Some token \<Rightarrow> if token = [] then hraise (RuntimeError ''Runner is not enrolled'') tr
                      else hret (ho_reply H tr a) (tr @ [a]))"

definition route :: "runner_client \<Rightarrow> string \<Rightarrow> string" where
  "route C tail = ''/api/runners/'' @ (case rc_id C of None \<Rightarrow> ''None'' | Some k \<Rightarrow> k) @ tail"

definition raise_for_status :: "reply \<Rightarrow> json on_host" where
  "raise_for_status r = (case r of No_reply \<Rightarrow> hraise TransportError
     | Reply status body \<Rightarrow> if 200 \<le> status \<and> status < 300 then hret body else hraise (HTTPStatusError status))"

definition status_is :: "int \<Rightarrow> reply \<Rightarrow> bool" where
  "status_is code r \<longleftrightarrow> (case r of No_reply \<Rightarrow> False | Reply status _ \<Rightarrow> status = code)"

definition client_claim :: "host \<Rightarrow> runner_client \<Rightarrow> json on_host" where
  "client_claim H C =
     hbind (send H C (Request (route C ''/claim'') JNull)) (\<lambda>r.
     if status_is 409 r then hret JNull else raise_for_status r)"

text \<open>\<open>attempts\<close> counts the attempts that are left.\<close>

fun submit_attempts :: "host \<Rightarrow> runner_client \<Rightarrow> string \<Rightarrow> string \<Rightarrow> dict \<Rightarrow> nat \<Rightarrow> bool on_host" where
  "submit_attempts H C task_id lease_token result 0 = hraise (PythonError ''AssertionError'')"
| "submit_attempts H C task_id lease_token result (Suc left) =
     hbind (send H C (Request (route C ''/submit-result'')
         (JObj [(''task_id'', JStr task_id), (''lease_token'', JStr lease_token), (''result'', JObj result)]))) (\<lambda>r.
     case r of
       No_reply \<Rightarrow> if left = 0 then hraise TransportError else submit_attempts H C task_id lease_token result left
     | Reply status _ \<Rightarrow>
         if status = 409 then hret False
         else if 200 \<le> status \<and> status < 300 then hret True
         else if status < 500 \<or> left = 0 then hraise (HTTPStatusError status)
         else submit_attempts H C task_id lease_token result left)"

definition client_submit :: "host \<Rightarrow> runner_client \<Rightarrow> string \<Rightarrow> string \<Rightarrow> dict \<Rightarrow> bool on_host" where
  "client_submit H C task_id lease_token result = submit_attempts H C task_id lease_token result 3"

definition client_task_heartbeat :: "host \<Rightarrow> runner_client \<Rightarrow> string \<Rightarrow> string \<Rightarrow> bool on_host" where
  "client_task_heartbeat H C task_id lease_token =
     hbind (send H C (Request (route C (''/tasks/'' @ task_id @ ''/heartbeat'')) (JObj [(''lease_token'', JStr lease_token)]))) (\<lambda>r.
     if status_is 401 r \<or> status_is 409 r then hret True
     else hbind (raise_for_status r) (\<lambda>body. hbind (dict_or_raise body) (\<lambda>body. hret (truthy (dget0 body ''cancel_requested'')))))"

definition client_claim_workspace_cleanup :: "host \<Rightarrow> runner_client \<Rightarrow> json on_host" where
  "client_claim_workspace_cleanup H C =
     hbind (send H C (Request (route C ''/workspace-cleanups/claim'') JNull)) (\<lambda>r.
     if status_is 409 r then hret JNull else raise_for_status r)"

definition client_complete_workspace_cleanup :: "host \<Rightarrow> runner_client \<Rightarrow> string \<Rightarrow> bool \<Rightarrow> string option \<Rightarrow> unit on_host" where
  "client_complete_workspace_cleanup H C workspace_id ok error =
     hbind (send H C (Request (route C (''/workspace-cleanups/'' @ workspace_id @ ''/complete''))
         (JObj [(''ok'', JBool ok), (''error'', json_opt error)]))) (\<lambda>r.
     hbind (raise_for_status r) (\<lambda>_. hret ()))"

definition json_field :: "dict \<Rightarrow> string \<Rightarrow> json on_host" where
  "json_field d k = lift_opt (PythonError ''KeyError'') (dget d k)"

definition reference_item :: "dict \<Rightarrow> json \<Rightarrow> dict" where
  "reference_item cand uri =
     [(''name'', or_else (dget0 cand ''name'') (JStr ''artifact'')), (''type'', or_else (dget0 cand ''type'') (JStr ''file'')),
      (''uri'', uri), (''output_key'', dget0 cand ''output_key'')]"

definition upload_artifact :: "lib \<Rightarrow> host \<Rightarrow> runner_client \<Rightarrow> string \<Rightarrow> string \<Rightarrow> dict \<Rightarrow> dict on_host" where
  "upload_artifact L H C task_id lease_token cand =
     (case dget0 cand ''content'' of
        JStr raw \<Rightarrow>
          (case b64_decode raw of None \<Rightarrow> hraise (WorkspaceError ''artifact content is not valid base64'')
           | Some content \<Rightarrow>
              hbind (send H C (Request (route C ''/artifact-uploads'') (JObj [(''task_id'', JStr task_id), (''lease_token'', JStr lease_token),
                  (''name'', or_else (dget0 cand ''name'') (JStr ''artifact'')), (''type'', or_else (dget0 cand ''type'') (JStr ''file'')),
                  (''content_type'', dget0 cand ''content_type''), (''metadata'', or_else (dget0 cand ''metadata'') (JObj [])),
                  (''output_key'', dget0 cand ''output_key'')]))) (\<lambda>staged.
              hbind (raise_for_status staged) (\<lambda>body.
              hbind (dict_or_raise body) (\<lambda>upload.
              hbind (json_field upload ''artifact_id'') (\<lambda>artifact_id.
              hbind (send H C (Upload (route C (''/artifact-uploads/'' @ py_str L artifact_id @ ''/content'')) content)) (\<lambda>r.
              hbind (raise_for_status r) (\<lambda>_.
              hbind (json_field upload ''uri'') (\<lambda>uri. hret (reference_item cand uri)))))))))
      | _ \<Rightarrow> hret cand)"

fun upload_all :: "lib \<Rightarrow> host \<Rightarrow> runner_client \<Rightarrow> string \<Rightarrow> string \<Rightarrow> json list \<Rightarrow> dict list on_host" where
  "upload_all L H C task_id lease_token [] = hret []"
| "upload_all L H C task_id lease_token (v # vs) =
     hbind (case v of JObj cand \<Rightarrow> upload_artifact L H C task_id lease_token cand
            | _ \<Rightarrow> hraise (PythonError ''AttributeError'')) (\<lambda>item.
     hbind (upload_all L H C task_id lease_token vs) (\<lambda>items. hret (item # items)))"

text \<open>Cleaning up and telling the control plane, as the loop and a cancelled task both do.\<close>

definition cleanup_and_report :: "lib \<Rightarrow> host \<Rightarrow> runner_client \<Rightarrow> string \<Rightarrow> dict \<Rightarrow> unit on_host" where
  "cleanup_and_report L H C workspace_id workspace tr =
     (case hbind (runner_root H) (\<lambda>rootp. case rootp of
          None \<Rightarrow> hraise (WorkspaceError ''RELAYVIA_RUNNER_ROOT must be configured'')
        | Some rootp \<Rightarrow>
            hbind (cleanup_workspace L H workspace rootp) (\<lambda>_. client_complete_workspace_cleanup H C workspace_id True None)) tr of
        (Inl (WorkspaceError msg), tr) \<Rightarrow> client_complete_workspace_cleanup H C workspace_id False (Some msg) tr
      | (Inl (OSError msg), tr) \<Rightarrow> client_complete_workspace_cleanup H C workspace_id False (Some msg) tr
      | res \<Rightarrow> res)"

definition cancelled_workspace :: "lib \<Rightarrow> dict \<Rightarrow> dict \<Rightarrow> (string \<times> dict) option" where
  "cancelled_workspace L task result =
     (case (dget0 result ''error'', dget0 task ''workspace'', dget0 result ''metadata'') of
        (JObj error, JObj workspace, JObj metadata) \<Rightarrow>
          if dget0 error ''code'' = JStr ''RUNNER_CANCELLED'' \<and> truthy (dget0 metadata ''workspace_path'')
             \<and> truthy (dget0 workspace ''id'')
          then Some (py_str L (dget0 workspace ''id''), dset ''path'' (dget0 metadata ''workspace_path'') workspace)
          else None
      | _ \<Rightarrow> None)"

definition run_claimed_task :: "lib \<Rightarrow> host \<Rightarrow> runner_client \<Rightarrow> dict \<Rightarrow> bool on_host" where
  "run_claimed_task L H C task =
     hbind (execute_task L H task) (\<lambda>result.
     hbind (case cancelled_workspace L task result of None \<Rightarrow> hret ()
            | Some (k, workspace) \<Rightarrow> cleanup_and_report L H C k workspace) (\<lambda>_.
     hbind (hbind (json_field task ''task_id'') str_arg) (\<lambda>task_id.
     hbind (hbind (json_field task ''lease_token'') str_arg) (\<lambda>lease_token.
     hbind (upload_all L H C task_id lease_token (case dget0 result ''artifacts'' of JArr vs \<Rightarrow> vs | _ \<Rightarrow> [])) (\<lambda>uploaded.
     client_submit H C task_id lease_token (dset ''artifacts'' (JArr (map JObj uploaded)) result))))))"

definition client_capabilities :: "host \<Rightarrow> string list on_host" where
  "client_capabilities H = hbind (runner_root H) (\<lambda>rootp.
     hret (if rootp = None \<or> \<not> runner_execution_enabled H then [] else ''shell'' # ho_capabilities H))"

text \<open>Registration; the enrollment token is sent only by a client without an identity.\<close>

definition client_register :: "host \<Rightarrow> string \<Rightarrow> string \<Rightarrow> string \<Rightarrow> runner_client \<Rightarrow> runner_client on_host" where
  "client_register H name hostname platform C =
     hbind (client_capabilities H) (\<lambda>capabilities.
     if rc_id C = None \<and> (ho_enrollment_token H = None \<or> ho_enrollment_token H = Some [])
     then hraise (RuntimeError ''RELAYVIA_RUNNER_ENROLLMENT_TOKEN is required for first Runner enrollment'')
     else
       (\<lambda>tr. let a = Request ''/api/runners/register'' (JObj [(''name'', JStr name), (''hostname'', JStr hostname), (''platform'', JStr platform),
                (''capabilities'', JArr (map JStr capabilities)), (''metadata'', JObj []), (''runner_id'', json_opt (rc_id C)),
                (''runner_token'', json_opt (rc_token C))]) in
        hbind (raise_for_status (ho_reply H tr a)) (\<lambda>body.
        hbind (dict_or_raise body) (\<lambda>enrolled.
        hbind (hbind (json_field enrolled ''id'') str_arg) (\<lambda>k.
        hbind (if truthy (dget0 enrolled ''enrollment_token'')
               then hbind (str_arg (dget0 enrolled ''enrollment_token'')) (\<lambda>t. hret (Some t)) else hret (rc_token C)) (\<lambda>token.
        if token = None \<or> token = Some [] then hraise (RuntimeError ''Runner registration did not return an enrollment token'')
        else hret \<lparr> rc_id = Some k, rc_token = token \<rparr>)))) (tr @ [a])))"

definition client_heartbeat :: "host \<Rightarrow> string \<Rightarrow> string \<Rightarrow> runner_client \<Rightarrow> unit on_host" where
  "client_heartbeat H hostname platform C =
     hbind (client_capabilities H) (\<lambda>capabilities.
     hbind (send H C (Request (route C ''/heartbeat'') (JObj [(''hostname'', JStr hostname), (''platform'', JStr platform),
         (''capabilities'', JArr (map JStr capabilities)), (''metadata'', JObj [])]))) (\<lambda>r.
     case r of No_reply \<Rightarrow> hraise TransportError | Reply _ _ \<Rightarrow> hret ()))"

section \<open>The pull loop\<close>

definition is_http_error :: "host_error \<Rightarrow> bool" where
  "is_http_error e \<longleftrightarrow> (case e of HTTPStatusError _ \<Rightarrow> True | TransportError \<Rightarrow> True | _ \<Rightarrow> False)"

definition ignore_http :: "unit on_host \<Rightarrow> unit on_host" where
  "ignore_http m tr = (case m tr of (Inl e, tr) \<Rightarrow> if is_http_error e then hret () tr else (Inl e, tr) | res \<Rightarrow> res)"

definition concurrency_of :: "int \<Rightarrow> nat" where
  "concurrency_of configured = nat (max 1 (min configured 32))"

definition clean_one :: "lib \<Rightarrow> host \<Rightarrow> runner_client \<Rightarrow> unit on_host" where
  "clean_one L H C =
     hbind (client_claim_workspace_cleanup H C) (\<lambda>cleanup.
     case cleanup of
       JNull \<Rightarrow> hret ()
     | JObj workspace \<Rightarrow>
         hbind (json_field workspace ''workspace_id'') (\<lambda>k. cleanup_and_report L H C (py_str L k) workspace)
     | _ \<Rightarrow> hraise (PythonError ''TypeError''))"

fun claim_free :: "host \<Rightarrow> runner_client \<Rightarrow> nat \<Rightarrow> json list on_host" where
  "claim_free H C 0 = hret []"
| "claim_free H C (Suc free) =
     hbind (client_claim H C) (\<lambda>task.
     if task = JNull then hret [] else hbind (claim_free H C free) (\<lambda>tasks. hret (task # tasks)))"

text \<open>One round of the loop with \<open>active\<close> tasks under way: the tasks it starts.\<close>

definition poll_round :: "lib \<Rightarrow> host \<Rightarrow> string \<Rightarrow> string \<Rightarrow> int \<Rightarrow> runner_client \<Rightarrow> nat \<Rightarrow> json list on_host" where
  "poll_round L H hostname platform configured C active =
     hbind (ignore_http (client_heartbeat H hostname platform C)) (\<lambda>_.
     hbind (ignore_http (clean_one L H C)) (\<lambda>_.
     claim_free H C (concurrency_of configured - active)))"

end
