(* ===== verification/RunnerAgentProps.thy ===== *)
theory RunnerAgentProps
  imports RunnerAgent
begin

text \<open>
  What a Runner does to its machine. The judgement \<open>acts P Q m\<close> says that the computation \<open>m\<close> only
  extends the list of actions, that every action it adds satisfies \<open>P\<close> and that its result satisfies
  \<open>Q\<close>; its rules follow the constructs of the Runner's code.
\<close>

named_theorems acting "rules for the actions of host computations"

definition acts :: "(act \<Rightarrow> bool) \<Rightarrow> ('a \<Rightarrow> bool) \<Rightarrow> 'a on_host \<Rightarrow> bool" where
  "acts P Q m \<longleftrightarrow> (\<forall>tr. (\<exists>more. snd (m tr) = tr @ more \<and> list_all P more) \<and> (\<forall>x. fst (m tr) = Inr x \<longrightarrow> Q x))"

lemma acts_hret [acting]: "Q x \<Longrightarrow> acts P Q (hret x)"
  by (simp add: acts_def hret_def)

lemma acts_hraise [acting]: "acts P Q (hraise e)"
  by (simp add: acts_def hraise_def)

lemma acts_hbind:
  assumes m: "acts P R m" and f: "\<And>x. R x \<Longrightarrow> acts P Q (f x)"
  shows "acts P Q (hbind m f)"
  unfolding acts_def
proof (intro allI conjI impI)
  fix tr
  obtain r tr1 where r: "m tr = (r, tr1)" by (cases "m tr")
  then obtain more where more: "tr1 = tr @ more" "list_all P more" and R: "\<And>x. r = Inr x \<Longrightarrow> R x"
    using m unfolding acts_def by (metis fst_conv snd_conv)
  show "\<exists>more. snd (hbind m f tr) = tr @ more \<and> list_all P more"
  proof (cases r)
    case (Inr x)
    then obtain more' where "snd (f x tr1) = tr1 @ more'" "list_all P more'"
      using f [OF R] unfolding acts_def by blast
    with r Inr more show ?thesis by (auto simp: hbind_def)
  qed (use r more in \<open>simp add: hbind_def\<close>)
  fix x assume x: "fst (hbind m f tr) = Inr x"
  then obtain y where y: "r = Inr y" using r by (cases r) (auto simp: hbind_def)
  with x r have "fst (f y tr1) = Inr x" by (simp add: hbind_def)
  with f [OF R [OF y]] show "Q x" by (simp add: acts_def)
qed

lemma acts_at:
  assumes "acts P Q m" "m tr = (r, tr')"
  obtains more where "tr' = tr @ more" "list_all P more" "\<forall>x. r = Inr x \<longrightarrow> Q x"
proof -
  from assms(1) have "(\<exists>more. snd (m tr) = tr @ more \<and> list_all P more) \<and> (\<forall>x. fst (m tr) = Inr x \<longrightarrow> Q x)"
    unfolding acts_def by (rule spec)
  with assms(2) that show thesis by auto
qed

lemma acts_if: "(c \<Longrightarrow> acts P Q a) \<Longrightarrow> (\<not> c \<Longrightarrow> acts P Q b) \<Longrightarrow> acts P Q (if c then a else b)"
  by simp

lemma acts_if_at: "acts P Q a \<Longrightarrow> acts P Q b \<Longrightarrow> acts P Q (\<lambda>tr. if c tr then a tr else b tr)"
  by (simp add: acts_def)

lemma acts_weaken: "acts P Q m \<Longrightarrow> (\<And>a. P a \<Longrightarrow> P' a) \<Longrightarrow> (\<And>x. Q x \<Longrightarrow> Q' x) \<Longrightarrow> acts P' Q' m"
  unfolding acts_def by (metis list.pred_mono_strong)

lemma acts_lift_opt [acting]: "(\<And>x. v = Some x \<Longrightarrow> Q x) \<Longrightarrow> acts P Q (lift_opt e v)"
  by (cases v) (simp_all add: lift_opt_def acting)

lemma acts_str_arg [acting]: "(\<And>s. v = JStr s \<Longrightarrow> Q s) \<Longrightarrow> acts P Q (str_arg v)"
  by (cases v) (simp_all add: str_arg_def acting)

lemma acts_dict_or_raise [acting]: "(\<And>d. Q d) \<Longrightarrow> acts P Q (dict_or_raise v)"
  by (cases v) (simp_all add: dict_or_raise_def acting)

lemma acts_resolve_path [acting]: "(\<And>tr p. ho_resolve H tr s = Some p \<Longrightarrow> Q p) \<Longrightarrow> acts P Q (resolve_path H s)"
  by (auto simp: acts_def resolve_path_def lift_opt_def hret_def hraise_def split: option.splits)

lemma acts_run_git [acting]: "P (Git argv) \<Longrightarrow> (\<And>out. Q out) \<Longrightarrow> acts P Q (run_git H argv)"
  by (auto simp: acts_def run_git_def split: option.splits)

lemma acts_git_ok:
  "P (Git [''git'', ''-C'', path_str p, ''rev-parse'', ''--is-inside-work-tree'']) \<Longrightarrow> (\<And>b. Q b) \<Longrightarrow> acts P Q (git_ok H p)"
  unfolding git_ok_def by (rule acts_hbind [where R = "\<lambda>_. True"]) (auto intro!: acting split: prod.splits)

section \<open>Confinement to the Runner root\<close>

text \<open>
  The actions a task may take: git inside the root, and a process whose working directory is inside
  the root and which is started by the sandbox wrapper, or by a shell where the operator allows that.
\<close>

definition wrapped :: "host \<Rightarrow> path \<Rightarrow> path \<Rightarrow> string \<Rightarrow> string list \<Rightarrow> bool" where
  "wrapped H rootp cwd command argv \<longleftrightarrow>
     ho_allow_unsandboxed_execution H \<and> argv = [''/bin/sh'', ''-lc'', command]
     \<or> (\<exists>w p tr. ho_sandbox_command H = Some w \<and> ho_resolve H tr (ho_expanduser H w) = Some p \<and> ho_executable_file H tr p
         \<and> argv = [path_str p, ''--root'', path_str rootp, ''--cwd'', path_str cwd, ''--'', ''/bin/sh'', ''-lc'', command])"

definition confined :: "host \<Rightarrow> path \<Rightarrow> string \<Rightarrow> act \<Rightarrow> bool" where
  "confined H rootp command a \<longleftrightarrow>
     (case a of
        Git argv \<Rightarrow> \<exists>p rest. argv = ''git'' # ''-C'' # path_str p # rest \<and> is_relative_to p rootp
      | Spawn argv cwd \<Rightarrow> is_relative_to cwd rootp \<and> wrapped H rootp cwd command argv
      | Killed \<Rightarrow> True
      | _ \<Rightarrow> False)"

lemma relative_child: "is_relative_to (child (rootp @ [d]) name) rootp"
  by (simp add: is_relative_to_def child_def)

lemma relative_self [simp]: "is_relative_to p p"
  by (simp add: is_relative_to_def)

lemma confined_git: "is_relative_to p rootp \<Longrightarrow> confined H rootp command (Git (''git'' # ''-C'' # path_str p # rest))"
  by (auto simp: confined_def)

text \<open>Preparing a workspace runs git only, and only inside the root.\<close>

definition git_in :: "path \<Rightarrow> act \<Rightarrow> bool" where
  "git_in rootp a \<longleftrightarrow> (\<exists>p rest. a = Git (''git'' # ''-C'' # path_str p # rest) \<and> is_relative_to p rootp)"

definition no_spawn :: "act \<Rightarrow> bool" where
  "no_spawn a \<longleftrightarrow> (\<forall>argv cwd. a \<noteq> Spawn argv cwd)"

lemma git_in_git: "is_relative_to p rootp \<Longrightarrow> git_in rootp (Git (''git'' # ''-C'' # path_str p # rest))"
  by (auto simp: git_in_def)

lemma git_in_confined: "git_in rootp a \<Longrightarrow> confined H rootp command a"
  by (auto simp: git_in_def confined_def)

lemma git_in_no_spawn: "git_in rootp a \<Longrightarrow> no_spawn a"
  by (auto simp: git_in_def no_spawn_def)

lemma acts_add_worktree:
  "is_relative_to repository rootp \<Longrightarrow> acts (git_in rootp) (\<lambda>_. True) (add_worktree H repository p branch base_branch)"
  unfolding add_worktree_def
  by (intro acts_hbind [where R = "\<lambda>_. True"]) (auto intro!: acting acts_hbind [where R = "\<lambda>_. True"] git_in_git split: prod.splits)

text \<open>A prepared workspace is a directory inside the root.\<close>

lemma acts_prepare_workspace:
  "acts (git_in rootp) (\<lambda>(s, branch, w). \<exists>p. s = path_str p \<and> is_relative_to p rootp) (prepare_workspace L H workspace rootp)"
proof -
  have there: "acts (git_in rootp) (\<lambda>_. True) (\<lambda>tr. if ho_exists H tr p then git_ok H p tr else hret False tr)"
    if "is_relative_to p rootp" for p
    using that by (intro acts_if_at acts_git_ok acts_hret git_in_git) auto
  have wt: "is_relative_to (worktree_path L rootp b) rootp" for b by (simp add: worktree_path_def relative_child)
  show ?thesis
    unfolding prepare_workspace_def Let_def
    apply (rule acts_hbind [where R = "\<lambda>_. True"], rule acts_resolve_path, simp)
    apply (rule acts_if, rule acts_hraise)
    apply (rule acts_hbind [where R = "\<lambda>_. True"], rule acts_git_ok, simp add: git_in_git, simp)
    apply (rule acts_if, rule acts_hraise)
    apply (rule acts_if, rule acts_hret, force)
    apply (rule acts_hbind [OF there [OF wt]])
    apply (rule acts_if, rule acts_hret, use wt in force)
    apply (rule acts_hbind [OF acts_add_worktree], simp, rule acts_hret, use wt in force)
    done
qed

lemma acts_enter_workspace:
  "acts (git_in rootp) (\<lambda>r. (\<forall>cwd md w. r = Inr (cwd, md, w) \<and> w \<longrightarrow> (\<exists>p. cwd = JStr (path_str p) \<and> is_relative_to p rootp))
        \<and> (\<forall>v. r = Inl v \<longrightarrow> (\<exists>msg. v = failed ''WORKSPACE_PREPARATION_FAILED'' msg)))
     (enter_workspace L H workspace cwd rootp)"
  unfolding acts_def
proof (intro allI conjI)
  fix tr
  obtain r tr1 where r: "prepare_workspace L H workspace rootp tr = (r, tr1)" by (cases "prepare_workspace L H workspace rootp tr")
  obtain more where more: "tr1 = tr @ more" "list_all (git_in rootp) more"
    and q: "\<forall>x. r = Inr x \<longrightarrow> (\<lambda>(s, branch, w). \<exists>p. s = path_str p \<and> is_relative_to p rootp) x"
    by (rule acts_at [OF acts_prepare_workspace [of rootp L H workspace] r])
  have p: "\<exists>p. s = path_str p \<and> is_relative_to p rootp" if "r = Inr (s, b, w)" for s b w using q that by auto
  show "\<exists>more. snd (enter_workspace L H workspace cwd rootp tr) = tr @ more \<and> list_all (git_in rootp) more"
    using r more by (auto simp: enter_workspace_def hret_def split: sum.splits host_error.splits prod.splits)
  show "fst (enter_workspace L H workspace cwd rootp tr) = Inr x \<longrightarrow>
      (\<forall>cwd md w. x = Inr (cwd, md, w) \<and> w \<longrightarrow> (\<exists>p. cwd = JStr (path_str p) \<and> is_relative_to p rootp))
        \<and> (\<forall>v. x = Inl v \<longrightarrow> (\<exists>msg. v = failed ''WORKSPACE_PREPARATION_FAILED'' msg))" for x
    using r p by (auto simp: enter_workspace_def hret_def split: sum.splits host_error.splits prod.splits if_splits)
qed

lemma acts_runner_root [acting]:
  "acts P (\<lambda>rootp. \<forall>p. rootp = Some p \<longrightarrow> (\<exists>r tr. ho_runner_root H = Some r \<and> ho_resolve H tr r = Some p)) (runner_root H)"
  unfolding runner_root_def
  by (cases "ho_runner_root H") (auto intro!: acts_hbind [where R = "\<lambda>p. \<exists>r tr. ho_runner_root H = Some r \<and> ho_resolve H tr r = Some p"] acting)

lemma acts_command_argv:
  "acts P (\<lambda>v. \<forall>argv. v = Some argv \<longrightarrow> wrapped H rootp cwd command argv) (command_argv H command rootp cwd)"
proof -
  have "acts P (\<lambda>v. \<forall>argv. v = Some argv \<longrightarrow> wrapped H rootp cwd command argv)
      (hbind (resolve_path H (ho_expanduser H w)) (\<lambda>wrapper_path tr.
        if \<not> ho_executable_file H tr wrapper_path then hret None tr
        else hret (Some [path_str wrapper_path, ''--root'', path_str rootp, ''--cwd'', path_str cwd, ''--'', ''/bin/sh'', ''-lc'', command]) tr))"
    if "ho_sandbox_command H = Some w" for w
    using that unfolding acts_def wrapped_def
    by (auto simp: hbind_def resolve_path_def lift_opt_def hret_def hraise_def split: option.splits)
  then show ?thesis
    unfolding command_argv_def by (auto intro!: acting simp: wrapped_def split: option.splits)
qed

lemma acts_patch_artifacts:
  assumes "w \<Longrightarrow> \<exists>p. cwd = path_str p \<and> is_relative_to p rootp"
  shows "acts (confined H rootp command) (\<lambda>_. True) (patch_artifacts H rc w cwd)"
proof (cases "rc = 0 \<and> w")
  case True
  with assms obtain p where p: "cwd = path_str p" "is_relative_to p rootp" by blast
  have "acts (confined H rootp command) (\<lambda>_. True) (git_diff H cwd)"
    unfolding git_diff_def p(1)
    by (intro acts_hbind [where R = "\<lambda>_. True"] acts_run_git confined_git p(2)) (auto intro!: acting split: prod.splits)
  then show ?thesis unfolding patch_artifacts_def using True by (auto intro!: acts_hbind [where R = "\<lambda>_. True"] acting)
qed (auto simp: patch_artifacts_def intro: acting)

lemma acts_run_process:
  assumes "is_relative_to cwd_path rootp" "wrapped H rootp cwd_path command argv"
    and "w \<Longrightarrow> \<exists>p. cwd = path_str p \<and> is_relative_to p rootp"
  shows "acts (confined H rootp command) (\<lambda>_. True) (run_process H argv cwd_path cwd secs md w)"
  unfolding acts_def
proof (intro allI conjI)
  fix tr
  have ok: "confined H rootp command (Spawn argv cwd_path)" "confined H rootp command Killed" using assms by (simp_all add: confined_def)
  show "\<exists>more. snd (run_process H argv cwd_path cwd secs md w tr) = tr @ more \<and> list_all (confined H rootp command) more"
  proof (cases "ho_run H tr argv cwd_path")
    case (Proc_done rc out err)
    obtain r tr1 where r: "patch_artifacts H rc w cwd (tr @ [Spawn argv cwd_path]) = (r, tr1)"
      by (cases "patch_artifacts H rc w cwd (tr @ [Spawn argv cwd_path])")
    obtain more where "tr1 = (tr @ [Spawn argv cwd_path]) @ more" "list_all (confined H rootp command) more"
      by (rule acts_at [OF acts_patch_artifacts [where H = H and command = command and rc = rc, OF assms(3)] r])
    with r ok Proc_done show ?thesis by (auto simp: run_process_def Let_def hbind_def hret_def split: sum.splits)
  qed (use ok in \<open>simp_all add: run_process_def hret_def\<close>)
qed simp

text \<open>\<open>Path.resolve()\<close> of a resolved path is that path.\<close>

definition resolves_canonically :: "host \<Rightarrow> bool" where
  "resolves_canonically H \<longleftrightarrow> (\<forall>tr tr' s p. ho_resolve H tr s = Some p \<longrightarrow> ho_resolve H tr' (path_str p) = Some p)"

lemma acts_run_in:
  assumes "resolves_canonically H" "ho_resolve H tr0 r = Some rootp"
    and "w \<Longrightarrow> \<exists>p. cwd = JStr (path_str p) \<and> is_relative_to p rootp"
  shows "acts (confined H rootp command) (\<lambda>_. True) (run_in H command secs rootp cwd md w)"
proof -
  have root: "ho_resolve H tr (path_str rootp) = Some rootp" for tr using assms(1,2) by (auto simp: resolves_canonically_def)
  define go where "go cwd' tr = (case (ho_resolve H tr cwd', ho_resolve H tr (path_str rootp)) of
       (Some cwd_path, Some root_path) \<Rightarrow>
         if \<not> is_relative_to cwd_path root_path then
           hret [(''ok'', JBool False),
             (''error'', task_error ''INVALID_WORKING_DIRECTORY'' ''Working directory escapes the Runner root'' False [(''cwd'', JStr cwd')]),
             (''metadata'', JObj md)] tr
         else
           hbind (command_argv H command rootp cwd_path) (\<lambda>argv.
           case argv of
             None \<Rightarrow> hret (failed ''RUNNER_SANDBOX_REQUIRED''
               ''Runner command execution requires an executable sandbox wrapper; trusted local development may explicitly set RELAYVIA_RUNNER_ALLOW_UNSANDBOXED_EXECUTION=true''
               @ [(''metadata'', JObj md)])
           | Some argv \<Rightarrow> run_process H argv cwd_path cwd' secs md w) tr
     | _ \<Rightarrow> hret (failed ''INVALID_WORKING_DIRECTORY'' ''Working directory is invalid'' @ [(''metadata'', JObj md)]) tr)" for cwd' tr
  have "acts (confined H rootp command) (\<lambda>_. True) (go cwd')" if c: "or_else cwd (JStr (path_str rootp)) = JStr cwd'" for cwd'
  proof -
    have w: "\<exists>p. cwd' = path_str p \<and> is_relative_to p rootp" if w using assms(3) [OF that] c by (auto simp: or_else_def path_str_def)
    have run: "acts (confined H rootp command) (\<lambda>_. True)
        (hbind (command_argv H command rootp cwd_path) (\<lambda>argv. case argv of None \<Rightarrow> hret v | Some argv \<Rightarrow> run_process H argv cwd_path cwd' secs md w))"
      if "is_relative_to cwd_path rootp" for cwd_path v
      by (rule acts_hbind [OF acts_command_argv]) (auto intro!: acting acts_run_process [OF that] w split: option.splits)
    show ?thesis
      unfolding acts_def
    proof (intro allI conjI)
      fix tr
      show "\<exists>more. snd (go cwd' tr) = tr @ more \<and> list_all (confined H rootp command) more"
        using run unfolding acts_def by (auto simp: go_def root hret_def split: option.splits)
    qed simp
  qed
  then show ?thesis unfolding run_in_def go_def [symmetric] by (intro acts_hbind [OF acts_str_arg]) auto
qed

text \<open>The command of a task, and the root a host resolves for its setting.\<close>

definition command_of :: "dict \<Rightarrow> string" where
  "command_of task = (case dget0 (dict_or_empty (dget0 task ''config'')) ''command'' of JStr c \<Rightarrow> c | _ \<Rightarrow> [])"

definition root_of :: "host \<Rightarrow> path \<Rightarrow> bool" where
  "root_of H rootp \<longleftrightarrow> (\<exists>r tr. ho_runner_root H = Some r \<and> ho_resolve H tr r = Some rootp)"

definition confined_to_root :: "host \<Rightarrow> dict \<Rightarrow> act \<Rightarrow> bool" where
  "confined_to_root H task a \<longleftrightarrow> (\<exists>rootp. root_of H rootp \<and> confined H rootp (command_of task) a)"

lemma acts_execute_task:
  assumes canon: "resolves_canonically H"
  shows "acts (confined_to_root H task) (\<lambda>_. True) (execute_task L H task)"
proof -
  have inner: "acts (confined_to_root H task) (\<lambda>_. True)
     (hbind (dict_or_raise (dget0 task ''workspace'')) (\<lambda>workspace.
      hbind (enter_workspace L H workspace cwd0 rootp) (\<lambda>entered.
      case entered of Inl result \<Rightarrow> hret result
      | Inr (cwd, workspace_meta, is_worktree) \<Rightarrow> run_in H c secs rootp cwd workspace_meta is_worktree)))"
    if root: "root_of H rootp" and c: "c = command_of task" for rootp cwd0 secs c
  proof -
    obtain r tr0 where r: "ho_resolve H tr0 r = Some rootp" using root by (auto simp: root_of_def)
    have "acts (confined H rootp (command_of task)) (\<lambda>_. True)
       (hbind (dict_or_raise (dget0 task ''workspace'')) (\<lambda>workspace.
        hbind (enter_workspace L H workspace cwd0 rootp) (\<lambda>entered.
        case entered of Inl result \<Rightarrow> hret result
        | Inr (cwd, workspace_meta, is_worktree) \<Rightarrow> run_in H c secs rootp cwd workspace_meta is_worktree)))"
      unfolding c by (rule acts_hbind [where R = "\<lambda>_. True"], rule acts_dict_or_raise, simp, rule acts_hbind [OF acts_weaken [OF acts_enter_workspace git_in_confined]])
        (auto intro!: acting acts_run_in [OF canon r] split: sum.splits prod.splits)
    then show ?thesis by (rule acts_weaken) (use root in \<open>auto simp: confined_to_root_def\<close>)
  qed
  have rooted: "acts (confined_to_root H task) (\<lambda>_. True) (hbind (runner_root H) (\<lambda>rootp. case rootp of None \<Rightarrow> hret v | Some rootp \<Rightarrow> f rootp))"
    if "\<And>rootp. root_of H rootp \<Longrightarrow> acts (confined_to_root H task) (\<lambda>_. True) (f rootp)" for f and v :: dict
    by (rule acts_hbind [OF acts_runner_root]) (use that in \<open>auto intro!: acting simp: root_of_def split: option.splits\<close>)
  have cfg: "acts P (\<lambda>config. config = dict_or_empty (dget0 task ''config'')) (dict_or_raise (dget0 task ''config''))" for P
    by (cases "dget0 task ''config''") (auto simp: dict_or_raise_def dict_or_empty_def intro!: acting)
  show ?thesis
    unfolding execute_task_def
    by (rule acts_hbind [OF cfg], rule acts_hbind [where R = "\<lambda>_. True"], rule acts_lift_opt, simp)
      (auto intro!: acting rooted inner simp: command_of_def split: json.splits)
qed

section \<open>Properties of the Runner process\<close>


definition demo_host :: host where
  "demo_host = \<lparr> ho_runner_root = Some ''/srv'', ho_allow_unsandboxed_execution = True, ho_sandbox_command = None,
     ho_enrollment_token = None, ho_capabilities = [], ho_resolve = (\<lambda>_ s. if s = ''/srv'' then Some [''srv''] else
       if s = ''/srv/worktrees'' then Some [''srv'', ''worktrees''] else if s = ''/srv/worktrees/a'' then Some [''srv'', ''worktrees'', ''a''] else None),
     ho_expanduser = (\<lambda>s. s), ho_executable_file = (\<lambda>_ _. False), ho_exists = (\<lambda>_ _. True), ho_git = (\<lambda>_ _. Some (0, ''+x'')),
     ho_run = (\<lambda>_ _ _. Proc_done 0 [] []), ho_decode_utf8 = (\<lambda>s. s), ho_reply = (\<lambda>_ _. Reply 200 (JObj [(''artifact_id'', JStr ''k''), (''uri'', JStr ''u'')])) \<rparr>"

lemma demo_host_fields:
  "ho_runner_root demo_host = Some ''/srv''" "ho_allow_unsandboxed_execution demo_host"
  "ho_resolve demo_host tr ''/srv'' = Some [''srv'']" "ho_run demo_host tr argv cwd = Proc_done 0 [] []"
  by (simp_all add: demo_host_def)

definition demo_job :: dict where
  "demo_job = [(''config'', JObj [(''command'', JStr ''ls'')])]"

lemma demo_host_canonical: "resolves_canonically demo_host"
  by (simp add: resolves_canonically_def demo_host_def path_str_def)

lemma demo_job_runs:
  "execute_task demo_lib demo_host demo_job [] =
     (Inr [(''ok'', JBool True), (''output'', JObj [(''stdout'', JStr []), (''exit_code'', JInt 0)]),
           (''metadata'', JObj [(''exit_code'', JInt 0), (''stderr'', JStr [])]), (''artifacts'', JArr [])],
      [Spawn [''/bin/sh'', ''-lc'', ''ls''] [''srv'']])"
proof -
  have "strip ''ls'' = ''ls''" "py_int (JInt 60) = Some 60" by code_simp+
  moreover have "safe_output demo_host [] = []"
    by (simp add: safe_output_def demo_host_def redact_inline.simps MAX_COMMAND_OUTPUT_BYTES_def)
  ultimately show ?thesis
    by (simp add: execute_task_def demo_job_def dget_or_def dget_def dict_or_raise_def lift_opt_def or_else_def runner_root_def
        resolve_path_def enter_workspace_def run_in_def str_arg_def path_str_def is_relative_to_def command_argv_def run_process_def
        patch_artifacts_def finished_result_def hbind_def hret_def Let_def demo_host_fields)
qed


text \<open>
  C23. Cleaning up removes only Runner-managed worktrees. Cleanup runs git only on a repository inside the root, and
  the only directory it removes is the workspace path, strictly inside the resolved \<^verbatim>\<open>worktrees\<close>
  directory of the root. For a workspace that is the repository itself it runs nothing.
\<close>

definition cleanup_act :: "host \<Rightarrow> path \<Rightarrow> act \<Rightarrow> bool" where
  "cleanup_act H rootp a \<longleftrightarrow> (\<exists>repository rest. a = Git (''git'' # ''-C'' # path_str repository # rest) \<and> is_relative_to repository rootp
     \<and> (rest = [''rev-parse'', ''--is-inside-work-tree''] \<or> rest = [''worktree'', ''prune'']
        \<or> (\<exists>p managed tr. rest = [''worktree'', ''remove'', ''--force'', path_str p]
             \<and> ho_resolve H tr (path_str (rootp @ [''worktrees''])) = Some managed \<and> is_relative_to p managed \<and> p \<noteq> managed)))"

lemma acts_cleanup_workspace: "acts (cleanup_act H rootp) (\<lambda>_. True) (cleanup_workspace L H workspace rootp)"
proof -
  have rm: "acts (cleanup_act H rootp) (\<lambda>_. True) (\<lambda>tr. if ho_exists H tr p
      then hbind (run_git H [''git'', ''-C'', path_str repo, ''worktree'', ''remove'', ''--force'', path_str p])
             (\<lambda>(rc, _). if rc \<noteq> 0 then hraise (WorkspaceError ''failed to remove Git worktree'') else hret ()) tr
      else hret () tr)"
    if "is_relative_to repo rootp" "ho_resolve H tr' (path_str (rootp @ [''worktrees''])) = Some managed" "is_relative_to p managed" "p \<noteq> managed"
    for repo p managed tr'
    by (rule acts_if_at, rule acts_hbind [where R = "\<lambda>_. True"], rule acts_run_git)
      (use that in \<open>auto simp: cleanup_act_def intro!: acting split: prod.splits\<close>)
  show ?thesis
    unfolding cleanup_workspace_def
    apply (rule acts_if, rule acts_hret, simp)
    apply (rule acts_hbind [where R = "\<lambda>_. True"], rule acts_resolve_path, simp)
    apply (rule acts_hbind [where R = "\<lambda>_. True"], rule acts_resolve_path, simp)
    apply (rule acts_hbind [where R = "\<lambda>m. \<exists>tr. ho_resolve H tr (path_str (rootp @ [''worktrees''])) = Some m"], rule acts_resolve_path, blast)
    apply (rule acts_if, rule acts_hraise)
    apply (rule acts_hbind [where R = "\<lambda>_. True"], rule acts_git_ok, simp add: cleanup_act_def, blast, simp)
    apply (rule acts_if, rule acts_hraise)
    apply (elim exE)
    apply (rule acts_hbind [OF rm], simp, assumption, simp, simp)
    apply (rule acts_hbind [where R = "\<lambda>_. True"], rule acts_run_git, simp add: cleanup_act_def, blast, simp)
    apply (rule acts_hret, simp)
    done
qed



text \<open>
  What the result of a task says about the process. A task that started no process is an error that
  is not retried; one that did is reported by the way that process ended.
\<close>

definition error_field :: "dict \<Rightarrow> string \<Rightarrow> json" where
  "error_field r k = dget0 (dict_or_empty (dget0 r ''error'')) k"

definition not_run :: "dict \<Rightarrow> bool" where
  "not_run r \<longleftrightarrow> dget0 r ''ok'' = JBool False \<and> error_field r ''retryable'' = JBool False
     \<and> error_field r ''code'' \<notin> {JStr ''RUNNER_EXIT_NONZERO'', JStr ''RUNNER_TIMEOUT'', JStr ''RUNNER_CANCELLED''}"

definition ended_with :: "host \<Rightarrow> proc_outcome \<Rightarrow> dict \<Rightarrow> bool" where
  "ended_with H outcome r \<longleftrightarrow>
     (case outcome of
        Proc_done rc out err \<Rightarrow>
          if rc = 0 then dget0 r ''ok'' = JBool True
            \<and> dget0 r ''output'' = JObj [(''stdout'', JStr (safe_output H out)), (''exit_code'', JInt 0)]
          else dget0 r ''ok'' = JBool False \<and> error_field r ''code'' = JStr ''RUNNER_EXIT_NONZERO'' \<and> error_field r ''retryable'' = JBool True
      | Proc_timeout \<Rightarrow> dget0 r ''ok'' = JBool False \<and> error_field r ''code'' = JStr ''RUNNER_TIMEOUT'' \<and> error_field r ''retryable'' = JBool False
      | Proc_cancelled \<Rightarrow> dget0 r ''ok'' = JBool False \<and> error_field r ''code'' = JStr ''RUNNER_CANCELLED'' \<and> error_field r ''retryable'' = JBool False
      | Proc_oserror _ \<Rightarrow> False)"

definition reported :: "host \<Rightarrow> act list \<Rightarrow> dict \<Rightarrow> act list \<Rightarrow> bool" where
  "reported H tr r tr' \<longleftrightarrow>
     (\<exists>more. tr' = tr @ more \<and> list_all no_spawn more \<and> not_run r)
     \<or> (\<exists>more argv cwd rest. tr' = tr @ more @ Spawn argv cwd # rest \<and> list_all no_spawn (more @ rest)
          \<and> ended_with H (ho_run H (tr @ more) argv cwd) r)"

definition reports :: "host \<Rightarrow> dict on_host \<Rightarrow> bool" where
  "reports H m \<longleftrightarrow> (\<forall>tr r tr'. m tr = (Inr r, tr') \<longrightarrow> reported H tr r tr')"

named_theorems reporting "rules for what a task reports"

lemmas dict_eval = dget_or_def dget_def dict_or_empty_def error_field_def task_error_def failed_def

lemma reported_later: "reported H (tr @ mid) r tr' \<Longrightarrow> list_all no_spawn mid \<Longrightarrow> reported H tr r tr'"
  unfolding reported_def by (elim disjE exE conjE) (force simp: list_all_append)+

lemma not_run_failed:
  assumes "code \<notin> {''RUNNER_EXIT_NONZERO'', ''RUNNER_TIMEOUT'', ''RUNNER_CANCELLED''}"
  shows "not_run (failed code msg @ rest)" "not_run (failed code msg)"
    "not_run [(''ok'', JBool False), (''error'', task_error code msg False details), (''metadata'', md)]"
  using assms by (simp_all add: not_run_def dict_eval)

lemma reports_hret [reporting]: "not_run r \<Longrightarrow> reports H (hret r)"
  by (auto simp: reports_def reported_def hret_def)

lemma reports_hbind:
  assumes m: "acts no_spawn R m" and f: "\<And>x. R x \<Longrightarrow> reports H (f x)"
  shows "reports H (hbind m f)"
  unfolding reports_def
proof (intro allI impI)
  fix tr r tr' assume run: "hbind m f tr = (Inr r, tr')"
  obtain v tr1 where v: "m tr = (v, tr1)" by (cases "m tr")
  obtain more where more: "tr1 = tr @ more" "list_all no_spawn more" "\<forall>x. v = Inr x \<longrightarrow> R x" by (rule acts_at [OF m v])
  from run v obtain x where "v = Inr x" "f x tr1 = (Inr r, tr')" by (auto simp: hbind_def split: sum.splits)
  with f more have "reported H (tr @ more) r tr'" by (auto simp: reports_def)
  then show "reported H tr r tr'" by (rule reported_later [OF _ more(2)])
qed

lemma quiet_git: "no_spawn (Git argv)"
  by (simp add: no_spawn_def)

lemma acts_patch_quiet: "acts no_spawn (\<lambda>_. True) (patch_artifacts H rc w cwd)"
  unfolding patch_artifacts_def git_diff_def
  by (auto intro!: acting acts_hbind [where R = "\<lambda>_. True"] quiet_git split: prod.splits)

lemma reports_run_process [reporting]: "reports H (run_process H argv cwd_path cwd secs md w)"
  unfolding reports_def
proof (intro allI impI)
  fix tr r tr' assume run: "run_process H argv cwd_path cwd secs md w tr = (Inr r, tr')"
  have started: "reported H tr res (tr @ Spawn argv cwd_path # rest)"
    if "list_all no_spawn rest" "ended_with H (ho_run H tr argv cwd_path) res" for rest res
    using that unfolding reported_def
    by (intro disjI2 exI [of _ "[]"] exI [of _ argv] exI [of _ cwd_path] exI [of _ rest]) simp
  show "reported H tr r tr'"
  proof (cases "ho_run H tr argv cwd_path")
    case (Proc_oserror msg)
    with run have "tr' = tr" "r = failed ''RUNNER_SPAWN_FAILED'' msg @ [(''metadata'', JObj md)]"
      by (simp_all add: run_process_def hret_def)
    then show ?thesis using not_run_failed(1) [of "''RUNNER_SPAWN_FAILED''"] by (auto simp: reported_def)
  next
    case Proc_timeout
    with run started [of "[Killed]" r] show ?thesis by (auto simp: run_process_def hret_def ended_with_def dict_eval no_spawn_def)
  next
    case Proc_cancelled
    with run started [of "[Killed]" r] show ?thesis by (auto simp: run_process_def hret_def ended_with_def dict_eval no_spawn_def)
  next
    case (Proc_done rc out err)
    let ?tr = "tr @ [Spawn argv cwd_path]"
    obtain v tr1 where v: "patch_artifacts H rc w cwd ?tr = (v, tr1)" by (cases "patch_artifacts H rc w cwd ?tr")
    obtain more where more: "tr1 = ?tr @ more" "list_all no_spawn more" by (rule acts_at [OF acts_patch_quiet v])
    from run v Proc_done obtain produced md' where "tr' = tr1" "r = finished_result rc (safe_output H out) (safe_output H err) md' produced"
      by (auto simp: run_process_def Let_def hbind_def hret_def split: sum.splits)
    with more Proc_done show ?thesis
      using started [of more r] by (auto simp: ended_with_def finished_result_def dict_eval)
  qed
qed

lemma reports_run_in [reporting]: "reports H (run_in H command secs rootp cwd md w)"
proof -
  have run: "reports H (hbind (command_argv H command rootp cwd_path) (\<lambda>argv. case argv of
      None \<Rightarrow> hret (failed ''RUNNER_SANDBOX_REQUIRED'' msg @ rest)
    | Some argv \<Rightarrow> run_process H argv cwd_path cwd' secs md w))" for cwd_path cwd' msg rest
    by (rule reports_hbind [OF acts_command_argv]) (auto intro!: reporting not_run_failed split: option.splits)
  have bad: "not_run (failed ''INVALID_WORKING_DIRECTORY'' msg @ rest)"
    "not_run [(''ok'', JBool False), (''error'', task_error ''INVALID_WORKING_DIRECTORY'' msg False details), (''metadata'', v)]" for msg rest details v
    by (rule not_run_failed; simp)+
  then have early: "reported H tr (failed ''INVALID_WORKING_DIRECTORY'' msg @ rest) tr"
    "reported H tr [(''ok'', JBool False), (''error'', task_error ''INVALID_WORKING_DIRECTORY'' msg False details), (''metadata'', v)] tr"
    for tr msg rest details v by (auto simp: reported_def)
  show ?thesis
    unfolding run_in_def
  proof (rule reports_hbind [where R = "\<lambda>_. True"], goal_cases)
    case (2 cwd')
    show ?case
      using run early unfolding reports_def by (auto simp: hret_def split: option.splits if_splits)
  qed (auto intro: acting)
qed

lemma reports_execute_task: "reports H (execute_task L H task)"
proof -
  have inner: "reports H (hbind (enter_workspace L H workspace cwd0 rootp) (\<lambda>entered. case entered of Inl result \<Rightarrow> hret result
      | Inr (cwd, workspace_meta, is_worktree) \<Rightarrow> run_in H command secs rootp cwd workspace_meta is_worktree))" for workspace cwd0 rootp command secs
    by (rule reports_hbind [OF acts_weaken [OF acts_enter_workspace git_in_no_spawn]])
      (auto intro!: reporting not_run_failed split: sum.splits prod.splits)
  have bad: "not_run (failed ''RUNNER_EMPTY_COMMAND'' msg)" "not_run (failed ''RUNNER_ROOT_REQUIRED'' msg)" for msg
    by (rule not_run_failed; simp)+
  show ?thesis
    unfolding execute_task_def
    by (rule reports_hbind [where R = "\<lambda>_. True"], rule acts_dict_or_raise, simp,
        rule reports_hbind [where R = "\<lambda>_. True"], rule acts_lift_opt, simp)
      (auto intro!: reporting acting bad inner reports_hbind [where R = "\<lambda>_. True"] acts_weaken [OF acts_runner_root] split: json.splits option.splits)
qed

text \<open>
  C22. The result of a task is truthful. Either the task started no process, and its result is an error
  that is not retried and does not claim that a process ended; or it started exactly one process, and the
  result reports how that process ended: ok with its clipped and redacted output after exit status 0,
  a retryable error after any other status, and a final error after a timeout or a cancellation.
\<close>

theorem task_result_is_truthful:
  assumes "execute_task L H task tr = (Inr r, tr')"
  shows "(\<exists>more. tr' = tr @ more \<and> list_all no_spawn more \<and> not_run r)
    \<or> (\<exists>more argv cwd rest. tr' = tr @ more @ Spawn argv cwd # rest \<and> list_all no_spawn (more @ rest)
         \<and> ended_with H (ho_run H (tr @ more) argv cwd) r)"
  using reports_execute_task assms unfolding reports_def reported_def by blast

theorem task_result_is_truthful_witness:
  "\<exists>more argv cwd rest. [Spawn [''/bin/sh'', ''-lc'', ''ls''] [''srv'']] = more @ Spawn argv cwd # rest
     \<and> ended_with demo_host (ho_run demo_host more argv cwd) (projr (fst (execute_task demo_lib demo_host demo_job [])))"
  using task_result_is_truthful [OF demo_job_runs] demo_job_runs by (auto simp: list_all_iff no_spawn_def)

text \<open>
  C24. Submission is retried, never repeated without need. A Runner sends the same result at most three times and takes no
  other action; it sends it again only after a lost connection or a server error, it reports the result accepted
  exactly when the last reply was a 2xx, and dropped only after a 409.
\<close>

definition submission :: "runner_client \<Rightarrow> string \<Rightarrow> string \<Rightarrow> dict \<Rightarrow> act" where
  "submission C task_id lease_token result = Request (route C ''/submit-result'')
     (JObj [(''task_id'', JStr task_id), (''lease_token'', JStr lease_token), (''result'', JObj result)])"

definition transient :: "reply \<Rightarrow> bool" where
  "transient r \<longleftrightarrow> (case r of No_reply \<Rightarrow> True | Reply status _ \<Rightarrow> 500 \<le> status)"

definition accepted :: "reply \<Rightarrow> bool" where
  "accepted r \<longleftrightarrow> (case r of No_reply \<Rightarrow> False | Reply status _ \<Rightarrow> 200 \<le> status \<and> status < 300)"

lemma submit_attempts_outcome:
  assumes "submit_attempts H C tid k r n tr = (res, tr')"
  shows "\<exists>m\<le>n. tr' = tr @ replicate m (submission C tid k r)
    \<and> (\<forall>i. Suc i < m \<longrightarrow> transient (ho_reply H (tr @ replicate i (submission C tid k r)) (submission C tid k r)))
    \<and> (res = Inr True \<longleftrightarrow> 0 < m \<and> accepted (ho_reply H (tr @ replicate (m - 1) (submission C tid k r)) (submission C tid k r)))
    \<and> (res = Inr False \<longrightarrow> 0 < m \<and> status_is 409 (ho_reply H (tr @ replicate (m - 1) (submission C tid k r)) (submission C tid k r)))"
    (is "\<exists>m\<le>n. ?R tr m")
  using assms
proof (induction n arbitrary: tr)
  case 0
  then show ?case by (auto simp: hraise_def intro: exI [of _ 0])
next
  case (Suc n)
  let ?a = "submission C tid k r"
  show ?case
  proof (cases "rc_token C = None \<or> rc_token C = Some []")
    case True
    with Suc.prems show ?thesis by (intro exI [of _ 0]) (auto simp: hbind_def send_def hraise_def)
  next
    case False
    then have unfold: "submit_attempts H C tid k r (Suc n) tr = (case ho_reply H tr ?a of
        No_reply \<Rightarrow> if n = 0 then hraise TransportError else submit_attempts H C tid k r n
      | Reply status _ \<Rightarrow> if status = 409 then hret False else if 200 \<le> status \<and> status < 300 then hret True
          else if status < 500 \<or> n = 0 then hraise (HTTPStatusError status) else submit_attempts H C tid k r n) (tr @ [?a])"
      by (auto simp: hbind_def send_def submission_def hret_def split: option.splits)
    show ?thesis
    proof (cases "n \<noteq> 0 \<and> transient (ho_reply H tr ?a)")
      case True
      then have "submit_attempts H C tid k r n (tr @ [?a]) = (res, tr')"
        using Suc.prems unfolding unfold by (auto simp: transient_def split: reply.splits)
      from Suc.IH [OF this] obtain m where m: "m \<le> n" "?R (tr @ [?a]) m" by blast
      have step: "(tr @ [?a]) @ replicate i ?a = tr @ replicate (Suc i) ?a" for i by simp
      have refused: "\<not> accepted (ho_reply H tr ?a)"
        using True by (auto simp: transient_def accepted_def split: reply.splits)
      have earlier: "transient (ho_reply H (tr @ replicate i ?a) ?a)" if "Suc i < Suc m" for i
        using that True m(2) by (cases i) (auto simp: step)
      show ?thesis
      proof (cases m)
        case 0
        with m True refused show ?thesis by (intro exI [of _ 1]) auto
      next
        case (Suc m')
        with m earlier show ?thesis by (intro exI [of _ "Suc m"]) (auto simp: step)
      qed
    next
      case False
      then show ?thesis
        using Suc.prems unfolding unfold
        by (intro exI [of _ 1]) (auto simp: hret_def hraise_def transient_def accepted_def status_is_def split: reply.splits if_splits)
    qed
  qed
qed

theorem submission_is_bounded:
  assumes "client_submit H C task_id lease_token result tr = (res, tr')"
  shows "\<exists>m\<le>3. tr' = tr @ replicate m (submission C task_id lease_token result)
    \<and> (\<forall>i. Suc i < m \<longrightarrow> transient (ho_reply H (tr @ replicate i (submission C task_id lease_token result)) (submission C task_id lease_token result)))
    \<and> (res = Inr True \<longleftrightarrow> 0 < m \<and> accepted (ho_reply H (tr @ replicate (m - 1) (submission C task_id lease_token result)) (submission C task_id lease_token result)))
    \<and> (res = Inr False \<longrightarrow> 0 < m \<and> status_is 409 (ho_reply H (tr @ replicate (m - 1) (submission C task_id lease_token result)) (submission C task_id lease_token result)))"
  using submit_attempts_outcome [OF assms [unfolded client_submit_def]] .

theorem submission_is_bounded_witness:
  "\<exists>m\<le>3. snd (client_submit demo_host \<lparr> rc_id = Some ''r'', rc_token = Some ''t'' \<rparr> ''k'' ''l'' [] [])
     = replicate m (submission \<lparr> rc_id = Some ''r'', rc_token = Some ''t'' \<rparr> ''k'' ''l'' [])"
  using submission_is_bounded [of demo_host "\<lparr> rc_id = Some ''r'', rc_token = Some ''t'' \<rparr>" "''k''" "''l''" "[]" "[]", OF prod.collapse [symmetric]]
  by auto

text \<open>
  C25. A patch reaches the control plane unchanged. The bytes that \<^verbatim>\<open>git diff\<close> printed in the worktree are handed over
  as Base64 text, decoded again and uploaded as they were; the item that goes into the submitted
  result carries no content.
\<close>

lemma patch_candidate:
  assumes "patch_artifacts H rc w cwd tr = (Inr [cand], tr1)"
  shows "\<exists>patch tr0. ho_git H tr0 [''git'', ''-C'', cwd, ''diff'', ''HEAD''] = Some (0, patch)
    \<and> dget0 cand ''content'' = JStr (b64_encode patch) \<and> dget0 cand ''output_key'' = JStr ''patch''"
proof -
  from assms have "rc = 0" "w" by (auto simp: patch_artifacts_def hret_def split: if_splits)
  with assms obtain patch tr1 where "git_diff H cwd tr = (Inr patch, tr1)" "patch \<noteq> []"
    and cand: "dget0 cand ''content'' = JStr (b64_encode patch)" "dget0 cand ''output_key'' = JStr ''patch''"
    by (auto simp: patch_artifacts_def hbind_def hret_def dict_eval split: sum.splits prod.splits if_splits)
  then have "\<exists>tr0. ho_git H tr0 [''git'', ''-C'', cwd, ''diff'', ''HEAD''] = Some (0, patch)"
    by (auto simp: git_diff_def run_git_def hbind_def hret_def split: sum.splits prod.splits option.splits if_splits)
  with cand show ?thesis by blast
qed

lemma upload_of_content:
  assumes "upload_artifact L H C tid k cand tr = (Inr item, tr')" "dget0 cand ''content'' = JStr (b64_encode bytes)"
  shows "\<exists>meta p uri. tr' = tr @ [Request (route C ''/artifact-uploads'') meta, Upload p bytes] \<and> item = reference_item cand uri"
  using assms
  by (auto simp: upload_artifact_def b64_roundtrip hbind_def send_def hret_def hraise_def raise_for_status_def
      dict_or_raise_def json_field_def lift_opt_def split: sum.splits prod.splits option.splits reply.splits json.splits if_splits)

theorem patch_is_uploaded_unchanged:
  assumes "patch_artifacts H rc w cwd tr = (Inr [cand], tr1)"
    and "upload_artifact L H C task_id lease_token cand tr2 = (Inr item, tr3)"
  shows "\<exists>patch tr0 meta p. ho_git H tr0 [''git'', ''-C'', cwd, ''diff'', ''HEAD''] = Some (0, patch)
    \<and> tr3 = tr2 @ [Request (route C ''/artifact-uploads'') meta, Upload p patch]
    \<and> dget item ''content'' = None \<and> dget0 item ''output_key'' = JStr ''patch''"
proof -
  obtain patch tr0 where p: "ho_git H tr0 [''git'', ''-C'', cwd, ''diff'', ''HEAD''] = Some (0, patch)"
    "dget0 cand ''content'' = JStr (b64_encode patch)" "dget0 cand ''output_key'' = JStr ''patch''"
    using patch_candidate [OF assms(1)] by blast
  from upload_of_content [OF assms(2) p(2)] p(1,3) show ?thesis
    by (auto simp: reference_item_def dict_eval)
qed

definition demo_client :: runner_client where
  "demo_client = \<lparr> rc_id = Some ''r'', rc_token = Some ''t'' \<rparr>"

definition demo_patch :: dict where
  "demo_patch = [(''name'', JStr ''patch.diff''), (''type'', JStr ''patch''), (''content_type'', JStr ''text/plain''),
     (''content'', JStr (b64_encode ''+x'')), (''output_key'', JStr ''patch'')]"

lemma demo_patch_made: "patch_artifacts demo_host 0 True ''/srv'' [] = (Inr [demo_patch],
   [Git [''git'', ''-C'', ''/srv'', ''add'', ''-N'', ''.''], Git [''git'', ''-C'', ''/srv'', ''diff'', ''HEAD'']])"
  by (simp add: patch_artifacts_def git_diff_def run_git_def hbind_def hret_def demo_host_def demo_patch_def)

lemma demo_patch_uploaded: "isl (fst (upload_artifact demo_lib demo_host demo_client ''k'' ''l'' demo_patch [])) = False"
  by code_simp

theorem patch_is_uploaded_unchanged_witness:
  "\<exists>meta p. snd (upload_artifact demo_lib demo_host demo_client ''k'' ''l'' demo_patch [])
     = [Request (route demo_client ''/artifact-uploads'') meta, Upload p ''+x'']"
proof -
  obtain item tr3 where "upload_artifact demo_lib demo_host demo_client ''k'' ''l'' demo_patch [] = (Inr item, tr3)"
    using demo_patch_uploaded by (metis isl_def prod.exhaust_sel sum.exhaust)
  moreover from patch_is_uploaded_unchanged [OF demo_patch_made this]
  have "\<exists>meta p. tr3 = [Request (route demo_client ''/artifact-uploads'') meta, Upload p ''+x'']"
    by (auto simp: demo_host_def)
  ultimately show ?thesis by simp
qed

section \<open>The pull loop\<close>

lemma claim_free_bounded: "claim_free H C free tr = (Inr claimed, tr') \<Longrightarrow> length claimed \<le> free"
proof (induction free arbitrary: tr claimed tr')
  case 0
  then show ?case by (simp add: hret_def)
next
  case (Suc free)
  from Suc.prems consider "claimed = []" | task tr1 rest where "claim_free H C free tr1 = (Inr rest, tr')" "claimed = task # rest"
    by (auto simp: hret_def hbind_def split: sum.splits prod.splits if_splits)
  then show ?case by cases (use Suc.IH in fastforce)+
qed

text \<open>
  A Runner never owns more tasks than its setting allows, and never more than 32.
\<close>

lemma poll_round_bounded:
  assumes "poll_round L H hostname platform configured C active tr = (Inr claimed, tr')" "active \<le> concurrency_of configured"
  shows "active + length claimed \<le> concurrency_of configured" "concurrency_of configured \<in> {1..32}"
proof -
  from assms(1) obtain tr1 where "claim_free H C (concurrency_of configured - active) tr1 = (Inr claimed, tr')"
    by (auto simp: poll_round_def hbind_def split: sum.splits prod.splits)
  from claim_free_bounded [OF this] assms(2) show "active + length claimed \<le> concurrency_of configured" by simp
  show "concurrency_of configured \<in> {1..32}" by (auto simp: concurrency_of_def nat_le_iff)
qed

text \<open>
  Unlike a failed heartbeat or cleanup request, a failed claim is not caught: when no
  reply arrives the round raises, which ends the loop of \<^verbatim>\<open>run_runner\<close>.
\<close>

lemma lost_claim_ends_the_loop:
  assumes "\<And>tr a. ho_reply H tr a = No_reply" "active < concurrency_of configured" "rc_token C = Some (c # cs)"
    and "ho_runner_root H = None"
  shows "fst (poll_round L H hostname platform configured C active tr) = Inl TransportError"
proof -
  obtain free where "concurrency_of configured - active = Suc free" using assms(2) by (metis Suc_diff_Suc)
  with assms show ?thesis
    by (simp add: poll_round_def ignore_http_def client_heartbeat_def client_capabilities_def runner_root_def clean_one_def
        client_claim_workspace_cleanup_def client_claim_def send_def hbind_def hret_def hraise_def raise_for_status_def status_is_def is_http_error_def)
qed

end
