(* ===== verification/RegistryQueries.thy ===== *)
theory RegistryQueries
  imports Registry
begin

text \<open>
  Reading the registry and testing its connections: what a search finds, what a connection test
  reports and records, and which URLs it contacts.
\<close>

section \<open>Searching by name\<close>

text \<open>A search text without the characters that \<open>LIKE\<close> reads as wildcards or escapes.\<close>

definition plain_text :: "string \<Rightarrow> bool" where
  "plain_text q \<longleftrightarrow> CHR ''%'' \<notin> set q \<and> CHR ''_'' \<notin> set q \<and> CHR 0x5C \<notin> set q"

lemma like_plain: "plain_text q \<Longrightarrow> like (q @ p) s \<longleftrightarrow> (\<exists>t. s = q @ t \<and> like p t)"
proof (induction q arbitrary: s)
  case (Cons c q)
  then show ?case by (cases s) (auto simp: plain_text_def)
qed simp

lemma like_percent: "like (CHR ''%'' # p) s \<longleftrightarrow> (\<exists>a b. s = a @ b \<and> like p b)"
proof (induction s)
  case (Cons x s)
  have "(\<exists>a b. x # s = a @ b \<and> like p b) \<longleftrightarrow> like p (x # s) \<or> (\<exists>a b. s = a @ b \<and> like p b)"
    by (auto simp: Cons_eq_append_conv)
  with Cons.IH show ?case by simp
qed simp

lemma lower_char_low: "lower_char c = d \<Longrightarrow> (of_char d :: nat) < 97 \<Longrightarrow> c = d"
proof -
  assume d: "lower_char c = d" "(of_char d :: nat) < 97"
  let ?n = "of_char c :: nat"
  have "?n \<le> 90 \<and> 65 \<le> ?n \<or> 192 \<le> ?n \<and> ?n \<le> 222 \<Longrightarrow> (of_char (char_of (?n + 32) :: char) :: nat) = ?n + 32" by auto
  with d show "c = d" by (auto simp: lower_char_def Let_def split: if_splits)
qed

lemma plain_text_lower: "plain_text q \<Longrightarrow> plain_text (lower q)"
proof -
  have low: "(of_char CHR ''%'' :: nat) < 97" "(of_char CHR ''_'' :: nat) < 97" "(of_char CHR 0x5C :: nat) < 97" by code_simp+
  assume "plain_text q"
  then show ?thesis
    unfolding plain_text_def lower_def by (auto dest!: sym [of _ "lower_char _"] dest: lower_char_low [OF _ low(1)] lower_char_low [OF _ low(2)] lower_char_low [OF _ low(3)])
qed

lemma ilike_contains_plain:
  assumes "plain_text q"
  shows "ilike_contains q name \<longleftrightarrow> sublist (lower q) (lower name)"
proof -
  have "lower (''%'' @ q @ ''%'') = CHR ''%'' # lower q @ ''%''"
    by (simp add: lower_def) code_simp
  moreover have "like ''%'' s" for s using like_percent [of "[]" s] by auto
  ultimately show ?thesis
    unfolding ilike_contains_def sublist_def by (simp add: like_percent like_plain [OF plain_text_lower [OF assms]]) blast
qed

text \<open>A wildcard is not taken literally: every non-empty name matches an underscore.\<close>

lemma underscore_matches_every_name: "ilike_contains ''_'' (c # name)"
proof -
  have "lower (''%'' @ ''_'' @ ''%'') = CHR ''%'' # CHR ''_'' # ''%''" by code_simp
  moreover have "like ''%'' s" for s using like_percent [of "[]" s] by auto
  ultimately show ?thesis by (auto simp: ilike_contains_def lower_def)
qed

lemma foldM_collect_each:
  "foldM (\<lambda>acc x. ebind (ebind (f x) (\<lambda>r. Inr [r])) (\<lambda>ys. Inr (acc @ ys))) acc xs = Inr zs
    \<longleftrightarrow> (\<exists>rs. zs = acc @ rs \<and> list_all2 (\<lambda>x r. f x = Inr r) xs rs)"
proof (induction xs arbitrary: acc)
  case (Cons x xs)
  show ?case by (cases "f x") (auto simp: Cons.IH list_all2_Cons1)
qed auto

lemma collect_each: "collect (\<lambda>x. ebind (f x) (\<lambda>r. Inr [r])) xs = Inr rs \<longleftrightarrow> list_all2 (\<lambda>x r. f x = Inr r) xs rs"
  by (simp add: collect_def foldM_collect_each)

lemma matches_search_plain: "plain_text q \<Longrightarrow> matches_search (Some q) name \<longleftrightarrow> sublist (lower q) (lower name)"
  by (auto simp: matches_search_def blank_def ilike_contains_plain lower_def)

lemma matches_filter_iff: "matches_filter want v \<longleftrightarrow> want = None \<or> want = Some v"
  by (auto simp: matches_filter_def split: option.splits)


section \<open>Connection tests\<close>

text \<open>What makes the test of an HTTP health check succeed.\<close>

definition probed_healthy :: "lib \<Rightarrow> exec_env \<Rightarrow> prober \<Rightarrow> string option \<Rightarrow> int \<Rightarrow> (string \<times> string) list \<Rightarrow> credential option \<Rightarrow> bool" where
  "probed_healthy L X probe url timeout_seconds headers cred \<longleftrightarrow>
     (\<exists>u w hs auth code reason ms. url = Some u \<and> u \<noteq> [] \<and> validate_http_url L (xe_allow_private X) u = Inr w
        \<and> authentication L X headers cred = Inr (hs, auth) \<and> probe u timeout_seconds hs auth = Probe_reply code reason ms
        \<and> 200 \<le> code \<and> code < 400)"

lemma test_http_healthy:
  assumes "test_http_connection L X probe now url t headers cred = Inr r"
  shows "tr_status r = TS_HEALTHY \<longleftrightarrow> probed_healthy L X probe url t headers cred" and "tr_checked_at r = now"
    and "tr_status r = TS_UNSUPPORTED \<longleftrightarrow> blank url" and "tr_error_code r = None \<longleftrightarrow> tr_status r = TS_HEALTHY"
proof -
  have "(tr_status r = TS_HEALTHY \<longleftrightarrow> probed_healthy L X probe url t headers cred) \<and> tr_checked_at r = now
      \<and> (tr_status r = TS_UNSUPPORTED \<longleftrightarrow> blank url) \<and> (tr_error_code r = None \<longleftrightarrow> tr_status r = TS_HEALTHY)"
  proof (cases "blank url")
    case True
    with assms show ?thesis by (auto simp: test_http_connection_def probed_healthy_def blank_def test_result_def split: option.splits)
  next
    case False
    then obtain u where u: "url = Some u" "u \<noteq> []" by (auto simp: blank_def)
    show ?thesis
    proof (cases "validate_http_url L (xe_allow_private X) u")
      case (Inl e)
      with assms u show ?thesis by (cases e) (auto simp: test_http_connection_def probed_healthy_def blank_def test_result_def)
    next
      case (Inr w)
      with assms u obtain hs auth where auth: "authentication L X headers cred = Inr (hs, auth)"
        by (auto simp: test_http_connection_def outcome)
      with assms u Inr show ?thesis
        by (cases "probe u t hs auth") (auto simp: test_http_connection_def probed_healthy_def blank_def test_result_def split: if_splits)
    qed
  qed
  then show "tr_status r = TS_HEALTHY \<longleftrightarrow> probed_healthy L X probe url t headers cred" "tr_checked_at r = now"
    "tr_status r = TS_UNSUPPORTED \<longleftrightarrow> blank url" "tr_error_code r = None \<longleftrightarrow> tr_status r = TS_HEALTHY" by blast+
qed

text \<open>A health check URL that the policy refuses is not contacted.\<close>

lemma test_http_policy:
  assumes "\<And>u w t hs auth. validate_http_url L (xe_allow_private X) u = Inr w \<Longrightarrow> probe' u t hs auth = probe u t hs auth"
  shows "test_http_connection L X probe' now url t headers cred = test_http_connection L X probe now url t headers cred"
  using assms
  by (auto simp: test_http_connection_def split: option.splits sum.splits exn.splits)


text \<open>The stored credential and the stored headers of an Agent, and what its test depends on.\<close>

definition agent_reachable :: "lib \<Rightarrow> exec_env \<Rightarrow> prober \<Rightarrow> int \<Rightarrow> time \<Rightarrow> agent \<Rightarrow> db \<Rightarrow> bool" where
  "agent_reachable L X probe offline now a d \<longleftrightarrow>
     (if a_connector_type a = ''codex''
      then \<exists>k rn. a_runner_id a = Some k \<and> k \<noteq> [] \<and> get_runner_row k d = Some rn \<and> runner_online offline now rn
             \<and> ''codex'' \<in> set (rn_capabilities_json rn)
      else a_connector_type a = ''http''
        \<and> probed_healthy L X probe (a_health_check_url a) (a_timeout_seconds a) (string_dict L (JObj (a_headers_json a)))
            (stored_credential (a_credential_id a) d))"

lemma connector_of_Inr: "connector_of v = Inr c \<longleftrightarrow> v = connector_value c"
  by (cases c) (auto simp: connector_of_def enum_of_def split: if_splits)

lemma probe_agent_healthy:
  assumes "probe_agent L X probe offline now a d = Inr r"
  shows "tr_status r = TS_HEALTHY \<longleftrightarrow> agent_reachable L X probe offline now a d" and "tr_checked_at r = now"
proof -
  obtain c where c: "a_connector_type a = connector_value c" using assms by (auto simp: probe_agent_def outcome connector_of_Inr)
  then have co: "connector_of (a_connector_type a) = Inr c" by (simp add: connector_of_Inr)
  have "(tr_status r = TS_HEALTHY \<longleftrightarrow> agent_reachable L X probe offline now a d) \<and> tr_checked_at r = now"
  proof (cases "c = AC_HTTP")
    case True
    with assms co have "test_http_connection L X probe now (a_health_check_url a) (a_timeout_seconds a)
        (string_dict L (JObj (a_headers_json a))) (stored_credential (a_credential_id a) d) = Inr r" by (simp add: probe_agent_def)
    from test_http_healthy [OF this] c True show ?thesis by (simp add: agent_reachable_def)
  next
    case False
    with assms co c show ?thesis
      by (cases c) (auto simp: probe_agent_def agent_reachable_def test_codex_runner_def test_result_def blank_def
          split: option.splits if_splits)
  qed
  then show "tr_status r = TS_HEALTHY \<longleftrightarrow> agent_reachable L X probe offline now a d" "tr_checked_at r = now" by blast+
qed

definition tested_agent :: "connection_test_result \<Rightarrow> agent \<Rightarrow> agent" where
  "tested_agent r a = a\<lparr> a_status := health_value (status_after r), a_last_error := error_after r,
     a_last_checked_at := Some (tr_checked_at r), a_last_latency_ms := tr_latency_ms r \<rparr>"

lemma health_value_eq [simp]: "health_value h = health_value h' \<longleftrightarrow> h = h'"
  by (cases h; cases h'; simp)

text \<open>
  C33. A connection test is truthful. When no other transaction intervenes, the tested Agent's row
  is marked healthy, with its error cleared instead of set to the test's message, exactly when a Codex Agent's Runner is online with the
  codex capability, or an HTTP Agent's health URL passes the policy and answers with a 2xx or 3xx
  status under the stored headers and credential; the four health columns are the only ones written
  and no other row of any table changes.
\<close>

theorem agent_test_outcome:
  assumes "get_agent k d = Inr a" "new_tasks d = []" "distinct (map a_id (agents d))"
    and "test_agent_connection L X probe offline now id k d = (Inr r, d')"
  shows "get_agent k d' = Inr (tested_agent r a) \<and> tr_checked_at r = now
    \<and> (a_status (tested_agent r a) = ''healthy'' \<longleftrightarrow> agent_reachable L X probe offline now a d)
    \<and> a_last_error (tested_agent r a) = (if agent_reachable L X probe offline now a d then None else tr_message r)
    \<and> d' = d\<lparr> agents := row_upd a_id k (tested_agent r) (agents d) \<rparr>"
proof -
  have row: "row_get a_id k (agents d) = Some a" using assms(1) by (simp add: get_agent_def split: option.splits)
  then have k: "a_id a = k" by (rule row_get_key)
  have p: "probe_agent L X probe offline now a d = Inr r" and rec: "record_agent_test a r d = (Inr r, d')"
    using assms(1,4) by (auto simp: test_agent_connection_def record_agent_test_def transact_def split: sum.splits option.splits prod.splits)
  define f where "f b = b\<lparr> a_status := changed (a_status a) (health_value (status_after r)) (a_status b),
      a_last_error := changed (a_last_error a) (error_after r) (a_last_error b),
      a_last_checked_at := changed (a_last_checked_at a) (Some (tr_checked_at r)) (a_last_checked_at b),
      a_last_latency_ms := changed (a_last_latency_ms a) (tr_latency_ms r) (a_last_latency_ms b) \<rparr>" for b :: agent
  have same: "f a = tested_agent r a" by (cases a) (simp add: f_def tested_agent_def changed_def)
  have only: "b = a" if "b \<in> set (agents d)" "a_id b = k" for b
    using assms(3) row_get_in [OF row] that k by (metis distinct_map inj_onD)
  have "d' = d\<lparr> agents := row_upd a_id k f (agents d) \<rparr>"
    using rec row k assms(2) by (simp add: record_agent_test_def transact_no_new f_def [abs_def])
  moreover have "row_upd a_id k f (agents d) = row_upd a_id k (tested_agent r) (agents d)"
    unfolding row_upd_def using only same by (intro map_cong refl) auto
  ultimately have d': "d' = d\<lparr> agents := row_upd a_id k (tested_agent r) (agents d) \<rparr>" by simp
  then have "get_agent k d' = Inr (tested_agent r a)" by (simp add: get_agent_def row_get_upd tested_agent_def row)
  with d' probe_agent_healthy [OF p] show ?thesis
    by (cases "tr_status r") (auto simp: tested_agent_def status_after_def error_after_def)
qed

text \<open>No connection test contacts a URL the policy refuses.\<close>

lemma tests_respect_policy:
  assumes "\<And>u w t hs auth. validate_http_url L (xe_allow_private X) u = Inr w \<Longrightarrow> probe' u t hs auth = probe u t hs auth"
  shows "test_agent_connection L X probe' offline now meanwhile k d = test_agent_connection L X probe offline now meanwhile k d"
    and "test_service_connection L X probe' now meanwhile k d = test_service_connection L X probe now meanwhile k d"
proof -
  have same: "test_http_connection L X probe' now url t headers cred = test_http_connection L X probe now url t headers cred"
    for url t headers cred by (rule test_http_policy) (erule assms)
  show "test_agent_connection L X probe' offline now meanwhile k d = test_agent_connection L X probe offline now meanwhile k d"
    "test_service_connection L X probe' now meanwhile k d = test_service_connection L X probe now meanwhile k d"
    unfolding test_agent_connection_def test_service_connection_def probe_agent_def probe_service_def same by (rule refl)+
qed

text \<open>
  The result is written after the request without another look at the row. When an update has reset
  the health of the Agent in the meantime, the result of the old configuration replaces the reset.
\<close>

lemma stale_test_overwrites_reset:
  assumes "get_agent k d = Inr a" "probe_agent L X probe offline now a d = Inr r"
    and "get_agent k (meanwhile d) = Inr b" "new_tasks (meanwhile d) = []"
    and "a_status a = health_value HS_UNKNOWN" "status_after r \<noteq> HS_UNKNOWN"
  shows "\<exists>b'. get_agent k (snd (test_agent_connection L X probe offline now meanwhile k d)) = Inr b'
    \<and> a_status b' = health_value (status_after r) \<and> a_endpoint b' = a_endpoint b \<and> a_health_check_url b' = a_health_check_url b"
proof -
  have rows: "row_get a_id k (agents d) = Some a" "row_get a_id k (agents (meanwhile d)) = Some b"
    using assms(1,3) by (simp_all add: get_agent_def split: option.splits)
  then have "a_id a = k" by (auto dest: row_get_key)
  with rows assms show ?thesis
    by (cases "status_after r")
      (simp_all add: test_agent_connection_def record_agent_test_def transact_no_new get_agent_def row_get_upd changed_def)
qed

section \<open>An empty Runner id\<close>

text \<open>
  The guard of \<open>create_agent\<close> tests the truth of \<open>runner_id\<close>, so an empty text passes every check
  and only the foreign key of the row stops it, as an unhandled exception of the database.
\<close>

lemma empty_runner_id_reaches_database:
  assumes "ensure_agent_name (ac_name p) None d = Inr ()" "ac_runner_id p = Some []" "get_runner_row [] d = None"
    and "validate_agent_config L allow (ac_connector_type p) (ac_endpoint p) (ac_health_check_url p) (text_headers (ac_headers p))
           (ac_runner_id p) (ac_executable p) (ac_input_schema p) (ac_output_schema p) (ac_metadata p) = Inr ()"
    and "get_credential_or_none (ac_credential_id p) d = Inr cred"
  shows "create_agent L allow p d = (Inl (PyError ''IntegrityError''), d)"
  using assms
  by (simp add: create_agent_def runner_exists_def agent_row_ok_def new_agent_def uuid4_def get_runner_row_def transact_Inl
      after_commit_def)

section \<open>Concrete rows\<close>

definition demo_tested :: agent where
  "demo_tested = \<lparr> a_id = ''u0'', a_name = ''Build bot'', a_connector_type = ''http'', a_endpoint = Some ''http://a.example'',
     a_http_method = ''POST'', a_health_check_url = Some ''http://a.example/health'', a_headers_json = [], a_runner_id = None,
     a_executable = None, a_input_schema_json = [], a_output_schema_json = [], a_credential_id = None, a_timeout_seconds = 30,
     a_status = ''unknown'', a_enabled = True, a_description = None, a_capabilities_json = [], a_metadata_json = [],
     a_last_checked_at = None, a_last_latency_ms = None, a_last_error = None \<rparr>"

definition demo_tested_db :: db where
  "demo_tested_db = empty_db\<lparr> agents := [demo_tested, demo_tested\<lparr> a_id := ''u1'', a_name := ''Alpha'' \<rparr>] \<rparr>"

definition demo_prober :: prober where
  "demo_prober = (\<lambda>u t hs auth. if u = ''http://a.example/health'' then Probe_reply 204 ''No Content'' 7 else Probe_timeout 30000)"


theorem agent_test_outcome_witness:
  "let d' = snd (test_agent_connection demo_lib demo_env demo_prober 60 9 id ''u0'' demo_tested_db) in
     \<exists>a. get_agent ''u0'' d' = Inr a \<and> a_status a = ''healthy'' \<and> a_last_checked_at a = Some 9"
proof -
  define r where "r = test_result TS_HEALTHY (Some 7) 9 None ''Connection successful''"
  have t: "fst (test_agent_connection demo_lib demo_env demo_prober 60 9 id ''u0'' demo_tested_db) = Inr r"
    unfolding r_def by code_simp
  have a: "get_agent ''u0'' demo_tested_db = Inr demo_tested" "new_tasks demo_tested_db = []"
    "distinct (map a_id (agents demo_tested_db))" by code_simp+
  from t agent_test_outcome [OF a, of demo_lib demo_env demo_prober 60 9 r] show ?thesis
    unfolding Let_def by (auto simp: tested_agent_def r_def test_result_def status_after_def prod_eq_iff)
qed

end
