(* ===== verification/Spec2Isabelle.thy ===== *)
theory Spec2Isabelle
  imports System RunnerAgentProps RegistryQueries
begin

text \<open>
  Relayvia: the backend of a workflow engine, and what makes it correct.

  The program (under \<^verbatim>\<open>src/backend/app/\<close>). Users draw a workflow as a graph of agent, service, tool,
  human, logic and data nodes, publish it as an immutable Version and start runs of it. A run is a
  row per run and per node. The scheduler queues one task for every node whose predecessors are done.
  Workers and Runners (agents on other machines) claim tasks under a lease, execute them and report;
  after each report the run is reconciled: waits are promoted, ready nodes queued, the status of the
  run derived. A recovery loop returns tasks with expired leases to the queue. Everything the
  processes share is in the database, so the model is a record of tables and every operation is a
  function from the tables to a result or an exception and the tables after its commits.

  Theories, from the bottom, and the files they model.

  \<^item> \<open>Prelude\<close>, \<open>Json\<close>, \<open>PyString\<close>: exceptions as values, the error monad, folds, tables as
    lists of rows; JSON values and dictionaries; Python string functions.
  \<^item> \<open>StateMachines\<close>: the transition tables (\<^verbatim>\<open>runtime/state_machine\<close>, \<^verbatim>\<open>domain/execution/state_machine.py\<close>) and
    their contract as the locale \<open>lifecycle\<close>, interpreted on the three tables.
  \<^item> \<open>Store\<close>: the rows (the \<^verbatim>\<open>model.py\<close> files), the tables, lookups and updates (locale \<open>row_table\<close>),
    \<open>record_event\<close>, and transactions: \<open>transact\<close> commits or rolls back, \<open>flush\<close> inserts the objects
    added to the session, which a query of the same transaction does not see before (the sessions
    have autoflush off).
  \<^item> \<open>ContextRef\<close>, \<open>Resolver\<close>: \<^verbatim>\<open>runtime/context\<close>; \<open>Graph\<close>, \<open>GraphIndex\<close>, \<open>GraphReach\<close>: the graph contract and
    the derived index (\<^verbatim>\<open>domain/workflows/graph.py\<close>, \<^verbatim>\<open>runtime/validation/graph_index.py\<close>), with exact
    reachability and cycle detection.
  \<^item> \<open>Validation\<close>, \<open>ValidationProps\<close>: the rules of \<^verbatim>\<open>runtime/validation\<close> and what a graph without errors
    satisfies.
  \<^item> \<open>Backend\<close>, \<open>BackendProps\<close>: the queue of \<^verbatim>\<open>infrastructure/execution_backend/mysql.py\<close>, one definition per
    method; \<open>Invariant\<close> and \<open>Progress\<close>: the invariant of the rows and what no operation undoes. The
    locale of lease-guarded operations is interpreted on the six methods that take a token.
  \<^item> \<open>Readiness\<close>, \<open>Scheduler\<close>, \<open>SchedulerProps\<close>: \<^verbatim>\<open>runtime/scheduler/workflow_scheduler.py\<close>.
  \<^item> \<open>RunService\<close>, \<open>CreateRun\<close>, \<open>CreateRunProps\<close>: \<^verbatim>\<open>domain/runs/service.py\<close>, the execution snapshot and readiness.
  \<^item> \<open>Workflows\<close>, \<open>WorkflowsProps\<close>: \<^verbatim>\<open>domain/workflows\<close>: drafts, Versions, registry references.
  \<^item> \<open>Workspaces\<close>, \<open>Artifacts\<close>, \<open>Base64\<close>, \<open>Coding\<close>, \<open>Trace\<close>, \<open>UrlPolicy\<close>: workspaces, artifact registration and
    uploads, their encoding, the command line of the coding agent as a shell reads it, redaction of
    what is recorded, and the policy for outgoing URLs.
  \<^item> \<open>Runners\<close>, \<open>RunnersProps\<close>: \<^verbatim>\<open>domain/runners/service.py\<close> and the Runner routes.
  \<^item> \<open>Executor\<close>, \<open>Worker\<close>: the node executor, the HTTP connector, the worker's processing of one task,
    and periodic recovery.
  \<^item> \<open>RunnerAgent\<close>, \<open>RunnerAgentProps\<close>: the Runner process \<^verbatim>\<open>runners/runner.py\<close>: workspaces, command line,
    execution, upload, submission and one round of its pull loop, on a record \<open>host\<close> that answers
    for git, the started process and the control plane; the judgement \<open>acts\<close> says what a computation
    may do to the machine.
  \<^item> \<open>Registry\<close>: \<^verbatim>\<open>domain/agents\<close>, \<^verbatim>\<open>domain/services\<close>, \<^verbatim>\<open>domain/credentials\<close> and the health check of
    \<^verbatim>\<open>connectors/http.py\<close>; \<open>RegistryProps\<close>: the invariant of the registry (unique names, checked
    configurations, existing credentials), kept by every operation, and the closure of references from
    stored graphs; \<open>RegistryQueries\<close>: what a search finds and what a connection test reports and records.
  \<^item> \<open>Leases\<close>, \<open>System\<close>: what every operation does to lease tokens and definitions; the system as one
    transition system in which all processes interleave, changes of definitions and of the registry
    included, and what holds over its histories.

  What the lemmas show. Per operation: its result on every branch and that it preserves the invariant
  and only makes progress (\<open>advance\<close>). Over histories: every reachable state is consistent, operations
  refine the abstract machine of the three tables, history is append-only, a lost lease stays lost,
  whatever a stored graph names stays registered.
  Per component: exactness of claiming, recovery, readiness and skipping; soundness of validation;
  conditions for creating a run and publishing a Version; authentication of Runners; containment of
  URLs, path parameters, commands, credentials and the Runner's own actions; bounds on retries and on
  what is recorded.

  Parameters. The record \<open>lib\<close> holds what is outside the sources: the supply of random identifiers
  (assumed injective where freshness matters), pydantic's structural decoding, JSON Schema
  validation, time formatting, \<open>repr\<close>, hashing, name resolution and the classification of addresses.
  The executor's environment holds the HTTP transport, decryption and stored credentials; artifact
  storage is the argument \<open>save\<close>, encryption the argument \<open>encrypt\<close>, the health request of a
  connection test the argument \<open>probe\<close>. That a graph is dumped with the types and configurations of its
  nodes is the hypothesis \<open>dumps_nodes\<close>. The Runner's machine is the record \<open>host\<close>: paths as \<open>resolve()\<close> gives them
  (canonical, which is an assumption where it matters), git, the outcome of the started process, the replies of the
  control plane, each a function of the actions taken so far. Time is an integer; a transaction
  reads the clock once.

  Termination. All functions are total. The loops that are not structural have a measure (the skip
  iteration counts pending nodes, graph search the unseen nodes); there is no fuel.

  Not modelled: SQL locking inside one transaction and its retry on deadlock (a transaction is atomic
  and the retry re-runs a rolled back one), request parsing and routing beyond the Runner endpoints,
  creation and update times of registry rows, Fernet encryption and S3 storage (third-party packages), the asyncio loops and signal handling of
  the processes, human-readable messages of errors and validation issues.
\<close>

end
